(* ===== verification/Prelude.thy ===== *)
theory Prelude
  imports Complex_Main "HOL-Library.Char_ord" "HOL-Library.List_Lexorder" "HOL-Library.Product_Lexorder" "HOL-Library.Multiset"
begin

text \<open>
  What every component shares: the Go values the server computes with (fixed-width integers,
  \<open>float64\<close>, \<open>time.Time\<close> and \<open>time.Duration\<close>, byte strings, pointers that may be nil), the
  iteration order of a Go map, the shape of an HTTP answer and of a database call, the lemma
  collections and the generic lemmas the component theories use.

  Modelling choices that hold everywhere:
  \<^item> \<open>float64\<close> is \<open>f64\<close>: a real number, an infinity or NaN, with IEEE comparisons (everything is
    false on NaN) and Go's \<open>math.Max\<close> and \<open>math.Min\<close>. Rounding and the sign of zero are not modelled.
  \<^item> \<open>time.Time\<close> is the number of nanoseconds since Go's zero time (1 January of year 1, UTC), so
    \<open>IsZero\<close> is being 0; \<open>time.Duration\<close> is a number of nanoseconds and \<open>Sub\<close> saturates.
  \<^item> a Go \<open>string\<close> is its bytes (\<open>len\<close> counts them, comparison is bytewise); a pointer that may be
    nil is an \<open>option\<close>.
  \<^item> a Go map is \<open>'k \<rightharpoonup> 'v\<close>; a \<open>range\<close> over it takes the order of the keys as an argument, since Go
    leaves that order open.
\<close>

named_theorems f64_simps "evaluation of float64 operations on numbers"
named_theorems go_time "unfolding of the time operations"
named_theorems store_simps "unfolding of the database statements"

section \<open>Fixed-width integers\<close>

definition max_int64 :: int where "max_int64 = 2 ^ 63 - 1"
definition min_int64 :: int where "min_int64 = - (2 ^ 63)"

definition wrap64 :: "int \<Rightarrow> int" where
  "wrap64 x = (x + 2 ^ 63) mod 2 ^ 64 - 2 ^ 63"

definition wrap32 :: "int \<Rightarrow> int" where
  "wrap32 x = (x + 2 ^ 31) mod 2 ^ 32 - 2 ^ 31"

lemma wrap64_id: "min_int64 \<le> x \<Longrightarrow> x \<le> max_int64 \<Longrightarrow> wrap64 x = x"
  by (simp add: wrap64_def min_int64_def max_int64_def)

lemma wrap32_id: "- (2 ^ 31) \<le> x \<Longrightarrow> x < 2 ^ 31 \<Longrightarrow> wrap32 x = x"
  by (simp add: wrap32_def)

lemma wrap64_sum: "0 \<le> a \<Longrightarrow> 0 \<le> b \<Longrightarrow> a + b \<le> 2 ^ 62 \<Longrightarrow> wrap64 (a + b) = a + b"
  by (simp add: wrap64_def)

lemma wrap64_bounds: "min_int64 \<le> wrap64 x \<and> wrap64 x \<le> max_int64"
proof -
  have "0 \<le> (x + 2 ^ 63) mod 2 ^ 64 \<and> (x + 2 ^ 63) mod 2 ^ 64 < 2 ^ 64"
    by (simp add: pos_mod_bound)
  then show ?thesis by (simp add: wrap64_def min_int64_def max_int64_def)
qed

section \<open>float64\<close>

datatype f64 = Num real | PInf | NInf | NaN

fun flt :: "f64 \<Rightarrow> f64 \<Rightarrow> bool" where
  "flt (Num a) (Num b) = (a < b)"
| "flt NaN _ = False"
| "flt _ NaN = False"
| "flt PInf _ = False"
| "flt _ NInf = False"
| "flt NInf _ = True"
| "flt _ PInf = True"

fun feq :: "f64 \<Rightarrow> f64 \<Rightarrow> bool" where
  "feq (Num a) (Num b) = (a = b)"
| "feq PInf PInf = True"
| "feq NInf NInf = True"
| "feq _ _ = False"

definition fle :: "f64 \<Rightarrow> f64 \<Rightarrow> bool" where
  "fle a b \<longleftrightarrow> flt a b \<or> feq a b"

abbreviation fgt :: "f64 \<Rightarrow> f64 \<Rightarrow> bool" where "fgt a b \<equiv> flt b a"
abbreviation fge :: "f64 \<Rightarrow> f64 \<Rightarrow> bool" where "fge a b \<equiv> fle b a"

fun fneg :: "f64 \<Rightarrow> f64" where
  "fneg (Num a) = Num (- a)"
| "fneg PInf = NInf"
| "fneg NInf = PInf"
| "fneg NaN = NaN"

fun fadd :: "f64 \<Rightarrow> f64 \<Rightarrow> f64" where
  "fadd (Num a) (Num b) = Num (a + b)"
| "fadd NaN _ = NaN"
| "fadd _ NaN = NaN"
| "fadd PInf NInf = NaN"
| "fadd NInf PInf = NaN"
| "fadd PInf _ = PInf"
| "fadd _ PInf = PInf"
| "fadd _ _ = NInf"

definition fsub :: "f64 \<Rightarrow> f64 \<Rightarrow> f64" where
  "fsub a b = fadd a (fneg b)"

definition finf :: "bool \<Rightarrow> f64" where
  "finf positive = (if positive then PInf else NInf)"

fun fmul :: "f64 \<Rightarrow> f64 \<Rightarrow> f64" where
  "fmul (Num a) (Num b) = Num (a * b)"
| "fmul NaN _ = NaN"
| "fmul _ NaN = NaN"
| "fmul (Num a) b = (if a = 0 then NaN else finf ((0 < a) = (b = PInf)))"
| "fmul a (Num b) = (if b = 0 then NaN else finf ((0 < b) = (a = PInf)))"
| "fmul a b = finf (a = b)"

fun fdiv :: "f64 \<Rightarrow> f64 \<Rightarrow> f64" where
  "fdiv (Num a) (Num b) =
     (if b \<noteq> 0 then Num (a / b) else if a = 0 then NaN else finf (0 < a))"
| "fdiv NaN _ = NaN"
| "fdiv _ NaN = NaN"
| "fdiv (Num a) _ = Num 0"
| "fdiv a (Num b) = finf ((0 \<le> b) = (a = PInf))"
| "fdiv _ _ = NaN"

fun fabs :: "f64 \<Rightarrow> f64" where
  "fabs (Num a) = Num \<bar>a\<bar>"
| "fabs NaN = NaN"
| "fabs _ = PInf"

text \<open>\<open>math.Max\<close> and \<open>math.Min\<close>: an infinity that decides wins over NaN, NaN over numbers.\<close>

fun fmax :: "f64 \<Rightarrow> f64 \<Rightarrow> f64" where
  "fmax (Num a) (Num b) = Num (max a b)"
| "fmax PInf _ = PInf"
| "fmax _ PInf = PInf"
| "fmax NaN _ = NaN"
| "fmax _ NaN = NaN"
| "fmax NInf b = b"
| "fmax a NInf = a"

fun fmin :: "f64 \<Rightarrow> f64 \<Rightarrow> f64" where
  "fmin (Num a) (Num b) = Num (min a b)"
| "fmin NInf _ = NInf"
| "fmin _ NInf = NInf"
| "fmin NaN _ = NaN"
| "fmin _ NaN = NaN"
| "fmin PInf b = b"
| "fmin a PInf = a"

fun fhypot :: "f64 \<Rightarrow> f64 \<Rightarrow> f64" where
  "fhypot (Num a) (Num b) = Num (sqrt (a * a + b * b))"
| "fhypot PInf _ = PInf"
| "fhypot NInf _ = PInf"
| "fhypot _ PInf = PInf"
| "fhypot _ NInf = PInf"
| "fhypot _ _ = NaN"

text \<open>The library functions of one argument: NaN outside their domain.\<close>

fun fsqrt :: "f64 \<Rightarrow> f64" where
  "fsqrt (Num a) = (if 0 \<le> a then Num (sqrt a) else NaN)"
| "fsqrt PInf = PInf"
| "fsqrt _ = NaN"

fun fsin :: "f64 \<Rightarrow> f64" where
  "fsin (Num a) = Num (sin a)"
| "fsin _ = NaN"

fun fcos :: "f64 \<Rightarrow> f64" where
  "fcos (Num a) = Num (cos a)"
| "fcos _ = NaN"

fun fasin :: "f64 \<Rightarrow> f64" where
  "fasin (Num a) = (if - 1 \<le> a \<and> a \<le> 1 then Num (arcsin a) else NaN)"
| "fasin _ = NaN"

fun f_is_nan :: "f64 \<Rightarrow> bool" where
  "f_is_nan NaN = True"
| "f_is_nan _ = False"

fun f_is_inf :: "f64 \<Rightarrow> bool" where
  "f_is_inf PInf = True"
| "f_is_inf NInf = True"
| "f_is_inf _ = False"

fun f_is_num :: "f64 \<Rightarrow> bool" where
  "f_is_num (Num _) = True"
| "f_is_num _ = False"

fun f_val :: "f64 \<Rightarrow> real" where
  "f_val (Num a) = a"
| "f_val _ = 0"

text \<open>
  The conversion \<open>int64(x)\<close> truncates towards zero. Go leaves the result open for NaN, for an
  infinity and for a number out of range; the value here is the one of the amd64 instruction.
\<close>

definition f_to_int64 :: "f64 \<Rightarrow> int" where
  "f_to_int64 x = (case x of
       Num a \<Rightarrow> (let n = (if 0 \<le> a then \<lfloor>a\<rfloor> else \<lceil>a\<rceil>)
                in if min_int64 \<le> n \<and> n \<le> max_int64 then n else min_int64)
     | _ \<Rightarrow> min_int64)"

lemma f_to_int64_nonneg: "0 \<le> r \<Longrightarrow> \<lfloor>r\<rfloor> \<le> max_int64 \<Longrightarrow> f_to_int64 (Num r) = \<lfloor>r\<rfloor>"
  by (simp add: f_to_int64_def Let_def min_int64_def)

text \<open>A \<open>float32\<close> is kept as the \<open>float64\<close> it was rounded from; the feed only stores it.\<close>

datatype f32 = Float32 f64

lemma fsub_Num [simp, f64_simps]: "fsub (Num a) (Num b) = Num (a - b)"
  by (simp add: fsub_def)

lemma fle_Num [simp, f64_simps]: "fle (Num a) (Num b) \<longleftrightarrow> a \<le> b"
  by (auto simp: fle_def)

lemma flt_irrefl [simp]: "\<not> flt a a"
  by (cases a) simp_all

lemma flt_NaN [simp]: "\<not> flt a NaN"
  by (cases a) simp_all

lemma fle_NaN [simp]: "\<not> fle NaN a" "\<not> fle a NaN"
  by (cases a; simp add: fle_def)+

lemma fle_refl_iff [simp]: "fle a a \<longleftrightarrow> a \<noteq> NaN"
  by (cases a) (auto simp: fle_def)

lemma flt_trans: "flt a b \<Longrightarrow> flt b c \<Longrightarrow> flt a c"
  by (cases a; cases b; cases c) simp_all

lemma flt_fle_trans: "flt a b \<Longrightarrow> fle b c \<Longrightarrow> flt a c"
  by (cases a; cases b; cases c) (auto simp: fle_def)

lemma fle_trans: "fle a b \<Longrightarrow> fle b c \<Longrightarrow> fle a c"
  by (cases a; cases b; cases c) (auto simp: fle_def)

lemma not_flt_iff: "a \<noteq> NaN \<Longrightarrow> b \<noteq> NaN \<Longrightarrow> \<not> flt a b \<longleftrightarrow> fle b a"
  by (cases a; cases b) (auto simp: fle_def)

lemma flt_imp_fle: "flt a b \<Longrightarrow> fle a b"
  by (simp add: fle_def)

lemma fgt_not_fle: "flt a b \<Longrightarrow> \<not> fle b a"
  by (cases a; cases b) (auto simp: fle_def)

lemma f_is_num_iff: "f_is_num x \<longleftrightarrow> (\<exists>a. x = Num a)"
  by (cases x) simp_all

lemma f_is_numE: assumes "f_is_num x" obtains a where "x = Num a"
  using assms by (cases x) simp_all

section \<open>time.Time and time.Duration\<close>

type_synonym gotime = int      \<comment> \<open>nanoseconds since the zero time\<close>
type_synonym duration = int    \<comment> \<open>nanoseconds\<close>

definition nano :: int where "nano = 1000000000"
definition second :: duration where "second = nano"
definition minute :: duration where "minute = 60 * second"
definition hour :: duration where "hour = 60 * minute"

text \<open>Seconds from the zero time to the Unix epoch.\<close>

definition unix_to_internal :: int where "unix_to_internal = 62135596800"

definition time_unix :: "int \<Rightarrow> gotime" where  \<comment> \<open>\<open>time.Unix(sec, 0)\<close>\<close>
  "time_unix sec = wrap64 (sec + unix_to_internal) * nano"

definition unix_of :: "gotime \<Rightarrow> int" where    \<comment> \<open>\<open>t.Unix()\<close>\<close>
  "unix_of t = wrap64 (t div nano - unix_to_internal)"

definition is_zero_time :: "gotime \<Rightarrow> bool" where
  "is_zero_time t \<longleftrightarrow> t = 0"

text \<open>\<open>t.Sub(u)\<close> saturates at the ends of \<open>Duration\<close>.\<close>

definition time_sub :: "gotime \<Rightarrow> gotime \<Rightarrow> duration" where
  "time_sub t u = max min_int64 (min max_int64 (t - u))"

definition time_add :: "gotime \<Rightarrow> duration \<Rightarrow> gotime" where
  "time_add t d = t + d"

text \<open>\<open>d.Abs()\<close>: the most negative duration has no opposite and gives the largest one.\<close>

definition dur_abs :: "duration \<Rightarrow> duration" where
  "dur_abs d = (if 0 \<le> d then d else if d = min_int64 then max_int64 else - d)"

definition dur_add :: "duration \<Rightarrow> duration \<Rightarrow> duration" where
  "dur_add a b = wrap64 (a + b)"

definition dur_seconds :: "duration \<Rightarrow> f64" where
  "dur_seconds d = Num (real_of_int d / real_of_int nano)"

lemmas time_units = nano_def second_def minute_def hour_def
lemmas int64_defs = min_int64_def max_int64_def

lemma time_sub_le_iff: "d < max_int64 \<Longrightarrow> min_int64 \<le> d \<Longrightarrow> time_sub t u \<le> d \<longleftrightarrow> t - u \<le> d"
  by (auto simp: time_sub_def)

lemma time_sub_gt_iff: "d < max_int64 \<Longrightarrow> min_int64 \<le> d \<Longrightarrow> d < time_sub t u \<longleftrightarrow> d < t - u"
  by (auto simp: time_sub_def)

lemma time_sub_nonneg: "u \<le> t \<Longrightarrow> 0 \<le> time_sub t u"
  by (simp add: time_sub_def int64_defs)

lemma time_sub_exact: "\<bar>t - u\<bar> \<le> max_int64 \<Longrightarrow> time_sub t u = t - u"
  by (auto simp: time_sub_def int64_defs)

lemma dur_abs_nonneg: "0 \<le> dur_abs d"
  by (auto simp: dur_abs_def int64_defs)

lemma unix_of_time_unix:
  assumes "min_int64 \<le> s" "s \<le> max_int64 - unix_to_internal"
  shows "unix_of (time_unix s) = s"
  using assms by (simp add: unix_of_def time_unix_def wrap64_id nano_def unix_to_internal_def int64_defs)

section \<open>Byte strings\<close>

definition is_digit :: "char \<Rightarrow> bool" where
  "is_digit c \<longleftrightarrow> (48 :: nat) \<le> of_char c \<and> of_char c \<le> (57 :: nat)"

definition digit_val :: "char \<Rightarrow> nat" where
  "digit_val c = of_char c - 48"

definition is_alpha :: "char \<Rightarrow> bool" where
  "is_alpha c \<longleftrightarrow> (let n = (of_char c :: nat) in 65 \<le> n \<and> n \<le> 90 \<or> 97 \<le> n \<and> n \<le> 122)"

fun has_prefix :: "string \<Rightarrow> string \<Rightarrow> bool" where
  "has_prefix [] s = True"
| "has_prefix (p # ps) [] = False"
| "has_prefix (p # ps) (c # cs) = (p = c \<and> has_prefix ps cs)"

text \<open>
  \<open>strings.TrimSpace\<close>: the UTF-8 encodings of Unicode's white space, dropped from both ends.
\<close>

definition space_encodings :: "string list" where
  "space_encodings =
     [[CHR 0x09], [CHR 0x0A], [CHR 0x0B], [CHR 0x0C], [CHR 0x0D], [CHR 0x20],
      [CHR 0xC2, CHR 0x85], [CHR 0xC2, CHR 0xA0], [CHR 0xE1, CHR 0x9A, CHR 0x80],
      [CHR 0xE2, CHR 0x80, CHR 0x80], [CHR 0xE2, CHR 0x80, CHR 0x81], [CHR 0xE2, CHR 0x80, CHR 0x82],
      [CHR 0xE2, CHR 0x80, CHR 0x83], [CHR 0xE2, CHR 0x80, CHR 0x84], [CHR 0xE2, CHR 0x80, CHR 0x85],
      [CHR 0xE2, CHR 0x80, CHR 0x86], [CHR 0xE2, CHR 0x80, CHR 0x87], [CHR 0xE2, CHR 0x80, CHR 0x88],
      [CHR 0xE2, CHR 0x80, CHR 0x89], [CHR 0xE2, CHR 0x80, CHR 0x8A], [CHR 0xE2, CHR 0x80, CHR 0xA8],
      [CHR 0xE2, CHR 0x80, CHR 0xA9], [CHR 0xE2, CHR 0x80, CHR 0xAF], [CHR 0xE2, CHR 0x81, CHR 0x9F],
      [CHR 0xE3, CHR 0x80, CHR 0x80]]"

fun trim_fuel :: "nat \<Rightarrow> string list \<Rightarrow> string \<Rightarrow> string" where
  "trim_fuel 0 encs s = s"
| "trim_fuel (Suc n) encs s =
     (case find (\<lambda>e. has_prefix e s) encs of
        None \<Rightarrow> s
      | Some e \<Rightarrow> trim_fuel n encs (drop (length e) s))"

definition trim_left :: "string \<Rightarrow> string" where
  "trim_left s = trim_fuel (length s) space_encodings s"

definition trim_right :: "string \<Rightarrow> string" where
  "trim_right s = rev (trim_fuel (length s) (map rev space_encodings) (rev s))"

definition trim_space :: "string \<Rightarrow> string" where
  "trim_space s = trim_right (trim_left s)"

section \<open>Ranging over a Go map\<close>

text \<open>\<open>ks\<close> is an order in which \<open>range m\<close> may visit the keys of \<open>m\<close>: each of them, once.\<close>

definition range_order :: "'k list \<Rightarrow> ('k \<rightharpoonup> 'v) \<Rightarrow> bool" where
  "range_order ks m \<longleftrightarrow> distinct ks \<and> set ks = dom m"

lemma range_order_finite: "range_order ks m \<Longrightarrow> finite (dom m)"
  unfolding range_order_def by (metis finite_set)

lemma range_order_exists: "finite (dom m) \<Longrightarrow> \<exists>ks. range_order ks m"
  unfolding range_order_def using finite_distinct_list by metis

lemma range_order_length: "range_order ks m \<Longrightarrow> length ks = card (dom m)"
  unfolding range_order_def by (metis distinct_card)

text \<open>\<open>for k, v := range m { if p(v) { delete(m, k) } }\<close>, and what it amounts to.\<close>

definition delete_where :: "('v \<Rightarrow> bool) \<Rightarrow> 'k list \<Rightarrow> ('k \<rightharpoonup> 'v) \<Rightarrow> ('k \<rightharpoonup> 'v)" where
  "delete_where p ks m =
     fold (\<lambda>k m. case m k of Some v \<Rightarrow> if p v then m(k := None) else m | None \<Rightarrow> m) ks m"

lemma delete_where_lookup:
  "delete_where p ks m k =
     (case m k of Some v \<Rightarrow> if p v \<and> k \<in> set ks then None else Some v | None \<Rightarrow> None)"
proof (induction ks arbitrary: m)
  case Nil
  show ?case by (simp add: delete_where_def split: option.splits)
next
  case (Cons a ks)
  let ?m = "case m a of Some v \<Rightarrow> if p v then m(a := None) else m | None \<Rightarrow> m"
  have "delete_where p (a # ks) m k = delete_where p ks ?m k"
    by (simp add: delete_where_def)
  also have "\<dots> = (case ?m k of Some v \<Rightarrow> if p v \<and> k \<in> set ks then None else Some v | None \<Rightarrow> None)"
    by (rule Cons.IH)
  finally show ?case by (auto split: option.splits if_splits)
qed

lemma delete_where_all:
  assumes "range_order ks m"
  shows "delete_where p ks m = (\<lambda>k. case m k of Some v \<Rightarrow> if p v then None else Some v | None \<Rightarrow> None)"
proof
  fix k
  show "delete_where p ks m k = (case m k of Some v \<Rightarrow> if p v then None else Some v | None \<Rightarrow> None)"
    using assms by (auto simp: delete_where_lookup range_order_def split: option.splits)
qed

lemma delete_where_dom: "dom (delete_where p ks m) \<subseteq> dom m"
  by (auto simp: delete_where_lookup split: option.splits if_splits)

text \<open>The values of a map in the order of the range.\<close>

definition range_values :: "'k list \<Rightarrow> ('k \<rightharpoonup> 'v) \<Rightarrow> 'v list" where
  "range_values ks m = List.map_filter m ks"

lemma range_values_Nil [simp]: "range_values [] m = []"
  by (simp add: range_values_def List.map_filter_def)

lemma range_values_Cons [simp]:
  "range_values (k # ks) m = (case m k of None \<Rightarrow> range_values ks m | Some v \<Rightarrow> v # range_values ks m)"
  by (simp add: range_values_def List.map_filter_def split: option.splits)

lemma set_range_values: "set (range_values ks m) = {v. \<exists>k \<in> set ks. m k = Some v}"
  by (induction ks) (auto split: option.splits)

lemma range_values_all: "range_order ks m \<Longrightarrow> set (range_values ks m) = ran m"
  by (auto simp: set_range_values range_order_def ran_def)

section \<open>Comparing and sorting\<close>

text \<open>\<open>cmp.Compare\<close>, and \<open>slices.SortStableFunc\<close> as an insertion that keeps equal elements in order.\<close>

definition cmp :: "'a::linorder \<Rightarrow> 'a \<Rightarrow> int" where
  "cmp a b = (if a < b then - 1 else if b < a then 1 else 0)"

fun insert_by :: "('a \<Rightarrow> 'a \<Rightarrow> int) \<Rightarrow> 'a \<Rightarrow> 'a list \<Rightarrow> 'a list" where
  "insert_by c x [] = [x]"
| "insert_by c x (y # ys) = (if c x y \<le> 0 then x # y # ys else y # insert_by c x ys)"

definition stable_sort :: "('a \<Rightarrow> 'a \<Rightarrow> int) \<Rightarrow> 'a list \<Rightarrow> 'a list" where
  "stable_sort c xs = foldr (insert_by c) xs []"

text \<open>A comparison that orders: its sign turns with the arguments and it is transitive.\<close>

definition comparison :: "('a \<Rightarrow> 'a \<Rightarrow> int) \<Rightarrow> bool" where
  "comparison c \<longleftrightarrow>
     (\<forall>x y. c x y \<le> 0 \<longleftrightarrow> 0 \<le> c y x) \<and> (\<forall>x y z. c x y \<le> 0 \<longrightarrow> c y z \<le> 0 \<longrightarrow> c x z \<le> 0)"

lemma cmp_simps [simp]:
  "cmp a b \<le> 0 \<longleftrightarrow> a \<le> b" "0 \<le> cmp a b \<longleftrightarrow> b \<le> a" "cmp a b = 0 \<longleftrightarrow> a = b"
  "cmp a b < 0 \<longleftrightarrow> a < b" "0 < cmp a b \<longleftrightarrow> b < a"
  by (auto simp: cmp_def)

lemma insert_by_set [simp]: "set (insert_by c x xs) = insert x (set xs)"
  by (induction xs) auto

lemma insert_by_mset [simp]: "mset (insert_by c x xs) = add_mset x (mset xs)"
  by (induction xs) auto

lemma stable_sort_mset [simp]: "mset (stable_sort c xs) = mset xs"
  by (induction xs) (simp_all add: stable_sort_def)

lemma stable_sort_set [simp]: "set (stable_sort c xs) = set xs"
  by (metis set_mset_mset stable_sort_mset)

lemma stable_sort_length [simp]: "length (stable_sort c xs) = length xs"
  by (metis size_mset stable_sort_mset)

lemma insert_by_sorted:
  assumes "comparison c" "sorted_wrt (\<lambda>a b. c a b \<le> 0) xs"
  shows "sorted_wrt (\<lambda>a b. c a b \<le> 0) (insert_by c x xs)"
  using assms(2)
proof (induction xs)
  case (Cons y ys)
  have sign: "c x y \<le> 0 \<longleftrightarrow> 0 \<le> c y x" for x y
    using assms(1) by (simp add: comparison_def)
  have trans: "c x y \<le> 0 \<Longrightarrow> c y z \<le> 0 \<Longrightarrow> c x z \<le> 0" for x y z
    using assms(1) unfolding comparison_def by blast
  have flip: "\<not> c x y \<le> 0 \<Longrightarrow> c y x \<le> 0"
    using sign [of x y] by linarith
  show ?case
    using Cons flip trans by auto
qed simp

lemma stable_sort_sorted: "comparison c \<Longrightarrow> sorted_wrt (\<lambda>a b. c a b \<le> 0) (stable_sort c xs)"
  by (induction xs) (simp_all add: stable_sort_def insert_by_sorted)

lemma comparison_cmp [simp]: "comparison (\<lambda>x y. cmp (f x) (f y))"
  unfolding comparison_def by auto

lemma comparison_key:
  fixes k :: "'a \<Rightarrow> 'k::linorder"
  assumes "\<And>x y. c x y \<le> 0 \<longleftrightarrow> k x \<le> k y" "\<And>x y. 0 \<le> c x y \<longleftrightarrow> k y \<le> k x"
  shows "comparison c"
  unfolding comparison_def assms by (auto intro: order_trans)

lemma comparison_on: "comparison c \<Longrightarrow> comparison (\<lambda>x y. c (f x) (f y))"
  unfolding comparison_def by blast

text \<open>Comparing by a first comparison and then, where that is a tie, by a second.\<close>

lemma comparison_then:
  assumes "comparison c" "comparison d"
  shows "comparison (\<lambda>x y. if c x y \<noteq> 0 then c x y else d x y)"
proof -
  have c: "\<And>x y. c x y \<le> 0 \<longleftrightarrow> 0 \<le> c y x" "\<And>x y z. c x y \<le> 0 \<Longrightarrow> c y z \<le> 0 \<Longrightarrow> c x z \<le> 0"
    using assms(1) unfolding comparison_def by blast+
  have d: "\<And>x y. d x y \<le> 0 \<longleftrightarrow> 0 \<le> d y x" "\<And>x y z. d x y \<le> 0 \<Longrightarrow> d y z \<le> 0 \<Longrightarrow> d x z \<le> 0"
    using assms(2) unfolding comparison_def by blast+
  have c0: "c x y = 0 \<longleftrightarrow> c y x = 0" for x y
    using c(1) [of x y] c(1) [of y x] by linarith
  have neg: "c x z \<noteq> 0" if "c x y \<le> 0" "c y z \<le> 0" "c x y \<noteq> 0 \<or> c y z \<noteq> 0" for x y z
  proof
    assume "c x z = 0"
    then have "c z x \<le> 0" using c0 [of x z] by simp
    then have "c y x \<le> 0" "c z y \<le> 0"
      using c(2) that(1,2) by blast+
    then show False
      using that c(1) [of x y] c(1) [of y z] c0 [of x y] c0 [of y z] by (auto intro: order_antisym)
  qed
  show ?thesis
    unfolding comparison_def
  proof (intro conjI allI impI)
    fix x y
    show "((if c x y \<noteq> 0 then c x y else d x y) \<le> 0) = (0 \<le> (if c y x \<noteq> 0 then c y x else d y x))"
      using c(1) [of x y] c0 [of x y] d(1) [of x y] by simp
  next
    fix x y z
    assume xy: "(if c x y \<noteq> 0 then c x y else d x y) \<le> 0" and yz: "(if c y z \<noteq> 0 then c y z else d y z) \<le> 0"
    have le: "c x y \<le> 0" "c y z \<le> 0"
      using xy yz by (auto split: if_splits)
    then have "c x z \<le> 0"
      using c(2) by blast
    moreover have "d x z \<le> 0" if "c x z = 0"
      using neg [OF le] that xy yz d(2) by (auto split: if_splits)
    ultimately show "(if c x z \<noteq> 0 then c x z else d x z) \<le> 0"
      by simp
  qed
qed

lemma comparison_lex:
  assumes "comparison c" "comparison d" "\<And>x y. e x y = (if c x y \<noteq> 0 then c x y else d x y)"
  shows "comparison e"
  using comparison_then [OF assms(1,2)] assms(3) by presburger

lemma stable_sort_key:
  fixes k :: "'a \<Rightarrow> 'k::linorder"
  assumes "\<And>x y. c x y \<le> 0 \<longleftrightarrow> k x \<le> k y"
  shows "stable_sort c xs = sort_key k xs"
proof -
  have "insert_by c x ys = insort_key k x ys" for x ys
    by (induction ys) (simp_all add: assms)
  then have "insert_by c = insort_key k"
    by (intro ext)
  then show ?thesis
    by (simp add: stable_sort_def sort_key_def)
qed

lemma sort_key_mset:
  assumes "mset xs = mset ys" "inj_on k (set xs)"
  shows "sort_key k xs = sort_key k ys"
  using assms by (intro sort_key_inj_key_eq) auto

lemma mset_map_filter: "mset xs = mset ys \<Longrightarrow> mset (List.map_filter f xs) = mset (List.map_filter f ys)"
  by (simp add: List.map_filter_def mset_map mset_filter)

lemma find_inj:
  assumes "\<And>a b. f a = f b \<Longrightarrow> a = b"
  shows "find (\<lambda>r. f r = s) xs = Some r \<longleftrightarrow> f r = s \<and> r \<in> set xs"
  by (induction xs) (auto dest: assms)

section \<open>HTTP answers\<close>

text \<open>
  \<open>writeJSON(w, status, map[string]string{"error": msg})\<close> is \<open>HErr status msg\<close>; an answer with a
  body of its own is \<open>HOk status body\<close>.
\<close>

datatype 'a answer = HErr nat string | HOk nat 'a

fun status_of :: "'a answer \<Rightarrow> nat" where
  "status_of (HErr s _) = s"
| "status_of (HOk s _) = s"

section \<open>Database calls\<close>

text \<open>
  Whether a commit reached the database: \<open>Lost\<close> is a commit that was applied although the caller
  got an error back.
\<close>

datatype commit = Committed | Failed | Lost

end
