(* ===== verification/Shape.thy ===== *)
theory Shape
  imports Prelude
begin

text \<open>
  The geometry of a trip (\<open>src/rider/shape.go\<close>): great-circle distance, a polyline with its
  cumulative distances, the projection of a position onto it with and without a hint, and the
  inverse, the coordinate a given distance into the shape. The lemmas show that a shape that
  \<open>NewShapeGeom\<close> builds from finite coordinates is well formed, that \<open>Project\<close> always answers a
  distance inside the shape, and that \<open>segmentAt\<close> names an existing segment.
\<close>

section \<open>Coordinates\<close>

record LatLon =
  Lat :: f64
  Lon :: f64

definition earthRadiusM :: f64 where "earthRadiusM = Num 6371000"
definition metresPerDegree :: f64 where "metresPerDegree = Num 111320"
definition hintCandidateBand :: f64 where "hintCandidateBand = Num 30"
definition backwardHintWeight :: f64 where "backwardHintWeight = Num 2"
definition minCosLat :: f64 where "minCosLat = Num (1 / 1000000)"

lemmas shape_constants =
  earthRadiusM_def metresPerDegree_def hintCandidateBand_def backwardHintWeight_def minCosLat_def

definition rad :: "f64 \<Rightarrow> f64" where
  "rad deg = fdiv (fmul deg (Num pi)) (Num 180)"

definition Distance :: "LatLon \<Rightarrow> LatLon \<Rightarrow> f64" where
  "Distance a b =
     (let lat1 = rad (Lat a); lat2 = rad (Lat b);
          dLat = fsub lat2 lat1;
          dLon = rad (fsub (Lon b) (Lon a));
          h = fadd (fmul (fsin (fdiv dLat (Num 2))) (fsin (fdiv dLat (Num 2))))
                (fmul (fmul (fmul (fcos lat1) (fcos lat2)) (fsin (fdiv dLon (Num 2))))
                      (fsin (fdiv dLon (Num 2))))
      in fmul (fmul (Num 2) earthRadiusM) (fasin (fmin (Num 1) (fsqrt h))))"

text \<open>\<open>math.Atan2\<close> and \<open>math.Mod\<close> of two numbers; the bearing calls them on nothing else.\<close>

definition atan2 :: "real \<Rightarrow> real \<Rightarrow> real" where
  "atan2 y x =
     (if 0 < x then arctan (y / x)
      else if x < 0 then (if 0 \<le> y then arctan (y / x) + pi else arctan (y / x) - pi)
      else if 0 < y then pi / 2 else if y < 0 then - pi / 2 else 0)"

definition trunc_real :: "real \<Rightarrow> int" where
  "trunc_real a = (if 0 \<le> a then \<lfloor>a\<rfloor> else \<lceil>a\<rceil>)"

fun fatan2 :: "f64 \<Rightarrow> f64 \<Rightarrow> f64" where
  "fatan2 (Num y) (Num x) = Num (atan2 y x)"
| "fatan2 _ _ = NaN"

fun fmod64 :: "f64 \<Rightarrow> f64 \<Rightarrow> f64" where
  "fmod64 (Num a) (Num b) = (if b = 0 then NaN else Num (a - b * of_int (trunc_real (a / b))))"
| "fmod64 _ _ = NaN"

definition InitialBearing :: "LatLon \<Rightarrow> LatLon \<Rightarrow> f64" where
  "InitialBearing a b =
     (let lat1 = rad (Lat a); lat2 = rad (Lat b);
          dLon = rad (fsub (Lon b) (Lon a));
          y = fmul (fsin dLon) (fcos lat2);
          x = fsub (fmul (fcos lat1) (fsin lat2)) (fmul (fmul (fsin lat1) (fcos lat2)) (fcos dLon));
          deg = fdiv (fmul (fatan2 y x) (Num 180)) (Num pi)
      in fmod64 (fadd deg (Num 360)) (Num 360))"

definition OffsetMetres :: "LatLon \<Rightarrow> f64 \<Rightarrow> f64 \<Rightarrow> LatLon" where
  "OffsetMetres p north east =
     (let c = fcos (rad (Lat p));
          c = (if flt c minCosLat then minCosLat else c)
      in \<lparr>Lat = fadd (Lat p) (fdiv north metresPerDegree),
          Lon = fadd (Lon p) (fdiv east (fmul metresPerDegree c))\<rparr>)"

section \<open>The polyline\<close>

record ShapeGeom =
  sg_Points :: "LatLon list"
  sg_Cumulative :: "f64 list"
  sg_Length :: f64
  sg_origin :: LatLon
  sg_cosLat :: f64
  sg_localX :: "f64 list"
  sg_localY :: "f64 list"

record Projection =
  pr_AlongShape :: f64
  pr_DistanceToShape :: f64

definition local :: "LatLon \<Rightarrow> f64 \<Rightarrow> LatLon \<Rightarrow> f64 \<times> f64" where
  "local org cosl p =
     (fmul (fmul (fsub (Lon p) (Lon org)) cosl) metresPerDegree,
      fmul (fsub (Lat p) (Lat org)) metresPerDegree)"

text \<open>The loop that fills \<open>Cumulative\<close>: the running sum after each vertex.\<close>

fun cumulate :: "f64 \<Rightarrow> LatLon list \<Rightarrow> f64 list" where
  "cumulate acc (p # q # ps) = acc # cumulate (fadd acc (Distance p q)) (q # ps)"
| "cumulate acc [p] = [acc]"
| "cumulate acc [] = []"

definition NewShapeGeom :: "LatLon list \<Rightarrow> ShapeGeom option" where  \<comment> \<open>\<open>None\<close> is the panic\<close>
  "NewShapeGeom points =
     (if length points < 2 then None
      else
        (let sumLat = fold (\<lambda>p s. fadd s (Lat p)) points (Num 0);
             cosl = fcos (rad (fdiv sumLat (Num (real (length points)))));
             cum = cumulate (Num 0) points;
             org = hd points
         in Some \<lparr>sg_Points = points, sg_Cumulative = cum,
                  sg_Length = cum ! (length points - 1), sg_origin = org, sg_cosLat = cosl,
                  sg_localX = map (fst \<circ> local org cosl) points,
                  sg_localY = map (snd \<circ> local org cosl) points\<rparr>))"

definition projectOnto :: "ShapeGeom \<Rightarrow> nat \<Rightarrow> f64 \<Rightarrow> f64 \<Rightarrow> f64 \<times> f64" where
  "projectOnto s i px py =
     (let ax = sg_localX s ! i; ay = sg_localY s ! i;
          dx = fsub (sg_localX s ! (i + 1)) ax; dy = fsub (sg_localY s ! (i + 1)) ay;
          lenSq = fadd (fmul dx dx) (fmul dy dy);
          t = (if fgt lenSq (Num 0)
               then fmin (Num 1) (fmax (Num 0)
                      (fdiv (fadd (fmul (fsub px ax) dx) (fmul (fsub py ay) dy)) lenSq))
               else Num 0)
      in (fhypot (fsub px (fadd ax (fmul t dx))) (fsub py (fadd ay (fmul t dy))),
          fadd (sg_Cumulative s ! i)
               (fmul t (fsub (sg_Cumulative s ! (i + 1)) (sg_Cumulative s ! i)))))"

definition isLocalMin :: "f64 list \<Rightarrow> nat \<Rightarrow> bool" where
  "isLocalMin dists i \<longleftrightarrow>
     (if 0 < i \<and> fgt (dists ! i) (dists ! (i - 1)) then False
      else if i < length dists - 1 \<and> fgt (dists ! i) (dists ! (i + 1)) then False
      else True)"

text \<open>One step of each of the three loops of \<open>Project\<close>.\<close>

definition nearer :: "f64 \<times> f64 \<Rightarrow> f64 \<times> f64 \<Rightarrow> f64 \<times> f64" where
  "nearer seg best = (if flt (fst seg) (fst best) then seg else best)"

definition best_step :: "f64 list \<Rightarrow> nat \<Rightarrow> nat \<Rightarrow> nat" where
  "best_step dists i best = (if flt (dists ! i) (dists ! best) then i else best)"

definition hint_gap :: "f64 list \<Rightarrow> f64 \<Rightarrow> nat \<Rightarrow> f64" where
  "hint_gap alongs hint i =
     (let delta = fsub (alongs ! i) hint
      in if flt delta (Num 0) then fmul (fneg delta) backwardHintWeight else delta)"

definition hint_step ::
  "f64 list \<Rightarrow> f64 list \<Rightarrow> f64 \<Rightarrow> f64 \<Rightarrow> nat \<Rightarrow> f64 \<times> nat \<Rightarrow> f64 \<times> nat" where
  "hint_step dists alongs threshold hint i st =
     (if fgt (dists ! i) threshold \<or> \<not> isLocalMin dists i then st
      else
        (let delta = hint_gap alongs hint i
         in if flt delta (fst st) then (delta, i) else st))"

definition Project :: "ShapeGeom \<Rightarrow> LatLon \<Rightarrow> f64 option \<Rightarrow> Projection" where
  "Project s p hint =
     (let segments = length (sg_Points s) - 1;
          (px, py) = local (sg_origin s) (sg_cosLat s) p;
          segs = map (\<lambda>i. projectOnto s i px py) [0..<segments]
      in case hint of
           None \<Rightarrow>
             (let (bestDist, bestAlong) = fold nearer segs (PInf, Num 0)
              in \<lparr>pr_AlongShape = bestAlong, pr_DistanceToShape = bestDist\<rparr>)
         | Some h \<Rightarrow>
             (let dists = map fst segs; alongs = map snd segs;
                  best = fold (best_step dists) [0..<segments] 0;
                  threshold = fmax (fadd (fmul (Num 2) (dists ! best)) (Num 1)) hintCandidateBand;
                  chosen = snd (fold (hint_step dists alongs threshold h) [0..<segments] (PInf, best))
              in \<lparr>pr_AlongShape = alongs ! chosen, pr_DistanceToShape = dists ! chosen\<rparr>))"

text \<open>The search of \<open>segmentAt\<close> for the first segment that ends beyond \<open>along\<close>.\<close>

fun segment_search :: "f64 list \<Rightarrow> f64 \<Rightarrow> nat \<Rightarrow> nat list \<Rightarrow> nat \<times> f64" where
  "segment_search cum along lst [] = (lst, Num 1)"
| "segment_search cum along lst (i # is) =
     (if flt along (cum ! (i + 1))
      then (let segLen = fsub (cum ! (i + 1)) (cum ! i)
            in if fle segLen (Num 0) then (i, Num 0)
               else (i, fdiv (fsub along (cum ! i)) segLen))
      else segment_search cum along lst is)"

definition segmentAt :: "ShapeGeom \<Rightarrow> f64 \<Rightarrow> nat \<times> f64" where
  "segmentAt s along =
     (let lst = length (sg_Points s) - 2
      in if fge along (sg_Length s) then (lst, Num 1)
         else if fle along (Num 0) then (0, Num 0)
         else segment_search (sg_Cumulative s) along lst [0..<lst + 1])"

definition PointAt :: "ShapeGeom \<Rightarrow> f64 \<Rightarrow> LatLon" where
  "PointAt s along =
     (let (i, t) = segmentAt s along;
          a = sg_Points s ! i; b = sg_Points s ! (i + 1)
      in \<lparr>Lat = fadd (Lat a) (fmul t (fsub (Lat b) (Lat a))),
          Lon = fadd (Lon a) (fmul t (fsub (Lon b) (Lon a)))\<rparr>)"

definition BearingAt :: "ShapeGeom \<Rightarrow> f64 \<Rightarrow> f64" where
  "BearingAt s along =
     (let (i, t) = segmentAt s along
      in InitialBearing (sg_Points s ! i) (sg_Points s ! (i + 1)))"

section \<open>Well-formed shapes\<close>

definition finite_pos :: "LatLon \<Rightarrow> bool" where
  "finite_pos p \<longleftrightarrow> f_is_num (Lat p) \<and> f_is_num (Lon p)"

definition shape_wf :: "ShapeGeom \<Rightarrow> bool" where
  "shape_wf s \<longleftrightarrow>
     (let n = length (sg_Points s)
      in 2 \<le> n \<and> length (sg_Cumulative s) = n \<and> length (sg_localX s) = n \<and> length (sg_localY s) = n
         \<and> list_all f_is_num (sg_Cumulative s) \<and> list_all f_is_num (sg_localX s)
         \<and> list_all f_is_num (sg_localY s) \<and> f_is_num (sg_cosLat s) \<and> finite_pos (sg_origin s)
         \<and> list_all finite_pos (sg_Points s)
         \<and> sg_Cumulative s ! 0 = Num 0 \<and> sorted (map f_val (sg_Cumulative s))
         \<and> sg_Length s = sg_Cumulative s ! (n - 1))"

lemma rad_Num [simp]: "rad (Num x) = Num (x * pi / 180)"
  by (simp add: rad_def)

definition hav :: "real \<Rightarrow> real \<Rightarrow> real \<Rightarrow> real" where
  "hav a b l = sin ((b - a) / 2) * sin ((b - a) / 2) + cos a * cos b * sin (l / 2) * sin (l / 2)"

lemma sin_half_sq: "sin (x / 2) * sin (x / 2) = (1 - cos x) / (2 :: real)"
  using cos_double_sin [of "x / 2"] by (simp add: power2_eq_square)

lemma cos_half_sq: "cos (x / 2) * cos (x / 2) = (1 + cos x) / (2 :: real)"
  using cos_double_cos [of "x / 2"] by (simp add: power2_eq_square)

text \<open>The haversine of two points on the sphere is between 0 and 1 for all latitudes.\<close>

lemma hav_bounds: "0 \<le> hav a b l" "hav a b l \<le> 1"
proof -
  define s where "s = sin (l / 2) * sin (l / 2)"
  define u where "u = sin ((b - a) / 2) * sin ((b - a) / 2)"
  define v where "v = cos ((a + b) / 2) * cos ((a + b) / 2)"
  have s: "0 \<le> s" "s \<le> 1"
    unfolding s_def sin_half_sq by simp_all
  have u: "0 \<le> u" "u \<le> 1"
    unfolding u_def sin_half_sq by simp_all
  have v: "0 \<le> v" "v \<le> 1"
    unfolding v_def cos_half_sq
    using cos_ge_minus_one [of "a + b"] cos_le_one [of "a + b"] by (auto simp del: cos_ge_minus_one cos_le_one)
  have uv: "u + cos a * cos b = v"
    unfolding u_def v_def sin_half_sq cos_half_sq by (simp add: cos_diff cos_add field_simps)
  have "hav a b l = u + cos a * cos b * s"
    by (simp add: hav_def u_def s_def mult.assoc)
  also have "\<dots> = (1 - s) * u + s * v"
    using uv by (simp add: algebra_simps flip: uv)
  finally have h: "hav a b l = (1 - s) * u + s * v" .
  show "0 \<le> hav a b l"
    unfolding h using s u v by simp
  have "(1 - s) * u + s * v \<le> (1 - s) * 1 + s * 1"
    using s u v by (intro add_mono mult_left_mono) auto
  then show "hav a b l \<le> 1"
    unfolding h by simp
qed

lemma Distance_Num:
  "Distance \<lparr>Lat = Num a, Lon = Num m\<rparr> \<lparr>Lat = Num b, Lon = Num n\<rparr>
     = Num (2 * 6371000 * arcsin (sqrt (hav (a * pi / 180) (b * pi / 180) ((n - m) * pi / 180))))"
  using hav_bounds [of "a * pi / 180" "b * pi / 180" "(n - m) * pi / 180"]
  by (simp add: Distance_def Let_def earthRadiusM_def hav_def min_def order_trans [of "-1" 0])

lemma finite_posE:
  assumes "finite_pos p" obtains x y where "p = \<lparr>Lat = Num x, Lon = Num y\<rparr>"
  using assms unfolding finite_pos_def by (cases p) (auto simp: f_is_num_iff)

lemma arcsin_unit: "0 \<le> x \<Longrightarrow> x \<le> 1 \<Longrightarrow> 0 \<le> arcsin x \<and> arcsin x \<le> pi / 2"
  using arcsin_bounded [of x] arcsin_le_arcsin [of 0 x] by simp

lemma Distance_range:
  assumes "finite_pos p" "finite_pos q"
  shows "\<exists>d. Distance p q = Num d \<and> 0 \<le> d \<and> d \<le> pi * 6371000"
proof -
  obtain a m b n where p: "p = \<lparr>Lat = Num a, Lon = Num m\<rparr>" and q: "q = \<lparr>Lat = Num b, Lon = Num n\<rparr>"
    using assms by (auto elim!: finite_posE)
  let ?h = "hav (a * pi / 180) (b * pi / 180) ((n - m) * pi / 180)"
  have "0 \<le> arcsin (sqrt ?h) \<and> arcsin (sqrt ?h) \<le> pi / 2"
    by (rule arcsin_unit) (simp_all add: hav_bounds)
  then show ?thesis
    unfolding p q Distance_Num by simp
qed

lemma hav_sym: "hav b a (- l) = hav a b l"
proof -
  have "sin ((a - b) / 2) = - sin ((b - a) / 2)"
    by (metis minus_diff_eq minus_divide_left sin_minus)
  then show ?thesis by (simp add: hav_def)
qed

lemma Distance_sym: 
  assumes "finite_pos p" "finite_pos q"
  shows "Distance p q = Distance q p"
proof -
  obtain a m b n where p: "p = \<lparr>Lat = Num a, Lon = Num m\<rparr>" and q: "q = \<lparr>Lat = Num b, Lon = Num n\<rparr>"
    using assms by (auto elim!: finite_posE)
  have "(m - n) * pi / 180 = - ((n - m) * pi / 180)"
    by (metis minus_diff_eq minus_divide_left minus_mult_left)
  then show ?thesis
    unfolding p q Distance_Num by (simp only: hav_sym)
qed

lemma Distance_self: "finite_pos p \<Longrightarrow> Distance p p = Num 0"
  by (elim finite_posE) (simp add: Distance_Num hav_def)


section \<open>NewShapeGeom builds well-formed shapes\<close>

lemma length_cumulate [simp]: "length (cumulate acc ps) = length ps"
  by (induction acc ps rule: cumulate.induct) simp_all

lemma cumulate_hd: "ps \<noteq> [] \<Longrightarrow> cumulate acc ps ! 0 = acc"
  by (cases "(acc, ps)" rule: cumulate.cases) simp_all

lemma cumulate_nums:
  assumes "list_all finite_pos ps" "acc = Num a"
  shows "list_all f_is_num (cumulate acc ps) \<and> sorted (map f_val (cumulate acc ps))
         \<and> (\<forall>x \<in> set (cumulate acc ps). a \<le> f_val x)"
  using assms
proof (induction acc ps arbitrary: a rule: cumulate.induct)
  case (1 acc p q ps)
  obtain d where d: "Distance p q = Num d" "0 \<le> d"
    using Distance_range [of p q] 1 by auto
  have "fadd acc (Distance p q) = Num (a + d)"
    using d 1 by simp
  then show ?case
    using 1 d by (fastforce dest: 1(1) [rotated])
qed simp_all

lemma fold_lat_Num:
  "list_all finite_pos ps \<Longrightarrow> \<exists>b. fold (\<lambda>p s. fadd s (Lat p)) ps (Num a) = Num b"
proof (induction ps arbitrary: a)
  case (Cons p ps)
  then show ?case by (auto simp: finite_pos_def f_is_num_iff)
qed simp

lemma local_Num:
  assumes "finite_pos org" "cosl = Num c" "finite_pos p"
  shows "\<exists>x y. local org cosl p = (Num x, Num y)"
  using assms by (auto elim!: finite_posE simp: local_def metresPerDegree_def)

lemma NewShapeGeom_wf:
  assumes "list_all finite_pos points" "NewShapeGeom points = Some s"
  shows "shape_wf s"
proof -
  let ?sum = "fold (\<lambda>p s. fadd s (Lat p)) points (Num 0)"
  define cosl where "cosl = fcos (rad (fdiv ?sum (Num (real (length points)))))"
  have n: "2 \<le> length points"
    using assms(2) by (auto simp: NewShapeGeom_def split: if_splits)
  obtain b where "?sum = Num b"
    using fold_lat_Num [OF assms(1)] by blast
  then obtain c where c: "cosl = Num c"
    using n by (cases "points = []") (auto simp: cosl_def)
  have hd0: "cumulate (Num 0) points ! 0 = Num 0"
    using n by (intro cumulate_hd) auto
  have org: "finite_pos (hd points)"
    using assms(1) n by (cases points) auto
  have loc: "\<exists>x y. local (hd points) cosl p = (Num x, Num y)" if "p \<in> set points" for p
    using local_Num [OF org c] assms(1) that by (auto simp: list_all_iff)
  have s: "s = \<lparr>sg_Points = points, sg_Cumulative = cumulate (Num 0) points,
      sg_Length = cumulate (Num 0) points ! (length points - 1), sg_origin = hd points,
      sg_cosLat = cosl, sg_localX = map (fst \<circ> local (hd points) cosl) points,
      sg_localY = map (snd \<circ> local (hd points) cosl) points\<rparr>"
    using assms(2) n by (simp add: NewShapeGeom_def Let_def cosl_def)
  show ?thesis
    using n c org assms(1) cumulate_nums [OF assms(1) refl, of 0] hd0
    by (auto simp: s shape_wf_def Let_def list_all_iff dest!: loc)
qed

section \<open>Positions along a well-formed shape\<close>

lemma shape_wfD:
  assumes "shape_wf s"
  shows "2 \<le> length (sg_Points s)" "length (sg_Cumulative s) = length (sg_Points s)"
    "sg_Cumulative s ! 0 = Num 0" "sg_Length s = sg_Cumulative s ! (length (sg_Points s) - 1)"
  using assms by (auto simp: shape_wf_def Let_def)

lemma shape_nums:
  assumes "shape_wf s" "i < length (sg_Points s)"
  shows "\<exists>c. sg_Cumulative s ! i = Num c" "\<exists>x. sg_localX s ! i = Num x" "\<exists>y. sg_localY s ! i = Num y"
  using assms by (auto simp: shape_wf_def Let_def list_all_length simp flip: f_is_num_iff)

lemma shape_cum_mono:
  assumes "shape_wf s" "i \<le> j" "j < length (sg_Points s)"
  shows "f_val (sg_Cumulative s ! i) \<le> f_val (sg_Cumulative s ! j)"
proof -
  have "sorted (map f_val (sg_Cumulative s))" "length (sg_Cumulative s) = length (sg_Points s)"
    using assms(1) by (simp_all add: shape_wf_def Let_def)
  then show ?thesis
    using sorted_nth_mono [of "map f_val (sg_Cumulative s)" i j] assms(2,3) by simp
qed

definition shape_len :: "ShapeGeom \<Rightarrow> real" where
  "shape_len s = f_val (sg_Length s)"

lemma shape_len_eq:
  assumes "shape_wf s"
  shows "sg_Length s = Num (shape_len s)"
proof -
  have "length (sg_Points s) - 1 < length (sg_Points s)"
    using shape_wfD(1) [OF assms] by simp
  then obtain c where "sg_Cumulative s ! (length (sg_Points s) - 1) = Num c"
    using shape_nums(1) [OF assms] by blast
  then show ?thesis
    by (simp add: shape_len_def shape_wfD(4) [OF assms])
qed

lemma shape_len_nonneg: "shape_wf s \<Longrightarrow> 0 \<le> shape_len s"
  using shape_cum_mono [of s 0 "length (sg_Points s) - 1"] shape_wfD [of s]
  by (auto simp: shape_len_def)

lemma shape_cum_le: "shape_wf s \<Longrightarrow> i < length (sg_Points s) \<Longrightarrow> f_val (sg_Cumulative s ! i) \<le> shape_len s"
  using shape_cum_mono [of s i "length (sg_Points s) - 1"] by (auto simp: shape_len_def shape_wfD)

lemma shape_cum_ge: "shape_wf s \<Longrightarrow> i < length (sg_Points s) \<Longrightarrow> 0 \<le> f_val (sg_Cumulative s ! i)"
  using shape_cum_mono [of s 0 i] by (auto simp: shape_wfD)

text \<open>A convex combination of two positions stays between them.\<close>

lemma convex_between:
  fixes t a b :: real
  assumes "0 \<le> t" "t \<le> 1" "a \<le> b"
  shows "a \<le> a + t * (b - a)" "a + t * (b - a) \<le> b"
  using assms mult_left_le_one_le [of "b - a" t] by simp_all

definition project_seg :: "ShapeGeom \<Rightarrow> nat \<Rightarrow> real \<Rightarrow> real \<Rightarrow> real \<times> real" where
  "project_seg s i x y =
     (f_val (fst (projectOnto s i (Num x) (Num y))), f_val (snd (projectOnto s i (Num x) (Num y))))"

lemma projectOnto_Num:
  assumes "shape_wf s" "i + 1 < length (sg_Points s)"
  shows "\<exists>d a. projectOnto s i (Num x) (Num y) = (Num d, Num a) \<and> 0 \<le> d
           \<and> f_val (sg_Cumulative s ! i) \<le> a \<and> a \<le> f_val (sg_Cumulative s ! (i + 1))"
proof -
  obtain ax ay bx by' c e where v: "sg_localX s ! i = Num ax" "sg_localY s ! i = Num ay"
      "sg_localX s ! (i + 1) = Num bx" "sg_localY s ! (i + 1) = Num by'"
      "sg_Cumulative s ! i = Num c" "sg_Cumulative s ! (i + 1) = Num e"
    using shape_nums [OF assms(1)] assms(2) by (metis add_lessD1)
  have ce: "c \<le> e"
    using shape_cum_mono [OF assms(1), of i "i + 1"] assms(2) v by simp
  let ?q = "(bx - ax) * (bx - ax) + (by' - ay) * (by' - ay)"
  let ?n = "(x - ax) * (bx - ax) + (y - ay) * (by' - ay)"
  define t where "t = (if 0 < ?q then min 1 (max 0 (?n / ?q)) else 0)"
  have t: "0 \<le> t" "t \<le> 1"
    by (simp_all add: t_def)
  have "projectOnto s i (Num x) (Num y) =
      (Num (sqrt ((x - (ax + t * (bx - ax))) * (x - (ax + t * (bx - ax)))
         + (y - (ay + t * (by' - ay))) * (y - (ay + t * (by' - ay))))), Num (c + t * (e - c)))"
    using v by (simp add: projectOnto_def Let_def t_def)
  then show ?thesis
    using v convex_between [OF t ce] by auto
qed

lemma local_shape:
  assumes "shape_wf s" "finite_pos p"
  shows "\<exists>x y. local (sg_origin s) (sg_cosLat s) p = (Num x, Num y)"
proof -
  obtain c where "sg_cosLat s = Num c"
    using assms(1) by (auto simp: shape_wf_def Let_def f_is_num_iff)
  moreover have "finite_pos (sg_origin s)"
    using assms(1) by (simp add: shape_wf_def Let_def)
  ultimately show ?thesis
    using local_Num assms(2) by blast
qed

definition shape_segs :: "ShapeGeom \<Rightarrow> LatLon \<Rightarrow> (f64 \<times> f64) list" where
  "shape_segs s p =
     (let (px, py) = local (sg_origin s) (sg_cosLat s) p
      in map (\<lambda>i. projectOnto s i px py) [0..<length (sg_Points s) - 1])"

lemma length_shape_segs [simp]: "length (shape_segs s p) = length (sg_Points s) - 1"
  by (simp add: shape_segs_def split: prod.split)

lemma shape_segs_nth:
  assumes "shape_wf s" "finite_pos p" "i < length (sg_Points s) - 1"
  shows "\<exists>d a. shape_segs s p ! i = (Num d, Num a) \<and> 0 \<le> d \<and> 0 \<le> a \<and> a \<le> shape_len s"
proof -
  obtain x y where xy: "local (sg_origin s) (sg_cosLat s) p = (Num x, Num y)"
    using local_shape [OF assms(1,2)] by blast
  have i: "i + 1 < length (sg_Points s)" "i < length (sg_Points s)"
    using assms(3) by simp_all
  obtain d a where "projectOnto s i (Num x) (Num y) = (Num d, Num a)" "0 \<le> d"
      "f_val (sg_Cumulative s ! i) \<le> a" "a \<le> f_val (sg_Cumulative s ! (i + 1))"
    using projectOnto_Num [OF assms(1) i(1)] by blast
  then show ?thesis
    using xy assms(3) shape_cum_ge [OF assms(1) i(2)] shape_cum_le [OF assms(1) i(1)]
    by (auto simp: shape_segs_def)
qed

lemma Project_segs:
  "Project s p hint =
     (case hint of
        None \<Rightarrow> (let (d, a) = fold nearer (shape_segs s p) (PInf, Num 0)
                 in \<lparr>pr_AlongShape = a, pr_DistanceToShape = d\<rparr>)
      | Some h \<Rightarrow>
          (let dists = map fst (shape_segs s p); alongs = map snd (shape_segs s p);
               best = fold (best_step dists) [0..<length dists] 0;
               threshold = fmax (fadd (fmul (Num 2) (dists ! best)) (Num 1)) hintCandidateBand;
               chosen = snd (fold (hint_step dists alongs threshold h) [0..<length dists] (PInf, best))
           in \<lparr>pr_AlongShape = alongs ! chosen, pr_DistanceToShape = dists ! chosen\<rparr>))"
  by (simp add: Project_def shape_segs_def Let_def split: prod.splits option.splits)

text \<open>The loops over the segments: what the fold has found after any number of steps.\<close>

lemma nearer_fold:
  assumes "\<forall>x \<in> set segs. fst x \<noteq> NaN" "fst b \<noteq> NaN"
  shows "(fold nearer segs b = b \<or> fold nearer segs b \<in> set segs)
         \<and> fst (fold nearer segs b) \<noteq> NaN
         \<and> (\<forall>x \<in> insert b (set segs). fle (fst (fold nearer segs b)) (fst x))"
  using assms
proof (induction segs arbitrary: b)
  case Nil
  then show ?case by (cases "fst b") (auto simp: fle_def)
next
  case (Cons a segs)
  let ?b = "nearer a b"
  have b: "fst ?b \<noteq> NaN" "fle (fst ?b) (fst a)" "fle (fst ?b) (fst b)" "?b = a \<or> ?b = b"
    using Cons.prems not_flt_iff [of "fst a" "fst b"] by (auto simp: nearer_def flt_imp_fle)
  have "(fold nearer segs ?b = ?b \<or> fold nearer segs ?b \<in> set segs)
         \<and> fst (fold nearer segs ?b) \<noteq> NaN
         \<and> (\<forall>x \<in> insert ?b (set segs). fle (fst (fold nearer segs ?b)) (fst x))"
    using Cons.prems b(1) by (intro Cons.IH) auto
  then show ?case
    using b by (auto intro: fle_trans)
qed

lemma best_fold:
  assumes "\<forall>i < n. dists ! i \<noteq> NaN" "set is \<subseteq> {..<n}" "b < n"
  shows "fold (best_step dists) is b < n
         \<and> (\<forall>i \<in> insert b (set is). fle (dists ! fold (best_step dists) is b) (dists ! i))"
  using assms(2,3)
proof (induction "is" arbitrary: b)
  case Nil
  then show ?case using assms(1) by (cases "dists ! b") (auto simp: fle_def)
next
  case (Cons a "is")
  let ?b = "best_step dists a b"
  have b: "?b < n" "fle (dists ! ?b) (dists ! a)" "fle (dists ! ?b) (dists ! b)"
    using Cons.prems assms(1) not_flt_iff [of "dists ! a" "dists ! b"]
    by (auto simp: best_step_def flt_imp_fle)
  then show ?case
    using Cons.IH [of ?b] Cons.prems by (auto intro: fle_trans)
qed

definition hint_candidate :: "f64 list \<Rightarrow> f64 \<Rightarrow> nat \<Rightarrow> bool" where
  "hint_candidate dists threshold i \<longleftrightarrow> \<not> fgt (dists ! i) threshold \<and> isLocalMin dists i"

lemma hint_fold:
  assumes "\<forall>i \<in> set is. hint_gap alongs h i \<noteq> NaN" "fst st \<noteq> NaN"
  shows "let r = fold (hint_step dists alongs th h) is st
         in (r = st \<or> (\<exists>i \<in> set is. hint_candidate dists th i \<and> r = (hint_gap alongs h i, i)))
            \<and> fst r \<noteq> NaN \<and> fle (fst r) (fst st)
            \<and> (\<forall>i \<in> set is. hint_candidate dists th i \<longrightarrow> fle (fst r) (hint_gap alongs h i))"
  using assms
proof (induction "is" arbitrary: st)
  case Nil
  then show ?case by simp
next
  case (Cons a "is")
  let ?st = "hint_step dists alongs th h a st"
  let ?g = "hint_gap alongs h a"
  have st: "fst ?st \<noteq> NaN" "fle (fst ?st) (fst st)"
      "?st = st \<or> hint_candidate dists th a \<and> ?st = (?g, a)"
      "hint_candidate dists th a \<longrightarrow> fle (fst ?st) ?g"
    using Cons.prems not_flt_iff [of ?g "fst st"]
    by (auto simp: hint_step_def hint_candidate_def Let_def flt_imp_fle)
  show ?case
    using Cons.IH [of ?st] Cons.prems st by (auto simp: Let_def intro: fle_trans)
qed

lemma isLocalMin_best:
  assumes "\<forall>i < length dists. fle (dists ! b) (dists ! i)" "b < length dists"
  shows "isLocalMin dists b"
  using assms fgt_not_fle unfolding isLocalMin_def by (smt (verit) less_diff_conv less_imp_diff_less)

lemma Project_hint_choice:
  assumes "shape_wf s" "finite_pos p"
  defines "n \<equiv> length (sg_Points s) - 1"
  defines "dists \<equiv> map fst (shape_segs s p)" and "alongs \<equiv> map snd (shape_segs s p)"
  shows "\<exists>b c. b < n \<and> c < n \<and> (\<forall>i < n. fle (dists ! b) (dists ! i))
           \<and> (let th = fmax (fadd (fmul (Num 2) (dists ! b)) (Num 1)) hintCandidateBand
              in hint_candidate dists th c
                 \<and> (\<forall>i < n. hint_candidate dists th i \<longrightarrow> fle (hint_gap alongs (Num h) c) (hint_gap alongs (Num h) i)))
           \<and> Project s p (Some (Num h)) = \<lparr>pr_AlongShape = alongs ! c, pr_DistanceToShape = dists ! c\<rparr>"
proof -
  have n0: "0 < n"
    using shape_wfD(1) [OF assms(1)] by (simp add: n_def)
  have num: "\<exists>d a. dists ! i = Num d \<and> alongs ! i = Num a \<and> 0 \<le> d" if "i < n" for i
    using shape_segs_nth [OF assms(1,2), of i] that by (auto simp: n_def dists_def alongs_def)
  have len: "length dists = n"
    by (simp add: dists_def n_def)
  define b where "b = fold (best_step dists) [0..<n] 0"
  have dn: "\<forall>i < n. dists ! i \<noteq> NaN"
    using num by fastforce
  have b: "b < n" "\<forall>i < n. fle (dists ! b) (dists ! i)"
    using best_fold [OF dn, of "[0..<n]" 0] n0 by (auto simp: b_def atLeast0LessThan)
  define th where "th = fmax (fadd (fmul (Num 2) (dists ! b)) (Num 1)) hintCandidateBand"
  obtain db where db: "dists ! b = Num db" "0 \<le> db"
    using num [OF b(1)] by blast
  have gap: "\<exists>g. hint_gap alongs (Num h) i = Num g" if "i < n" for i
    using num [OF that] by (auto simp: hint_gap_def Let_def backwardHintWeight_def)
  define r where "r = fold (hint_step dists alongs th (Num h)) [0..<n] (PInf, b)"
  have r: "(r = (PInf, b) \<or> (\<exists>i \<in> set [0..<n]. hint_candidate dists th i \<and> r = (hint_gap alongs (Num h) i, i)))"
      "\<forall>i \<in> set [0..<n]. hint_candidate dists th i \<longrightarrow> fle (fst r) (hint_gap alongs (Num h) i)"
    using hint_fold [of "[0..<n]" alongs "Num h" "(PInf, b)" dists th] gap
    unfolding r_def by (fastforce simp: Let_def)+
  have "hint_candidate dists th b"
    using isLocalMin_best [of dists b] b db by (simp add: hint_candidate_def len th_def hintCandidateBand_def)
  then have "r \<noteq> (PInf, b)"
    using r(2) b(1) gap [OF b(1)] by (auto simp: fle_def)
  then obtain c where c: "c < n" "hint_candidate dists th c" "r = (hint_gap alongs (Num h) c, c)"
    using r(1) by auto
  have "Project s p (Some (Num h)) = \<lparr>pr_AlongShape = alongs ! c, pr_DistanceToShape = dists ! c\<rparr>"
    using c(3) by (simp add: Project_segs Let_def len b_def [symmetric] th_def [symmetric]
        r_def [symmetric] flip: dists_def alongs_def)
  then show ?thesis
    using b c r(2) by (intro exI [of _ b] exI [of _ c]) (simp add: th_def Let_def)
qed

lemma Project_nearest:
  assumes "shape_wf s" "finite_pos p"
  shows "\<exists>c < length (sg_Points s) - 1.
           Project s p None = \<lparr>pr_AlongShape = snd (shape_segs s p ! c), pr_DistanceToShape = fst (shape_segs s p ! c)\<rparr>
           \<and> (\<forall>i < length (sg_Points s) - 1. fle (fst (shape_segs s p ! c)) (fst (shape_segs s p ! i)))"
proof -
  let ?segs = "shape_segs s p"
  let ?n = "length (sg_Points s) - 1"
  have n0: "0 < ?n"
    using shape_wfD(1) [OF assms(1)] by simp
  have num: "\<exists>d a. ?segs ! i = (Num d, Num a)" if "i < ?n" for i
    using shape_segs_nth [OF assms that] by blast
  have nn: "\<forall>x \<in> set ?segs. fst x \<noteq> NaN"
    using num by (fastforce simp: in_set_conv_nth)
  have f: "fold nearer ?segs (PInf, Num 0) = (PInf, Num 0) \<or> fold nearer ?segs (PInf, Num 0) \<in> set ?segs"
      "\<forall>x \<in> set ?segs. fle (fst (fold nearer ?segs (PInf, Num 0))) (fst x)"
    using nearer_fold [OF nn, of "(PInf, Num 0)"] by auto
  have "?segs ! 0 \<in> set ?segs"
    using n0 by simp
  then have "fold nearer ?segs (PInf, Num 0) \<noteq> (PInf, Num 0)"
    using f(2) num [OF n0] by (auto simp: fle_def)
  then obtain c where c: "c < ?n" "fold nearer ?segs (PInf, Num 0) = ?segs ! c"
    using f(1) by (auto simp: in_set_conv_nth)
  moreover have "\<forall>i < ?n. fle (fst (?segs ! c)) (fst (?segs ! i))"
    using f(2) c by simp
  ultimately show ?thesis
    by (auto simp: Project_segs split: prod.splits)
qed

lemma fraction:
  fixes a b x :: real
  assumes "a \<le> x" "x < b"
  shows "0 \<le> (x - a) / (b - a)" "(x - a) / (b - a) < 1" "a + (x - a) / (b - a) * (b - a) = x"
  using assms by (simp_all add: divide_simps)

lemma segment_search_locates:
  assumes "shape_wf s" "k \<le> lst" "lst + 1 < length (sg_Points s)"
    "f_val (sg_Cumulative s ! k) \<le> x" "x < f_val (sg_Cumulative s ! (lst + 1))"
  shows "\<exists>i r. segment_search (sg_Cumulative s) (Num x) lst [k..<lst + 1] = (i, Num r) \<and> i \<le> lst
           \<and> 0 \<le> r \<and> r < 1
           \<and> x = f_val (sg_Cumulative s ! i) + r * (f_val (sg_Cumulative s ! (i + 1)) - f_val (sg_Cumulative s ! i))"
  using assms(2,4)
proof (induction "lst - k" arbitrary: k)
  case (0 k)
  then have k: "k = lst" by simp
  obtain a b where "sg_Cumulative s ! lst = Num a" "sg_Cumulative s ! (lst + 1) = Num b"
    using shape_nums(1) [OF assms(1)] assms(3) by (metis add_lessD1)
  then show ?case
    using 0 assms(5) k fraction [of a x b] by (auto simp: Let_def)
next
  case (Suc m k)
  obtain a b where ab: "sg_Cumulative s ! k = Num a" "sg_Cumulative s ! (k + 1) = Num b"
    using shape_nums(1) [OF assms(1)] assms(3) Suc.prems 
    by (metis add_le_mono1 add_lessD1 le_less_trans)
  have up: "[k..<lst + 1] = k # [k + 1..<lst + 1]"
    using Suc.prems by (simp add: upt_conv_Cons)
  show ?case
  proof (cases "x < b")
    case True
    then show ?thesis
      using ab Suc.prems up fraction [of a x b] by (auto simp: Let_def)
  next
    case False
    then show ?thesis
      using ab up Suc.hyps(1) [of "k + 1"] Suc.hyps(2) Suc.prems by auto
  qed
qed

section \<open>Properties\<close>

text \<open>
  \<open>NewShapeGeom\<close> of at least two finite coordinates succeeds, and \<open>Project\<close> then answers a
  position inside the shape, \<open>0 \<le> along \<le> Length\<close>, with a non-negative distance. Without a hint that
  distance is the smallest over all segments; with one it is at most the larger of 30 m and twice
  the smallest plus one metre.
\<close>

theorem Project_on_shape:
  assumes "2 \<le> length points" "list_all finite_pos points" "finite_pos p"
    "hint = None \<or> (\<exists>h. hint = Some (Num h))"
  shows "\<exists>s a d. NewShapeGeom points = Some s
           \<and> Project s p hint = \<lparr>pr_AlongShape = Num a, pr_DistanceToShape = Num d\<rparr>
           \<and> 0 \<le> a \<and> fle (Num a) (sg_Length s) \<and> 0 \<le> d
           \<and> (\<forall>seg \<in> set (shape_segs s p). \<exists>e. fst seg = Num e
                 \<and> (if hint = None then d \<le> e else d \<le> max 30 (2 * e + 1)))"
proof -
  obtain s where s: "NewShapeGeom points = Some s"
    using assms(1) by (simp add: NewShapeGeom_def Let_def)
  have wf: "shape_wf s"
    using NewShapeGeom_wf [OF assms(2) s] .
  let ?n = "length (sg_Points s) - 1"
  have seg: "\<exists>d a. shape_segs s p ! i = (Num d, Num a) \<and> 0 \<le> d \<and> 0 \<le> a \<and> a \<le> shape_len s"
    if "i < ?n" for i
    using shape_segs_nth [OF wf assms(3) that] .
  show ?thesis
  proof (cases hint)
    case None
    obtain c where c: "c < ?n"
        "Project s p None = \<lparr>pr_AlongShape = snd (shape_segs s p ! c), pr_DistanceToShape = fst (shape_segs s p ! c)\<rparr>"
        "\<forall>i < ?n. fle (fst (shape_segs s p ! c)) (fst (shape_segs s p ! i))"
      using Project_nearest [OF wf assms(3)] by blast
    obtain d a where da: "shape_segs s p ! c = (Num d, Num a)" "0 \<le> d" "0 \<le> a" "a \<le> shape_len s"
      using seg [OF c(1)] by blast
    have "\<exists>e. fst x = Num e \<and> d \<le> e" if "x \<in> set (shape_segs s p)" for x
      using that c(3) da(1) seg by (fastforce simp: in_set_conv_nth)
    then show ?thesis
      using s None c(2) da shape_len_eq [OF wf] by auto
  next
    case (Some h')
    then obtain h where h: "hint = Some (Num h)"
      using assms(4) by auto
    obtain b c where bc: "b < ?n" "c < ?n"
        "\<forall>i < ?n. fle (map fst (shape_segs s p) ! b) (map fst (shape_segs s p) ! i)"
        "hint_candidate (map fst (shape_segs s p))
           (fmax (fadd (fmul (Num 2) (map fst (shape_segs s p) ! b)) (Num 1)) hintCandidateBand) c"
        "Project s p (Some (Num h)) = \<lparr>pr_AlongShape = map snd (shape_segs s p) ! c,
           pr_DistanceToShape = map fst (shape_segs s p) ! c\<rparr>"
      using Project_hint_choice [OF wf assms(3), of h] by (auto simp: Let_def)
    obtain d a where da: "shape_segs s p ! c = (Num d, Num a)" "0 \<le> d" "0 \<le> a" "a \<le> shape_len s"
      using seg [OF bc(2)] by blast
    obtain db ab where dab: "shape_segs s p ! b = (Num db, Num ab)"
      using seg [OF bc(1)] by blast
    have "d \<le> max 30 (2 * db + 1)"
      using bc(1,2,4) da(1) dab by (simp add: hint_candidate_def hintCandidateBand_def not_less le_max_iff_disj disj_commute)
    moreover have "\<exists>e. fst x = Num e \<and> db \<le> e" if "x \<in> set (shape_segs s p)" for x
      using that bc(1,3) dab seg by (fastforce simp: in_set_conv_nth)
    ultimately have "\<exists>e. fst x = Num e \<and> d \<le> max 30 (2 * e + 1)" if "x \<in> set (shape_segs s p)" for x
      using that by fastforce
    then show ?thesis
      using s h bc(2,5) da shape_len_eq [OF wf] by auto
  qed
qed

theorem Project_on_shape_witness:
  "\<exists>s a d. NewShapeGeom [\<lparr>Lat = Num 0, Lon = Num 0\<rparr>, \<lparr>Lat = Num 0, Lon = Num 1\<rparr>] = Some s
     \<and> Project s \<lparr>Lat = Num 1, Lon = Num 0\<rparr> (Some (Num 20)) = \<lparr>pr_AlongShape = Num a, pr_DistanceToShape = Num d\<rparr>
     \<and> 0 \<le> a \<and> fle (Num a) (sg_Length s)"
  using Project_on_shape [of "[\<lparr>Lat = Num 0, Lon = Num 0\<rparr>, \<lparr>Lat = Num 0, Lon = Num 1\<rparr>]"
      "\<lparr>Lat = Num 1, Lon = Num 0\<rparr>" "Some (Num 20)"]
  by (auto simp: finite_pos_def)

text \<open>
  On a well-formed shape \<open>segmentAt\<close> inverts the cumulative distances: it names an existing
  segment and a fraction between 0 and 1, and that fraction of that segment lies exactly at the
  given distance clamped to \<open>[0, Length]\<close>, so \<open>PointAt\<close> and \<open>BearingAt\<close> never index out of range.
\<close>

theorem segmentAt_inverts:
  assumes "shape_wf s"
  shows "\<exists>i r. segmentAt s (Num x) = (i, Num r) \<and> i + 1 < length (sg_Points s) \<and> 0 \<le> r \<and> r \<le> 1
           \<and> f_val (sg_Cumulative s ! i) + r * (f_val (sg_Cumulative s ! (i + 1)) - f_val (sg_Cumulative s ! i))
             = max 0 (min x (shape_len s))"
proof -
  let ?n = "length (sg_Points s)"
  let ?lst = "?n - 2"
  have n: "2 \<le> ?n"
    using shape_wfD(1) [OF assms] .
  have last: "?lst + 1 = ?n - 1"
    using n by simp
  have L: "f_val (sg_Cumulative s ! (?lst + 1)) = shape_len s"
    unfolding last by (simp add: shape_len_def shape_wfD(4) [OF assms])
  have L0: "0 \<le> shape_len s"
    using shape_len_nonneg [OF assms] .
  have c0: "f_val (sg_Cumulative s ! 0) = 0"
    using shape_wfD(3) [OF assms] by simp
  consider "shape_len s \<le> x" | "x \<le> 0" "x < shape_len s" | "0 < x" "x < shape_len s"
    by linarith
  then show ?thesis
  proof cases
    case 1
    then have "segmentAt s (Num x) = (?lst, Num 1)"
      by (simp add: segmentAt_def Let_def shape_len_eq [OF assms])
    then show ?thesis
      using n L L0 1 by auto
  next
    case 2
    then have "segmentAt s (Num x) = (0, Num 0)"
      by (simp add: segmentAt_def Let_def shape_len_eq [OF assms])
    then show ?thesis
      using n c0 2 by auto
  next
    case 3
    have pre: "?lst + 1 < ?n" "f_val (sg_Cumulative s ! 0) \<le> x" "x < f_val (sg_Cumulative s ! (?lst + 1))"
      using n 3 L c0 by (simp_all add: last)
    obtain i r where ir: "segment_search (sg_Cumulative s) (Num x) ?lst [0..<?lst + 1] = (i, Num r)"
        "i \<le> ?lst" "0 \<le> r" "r < 1"
        "x = f_val (sg_Cumulative s ! i) + r * (f_val (sg_Cumulative s ! (i + 1)) - f_val (sg_Cumulative s ! i))"
      using segment_search_locates [OF assms le0 pre] by blast
    have "segmentAt s (Num x) = (i, Num r)"
      using 3 ir(1) by (simp add: segmentAt_def Let_def shape_len_eq [OF assms])
    then show ?thesis
      using ir n 3 by auto
  qed
qed

definition demo_shape :: ShapeGeom where
  "demo_shape = \<lparr>sg_Points = replicate 3 \<lparr>Lat = Num 0, Lon = Num 0\<rparr>,
     sg_Cumulative = [Num 0, Num 10, Num 40], sg_Length = Num 40,
     sg_origin = \<lparr>Lat = Num 0, Lon = Num 0\<rparr>, sg_cosLat = Num 1,
     sg_localX = [Num 0, Num 10, Num 10], sg_localY = [Num 0, Num 0, Num 30]\<rparr>"

lemma demo_shape_wf: "shape_wf demo_shape"
  by (simp add: demo_shape_def shape_wf_def Let_def finite_pos_def numeral_3_eq_3)

theorem segmentAt_inverts_witness:
  "segmentAt demo_shape (Num 25) = (1, Num (1 / 2))
   \<and> (\<exists>i r. segmentAt demo_shape (Num 25) = (i, Num r) \<and> i + 1 < length (sg_Points demo_shape)
        \<and> 0 \<le> r \<and> r \<le> 1)"
  using segmentAt_inverts [OF demo_shape_wf, of 25]
  by (auto simp: demo_shape_def segmentAt_def Let_def numeral_2_eq_2 fle_def)

end
