(* ===== verification/Calendar.thy ===== *)
theory Calendar
  imports Prelude
begin

text \<open>
  The part of Go's \<open>time\<close> package the server's service days rest on: civil dates, the instant a
  civil date and clock time name in a location, the date of an instant, the layout \<open>20060102\<close> and
  the GTFS service-day functions of \<open>src/rider/index.go\<close> that need nothing but a clock.

  A location is the function that gives its offset from UTC, in seconds, at an instant in Unix
  seconds; \<open>time.Date\<close> looks the offset up twice, as the library does, so days on which the clock
  changes are covered.
\<close>

type_synonym location = "int \<Rightarrow> int"

definition is_leap :: "int \<Rightarrow> bool" where
  "is_leap y \<longleftrightarrow> 4 dvd y \<and> (\<not> 100 dvd y \<or> 400 dvd y)"

text \<open>Days from 1 January of year 1 to 1 January of a year, and to the first of a month.\<close>

definition year_start :: "int \<Rightarrow> int" where
  "year_start y = 365 * (y - 1) + (y - 1) div 4 - (y - 1) div 100 + (y - 1) div 400"

definition month_days :: "bool \<Rightarrow> int list" where
  "month_days leap = [31, if leap then 29 else 28, 31, 30, 31, 30, 31, 31, 30, 31, 30, 31]"

definition days_in :: "int \<Rightarrow> int \<Rightarrow> int" where
  "days_in y m = month_days (is_leap y) ! nat (m - 1)"

definition days_before :: "bool \<Rightarrow> int \<Rightarrow> int" where
  "days_before leap m = sum_list (take (nat (m - 1)) (month_days leap))"

definition day_number :: "int \<Rightarrow> int \<Rightarrow> int \<Rightarrow> int" where
  "day_number y m d = year_start y + days_before (is_leap y) m + (d - 1)"

definition year_of_day :: "int \<Rightarrow> int" where
  "year_of_day n = (let y = 400 * n div 146097 + 1 in if year_start (y + 1) \<le> n then y + 1 else y)"

fun month_from :: "int list \<Rightarrow> int \<Rightarrow> int \<Rightarrow> int \<times> int" where
  "month_from (k # ks) m n = (if n < k then (m, n + 1) else month_from ks (m + 1) (n - k))"
| "month_from [] m n = (m, n + 1)"

definition civil :: "int \<Rightarrow> int \<times> int \<times> int" where
  "civil n =
     (let y = year_of_day n;
          (m, d) = month_from (month_days (is_leap y)) 1 (n - year_start y)
      in (y, m, d))"

definition valid_date :: "int \<Rightarrow> int \<Rightarrow> int \<Rightarrow> bool" where
  "valid_date y m d \<longleftrightarrow> 1 \<le> m \<and> m \<le> 12 \<and> 1 \<le> d \<and> d \<le> days_in y m"

section \<open>Instants in a location\<close>

definition day_seconds :: int where "day_seconds = 86400"
definition epoch_day :: int where "epoch_day = 719162"

definition local_seconds :: "location \<Rightarrow> gotime \<Rightarrow> int" where
  "local_seconds loc t = unix_of t + loc (unix_of t)"

definition Date_of :: "location \<Rightarrow> gotime \<Rightarrow> int \<times> int \<times> int" where  \<comment> \<open>\<open>t.Date()\<close>\<close>
  "Date_of loc t = civil (local_seconds loc t div day_seconds + epoch_day)"

definition Hour_of :: "location \<Rightarrow> gotime \<Rightarrow> int" where
  "Hour_of loc t = local_seconds loc t mod day_seconds div 3600"

definition clock_of :: "location \<Rightarrow> gotime \<Rightarrow> int" where  \<comment> \<open>\<open>t.Clock()\<close>, in seconds of the day\<close>
  "clock_of loc t = local_seconds loc t mod day_seconds"

definition Weekday_of :: "location \<Rightarrow> gotime \<Rightarrow> nat" where  \<comment> \<open>Sunday is 0\<close>
  "Weekday_of loc t = nat ((local_seconds loc t div day_seconds + 4) mod 7)"

text \<open>\<open>time.Date\<close>: the day may lie outside its month; the rest is in range in every call.\<close>

definition go_Date :: "location \<Rightarrow> int \<Rightarrow> int \<Rightarrow> int \<Rightarrow> int \<Rightarrow> int \<Rightarrow> gotime" where
  "go_Date loc y m d clock ns =
     (let wall = (day_number y m d - epoch_day) * day_seconds + clock;
          off = loc wall;
          utc = (if off = 0 then wall else wall - loc (wall - off))
      in time_unix utc + ns)"

section \<open>The layout 20060102\<close>

definition digit_char :: "int \<Rightarrow> char" where
  "digit_char n = char_of (nat (48 + n))"

fun pad_digits :: "nat \<Rightarrow> int \<Rightarrow> string" where
  "pad_digits 0 n = []"
| "pad_digits (Suc k) n = pad_digits k (n div 10) @ [digit_char (n mod 10)]"

fun decimal :: "nat \<Rightarrow> string" where
  "decimal n = (if n < 10 then [char_of (48 + n)] else decimal (n div 10) @ [char_of (48 + n mod 10)])"

declare decimal.simps [simp del]

text \<open>A year is padded to four digits; one that needs more, or a sign, is printed with them.\<close>

definition year_digits :: "int \<Rightarrow> string" where
  "year_digits y =
     (let body = (if \<bar>y\<bar> \<le> 9999 then pad_digits 4 \<bar>y\<bar> else decimal (nat \<bar>y\<bar>))
      in if y < 0 then CHR ''-'' # body else body)"

definition format_date :: "int \<times> int \<times> int \<Rightarrow> string" where
  "format_date ymd = (case ymd of (y, m, d) \<Rightarrow> year_digits y @ pad_digits 2 m @ pad_digits 2 d)"

fun read_digits :: "int \<Rightarrow> string \<Rightarrow> int option" where
  "read_digits acc [] = Some acc"
| "read_digits acc (c # cs) = (if is_digit c then read_digits (acc * 10 + int (digit_val c)) cs else None)"

definition parse_date :: "string \<Rightarrow> (int \<times> int \<times> int) option" where
  "parse_date s =
     (if length s \<noteq> 8 then None
      else case (read_digits 0 (take 4 s), read_digits 0 (take 2 (drop 4 s)), read_digits 0 (drop 6 s)) of
             (Some y, Some m, Some d) \<Rightarrow> if valid_date y m d then Some (y, m, d) else None
           | _ \<Rightarrow> None)"

text \<open>\<open>time.ParseInLocation(serviceDateLayout, s, loc)\<close>.\<close>

definition parse_in_location :: "location \<Rightarrow> string \<Rightarrow> gotime option" where
  "parse_in_location loc s = map_option (\<lambda>(y, m, d). go_Date loc y m d 0 0) (parse_date s)"

section \<open>Service days\<close>

definition serviceDayCutoffHour :: int where "serviceDayCutoffHour = 3"

definition dateKey :: "location \<Rightarrow> gotime \<Rightarrow> int" where
  "dateKey loc t = (case Date_of loc t of (y, m, d) \<Rightarrow> y * 10000 + m * 100 + d)"

definition ServiceDate :: "location \<Rightarrow> gotime \<Rightarrow> string" where
  "ServiceDate tz now =
     (let local = (if Hour_of tz now < serviceDayCutoffHour
                   then (case Date_of tz now of
                           (y, m, d) \<Rightarrow> go_Date tz y m (d - 1) (clock_of tz now) (now mod nano))
                   else now)
      in format_date (Date_of tz local))"

definition ServiceDayStart :: "string \<Rightarrow> location \<Rightarrow> gotime option" where  \<comment> \<open>\<open>None\<close> is the error\<close>
  "ServiceDayStart serviceDate loc =
     (case parse_in_location loc serviceDate of
        None \<Rightarrow> None
      | Some day \<Rightarrow>
          (case Date_of loc day of
             (y, m, d) \<Rightarrow> Some (time_add (go_Date loc y m d (12 * 3600) 0) (- 12 * hour))))"

section \<open>Dates and day numbers\<close>

lemma div_pred:
  fixes k y :: int
  assumes "0 < k"
  shows "y div k = (y - 1) div k + (if k dvd y then 1 else 0)"
proof -
  have r: "y = k * (y div k) + y mod k" "0 \<le> y mod k" "y mod k < k"
    using assms pos_mod_bound [of k y] pos_mod_sign [of k y] by simp_all
  show ?thesis
  proof (cases "k dvd y")
    case True
    then have "y mod k = 0" by (simp add: dvd_eq_mod_eq_0)
    moreover have "(y - 1) div k = y div k - 1"
      using r True assms by (intro int_div_pos_eq [where r = "k - 1"]) (simp_all add: algebra_simps)
    ultimately show ?thesis using True by simp
  next
    case False
    then have "y mod k \<noteq> 0" by (simp add: dvd_eq_mod_eq_0)
    then have "(y - 1) div k = y div k"
      using r by (intro int_div_pos_eq [where r = "y mod k - 1"]) linarith+
    then show ?thesis using False by simp
  qed
qed

lemma div_bounds:
  fixes k x :: int
  assumes "0 < k"
  shows "k * (x div k) \<le> x" "x < k * (x div k) + k"
proof -
  have r: "x = k * (x div k) + x mod k" "0 \<le> x mod k" "x mod k < k"
    using assms pos_mod_bound [of k x] pos_mod_sign [of k x] by simp_all
  show "k * (x div k) \<le> x" "x < k * (x div k) + k"
    using r by linarith+
qed

lemma year_start_step: "year_start (y + 1) = year_start y + (if is_leap y then 366 else 365)"
proof -
  have d: "100 dvd y \<longrightarrow> 4 dvd y" "400 dvd y \<longrightarrow> 100 dvd y"
    by (rule impI, erule dvd_trans [rotated], simp)+
  have q: "y div 4 = (y - 1) div 4 + (if 4 dvd y then 1 else 0)"
      "y div 100 = (y - 1) div 100 + (if 100 dvd y then 1 else 0)"
      "y div 400 = (y - 1) div 400 + (if 400 dvd y then 1 else 0)"
    by (rule div_pred, simp)+
  define a b c where "a = (y - 1) div 4" and "b = (y - 1) div 100" and "c = (y - 1) div 400"
  have "year_start (y + 1) = 365 * y + y div 4 - y div 100 + y div 400"
    by (simp add: year_start_def)
  moreover have "year_start y = 365 * (y - 1) + a - b + c"
    by (simp add: year_start_def a_def b_def c_def)
  moreover define P Q R where "P = (4 dvd y)" and "Q = (100 dvd y)" and "R = (400 dvd y)"
  ultimately have e: "year_start (y + 1) = 365 * y + (a + (if P then 1 else 0))
        - (b + (if Q then 1 else 0)) + (c + (if R then 1 else 0))"
      "year_start y = 365 * (y - 1) + a - b + c" "is_leap y \<longleftrightarrow> P \<and> (\<not> Q \<or> R)"
      "Q \<longrightarrow> P" "R \<longrightarrow> Q"
    using q d by (simp_all only: a_def b_def c_def is_leap_def)
  show ?thesis
    unfolding e(1-3) using e(4,5) by (cases P; cases Q; cases R) simp_all
qed

lemma year_start_bounds:
  "146097 * (y - 1) - 700 \<le> 400 * year_start y" "400 * year_start y < 146097 * (y - 1) + 400"
proof -
  define z where "z = y - 1"
  define a b c where "a = z div 4" and "b = z div 100" and "c = z div 400"
  have "4 * a \<le> z" "z < 4 * a + 4" "100 * b \<le> z" "z < 100 * b + 100" "400 * c \<le> z" "z < 400 * c + 400"
    unfolding a_def b_def c_def by (rule div_bounds; simp)+
  moreover have "year_start y = 365 * z + a - b + c"
    by (simp add: year_start_def a_def b_def c_def z_def)
  ultimately show "146097 * (y - 1) - 700 \<le> 400 * year_start y"
      "400 * year_start y < 146097 * (y - 1) + 400"
    unfolding z_def [symmetric] by linarith+
qed

lemma year_of_day:
  assumes "year_start y \<le> n" "n < year_start (y + 1)"
  shows "year_of_day n = y"
proof -
  define q where "q = 400 * n div 146097"
  have q: "146097 * q \<le> 400 * n" "400 * n < 146097 * q + 146097"
    using div_bounds [of 146097 "400 * n"] by (simp_all add: q_def)
  have "146097 * (y - 1) - 700 \<le> 400 * n"
    using year_start_bounds(1) [of y] assms(1) by linarith
  moreover have "400 * n < 146097 * y"
    using year_start_bounds(2) [of "y + 1"] assms(2) by simp
  ultimately have "y - 2 \<le> q \<and> q \<le> y - 1"
    using q by simp
  then have "q + 1 = y - 1 \<or> q + 1 = y"
    by linarith
  then show ?thesis
    unfolding year_of_day_def q_def [symmetric] Let_def using assms by (elim disjE) simp_all
qed

lemma month_days_length [simp]: "length (month_days leap) = 12"
  by (simp add: month_days_def)

lemma month_days_nonneg: "\<forall>k \<in> set (month_days leap). 0 \<le> k"
  by (simp add: month_days_def)

lemma month_from_split:
  "\<forall>k \<in> set ks. 0 \<le> k \<Longrightarrow> j < length ks \<Longrightarrow> 0 \<le> d \<Longrightarrow> d < ks ! j \<Longrightarrow>
   month_from ks m (sum_list (take j ks) + d) = (m + int j, d + 1)"
proof (induction ks arbitrary: m j)
  case (Cons k ks)
  show ?case
  proof (cases j)
    case 0
    then show ?thesis using Cons.prems by simp
  next
    case (Suc i)
    have nn: "0 \<le> sum_list (take i ks)"
      using Cons.prems(1) by (intro sum_list_nonneg) (auto dest: in_set_takeD)
    have "month_from ks (m + 1) (sum_list (take i ks) + d) = (m + 1 + int i, d + 1)"
      using Cons.prems Suc by (intro Cons.IH) auto
    then show ?thesis
      using Suc nn Cons.prems by (simp add: add.assoc)
  qed
qed simp

lemma day_in_year:
  assumes "valid_date y m d"
  shows "0 \<le> days_before (is_leap y) m + (d - 1)"
    "days_before (is_leap y) m + (d - 1) < (if is_leap y then 366 else 365)"
proof -
  have m: "m \<in> {1, 2, 3, 4, 5, 6, 7, 8, 9, 10, 11, 12}"
    using assms unfolding valid_date_def insert_iff empty_iff by presburger
  show "0 \<le> days_before (is_leap y) m + (d - 1)"
      "days_before (is_leap y) m + (d - 1) < (if is_leap y then 366 else 365)"
    using assms m
    by (cases "is_leap y"; auto simp: valid_date_def days_in_def days_before_def month_days_def eval_nat_numeral)+
qed

lemma civil_day_number:
  assumes "valid_date y m d"
  shows "civil (day_number y m d) = (y, m, d)"
proof -
  let ?n = "day_number y m d"
  have n: "year_start y \<le> ?n" "?n < year_start (y + 1)"
    using day_in_year [OF assms] by (simp_all add: day_number_def year_start_step)
  have mf: "month_from (month_days (is_leap y)) 1 (days_before (is_leap y) m + (d - 1)) = (m, d)"
    using month_from_split [OF month_days_nonneg, of "nat (m - 1)" "is_leap y" "d - 1" 1] assms
    by (simp add: nat_less_iff [of "m - 1"] valid_date_def days_in_def days_before_def)
  show ?thesis
    unfolding civil_def year_of_day [OF n] Let_def using mf by (simp add: day_number_def add.assoc)
qed

lemma year_of_day_bounds: "year_start (year_of_day n) \<le> n" "n < year_start (year_of_day n + 1)"
proof -
  define q where "q = 400 * n div 146097"
  have q: "146097 * q \<le> 400 * n" "400 * n < 146097 * q + 146097"
    using div_bounds [of 146097 "400 * n"] by (simp_all add: q_def)
  have a: "year_start (q + 1) \<le> n"
    using year_start_bounds(2) [of "q + 1"] q(1) by simp
  have b: "n < year_start (q + 3)"
    using year_start_bounds(1) [of "q + 3"] q(2) by simp
  have y: "year_of_day n = (if year_start (q + 2) \<le> n then q + 2 else q + 1)"
    unfolding year_of_day_def q_def [symmetric] Let_def by (simp add: add.commute)
  show "year_start (year_of_day n) \<le> n" "n < year_start (year_of_day n + 1)"
    using a b by (simp_all add: y add.commute)
qed

lemma month_from_found:
  "\<forall>k \<in> set ks. 0 < k \<Longrightarrow> 0 \<le> n \<Longrightarrow> n < sum_list ks \<Longrightarrow>
   \<exists>j < length ks. \<exists>d. month_from ks m n = (m + int j, d) \<and> 1 \<le> d \<and> d \<le> ks ! j
      \<and> sum_list (take j ks) + (d - 1) = n"
proof (induction ks arbitrary: m n)
  case (Cons k ks)
  show ?case
  proof (cases "n < k")
    case True
    then show ?thesis
      using Cons.prems by (intro exI [of _ 0]) auto
  next
    case False
    then obtain j d where "j < length ks" "month_from ks (m + 1) (n - k) = (m + 1 + int j, d)"
        "1 \<le> d" "d \<le> ks ! j" "sum_list (take j ks) + (d - 1) = n - k"
      using Cons.IH [of "n - k" "m + 1"] Cons.prems by fastforce
    then show ?thesis
      using False by (intro exI [of _ "Suc j"]) auto
  qed
qed simp

lemma month_days_pos: "\<forall>k \<in> set (month_days leap). 0 < k"
  by (simp add: month_days_def)

lemma month_days_sum: "sum_list (month_days leap) = (if leap then 366 else 365)"
  by (simp add: month_days_def)

lemma civil_valid:
  assumes "civil n = (y, m, d)"
  shows "valid_date y m d" "day_number y m d = n" "y = year_of_day n"
proof -
  have y: "y = year_of_day n"
    using assms by (simp add: civil_def Let_def split: prod.splits)
  have "0 \<le> n - year_start y" "n - year_start y < sum_list (month_days (is_leap y))"
    using year_of_day_bounds [of n] by (simp_all add: y month_days_sum year_start_step)
  then obtain j d' where j: "j < 12" "month_from (month_days (is_leap y)) 1 (n - year_start y) = (1 + int j, d')"
      "1 \<le> d'" "d' \<le> month_days (is_leap y) ! j" "sum_list (take j (month_days (is_leap y))) + (d' - 1) = n - year_start y"
    using month_from_found [OF month_days_pos, of "n - year_start y" "is_leap y" 1] by auto
  have md: "m = 1 + int j" "d = d'"
    using assms j(2) by (simp_all add: civil_def Let_def y)
  show "valid_date y m d" "day_number y m d = n" "y = year_of_day n"
    using j y by (simp_all add: md valid_date_def days_in_def day_number_def days_before_def)
qed

lemma civil_year_range:
  assumes "civil n = (y, m, d)" "- 300 \<le> n" "n \<le> 3652000"
  shows "0 \<le> y \<and> y \<le> 9999"
proof -
  have "year_start y \<le> n" "n < year_start (y + 1)"
    using civil_valid(3) [OF assms(1)] year_of_day_bounds by simp_all
  then show ?thesis
    using year_start_bounds(1) [of y] year_start_bounds(2) [of "y + 1"] assms(2,3) by simp
qed

section \<open>Printed dates\<close>

lemma digit_char:
  assumes "0 \<le> n" "n \<le> 9"
  shows "is_digit (digit_char n)" "int (digit_val (digit_char n)) = n"
  using assms by (simp_all add: is_digit_def digit_char_def digit_val_def nat_add_distrib)

lemma digit_char_val: "is_digit c \<Longrightarrow> digit_char (int (digit_val c)) = c \<and> digit_val c \<le> 9"
  unfolding is_digit_def digit_char_def digit_val_def by (auto simp: nat_add_distrib)

lemma length_pad_digits [simp]: "length (pad_digits k n) = k"
  by (induction k arbitrary: n) simp_all

lemma read_digits_snoc:
  "read_digits acc (s @ [c]) =
     (case read_digits acc s of
        Some v \<Rightarrow> if is_digit c then Some (v * 10 + int (digit_val c)) else None
      | None \<Rightarrow> None)"
  by (induction s arbitrary: acc) auto

lemma read_pad: "0 \<le> n \<Longrightarrow> n < 10 ^ k \<Longrightarrow> read_digits 0 (pad_digits k n) = Some n"
proof (induction k arbitrary: n)
  case (Suc k)
  have "read_digits 0 (pad_digits k (n div 10)) = Some (n div 10)"
    using Suc.prems div_bounds [of 10 n] by (intro Suc.IH) (simp_all add: pos_imp_zdiv_nonneg_iff)
  then show ?case
    using digit_char [of "n mod 10"] by (simp add: read_digits_snoc)
qed simp

lemma pad_read: "read_digits 0 s = Some v \<Longrightarrow> 0 \<le> v \<and> v < 10 ^ length s \<and> pad_digits (length s) v = s"
proof (induction s arbitrary: v rule: rev_induct)
  case (snoc c s)
  then obtain u where u: "read_digits 0 s = Some u" "is_digit c" "v = u * 10 + int (digit_val c)"
    by (auto simp: read_digits_snoc split: option.splits if_splits)
  have s: "0 \<le> u" "u < 10 ^ length s" "pad_digits (length s) u = s"
    using snoc.IH [OF u(1)] by simp_all
  have d: "digit_char (int (digit_val c)) = c" "digit_val c \<le> 9"
    using digit_char_val [OF u(2)] by simp_all
  have "v div 10 = u" "v mod 10 = int (digit_val c)"
    using d(2) by (simp_all add: u(3))
  then show ?case
    using s d u(3) by simp
qed simp

lemma days_in_le: "1 \<le> m \<Longrightarrow> m \<le> 12 \<Longrightarrow> days_in y m \<le> 31"
proof -
  assume m: "1 \<le> m" "m \<le> 12"
  have "month_days (is_leap y) ! nat (m - 1) \<in> set (month_days (is_leap y))"
    using m by (intro nth_mem) (simp add: nat_less_iff)
  moreover have "\<forall>k \<in> set (month_days (is_leap y)). k \<le> 31"
    by (simp add: month_days_def)
  ultimately show ?thesis
    by (simp add: days_in_def)
qed

lemma parse_date_iff:
  "parse_date s = Some (y, m, d) \<longleftrightarrow>
     s = format_date (y, m, d) \<and> 0 \<le> y \<and> y \<le> 9999 \<and> valid_date y m d"
proof
  assume a: "parse_date s = Some (y, m, d)"
  have len: "length s = 8"
    using a by (auto simp: parse_date_def split: if_splits)
  have r: "read_digits 0 (take 4 s) = Some y" "read_digits 0 (take 2 (drop 4 s)) = Some m"
      "read_digits 0 (drop 6 s) = Some d" "valid_date y m d"
    using a len by (auto simp: parse_date_def split: option.splits if_splits)
  have y: "0 \<le> y" "y < 10 ^ 4" "pad_digits 4 y = take 4 s"
    using pad_read [OF r(1)] len by simp_all
  have m: "pad_digits 2 m = take 2 (drop 4 s)" and d: "pad_digits 2 d = drop 6 s"
    using pad_read [OF r(2)] pad_read [OF r(3)] len by simp_all
  have "take 4 s @ take 2 (drop 4 s) @ drop 6 s = s"
    using append_take_drop_id [of 4 s] append_take_drop_id [of 2 "drop 4 s"] by simp
  then show "s = format_date (y, m, d) \<and> 0 \<le> y \<and> y \<le> 9999 \<and> valid_date y m d"
    using y m d r(4) by (simp add: format_date_def year_digits_def)
next
  assume a: "s = format_date (y, m, d) \<and> 0 \<le> y \<and> y \<le> 9999 \<and> valid_date y m d"
  have md: "0 \<le> m" "m < 10 ^ 2" "0 \<le> d" "d < 10 ^ 2"
    using a days_in_le [of m y] by (auto simp: valid_date_def)
  then show "parse_date s = Some (y, m, d)"
    using a read_pad [of y 4] read_pad [of m 2] read_pad [of d 2]
    by (simp add: parse_date_def format_date_def year_digits_def)
qed

section \<open>Service days in a location without clock changes\<close>

lemma unix_of_exact:
  assumes "0 \<le> t" "t \<le> 9000000000000000000 * nano"
  shows "unix_of t = t div nano - unix_to_internal"
proof -
  have "0 \<le> t div nano" "t div nano \<le> 9000000000000000000"
    using assms div_bounds [of nano t] by (simp_all add: nano_def pos_imp_zdiv_nonneg_iff)
  then show ?thesis
    by (simp add: unix_of_def wrap64_id unix_to_internal_def int64_defs)
qed

lemma go_Date_fixed:
  "go_Date (\<lambda>_. c) y m d clock ns =
     time_unix ((day_number y m d - epoch_day) * day_seconds + clock - c) + ns"
  by (simp add: go_Date_def Let_def)

lemma time_unix_exact:
  assumes "- unix_to_internal \<le> s" "s \<le> 9000000000000000000"
  shows "time_unix s = (s + unix_to_internal) * nano" "0 \<le> time_unix s"
    "time_unix s \<le> 9000000000000000000 * nano + unix_to_internal * nano"
  using assms by (simp_all add: time_unix_def wrap64_id unix_to_internal_def int64_defs nano_def)

lemma unix_of_time_unix_ns:
  assumes "- unix_to_internal \<le> s" "s \<le> 8000000000000000000" "0 \<le> ns" "ns < nano"
  shows "unix_of (time_unix s + ns) = s"
proof -
  have e: "time_unix s = (s + unix_to_internal) * nano"
    using time_unix_exact(1) [of s] assms by simp
  have "unix_of (time_unix s + ns) = (time_unix s + ns) div nano - unix_to_internal"
    using assms by (intro unix_of_exact) (simp_all add: e nano_def unix_to_internal_def)
  moreover have "(time_unix s + ns) div nano = s + unix_to_internal"
    using assms(3,4) by (simp add: e nano_def)
  ultimately show ?thesis by simp
qed

definition fixed_day :: "int \<Rightarrow> gotime \<Rightarrow> int" where  \<comment> \<open>the local day three hours ago\<close>
  "fixed_day c now = (unix_of now + c - 3 * 3600) div day_seconds + epoch_day"

lemma ServiceDate_fixed:
  assumes "\<bar>c\<bar> \<le> 86400" "300000 * nano \<le> now" "now \<le> 315000000000 * nano"
  shows "ServiceDate (\<lambda>_. c) now = format_date (civil (fixed_day c now))"
proof -
  define u where "u = unix_of now"
  have u: "u = now div nano - unix_to_internal"
    using assms by (simp add: u_def unix_of_exact nano_def)
  have ub: "300000 - unix_to_internal \<le> u" "u \<le> 315000000000 - unix_to_internal"
    using assms(2,3) div_bounds [of nano now] by (simp_all add: u nano_def)
  define D where "D = (u + c) div day_seconds"
  define k where "k = (u + c) mod day_seconds"
  have uc: "u + c = D * day_seconds + k" "0 \<le> k" "k < day_seconds"
    by (simp_all add: D_def k_def day_seconds_def)
  obtain y m d where ymd: "civil (D + epoch_day) = (y, m, d)"
    by (cases "civil (D + epoch_day)") auto
  have dn: "day_number y m d = D + epoch_day"
    using civil_valid(2) [OF ymd] .
  show ?thesis
  proof (cases "k div 3600 < 3")
    case False
    then have "3 * 3600 \<le> k"
      using div_bounds [of 3600 k] by linarith
    then have "fixed_day c now = D + epoch_day"
      using uc unfolding fixed_day_def u_def [symmetric]
      by (simp add: day_seconds_def div_pos_pos_trivial)
    then show ?thesis
      using False ymd
      by (simp add: ServiceDate_def serviceDayCutoffHour_def Hour_of_def Date_of_def local_seconds_def
          flip: u_def D_def k_def)
  next
    case True
    then have k3: "k < 3 * 3600"
      using div_bounds [of 3600 k] by linarith
    then have fd: "fixed_day c now = D - 1 + epoch_day"
      using uc unfolding fixed_day_def u_def [symmetric]
      by (simp add: day_seconds_def int_div_pos_eq [where q = "D - 1" and r = "k - 3 * 3600 + 86400"])
    define s where "s = (day_number y m (d - 1) - epoch_day) * day_seconds + k - c"
    have dn1: "day_number y m (d - 1) = D + epoch_day - 1"
      using dn by (simp add: day_number_def)
    have s: "s = u - day_seconds"
      unfolding s_def dn1 using uc(1) by (simp add: left_diff_distrib)
    have "unix_of (time_unix s + now mod nano) = s"
      using ub assms(1) by (intro unix_of_time_unix_ns) (simp_all add: s day_seconds_def nano_def unix_to_internal_def)
    then have "local_seconds (\<lambda>_. c) (time_unix s + now mod nano) div day_seconds = D - 1"
      using uc by (simp add: local_seconds_def s day_seconds_def int_div_pos_eq [where q = "D - 1" and r = k])
    then show ?thesis
      using True ymd fd
      by (simp add: ServiceDate_def serviceDayCutoffHour_def Hour_of_def Date_of_def local_seconds_def
          clock_of_def go_Date_fixed s_def flip: u_def D_def k_def)
  qed
qed

lemma ServiceDayStart_fixed:
  assumes "\<bar>c\<bar> \<le> 86400" "2 \<le> n" "n \<le> 3651000"
  shows "ServiceDayStart (format_date (civil n)) (\<lambda>_. c)
           = Some (((n - epoch_day) * day_seconds - c + unix_to_internal) * nano)"
proof -
  obtain y m d where ymd: "civil n = (y, m, d)"
    by (cases "civil n") auto
  have dn: "day_number y m d = n" and v: "valid_date y m d"
    using civil_valid [OF ymd] by simp_all
  have parse: "parse_date (format_date (civil n)) = Some (y, m, d)"
    using parse_date_iff [of "format_date (civil n)" y m d] civil_year_range [OF ymd] assms(2,3) v ymd by simp
  define s where "s = (n - epoch_day) * day_seconds - c"
  have day: "go_Date (\<lambda>_. c) y m d 0 0 = time_unix s"
    by (simp add: go_Date_fixed dn s_def)
  have lo: "- unix_to_internal \<le> s" and hi: "s \<le> 400000000000"
    using assms by (simp_all add: s_def day_seconds_def epoch_day_def unix_to_internal_def)
  have "unix_of (time_unix s + 0) = s"
    using lo hi by (intro unix_of_time_unix_ns) (simp_all add: nano_def)
  then have "Date_of (\<lambda>_. c) (time_unix s) = (y, m, d)"
    by (simp add: Date_of_def local_seconds_def s_def day_seconds_def ymd)
  then have "ServiceDayStart (format_date (civil n)) (\<lambda>_. c)
      = Some (time_add (go_Date (\<lambda>_. c) y m d (12 * 3600) 0) (- 12 * hour))"
    by (simp add: ServiceDayStart_def parse_in_location_def parse day)
  moreover have "go_Date (\<lambda>_. c) y m d (12 * 3600) 0 = time_unix (s + 12 * 3600)"
    by (simp add: go_Date_fixed dn s_def algebra_simps)
  moreover have "time_unix (s + 12 * 3600) = (s + 12 * 3600 + unix_to_internal) * nano"
    using lo hi by (intro time_unix_exact(1)) simp_all
  ultimately show ?thesis
    by (simp add: time_add_def time_units s_def algebra_simps)
qed

section \<open>Properties\<close>

text \<open>
  A service date prints and parses back: \<open>time.ParseInLocation\<close> with the layout \<open>20060102\<close>
  accepts exactly the printed form of the existing calendar days of the years 0 to 9999, and the
  day number of a date, which every service-day computation goes through, determines the date.
\<close>

theorem service_date_roundtrip:
  "parse_date s = Some (y, m, d) \<longleftrightarrow>
     s = format_date (civil (day_number y m d)) \<and> 0 \<le> y \<and> y \<le> 9999 \<and> valid_date y m d"
  using parse_date_iff [of s y m d] civil_day_number [of y m d] by auto

text \<open>
  In a location whose offset does not change, the service date of an instant starts at least
  three hours and less than twenty-seven hours before it: the date \<open>ServiceDate\<close> prints always
  parses again, and times before 03:00 belong to the previous service day.
\<close>

theorem service_day_window:
  assumes "\<bar>c\<bar> \<le> 86400" "300000 * nano \<le> now" "now \<le> 315000000000 * nano"
  shows "\<exists>start. ServiceDayStart (ServiceDate (\<lambda>_. c) now) (\<lambda>_. c) = Some start
           \<and> start + 3 * hour \<le> now \<and> now < start + 27 * hour"
proof -
  define u where "u = unix_of now"
  have u: "u = now div nano - unix_to_internal"
    using assms by (simp add: u_def unix_of_exact nano_def)
  have now: "(u + unix_to_internal) * nano \<le> now" "now < (u + unix_to_internal + 1) * nano"
    using div_bounds [of nano now] by (simp_all add: u nano_def algebra_simps)
  have ub: "300000 - unix_to_internal \<le> u" "u \<le> 315000000000 - unix_to_internal"
    using assms(2,3) div_bounds [of nano now] by (simp_all add: u nano_def)
  define q where "q = (u + c - 3 * 3600) div day_seconds"
  have fd: "fixed_day c now = q + epoch_day"
    by (simp add: fixed_day_def u_def q_def)
  have q: "day_seconds * q \<le> u + c - 3 * 3600" "u + c - 3 * 3600 < day_seconds * q + day_seconds"
    using div_bounds [of day_seconds "u + c - 3 * 3600"] by (simp_all add: q_def day_seconds_def)
  have "2 \<le> fixed_day c now" "fixed_day c now \<le> 3651000"
    using q ub assms(1) by (simp_all add: fd day_seconds_def epoch_day_def unix_to_internal_def)
  then have "ServiceDayStart (ServiceDate (\<lambda>_. c) now) (\<lambda>_. c)
      = Some ((q * day_seconds - c + unix_to_internal) * nano)"
    using assms(1) by (simp add: ServiceDate_fixed [OF assms] ServiceDayStart_fixed) (simp add: fd)
  moreover have "(q * day_seconds - c + unix_to_internal) * nano + 3 * hour \<le> now"
      "now < (q * day_seconds - c + unix_to_internal) * nano + 27 * hour"
    using q now by (simp_all add: time_units day_seconds_def)
  ultimately show ?thesis by blast
qed

theorem service_day_window_witness:
  "\<exists>start. ServiceDayStart (ServiceDate (\<lambda>_. - 28800) (63873680400 * nano)) (\<lambda>_. - 28800) = Some start
     \<and> start + 3 * hour \<le> 63873680400 * nano \<and> 63873680400 * nano < start + 27 * hour"
  by (rule service_day_window) (simp_all add: nano_def)

end
