(* ===== verification/Schedule.thy ===== *)
theory Schedule
  imports Shape Calendar
begin

text \<open>
  The schedule index (\<open>src/rider/index.go\<close>): how a parsed GTFS feed becomes the trips, routes and
  service calendars the rider engine looks up, and the questions asked of it. The parsed feed is
  the third-party parser's data type; only the fields the code reads are kept. \<open>time.LoadLocation\<close>
  is the parameter \<open>load_location\<close>. A pointer that may be nil is an \<open>option\<close>.
\<close>

section \<open>The parsed feed\<close>

record GStop =
  gs_Id :: string
  gs_Name :: string
  gs_Latitude :: "f64 option"
  gs_Longitude :: "f64 option"

record GStopTime =
  gst_Stop :: "GStop option"
  gst_StopSequence :: int
  gst_ArrivalTime :: duration
  gst_DepartureTime :: duration
  gst_ShapeDistanceTraveled :: "f64 option"

record GShape =
  gsh_ID :: string
  gsh_Points :: "LatLon list"

datatype GDirection = DirectionID_Unspecified | DirectionID_False | DirectionID_True

text \<open>A date of the feed is an instant with the location it was parsed in.\<close>

type_synonym gdate = "location \<times> gotime"

record GService =
  gsv_Id :: string
  gsv_Monday :: bool
  gsv_Tuesday :: bool
  gsv_Wednesday :: bool
  gsv_Thursday :: bool
  gsv_Friday :: bool
  gsv_Saturday :: bool
  gsv_Sunday :: bool
  gsv_StartDate :: gdate
  gsv_EndDate :: gdate
  gsv_AddedDates :: "gdate list"
  gsv_RemovedDates :: "gdate list"

record GRoute =
  gr_Id :: string
  gr_ShortName :: string
  gr_LongName :: string
  gr_Color :: string
  gr_TextColor :: string
  gr_Type :: int
  gr_SortOrder :: "int option"

record GTrip =
  gt_ID :: string
  gt_Route :: "GRoute option"
  gt_Service :: "GService option"
  gt_Shape :: "GShape option"
  gt_Headsign :: string
  gt_DirectionId :: GDirection
  gt_StopTimes :: "GStopTime list"

record Static =
  st_AgencyTimezones :: "string list"
  st_Services :: "GService list"
  st_Trips :: "GTrip list"
  st_Routes :: "GRoute list"

section \<open>The index\<close>

record StopTimeInfo =
  si_StopID :: string
  si_StopName :: string
  si_Sequence :: int
  si_AlongShape :: f64
  si_Arrival :: duration
  si_Departure :: duration
  si_Pos :: LatLon

record TripInfo =
  ti_ID :: string
  ti_RouteID :: string
  ti_ServiceID :: string
  ti_Headsign :: string
  ti_DirectionID :: int
  ti_Shape :: "ShapeGeom option"
  ti_StopTimes :: "StopTimeInfo list"

record RouteInfo =
  ri_ID :: string
  ri_ShortName :: string
  ri_LongName :: string
  ri_Color :: string
  ri_TextColor :: string
  ri_Type :: int
  ri_SortOrder :: "int option"

record serviceCalendar =
  sc_days :: "bool list"  \<comment> \<open>indexed by weekday, Sunday is 0\<close>
  sc_start :: int
  sc_end :: int
  sc_added :: "int set"
  sc_removed :: "int set"

record IndexStats =
  is_Routes :: nat
  is_Trips :: nat
  is_Shapes :: nat
  is_LoadedAt :: gotime
  is_Source :: string

record Index =
  ix_trips :: "string \<rightharpoonup> TripInfo"
  ix_tripIDs :: "string list"
  ix_routes :: "string \<rightharpoonup> RouteInfo"
  ix_routeList :: "RouteInfo list"
  ix_tripsByRoute :: "string \<rightharpoonup> TripInfo list"
  ix_services :: "string \<rightharpoonup> serviceCalendar"
  ix_tz :: location
  ix_stats :: IndexStats

definition shapeDistUnits :: "f64 list" where
  "shapeDistUnits = [Num 1, Num (3048 / 10000), Num 1000, Num (1609344 / 1000)]"

definition shapeDistMaxFraction :: f64 where "shapeDistMaxFraction = Num (105 / 100)"

definition stopPos :: "GStop option \<Rightarrow> LatLon option" where
  "stopPos stop =
     (case stop of
        None \<Rightarrow> None
      | Some s \<Rightarrow>
          (case (gs_Latitude s, gs_Longitude s) of
             (Some la, Some lo) \<Rightarrow> Some \<lparr>Lat = la, Lon = lo\<rparr>
           | _ \<Rightarrow> None))"

definition stopID :: "GStop option \<Rightarrow> string" where
  "stopID stop = (case stop of None \<Rightarrow> [] | Some s \<Rightarrow> gs_Id s)"

definition stopName :: "GStop option \<Rightarrow> string" where
  "stopName stop = (case stop of None \<Rightarrow> [] | Some s \<Rightarrow> gs_Name s)"

fun directionID :: "GDirection \<Rightarrow> int" where
  "directionID DirectionID_False = 0"
| "directionID DirectionID_True = 1"
| "directionID DirectionID_Unspecified = - 1"

text \<open>The last \<open>shape_dist_traveled\<close> of the trip, or nothing when some stop time has none.\<close>

fun last_dist :: "f64 \<Rightarrow> GStopTime list \<Rightarrow> f64 option" where
  "last_dist d [] = Some d"
| "last_dist d (st # sts) =
     (case gst_ShapeDistanceTraveled st of None \<Rightarrow> None | Some d' \<Rightarrow> last_dist d' sts)"

definition unit_step :: "f64 \<Rightarrow> f64 \<Rightarrow> f64 \<times> f64 \<Rightarrow> f64 \<times> f64" where
  "unit_step ratio unit best =
     (let fraction = fmul ratio unit
      in if fgt fraction (snd best) \<and> fle fraction shapeDistMaxFraction then (unit, fraction) else best)"

definition shapeDistScale :: "GStopTime list \<Rightarrow> f64 \<Rightarrow> f64 option" where
  "shapeDistScale stopTimes shapeLength =
     (if stopTimes = [] then None
      else case last_dist (Num 0) stopTimes of
             None \<Rightarrow> None
           | Some lst \<Rightarrow>
               if fle lst (Num 0) then None
               else if fle shapeLength (Num 0) then Some (Num 1)
               else
                 (let best = fst (fold (unit_step (fdiv lst shapeLength)) shapeDistUnits (Num 0, Num 0))
                  in if feq best (Num 0) then None else Some best))"

text \<open>\<open>prev\<close> is the position of the stop before, nothing for the first one.\<close>

fun place_stops :: "ShapeGeom \<Rightarrow> f64 option \<Rightarrow> f64 option \<Rightarrow> GStopTime list \<Rightarrow> StopTimeInfo list" where
  "place_stops shape scale prev [] = []"
| "place_stops shape scale prev (st # sts) =
     (let located = stopPos (gst_Stop st);
          along = (case scale of
                     Some k \<Rightarrow> (case gst_ShapeDistanceTraveled st of Some d \<Rightarrow> fmul d k | None \<Rightarrow> Num 0)
                   | None \<Rightarrow>
                       (case located of
                          Some pos \<Rightarrow> pr_AlongShape (Project shape pos prev)
                        | None \<Rightarrow> (case prev of Some a \<Rightarrow> a | None \<Rightarrow> Num 0)));
          pos = (case located of Some p \<Rightarrow> p | None \<Rightarrow> PointAt shape along)
      in \<lparr>si_StopID = stopID (gst_Stop st), si_StopName = stopName (gst_Stop st),
          si_Sequence = gst_StopSequence st, si_AlongShape = along,
          si_Arrival = gst_ArrivalTime st, si_Departure = gst_DepartureTime st, si_Pos = pos\<rparr>
         # place_stops shape scale (Some along) sts)"

definition stopTimesAlong :: "GStopTime list \<Rightarrow> ShapeGeom \<Rightarrow> StopTimeInfo list" where
  "stopTimesAlong stopTimes shape =
     (let sorted = stable_sort (\<lambda>a b. cmp (gst_StopSequence a) (gst_StopSequence b)) stopTimes
      in place_stops shape (shapeDistScale sorted (sg_Length shape)) None sorted)"

definition gdateKey :: "gdate \<Rightarrow> int" where
  "gdateKey d = dateKey (fst d) (snd d)"

definition newServiceCalendar :: "GService \<Rightarrow> serviceCalendar" where
  "newServiceCalendar svc =
     \<lparr>sc_days = [gsv_Sunday svc, gsv_Monday svc, gsv_Tuesday svc, gsv_Wednesday svc, gsv_Thursday svc,
                 gsv_Friday svc, gsv_Saturday svc],
      sc_start = gdateKey (gsv_StartDate svc), sc_end = gdateKey (gsv_EndDate svc),
      sc_added = gdateKey ` set (gsv_AddedDates svc), sc_removed = gdateKey ` set (gsv_RemovedDates svc)\<rparr>"

definition feedTimezone :: "(string \<Rightarrow> location option) \<Rightarrow> Static \<Rightarrow> location option" where
  "feedTimezone load_location static =
     (case st_AgencyTimezones static of [] \<Rightarrow> None | name # _ \<Rightarrow> load_location name)"

text \<open>The cache maps a shape's ID to its geometry.\<close>

definition shapeFor ::
  "(string \<rightharpoonup> ShapeGeom) \<Rightarrow> GShape option \<Rightarrow> (string \<rightharpoonup> ShapeGeom) \<times> ShapeGeom option" where
  "shapeFor cache shape =
     (case shape of
        None \<Rightarrow> (cache, None)
      | Some sh \<Rightarrow>
          if length (gsh_Points sh) < 2 then (cache, None)
          else (case cache (gsh_ID sh) of
                  Some geom \<Rightarrow> (cache, Some geom)
                | None \<Rightarrow>
                    (case NewShapeGeom (gsh_Points sh) of
                       Some geom \<Rightarrow> (cache(gsh_ID sh \<mapsto> geom), Some geom)
                     | None \<Rightarrow> (cache, None))))"

section \<open>Display order\<close>

definition leadingNumber :: "string \<Rightarrow> (int \<times> string) option" where
  "leadingNumber s =
     (let ds = takeWhile is_digit s
      in if ds = [] then None
         else (case read_digits 0 ds of
                 Some n \<Rightarrow> if n \<le> max_int64 then Some (n, dropWhile is_digit s) else None
               | None \<Rightarrow> None))"

definition compareNatural :: "string \<Rightarrow> string \<Rightarrow> int" where
  "compareNatural a b =
     (case (leadingNumber a, leadingNumber b) of
        (Some (an, arest), Some (bn, brest)) \<Rightarrow> if cmp an bn \<noteq> 0 then cmp an bn else cmp arest brest
      | (Some _, None) \<Rightarrow> - 1
      | (None, Some _) \<Rightarrow> 1
      | (None, None) \<Rightarrow> cmp a b)"

definition compareNames :: "RouteInfo \<Rightarrow> RouteInfo \<Rightarrow> int" where
  "compareNames a b =
     (if compareNatural (ri_ShortName a) (ri_ShortName b) \<noteq> 0
      then compareNatural (ri_ShortName a) (ri_ShortName b)
      else cmp (ri_LongName a) (ri_LongName b))"

definition compareRoutes :: "RouteInfo \<Rightarrow> RouteInfo \<Rightarrow> int" where
  "compareRoutes a b =
     (case (ri_SortOrder a, ri_SortOrder b) of
        (Some x, Some y) \<Rightarrow> if cmp x y \<noteq> 0 then cmp x y else compareNames a b
      | (Some _, None) \<Rightarrow> - 1
      | (None, Some _) \<Rightarrow> 1
      | (None, None) \<Rightarrow> compareNames a b)"

definition compareDepartures :: "TripInfo \<Rightarrow> TripInfo \<Rightarrow> int" where
  "compareDepartures a b =
     (let c = cmp (si_Departure (ti_StopTimes a ! 0)) (si_Departure (ti_StopTimes b ! 0))
      in if c \<noteq> 0 then c else cmp (ti_ID a) (ti_ID b))"

section \<open>Building the index\<close>

record Building =
  bd_trips :: "string \<rightharpoonup> TripInfo"
  bd_tripIDs :: "string list"
  bd_tripsByRoute :: "string \<rightharpoonup> TripInfo list"
  bd_shapes :: "string \<rightharpoonup> ShapeGeom"

text \<open>One round of the loop over the feed's trips.\<close>

definition index_trip :: "GTrip \<Rightarrow> Building \<Rightarrow> Building" where
  "index_trip trip b =
     (case shapeFor (bd_shapes b) (gt_Shape trip) of
        (shapes, None) \<Rightarrow> b\<lparr>bd_shapes := shapes\<rparr>
      | (shapes, Some shape) \<Rightarrow>
          if gt_StopTimes trip = [] then b\<lparr>bd_shapes := shapes\<rparr>
          else
            (let info = \<lparr>ti_ID = gt_ID trip,
                         ti_RouteID = (case gt_Route trip of None \<Rightarrow> [] | Some r \<Rightarrow> gr_Id r),
                         ti_ServiceID = (case gt_Service trip of None \<Rightarrow> [] | Some v \<Rightarrow> gsv_Id v),
                         ti_Headsign = gt_Headsign trip,
                         ti_DirectionID = directionID (gt_DirectionId trip),
                         ti_Shape = Some shape,
                         ti_StopTimes = stopTimesAlong (gt_StopTimes trip) shape\<rparr>;
                 byRoute = bd_tripsByRoute b
             in b\<lparr>bd_shapes := shapes,
                  bd_trips := (bd_trips b)(ti_ID info \<mapsto> info),
                  bd_tripIDs := bd_tripIDs b @ [ti_ID info],
                  bd_tripsByRoute :=
                    (case gt_Route trip of
                       None \<Rightarrow> byRoute
                     | Some r \<Rightarrow> byRoute(gr_Id r \<mapsto> (case byRoute (gr_Id r) of None \<Rightarrow> [] | Some ts \<Rightarrow> ts) @ [info]))\<rparr>))"

definition route_info :: "GRoute \<Rightarrow> RouteInfo" where
  "route_info r =
     \<lparr>ri_ID = gr_Id r, ri_ShortName = gr_ShortName r, ri_LongName = gr_LongName r, ri_Color = gr_Color r,
      ri_TextColor = gr_TextColor r, ri_Type = gr_Type r, ri_SortOrder = gr_SortOrder r\<rparr>"

definition BuildIndex ::
  "(string \<Rightarrow> location option) \<Rightarrow> Static \<Rightarrow> string \<Rightarrow> gotime \<Rightarrow> Index option" where  \<comment> \<open>\<open>None\<close> is the error\<close>
  "BuildIndex load_location static source loadedAt =
     (case feedTimezone load_location static of
        None \<Rightarrow> None
      | Some tz \<Rightarrow>
          (let services = fold (\<lambda>svc m. m(gsv_Id svc \<mapsto> newServiceCalendar svc)) (st_Services static) Map.empty;
               b = fold index_trip (st_Trips static)
                     \<lparr>bd_trips = Map.empty, bd_tripIDs = [], bd_tripsByRoute = Map.empty, bd_shapes = Map.empty\<rparr>;
               byRoute = (\<lambda>r. map_option (stable_sort compareDepartures) (bd_tripsByRoute b r));
               used = filter (\<lambda>r. byRoute (gr_Id r) \<noteq> None) (st_Routes static);
               routes = fold (\<lambda>r m. m(gr_Id r \<mapsto> route_info r)) used Map.empty;
               routeList = stable_sort compareRoutes (map route_info used)
           in Some \<lparr>ix_trips = bd_trips b, ix_tripIDs = sort (bd_tripIDs b), ix_routes = routes,
                    ix_routeList = routeList, ix_tripsByRoute = byRoute, ix_services = services, ix_tz = tz,
                    ix_stats = \<lparr>is_Routes = length routeList, is_Trips = card (dom (bd_trips b)),
                                is_Shapes = card (dom (bd_shapes b)), is_LoadedAt = loadedAt,
                                is_Source = source\<rparr>\<rparr>))"

section \<open>Questions\<close>

definition Trip :: "Index \<Rightarrow> string \<Rightarrow> TripInfo option" where
  "Trip ix i = ix_trips ix i"

definition TripIDs :: "Index \<Rightarrow> string list" where
  "TripIDs ix = ix_tripIDs ix"

definition Routes :: "Index \<Rightarrow> RouteInfo list" where
  "Routes ix = ix_routeList ix"

definition Route :: "Index \<Rightarrow> string \<Rightarrow> RouteInfo option" where
  "Route ix i = ix_routes ix i"

definition serviceDay :: "Index \<Rightarrow> string \<Rightarrow> (gotime \<times> int) option" where
  "serviceDay ix serviceDate =
     (case parse_in_location (ix_tz ix) serviceDate of
        None \<Rightarrow> None
      | Some day \<Rightarrow> Some (day, dateKey (ix_tz ix) day))"

definition activeOn :: "Index \<Rightarrow> TripInfo option \<Rightarrow> gotime \<Rightarrow> int \<Rightarrow> bool" where
  "activeOn ix trip day key =
     (case trip of
        None \<Rightarrow> False
      | Some t \<Rightarrow>
          (case ix_services ix (ti_ServiceID t) of
             None \<Rightarrow> False
           | Some svc \<Rightarrow>
               if key \<in> sc_removed svc then False
               else if key \<in> sc_added svc then True
               else sc_start svc \<le> key \<and> key \<le> sc_end svc \<and> sc_days svc ! Weekday_of (ix_tz ix) day))"

definition ActiveOn :: "Index \<Rightarrow> TripInfo option \<Rightarrow> string \<Rightarrow> bool" where
  "ActiveOn ix trip serviceDate =
     (case serviceDay ix serviceDate of None \<Rightarrow> False | Some (day, key) \<Rightarrow> activeOn ix trip day key)"

definition TripsOnRoute :: "Index \<Rightarrow> string \<Rightarrow> string \<Rightarrow> TripInfo list" where
  "TripsOnRoute ix routeID serviceDate =
     (case serviceDay ix serviceDate of
        None \<Rightarrow> []
      | Some (day, key) \<Rightarrow>
          filter (\<lambda>t. activeOn ix (Some t) day key)
            (case ix_tripsByRoute ix routeID of None \<Rightarrow> [] | Some ts \<Rightarrow> ts))"

definition ServiceDateFor :: "Index \<Rightarrow> TripInfo option \<Rightarrow> gotime \<Rightarrow> string" where
  "ServiceDateFor ix trip now =
     (let date = ServiceDate (ix_tz ix) now;
          calendarDay = format_date (Date_of (ix_tz ix) now)
      in if ActiveOn ix trip date then date
         else if ActiveOn ix trip calendarDay then calendarDay
         else date)"

text \<open>The loop of \<open>ScheduledOffsetAt\<close> over consecutive stops.\<close>

fun interpolate :: "f64 \<Rightarrow> StopTimeInfo \<Rightarrow> StopTimeInfo list \<Rightarrow> duration \<Rightarrow> duration" where
  "interpolate along a [] dflt = dflt"
| "interpolate along a (b # bs) dflt =
     (if fgt along (si_AlongShape b) then interpolate along b bs dflt
      else
        (let span = fsub (si_AlongShape b) (si_AlongShape a)
         in if fle span (Num 0) then si_Departure a
            else
              (let fraction = fdiv (fsub along (si_AlongShape a)) span
               in dur_add (si_Departure a)
                    (f_to_int64 (fmul fraction (Num (of_int (wrap64 (si_Arrival b - si_Departure a)))))))))"

definition ScheduledOffsetAt :: "TripInfo option \<Rightarrow> f64 \<Rightarrow> duration" where
  "ScheduledOffsetAt trip along =
     (case trip of
        None \<Rightarrow> 0
      | Some t \<Rightarrow>
          (case ti_StopTimes t of
             [] \<Rightarrow> 0
           | first # rest \<Rightarrow>
               (let lst = last (first # rest)
                in if fle along (si_AlongShape first) then si_Arrival first
                   else if fge along (si_AlongShape lst) then si_Arrival lst
                   else interpolate along first rest (si_Arrival lst))))"

section \<open>The display order is an order\<close>

definition natural_key :: "string \<Rightarrow> int \<times> int \<times> string" where
  "natural_key s = (case leadingNumber s of Some (n, r) \<Rightarrow> (0, n, r) | None \<Rightarrow> (1, 0, s))"

lemma compareNatural_comparison: "comparison compareNatural"
  by (rule comparison_key [where k = natural_key])
    (auto simp: compareNatural_def natural_key_def less_eq_prod_simp split: option.splits if_splits)

lemma compareNames_comparison: "comparison compareNames"
  by (rule comparison_lex [OF comparison_on [OF compareNatural_comparison] comparison_cmp])
    (simp add: compareNames_def)

definition compareSortOrder :: "RouteInfo \<Rightarrow> RouteInfo \<Rightarrow> int" where
  "compareSortOrder a b =
     (case (ri_SortOrder a, ri_SortOrder b) of
        (Some x, Some y) \<Rightarrow> cmp x y
      | (Some _, None) \<Rightarrow> - 1
      | (None, Some _) \<Rightarrow> 1
      | (None, None) \<Rightarrow> 0)"

definition sort_order_key :: "RouteInfo \<Rightarrow> int \<times> int" where
  "sort_order_key r = (case ri_SortOrder r of Some x \<Rightarrow> (0, x) | None \<Rightarrow> (1, 0))"

lemma compareRoutes_comparison: "comparison compareRoutes"
proof -
  have "comparison compareSortOrder"
    by (rule comparison_key [where k = sort_order_key])
      (auto simp: compareSortOrder_def sort_order_key_def less_eq_prod_simp split: option.splits)
  then show ?thesis
    by (rule comparison_lex [OF _ compareNames_comparison])
      (auto simp: compareRoutes_def compareSortOrder_def split: option.splits)
qed

lemma compareDepartures_comparison: "comparison compareDepartures"
  by (rule comparison_lex [OF comparison_cmp comparison_cmp]) (simp add: compareDepartures_def Let_def)

section \<open>The scheduled position\<close>

text \<open>A timetable that runs forward, in space and in time.\<close>

fun timetable_ok :: "StopTimeInfo list \<Rightarrow> bool" where
  "timetable_ok [] = False"
| "timetable_ok [a] =
     (f_is_num (si_AlongShape a) \<and> 0 \<le> si_Arrival a \<and> si_Arrival a \<le> si_Departure a
      \<and> si_Departure a \<le> 2 ^ 62)"
| "timetable_ok (a # b # r) =
     (f_is_num (si_AlongShape a) \<and> 0 \<le> si_Arrival a \<and> si_Arrival a \<le> si_Departure a
      \<and> si_Departure a \<le> si_Arrival b \<and> fle (si_AlongShape a) (si_AlongShape b) \<and> timetable_ok (b # r))"

lemma timetable_okD:
  assumes "timetable_ok (a # r)"
  shows "f_is_num (si_AlongShape a)" "0 \<le> si_Arrival a" "si_Arrival a \<le> si_Departure a"
    "r \<noteq> [] \<Longrightarrow> timetable_ok r"
  using assms by (cases r; simp)+

lemma timetable_last:
  "timetable_ok xs \<Longrightarrow> f_is_num (si_AlongShape (last xs)) \<and> si_Departure (last xs) \<le> 2 ^ 62
     \<and> si_Arrival (hd xs) \<le> si_Arrival (last xs) \<and> fle (si_AlongShape (hd xs)) (si_AlongShape (last xs))
     \<and> 0 \<le> si_Arrival (last xs) \<and> si_Arrival (last xs) \<le> si_Departure (last xs)"
  by (induction xs rule: timetable_ok.induct) (auto simp: f_is_num_iff intro: fle_trans)

lemma f_to_int64_fraction:
  assumes "0 \<le> f" "f \<le> 1" "0 \<le> n" "n \<le> 2 ^ 62"
  shows "f_to_int64 (fmul (Num f) (Num (real_of_int n))) = \<lfloor>f * real_of_int n\<rfloor>"
    "0 \<le> \<lfloor>f * real_of_int n\<rfloor>" "\<lfloor>f * real_of_int n\<rfloor> \<le> n"
proof -
  have b: "0 \<le> f * real_of_int n" "f * real_of_int n \<le> real_of_int n"
    using assms mult_left_le_one_le [of "real_of_int n" f] by simp_all
  show c: "0 \<le> \<lfloor>f * real_of_int n\<rfloor>" "\<lfloor>f * real_of_int n\<rfloor> \<le> n"
    using b by (simp_all add: floor_le_iff)
  have n: "n \<le> max_int64"
    using assms(4) by (simp add: max_int64_def)
  show "f_to_int64 (fmul (Num f) (Num (real_of_int n))) = \<lfloor>f * real_of_int n\<rfloor>"
    using f_to_int64_nonneg [OF b(1)] order_trans [OF c(2) n] by simp
qed

lemma interpolate_between:
  assumes "timetable_ok (a # b # r)" "si_AlongShape a = Num p" "si_AlongShape b = Num q" "p < x" "x \<le> q"
  shows "interpolate (Num x) a (b # r) dflt
           = si_Departure a + \<lfloor>(x - p) / (q - p) * real_of_int (si_Arrival b - si_Departure a)\<rfloor>"
    "si_Departure a \<le> interpolate (Num x) a (b # r) dflt" "interpolate (Num x) a (b # r) dflt \<le> si_Arrival b"
proof -
  have t: "0 \<le> si_Departure a" "si_Departure a \<le> si_Arrival b" "si_Arrival b \<le> 2 ^ 62"
    using assms(1) timetable_last [of "b # r"] by simp_all
  have w: "wrap64 (si_Arrival b - si_Departure a) = si_Arrival b - si_Departure a"
    using t by (intro wrap64_id) (simp_all add: int64_defs)
  let ?f = "(x - p) / (q - p)"
  let ?n = "si_Arrival b - si_Departure a"
  have f: "0 \<le> ?f" "?f \<le> 1" "0 \<le> ?n" "?n \<le> 2 ^ 62"
    using assms t by (simp_all add: divide_simps)
  have "wrap64 (si_Departure a + \<lfloor>?f * real_of_int ?n\<rfloor>) = si_Departure a + \<lfloor>?f * real_of_int ?n\<rfloor>"
    by (rule wrap64_sum) (use f_to_int64_fraction(2,3) [OF f] t in linarith)+
  then show e: "interpolate (Num x) a (b # r) dflt = si_Departure a + \<lfloor>?f * real_of_int ?n\<rfloor>"
    using assms f_to_int64_fraction(1) [OF f] by (simp add: Let_def w dur_add_def)
  show "si_Departure a \<le> interpolate (Num x) a (b # r) dflt" "interpolate (Num x) a (b # r) dflt \<le> si_Arrival b"
    unfolding e using f_to_int64_fraction(2,3) [OF f] by simp_all
qed

lemma interpolate_range:
  "timetable_ok (a # bs) \<Longrightarrow> flt (si_AlongShape a) (Num x) \<Longrightarrow> fle (Num x) (si_AlongShape (last (a # bs))) \<Longrightarrow>
   si_Departure a \<le> interpolate (Num x) a bs dflt \<and> interpolate (Num x) a bs dflt \<le> si_Arrival (last (a # bs))"
proof (induction bs arbitrary: a)
  case Nil
  then show ?case using fgt_not_fle [of "si_AlongShape a" "Num x"] by simp
next
  case (Cons b r)
  obtain p q where pq: "si_AlongShape a = Num p" "si_AlongShape b = Num q"
    using Cons.prems(1) timetable_okD(1) [of b r] by (auto simp: f_is_num_iff)
  have br: "timetable_ok (b # r)" "si_Departure a \<le> si_Arrival b" "si_Arrival b \<le> si_Departure b"
    using Cons.prems(1) timetable_okD(3) [of b r] by simp_all
  show ?case
  proof (cases "q < x")
    case True
    then have "si_Departure b \<le> interpolate (Num x) b r dflt \<and> interpolate (Num x) b r dflt \<le> si_Arrival (last (b # r))"
      using Cons.prems pq by (intro Cons.IH [OF br(1)]) simp_all
    then show ?thesis
      using True pq br by simp
  next
    case False
    then show ?thesis
      using interpolate_between(2,3) [OF Cons.prems(1) pq, of x dflt] Cons.prems pq timetable_last [OF br(1)]
      by auto
  qed
qed

lemma interpolate_mono:
  "timetable_ok (a # bs) \<Longrightarrow> flt (si_AlongShape a) (Num x) \<Longrightarrow> x \<le> y \<Longrightarrow> fle (Num y) (si_AlongShape (last (a # bs))) \<Longrightarrow>
   interpolate (Num x) a bs dflt \<le> interpolate (Num y) a bs dflt"
proof (induction bs arbitrary: a)
  case Nil
  then show ?case by simp
next
  case (Cons b r)
  obtain p q where pq: "si_AlongShape a = Num p" "si_AlongShape b = Num q"
    using Cons.prems(1) timetable_okD(1) [of b r] by (auto simp: f_is_num_iff)
  have br: "timetable_ok (b # r)" "si_Arrival b \<le> si_Departure b" "si_Departure a \<le> si_Arrival b"
    using Cons.prems(1) timetable_okD(3) [of b r] by simp_all
  consider "y \<le> q" | "x \<le> q" "q < y" | "q < x"
    by linarith
  then show ?case
  proof cases
    case 1
    have "(x - p) / (q - p) * real_of_int (si_Arrival b - si_Departure a)
        \<le> (y - p) / (q - p) * real_of_int (si_Arrival b - si_Departure a)"
      using 1 Cons.prems pq br(3) by (intro mult_right_mono divide_right_mono) simp_all
    then show ?thesis
      using 1 Cons.prems pq interpolate_between(1) [OF Cons.prems(1) pq, of x dflt]
        interpolate_between(1) [OF Cons.prems(1) pq, of y dflt] by (simp add: floor_mono)
  next
    case 2
    have "si_Departure b \<le> interpolate (Num y) b r dflt"
      using interpolate_range [OF br(1), of y dflt] 2 Cons.prems pq by simp
    then show ?thesis
      using 2 Cons.prems pq br(2) interpolate_between(3) [OF Cons.prems(1) pq, of x dflt] by simp
  next
    case 3
    then have "interpolate (Num x) b r dflt \<le> interpolate (Num y) b r dflt"
      using Cons.prems pq by (intro Cons.IH [OF br(1)]) simp_all
    then show ?thesis
      using 3 pq Cons.prems(3) by simp
  qed
qed

section \<open>The unit of shape_dist_traveled\<close>

lemma unit_fold:
  assumes "0 < r" "0 \<le> u0"
  shows "\<exists>u. fold (unit_step (Num r)) (map Num us) (Num u0, Num (r * u0)) = (Num u, Num (r * u))
     \<and> u0 \<le> u \<and> (u = u0 \<or> u \<in> set us \<and> r * u \<le> 105 / 100)
     \<and> (\<forall>v \<in> set us. r * v \<le> 105 / 100 \<longrightarrow> v \<le> u)"
  using assms(2)
proof (induction us arbitrary: u0)
  case (Cons a us)
  show ?case
  proof (cases "u0 < a \<and> r * a \<le> 105 / 100")
    case True
    then have "unit_step (Num r) (Num a) (Num u0, Num (r * u0)) = (Num a, Num (r * a))"
      using assms(1) by (simp add: unit_step_def Let_def shapeDistMaxFraction_def)
    then show ?thesis
      using Cons.IH [of a] Cons.prems True by fastforce
  next
    case False
    then have "unit_step (Num r) (Num a) (Num u0, Num (r * u0)) = (Num u0, Num (r * u0))"
      using assms(1) by (auto simp: unit_step_def Let_def shapeDistMaxFraction_def)
    then show ?thesis
      using Cons.IH [of u0] Cons.prems False by fastforce
  qed
qed simp

lemma shapeDistUnits_map: "shapeDistUnits = map Num [1, 3048 / 10000, 1000, 1609344 / 1000]"
  by (simp add: shapeDistUnits_def)

section \<open>What BuildIndex builds\<close>

definition trip_ok :: "TripInfo \<Rightarrow> bool" where
  "trip_ok t \<longleftrightarrow> ti_StopTimes t \<noteq> [] \<and> sorted (map si_Sequence (ti_StopTimes t))
     \<and> (\<exists>pts shape. ti_Shape t = Some shape \<and> NewShapeGeom pts = Some shape)"

definition index_ok :: "Index \<Rightarrow> bool" where
  "index_ok ix \<longleftrightarrow>
     sorted (ix_tripIDs ix) \<and> set (ix_tripIDs ix) = dom (ix_trips ix)
     \<and> (\<forall>i t. ix_trips ix i = Some t \<longrightarrow> ti_ID t = i \<and> trip_ok t)
     \<and> (\<forall>r ts. ix_tripsByRoute ix r = Some ts \<longrightarrow>
          ts \<noteq> [] \<and> sorted_wrt (\<lambda>a b. compareDepartures a b \<le> 0) ts
          \<and> (\<forall>t \<in> set ts. ti_RouteID t = r \<and> ti_ID t \<in> dom (ix_trips ix) \<and> trip_ok t))
     \<and> sorted_wrt (\<lambda>a b. compareRoutes a b \<le> 0) (ix_routeList ix)
     \<and> ri_ID ` set (ix_routeList ix) = dom (ix_routes ix)
     \<and> dom (ix_routes ix) \<subseteq> dom (ix_tripsByRoute ix)"

lemma place_stops_sequence: "map si_Sequence (place_stops shape scale prev sts) = map gst_StopSequence sts"
  by (induction sts arbitrary: prev) (simp_all add: Let_def)

lemma place_stops_nil [simp]: "place_stops shape scale prev sts = [] \<longleftrightarrow> sts = []"
  by (cases sts) (simp_all add: Let_def)

lemma stopTimesAlong_sequence: "sorted (map si_Sequence (stopTimesAlong sts shape))"
proof -
  have "sorted_wrt (\<lambda>a b. cmp (gst_StopSequence a) (gst_StopSequence b) \<le> 0)
      (stable_sort (\<lambda>a b. cmp (gst_StopSequence a) (gst_StopSequence b)) sts)"
    by (rule stable_sort_sorted) simp
  then show ?thesis
    by (simp add: stopTimesAlong_def Let_def place_stops_sequence sorted_map)
qed

lemma stopTimesAlong_nil [simp]: "stopTimesAlong sts shape = [] \<longleftrightarrow> sts = []"
  by (simp add: stopTimesAlong_def Let_def) (metis length_0_conv stable_sort_length)

definition shapes_ok :: "(string \<rightharpoonup> ShapeGeom) \<Rightarrow> bool" where
  "shapes_ok c \<longleftrightarrow> (\<forall>i g. c i = Some g \<longrightarrow> (\<exists>pts. NewShapeGeom pts = Some g))"

lemma shapeFor_ok:
  assumes "shapes_ok c" "shapeFor c shape = (c', g)"
  shows "shapes_ok c'" "g = Some geom \<Longrightarrow> \<exists>pts. NewShapeGeom pts = Some geom"
  using assms by (auto simp: shapeFor_def shapes_ok_def split: option.splits if_splits)

definition building_ok :: "Building \<Rightarrow> bool" where
  "building_ok b \<longleftrightarrow> shapes_ok (bd_shapes b) \<and> set (bd_tripIDs b) = dom (bd_trips b)
     \<and> (\<forall>i t. bd_trips b i = Some t \<longrightarrow> ti_ID t = i \<and> trip_ok t)
     \<and> (\<forall>r ts. bd_tripsByRoute b r = Some ts \<longrightarrow>
          ts \<noteq> [] \<and> (\<forall>t \<in> set ts. ti_RouteID t = r \<and> ti_ID t \<in> dom (bd_trips b) \<and> trip_ok t))"

lemma index_trip_ok:
  assumes "building_ok b"
  shows "building_ok (index_trip trip b)"
proof -
  obtain c g where sf: "shapeFor (bd_shapes b) (gt_Shape trip) = (c, g)"
    by (cases "shapeFor (bd_shapes b) (gt_Shape trip)")
  have c: "shapes_ok c" "\<And>geom. g = Some geom \<Longrightarrow> \<exists>pts. NewShapeGeom pts = Some geom"
    using shapeFor_ok [OF _ sf] assms by (simp_all add: building_ok_def)
  show ?thesis
  proof (cases "g = None \<or> gt_StopTimes trip = []")
    case True
    then show ?thesis
      using assms c(1) by (auto simp: index_trip_def sf building_ok_def split: option.splits)
  next
    case False
    then obtain geom pts where geom: "g = Some geom" "NewShapeGeom pts = Some geom"
      using c(2) by (cases g) auto
    define info where "info = \<lparr>ti_ID = gt_ID trip,
       ti_RouteID = (case gt_Route trip of None \<Rightarrow> [] | Some r \<Rightarrow> gr_Id r),
       ti_ServiceID = (case gt_Service trip of None \<Rightarrow> [] | Some v \<Rightarrow> gsv_Id v),
       ti_Headsign = gt_Headsign trip, ti_DirectionID = directionID (gt_DirectionId trip),
       ti_Shape = Some geom, ti_StopTimes = stopTimesAlong (gt_StopTimes trip) geom\<rparr>"
    have info: "trip_ok info" "ti_ID info = gt_ID trip"
        "\<And>r. gt_Route trip = Some r \<Longrightarrow> ti_RouteID info = gr_Id r"
      using False geom(2) by (auto simp: info_def trip_ok_def stopTimesAlong_sequence)
    have "index_trip trip b = b\<lparr>bd_shapes := c, bd_trips := (bd_trips b)(ti_ID info \<mapsto> info),
        bd_tripIDs := bd_tripIDs b @ [ti_ID info],
        bd_tripsByRoute := (case gt_Route trip of None \<Rightarrow> bd_tripsByRoute b
          | Some r \<Rightarrow> (bd_tripsByRoute b)(gr_Id r \<mapsto>
              (case bd_tripsByRoute b (gr_Id r) of None \<Rightarrow> [] | Some ts \<Rightarrow> ts) @ [info]))\<rparr>"
      using False geom(1) by (cases "gt_Route trip") (simp_all add: index_trip_def sf Let_def info_def)
    then show ?thesis
      using assms c(1) info by (fastforce simp: building_ok_def split: option.splits if_splits)
  qed
qed

lemma index_trips_ok: "building_ok b \<Longrightarrow> building_ok (fold index_trip ts b)"
  by (induction ts arbitrary: b) (simp_all add: index_trip_ok)

lemma fold_route_dom:
  "dom (fold (\<lambda>r m. m(gr_Id r \<mapsto> route_info r)) rs m) = dom m \<union> gr_Id ` set rs"
  by (induction rs arbitrary: m) auto

lemma BuildIndex_ok:
  assumes "BuildIndex load static source loadedAt = Some ix"
  shows "index_ok ix"
proof -
  define b where "b = fold index_trip (st_Trips static)
     \<lparr>bd_trips = Map.empty, bd_tripIDs = [], bd_tripsByRoute = Map.empty, bd_shapes = Map.empty\<rparr>"
  have b: "building_ok b"
    unfolding b_def by (rule index_trips_ok) (simp add: building_ok_def shapes_ok_def)
  have dep: "sorted_wrt (\<lambda>x y. compareDepartures x y \<le> 0) (stable_sort compareDepartures ts)" for ts
    by (rule stable_sort_sorted [OF compareDepartures_comparison])
  have rts: "sorted_wrt (\<lambda>x y. compareRoutes x y \<le> 0) (stable_sort compareRoutes rs)" for rs
    by (rule stable_sort_sorted [OF compareRoutes_comparison])
  have ne: "stable_sort c xs \<noteq> []" if "xs \<noteq> []" for c :: "TripInfo \<Rightarrow> TripInfo \<Rightarrow> int" and xs
    using that by (metis length_0_conv stable_sort_length)
  define used where "used = filter (\<lambda>r. bd_tripsByRoute b (gr_Id r) \<noteq> None) (st_Routes static)"
  have ix: "ix_tripIDs ix = sort (bd_tripIDs b)" "ix_trips ix = bd_trips b"
      "ix_tripsByRoute ix = (\<lambda>r. map_option (stable_sort compareDepartures) (bd_tripsByRoute b r))"
      "ix_routes ix = fold (\<lambda>r m. m(gr_Id r \<mapsto> route_info r)) used Map.empty"
      "ix_routeList ix = stable_sort compareRoutes (map route_info used)"
    using assms by (auto simp: BuildIndex_def Let_def b_def [symmetric] used_def split: option.splits)
  have routes: "dom (ix_routes ix) = gr_Id ` set used" "ri_ID ` set (ix_routeList ix) = gr_Id ` set used"
      "gr_Id ` set used \<subseteq> dom (ix_tripsByRoute ix)"
    subgoal by (simp add: ix(4) fold_route_dom)
    subgoal by (simp add: ix(5) image_image) (simp add: route_info_def)
    subgoal by (auto simp: ix(3) used_def)
    done
  have byRoute: "ts \<noteq> [] \<and> sorted_wrt (\<lambda>a b. compareDepartures a b \<le> 0) ts
      \<and> (\<forall>t \<in> set ts. ti_RouteID t = r \<and> ti_ID t \<in> dom (ix_trips ix) \<and> trip_ok t)"
    if r: "ix_tripsByRoute ix r = Some ts" for r ts
  proof -
    obtain ts' where ts: "bd_tripsByRoute b r = Some ts'" "ts = stable_sort compareDepartures ts'"
      using r by (auto simp: ix)
    have "ts' \<noteq> [] \<and> (\<forall>t \<in> set ts'. ti_RouteID t = r \<and> ti_ID t \<in> dom (bd_trips b) \<and> trip_ok t)"
      using b ts(1) by (simp add: building_ok_def)
    then show ?thesis
      using dep ne by (simp add: ts(2) ix)
  qed
  show ?thesis
    using b routes byRoute rts by (simp add: index_ok_def building_ok_def ix(1,2)) (simp add: ix(5))
qed

section \<open>Properties\<close>

text \<open>
  On a timetable that runs forward, \<open>ScheduledOffsetAt\<close> is monotone in the position and stays
  between the arrival at the first stop and the arrival at the last one.
\<close>

theorem ScheduledOffsetAt_monotone:
  assumes "timetable_ok (ti_StopTimes t)" "x \<le> y"
  shows "ScheduledOffsetAt (Some t) (Num x) \<le> ScheduledOffsetAt (Some t) (Num y)
    \<and> si_Arrival (hd (ti_StopTimes t)) \<le> ScheduledOffsetAt (Some t) (Num x)
    \<and> ScheduledOffsetAt (Some t) (Num x) \<le> si_Arrival (last (ti_StopTimes t))"
proof -
  obtain a r where st: "ti_StopTimes t = a # r"
    using assms(1) by (cases "ti_StopTimes t") auto
  have ok: "timetable_ok (a # r)"
    using assms(1) by (simp add: st)
  obtain p q where pq: "si_AlongShape a = Num p" "si_AlongShape (last (a # r)) = Num q" "p \<le> q"
    using timetable_okD(1) [OF ok] timetable_last [OF ok] by (auto simp: f_is_num_iff)
  have arr: "si_Arrival a \<le> si_Arrival (last (a # r))" "si_Arrival a \<le> si_Departure a"
    using timetable_last [OF ok] timetable_okD(3) [OF ok] by simp_all
  have S: "ScheduledOffsetAt (Some t) (Num z) =
      (if z \<le> p then si_Arrival a else if q \<le> z then si_Arrival (last (a # r))
       else interpolate (Num z) a r (si_Arrival (last (a # r))))" for z
    using pq by (simp add: ScheduledOffsetAt_def st Let_def)
  have mid: "si_Departure a \<le> interpolate (Num z) a r d \<and> interpolate (Num z) a r d \<le> si_Arrival (last (a # r))"
    if "p < z" "z < q" for z d
    using interpolate_range [OF ok, of z d] that pq by simp
  have mono: "interpolate (Num x) a r d \<le> interpolate (Num y) a r d" if "p < x" "y < q" for d
    using interpolate_mono [OF ok, of x y d] that pq assms(2) by simp
  define L where "L = si_Arrival (last (a # r))"
  show ?thesis
    unfolding S st list.sel L_def [symmetric]
    using arr [folded L_def] assms(2) mid [of x L, folded L_def] mid [of y L, folded L_def] mono [of L]
    by (smt (verit))
qed

definition demo_stop :: "real \<Rightarrow> int \<Rightarrow> StopTimeInfo" where
  "demo_stop along arr = \<lparr>si_StopID = ''s'', si_StopName = [], si_Sequence = 0, si_AlongShape = Num along,
     si_Arrival = arr, si_Departure = arr + 10, si_Pos = \<lparr>Lat = Num 0, Lon = Num 0\<rparr>\<rparr>"

definition demo_trip :: TripInfo where
  "demo_trip = \<lparr>ti_ID = ''t1'', ti_RouteID = ''r'', ti_ServiceID = ''s'', ti_Headsign = [], ti_DirectionID = 0,
     ti_Shape = Some demo_shape, ti_StopTimes = [demo_stop 0 100, demo_stop 10 200, demo_stop 40 300]\<rparr>"

lemma demo_trip_ok: "timetable_ok (ti_StopTimes demo_trip)"
  by (simp add: demo_trip_def demo_stop_def)

theorem ScheduledOffsetAt_monotone_witness:
  "ScheduledOffsetAt (Some demo_trip) (Num 5) \<le> ScheduledOffsetAt (Some demo_trip) (Num 25)
   \<and> 100 \<le> ScheduledOffsetAt (Some demo_trip) (Num 5) \<and> ScheduledOffsetAt (Some demo_trip) (Num 5) \<le> 300"
  using ScheduledOffsetAt_monotone [OF demo_trip_ok, of 5 25] by (simp add: demo_trip_def demo_stop_def)

text \<open>
  \<open>shapeDistScale\<close> never invents a unit. When it answers a factor for a shape of positive length,
  every stop time carries a distance, the factor is one of metres, feet, kilometres and miles, it
  puts the last stop at most 5 % past the end of the shape, and no other unit that does so is
  larger; when it answers none although the last distance is positive, no unit fits.
\<close>

theorem shapeDistScale_unit:
  assumes "last_dist (Num 0) sts = Some (Num d)" "0 < d" "0 < len" "sts \<noteq> []"
  shows "case shapeDistScale sts (Num len) of
      Some k \<Rightarrow> \<exists>u. k = Num u \<and> Num u \<in> set shapeDistUnits \<and> d * u \<le> 105 / 100 * len
        \<and> (\<forall>v. Num v \<in> set shapeDistUnits \<and> d * v \<le> 105 / 100 * len \<longrightarrow> v \<le> u)
    | None \<Rightarrow> \<forall>v. Num v \<in> set shapeDistUnits \<longrightarrow> 105 / 100 * len < d * v"
proof -
  let ?us = "[1, 3048 / 10000, 1000, 1609344 / 1000] :: real list"
  have r: "0 < d / len"
    using assms by simp
  have scale: "d / len * v \<le> 105 / 100 \<longleftrightarrow> d * v \<le> 105 / 100 * len" for v
    using assms(3) by (simp add: field_simps)
  obtain u where u: "fold (unit_step (Num (d / len))) (map Num ?us) (Num 0, Num (d / len * 0)) = (Num u, Num (d / len * u))"
      "0 \<le> u" "u = 0 \<or> u \<in> set ?us \<and> d / len * u \<le> 105 / 100"
      "\<forall>v \<in> set ?us. d / len * v \<le> 105 / 100 \<longrightarrow> v \<le> u"
    using unit_fold [OF r, of 0 ?us] by blast
  have mem: "Num v \<in> set shapeDistUnits \<longleftrightarrow> v \<in> set ?us" for v
    unfolding shapeDistUnits_map set_map by blast
  have s: "shapeDistScale sts (Num len) = (if u = 0 then None else Some (Num u))"
    using assms u(1) by (simp add: shapeDistScale_def shapeDistUnits_map Let_def)
  have pos: "0 < v" if "v \<in> set ?us" for v
    using that by auto
  show ?thesis
  proof (cases "u = 0")
    case True
    have "105 / 100 * len < d * v" if v: "v \<in> set ?us" for v
    proof -
      have "\<not> d / len * v \<le> 105 / 100"
        using bspec [OF u(4) v] pos [OF v] True by linarith
      then show ?thesis unfolding scale by linarith
    qed
    then show ?thesis
      unfolding s mem using True by simp
  next
    case False
    have "v \<le> u" if "v \<in> set ?us" "d * v \<le> 105 / 100 * len" for v
      using u(4) that unfolding scale by blast
    moreover have "u \<in> set ?us" "d * u \<le> 105 / 100 * len"
      using u(3) False unfolding scale by blast+
    ultimately show ?thesis
      unfolding s mem using False by (simp only: if_False option.case) blast
  qed
qed

theorem shapeDistScale_unit_witness:
  "\<exists>sts. last_dist (Num 0) sts = Some (Num 5) \<and>
     (case shapeDistScale sts (Num 5000) of
        Some k \<Rightarrow> \<exists>u. k = Num u \<and> Num u \<in> set shapeDistUnits \<and> 5 * u \<le> 105 / 100 * 5000
      | None \<Rightarrow> \<forall>v. Num v \<in> set shapeDistUnits \<longrightarrow> 105 / 100 * 5000 < 5 * v)"
  using shapeDistScale_unit [of "[\<lparr>gst_Stop = None, gst_StopSequence = 1, gst_ArrivalTime = 0,
      gst_DepartureTime = 0, gst_ShapeDistanceTraveled = Some (Num 5)\<rparr>]" 5 5000]
  by (intro exI [of _ "[\<lparr>gst_Stop = None, gst_StopSequence = 1, gst_ArrivalTime = 0,
      gst_DepartureTime = 0, gst_ShapeDistanceTraveled = Some (Num 5)\<rparr>]"])
    (auto split: option.splits)

section \<open>What the index holds of the feed\<close>

text \<open>The trips that can be verified: those with a shape of at least two points and with stop times.\<close>

definition usable_trip :: "GTrip \<Rightarrow> bool" where
  "usable_trip t \<longleftrightarrow> (\<exists>sh. gt_Shape t = Some sh \<and> 2 \<le> length (gsh_Points sh)) \<and> gt_StopTimes t \<noteq> []"

definition on_route :: "string \<Rightarrow> GTrip \<Rightarrow> bool" where
  "on_route r t \<longleftrightarrow> (\<exists>x. gt_Route t = Some x \<and> gr_Id x = r)"

text \<open>The entry of a trip says what the feed says of it, its stop times included, in whatever order the feed has them.\<close>

definition describes :: "TripInfo \<Rightarrow> GTrip \<Rightarrow> bool" where
  "describes info t \<longleftrightarrow>
     ti_ID info = gt_ID t \<and> ti_RouteID info = (case gt_Route t of None \<Rightarrow> [] | Some r \<Rightarrow> gr_Id r)
     \<and> ti_ServiceID info = (case gt_Service t of None \<Rightarrow> [] | Some v \<Rightarrow> gsv_Id v) \<and> ti_Headsign info = gt_Headsign t
     \<and> mset (map (\<lambda>x. (si_StopID x, si_Sequence x, si_Arrival x, si_Departure x)) (ti_StopTimes info))
         = mset (map (\<lambda>x. (stopID (gst_Stop x), gst_StopSequence x, gst_ArrivalTime x, gst_DepartureTime x)) (gt_StopTimes t))"

lemma place_stops_fields:
  "map (\<lambda>x. (si_StopID x, si_Sequence x, si_Arrival x, si_Departure x)) (place_stops shape scale prev sts)
     = map (\<lambda>x. (stopID (gst_Stop x), gst_StopSequence x, gst_ArrivalTime x, gst_DepartureTime x)) sts"
  by (induction sts arbitrary: prev) (simp_all add: Let_def)

lemma shapeFor_usable: "(\<exists>g. snd (shapeFor c shape) = Some g) \<longleftrightarrow> (\<exists>sh. shape = Some sh \<and> 2 \<le> length (gsh_Points sh))"
  by (auto simp: shapeFor_def NewShapeGeom_def Let_def split: option.splits)

definition route_ids :: "(string \<rightharpoonup> TripInfo list) \<Rightarrow> string \<Rightarrow> string list" where
  "route_ids m r = (case m r of None \<Rightarrow> [] | Some ts \<Rightarrow> map ti_ID ts)"

lemma index_trip_holds:
  "\<not> usable_trip t \<Longrightarrow> bd_trips (index_trip t b) = bd_trips b \<and> bd_tripIDs (index_trip t b) = bd_tripIDs b
     \<and> bd_tripsByRoute (index_trip t b) = bd_tripsByRoute b"
  "usable_trip t \<Longrightarrow> \<exists>info. describes info t \<and> bd_trips (index_trip t b) = (bd_trips b)(gt_ID t \<mapsto> info)
     \<and> bd_tripIDs (index_trip t b) = bd_tripIDs b @ [gt_ID t]
     \<and> (\<forall>r. route_ids (bd_tripsByRoute (index_trip t b)) r
           = route_ids (bd_tripsByRoute b) r @ (if on_route r t then [gt_ID t] else []))"
proof -
  obtain c g where sf: "shapeFor (bd_shapes b) (gt_Shape t) = (c, g)"
    by (cases "shapeFor (bd_shapes b) (gt_Shape t)")
  have usable: "usable_trip t \<longleftrightarrow> (\<exists>geom. g = Some geom) \<and> gt_StopTimes t \<noteq> []"
    using shapeFor_usable [of "bd_shapes b" "gt_Shape t"] by (simp add: usable_trip_def sf)
  show "\<not> usable_trip t \<Longrightarrow> bd_trips (index_trip t b) = bd_trips b \<and> bd_tripIDs (index_trip t b) = bd_tripIDs b
     \<and> bd_tripsByRoute (index_trip t b) = bd_tripsByRoute b"
    unfolding usable by (cases g) (auto simp: index_trip_def sf)
  assume "usable_trip t"
  then obtain geom where g: "g = Some geom" "gt_StopTimes t \<noteq> []"
    using usable by blast
  define info where "info = \<lparr>ti_ID = gt_ID t, ti_RouteID = (case gt_Route t of None \<Rightarrow> [] | Some r \<Rightarrow> gr_Id r),
       ti_ServiceID = (case gt_Service t of None \<Rightarrow> [] | Some v \<Rightarrow> gsv_Id v),
       ti_Headsign = gt_Headsign t, ti_DirectionID = directionID (gt_DirectionId t),
       ti_Shape = Some geom, ti_StopTimes = stopTimesAlong (gt_StopTimes t) geom\<rparr>"
  have "describes info t"
    by (simp add: describes_def info_def stopTimesAlong_def Let_def place_stops_fields)
  then show "\<exists>info. describes info t \<and> bd_trips (index_trip t b) = (bd_trips b)(gt_ID t \<mapsto> info)
     \<and> bd_tripIDs (index_trip t b) = bd_tripIDs b @ [gt_ID t]
     \<and> (\<forall>r. route_ids (bd_tripsByRoute (index_trip t b)) r
           = route_ids (bd_tripsByRoute b) r @ (if on_route r t then [gt_ID t] else []))"
    using g by (intro exI [of _ info])
      (auto simp: index_trip_def sf Let_def info_def route_ids_def on_route_def split: option.splits)
qed

lemma index_trips_hold:
  "bd_tripIDs (fold index_trip ts b) = bd_tripIDs b @ map gt_ID (filter usable_trip ts)"
  "route_ids (bd_tripsByRoute (fold index_trip ts b)) r
     = route_ids (bd_tripsByRoute b) r @ map gt_ID (filter (\<lambda>t. usable_trip t \<and> on_route r t) ts)"
  "bd_trips (fold index_trip ts b) i = Some info
     \<Longrightarrow> bd_trips b i = Some info \<or> (\<exists>t \<in> set ts. usable_trip t \<and> gt_ID t = i \<and> describes info t)"
proof (induction ts arbitrary: b)
  case (Cons t ts)
  {
    case 1
    show ?case
      unfolding fold_simps Cons.IH(1) using index_trip_holds [of t b] by (cases "usable_trip t") auto
  next
    case 2
    show ?case
      unfolding fold_simps Cons.IH(2) using index_trip_holds [of t b] by (cases "usable_trip t") auto
  next
    case 3
    then show ?case
      using Cons.IH(3) [of "index_trip t b"] index_trip_holds [of t b] by (cases "usable_trip t") (auto split: if_splits)
  }
qed simp_all

text \<open>
  C13: whatever the feed, \<open>BuildIndex\<close> fails exactly when the feed names no loadable timezone, and
  the index it builds is consistent and complete. It holds the trips with a usable shape and stop times, and no others:
  the trip IDs are theirs, sorted, and are the keys of the trips; every entry says what the feed says of a trip with
  that ID, with a geometry and its stop times in sequence order; the trips of a route are all those of the feed
  that name it, in departure order; and the routes listed are exactly those of the feed with such a trip, in display
  order.
\<close>

theorem BuildIndex_consistent:
  "case BuildIndex load_location static source loadedAt of
     None \<Rightarrow> feedTimezone load_location static = None
   | Some ix \<Rightarrow> index_ok ix \<and> feedTimezone load_location static = Some (ix_tz ix)
       \<and> ix_tripIDs ix = sort (map gt_ID (filter usable_trip (st_Trips static)))
       \<and> (ix_trips ix i = Some info \<longrightarrow> (\<exists>t \<in> set (st_Trips static). usable_trip t \<and> gt_ID t = i \<and> describes info t))
       \<and> mset (route_ids (ix_tripsByRoute ix) r)
           = mset (map gt_ID (filter (\<lambda>t. usable_trip t \<and> on_route r t) (st_Trips static)))
       \<and> mset (ix_routeList ix)
           = mset (map route_info (filter (\<lambda>x. \<exists>t \<in> set (st_Trips static). usable_trip t \<and> on_route (gr_Id x) t) (st_Routes static)))"
proof (cases "BuildIndex load_location static source loadedAt")
  case None
  then show ?thesis by (auto simp: BuildIndex_def Let_def split: option.splits)
next
  case (Some ix)
  define b where "b = fold index_trip (st_Trips static)
     \<lparr>bd_trips = Map.empty, bd_tripIDs = [], bd_tripsByRoute = Map.empty, bd_shapes = Map.empty\<rparr>"
  note hold = index_trips_hold [where ts = "st_Trips static" and
      b = "\<lparr>bd_trips = Map.empty, bd_tripIDs = [], bd_tripsByRoute = Map.empty, bd_shapes = Map.empty\<rparr>", folded b_def]
  have ok: "building_ok b"
    unfolding b_def by (rule index_trips_ok) (simp add: building_ok_def shapes_ok_def)
  have ids: "route_ids (bd_tripsByRoute b) x = map gt_ID (filter (\<lambda>t. usable_trip t \<and> on_route x t) (st_Trips static))" for x
    using hold(2) [of x] by (simp add: route_ids_def [of Map.empty])
  have "bd_tripsByRoute b x \<noteq> None \<longleftrightarrow> route_ids (bd_tripsByRoute b) x \<noteq> []" for x
    using ok by (auto simp: route_ids_def building_ok_def split: option.splits)
  then have used: "bd_tripsByRoute b x \<noteq> None \<longleftrightarrow> (\<exists>t \<in> set (st_Trips static). usable_trip t \<and> on_route x t)" for x
    unfolding ids by (auto simp: filter_empty_conv)
  have ix: "ix_tripIDs ix = sort (bd_tripIDs b)" "ix_trips ix = bd_trips b"
      "ix_tripsByRoute ix = (\<lambda>r. map_option (stable_sort compareDepartures) (bd_tripsByRoute b r))"
      "ix_routeList ix = stable_sort compareRoutes (map route_info (filter (\<lambda>x. bd_tripsByRoute b (gr_Id x) \<noteq> None) (st_Routes static)))"
      "feedTimezone load_location static = Some (ix_tz ix)"
    using Some by (auto simp: BuildIndex_def Let_def b_def [symmetric] split: option.splits)
  have "mset (route_ids (ix_tripsByRoute ix) r) = mset (route_ids (bd_tripsByRoute b) r)"
    by (simp add: ix(3) route_ids_def split: option.split)
  moreover have "ix_routeList ix = stable_sort compareRoutes (map route_info
      (filter (\<lambda>x. \<exists>t \<in> set (st_Trips static). usable_trip t \<and> on_route (gr_Id x) t) (st_Routes static)))"
    unfolding ix(4) used ..
  ultimately show ?thesis
    using Some BuildIndex_ok [OF Some] hold(1) hold(3) [of i info] ids [of r] by (simp add: ix(1,2,5))
qed

text \<open>A feed with a trip that can be verified and one that cannot, for having no shape.\<close>

definition sample_feed :: Static where
  "sample_feed =
     (let r = \<lparr>gr_Id = ''1'', gr_ShortName = ''One'', gr_LongName = [], gr_Color = [], gr_TextColor = [],
               gr_Type = 3, gr_SortOrder = None\<rparr>;
          stop = \<lparr>gst_Stop = None, gst_StopSequence = 1, gst_ArrivalTime = 0, gst_DepartureTime = 0,
                  gst_ShapeDistanceTraveled = None\<rparr>;
          t = \<lparr>gt_ID = ''T1'', gt_Route = Some r, gt_Service = None,
               gt_Shape = Some \<lparr>gsh_ID = ''S'', gsh_Points = [\<lparr>Lat = Num 0, Lon = Num 0\<rparr>, \<lparr>Lat = Num 1, Lon = Num 1\<rparr>]\<rparr>,
               gt_Headsign = [], gt_DirectionId = DirectionID_False, gt_StopTimes = [stop]\<rparr>
      in \<lparr>st_AgencyTimezones = [''UTC''], st_Services = [],
          st_Trips = [t, t\<lparr>gt_ID := ''T2'', gt_Shape := None\<rparr>], st_Routes = [r, r\<lparr>gr_Id := ''2''\<rparr>]\<rparr>)"

lemma BuildIndex_consistent_witness:
  "\<exists>ix. BuildIndex (\<lambda>_. Some (\<lambda>_. 0)) sample_feed ''feed.zip'' 0 = Some ix \<and> ix_tripIDs ix = [''T1'']
     \<and> map ri_ID (ix_routeList ix) = [''1'']"
proof -
  have some: "BuildIndex (\<lambda>_. Some (\<lambda>_. 0)) sample_feed ''feed.zip'' 0 \<noteq> None"
    by (simp add: BuildIndex_def feedTimezone_def sample_feed_def Let_def)
  then obtain ix where ix: "BuildIndex (\<lambda>_. Some (\<lambda>_. 0)) sample_feed ''feed.zip'' 0 = Some ix"
    by blast
  show ?thesis
    using ix BuildIndex_consistent [where load_location = "\<lambda>_. Some (\<lambda>_. 0)" and static = sample_feed
        and source = "''feed.zip''" and loadedAt = 0]
    by (auto simp: sample_feed_def Let_def usable_trip_def on_route_def route_info_def)
qed

lemma ServiceDateFor_active:
  "ActiveOn ix t (ServiceDateFor ix t now) \<longleftrightarrow>
     ActiveOn ix t (ServiceDate (ix_tz ix) now) \<or> ActiveOn ix t (format_date (Date_of (ix_tz ix) now))"
  by (simp add: ServiceDateFor_def Let_def)

lemma TripsOnRoute_set:
  "set (TripsOnRoute ix r d) = {t. \<exists>ts. ix_tripsByRoute ix r = Some ts \<and> t \<in> set ts \<and> ActiveOn ix (Some t) d}"
  by (cases "serviceDay ix d"; cases "ix_tripsByRoute ix r") (auto simp: TripsOnRoute_def ActiveOn_def)

end
