(* ===== verification/Verify.thy ===== *)
theory Verify
  imports Schedule
begin

text \<open>
  The verdict on one rider point (\<open>src/rider/verify.go\<close>): whether it is usable, on the trip's shape,
  a plausible movement, on schedule, and how it compares with a trusted feed. The reason a verdict
  carries for the log is a constructor with the numbers \<open>fmt.Sprintf\<close> would print. Also the tiers
  and scores of \<open>src/rider/reputation.go\<close> that need no session.
\<close>

record Thresholds =
  th_MaxShapeDistance :: f64
  th_MaxSpeed :: f64
  th_MaxAccuracy :: f64
  th_PastWindow :: duration
  th_FutureWindow :: duration
  th_ScheduleEarly :: duration
  th_ScheduleLate :: duration
  th_PointMaxAge :: duration
  th_MaxRegression :: f64
  th_CorroborationBase :: f64
  th_ContradictionExtra :: f64

definition DefaultThresholds :: Thresholds where
  "DefaultThresholds =
     \<lparr>th_MaxShapeDistance = Num 60, th_MaxSpeed = Num 35, th_MaxAccuracy = Num 100,
      th_PastWindow = 10 * minute, th_FutureWindow = 30 * second, th_ScheduleEarly = 15 * minute,
      th_ScheduleLate = 90 * minute, th_PointMaxAge = 90 * second, th_MaxRegression = Num 50,
      th_CorroborationBase = Num 150, th_ContradictionExtra = Num 500\<rparr>"

record Point =
  pt_Pos :: LatLon
  pt_Accuracy :: f64
  pt_Speed :: f64
  pt_Bearing :: f64
  pt_Timestamp :: gotime

record AcceptedPoint =
  ap_Point :: Point
  ap_AlongShape :: f64

abbreviation ap_Timestamp :: "AcceptedPoint \<Rightarrow> gotime" where
  "ap_Timestamp p \<equiv> pt_Timestamp (ap_Point p)"

record TrustedVehicle =
  tv_VehicleID :: string
  tv_Pos :: LatLon
  tv_Timestamp :: gotime

datatype Outcome = Ignored | OffRoute | Implausible | OffSchedule | Matched

datatype Corroboration = Unavailable | NoCorroboration | Corroborated | Contradicted

fun Outcome_String :: "Outcome \<Rightarrow> string" where
  "Outcome_String Ignored = ''ignored''"
| "Outcome_String OffRoute = ''off_route''"
| "Outcome_String Implausible = ''implausible''"
| "Outcome_String OffSchedule = ''off_schedule''"
| "Outcome_String Matched = ''matched''"

fun Corroboration_String :: "Corroboration \<Rightarrow> string" where
  "Corroboration_String Unavailable = ''unavailable''"
| "Corroboration_String NoCorroboration = ''none''"
| "Corroboration_String Corroborated = ''corroborated''"
| "Corroboration_String Contradicted = ''contradicted''"

datatype Reason =
    NoReason
  | TripHasNoShape
  | InvalidCoordinates
  | AccuracyAbove f64
  | TimestampOutsideWindow
  | NotNewer
  | OffShape f64 f64
  | MovedBackwards f64
  | ImpliedSpeed f64 f64
  | BadStartDate
  | FromSchedule duration

record VerifyInput =
  in_Trip :: "TripInfo option"
  in_Timezone :: location
  in_StartDate :: string
  in_Prev :: "AcceptedPoint option"
  in_LastAccepted :: gotime
  in_Point :: Point
  in_Trusted :: "TrustedVehicle option"
  in_TrustedAlong :: "f64 option"
  in_Thresholds :: Thresholds
  in_Now :: gotime

record Verdict =
  vd_Outcome :: Outcome
  vd_Corroboration :: Corroboration
  vd_AlongShape :: f64
  vd_DistanceToShape :: f64
  vd_ScheduleDeviation :: duration
  vd_Reason :: Reason

text \<open>Go's zero verdict.\<close>

definition zero_verdict :: Verdict where
  "zero_verdict = \<lparr>vd_Outcome = Ignored, vd_Corroboration = Unavailable, vd_AlongShape = Num 0,
     vd_DistanceToShape = Num 0, vd_ScheduleDeviation = 0, vd_Reason = NoReason\<rparr>"

definition plausiblePos :: "LatLon \<Rightarrow> bool" where
  "plausiblePos p \<longleftrightarrow>
     (if f_is_nan (Lat p) \<or> f_is_nan (Lon p) then False
      else if flt (Lat p) (Num (- 90)) \<or> fgt (Lat p) (Num 90)
              \<or> flt (Lon p) (Num (- 180)) \<or> fgt (Lon p) (Num 180) then False
      else \<not> feq (Lat p) (Num 0) \<or> \<not> feq (Lon p) (Num 0))"

definition trip_shape :: "TripInfo option \<Rightarrow> ShapeGeom option" where
  "trip_shape trip = (case trip of None \<Rightarrow> None | Some t \<Rightarrow> ti_Shape t)"

text \<open>The negation of a \<open>Duration\<close>.\<close>

definition dur_neg :: "duration \<Rightarrow> duration" where
  "dur_neg d = wrap64 (- d)"

definition ignoreReason :: "VerifyInput \<Rightarrow> Reason option" where
  "ignoreReason inp =
     (let p = in_Point inp; th = in_Thresholds inp;
          age = time_sub (in_Now inp) (pt_Timestamp p)
      in if trip_shape (in_Trip inp) = None then Some TripHasNoShape
         else if \<not> plausiblePos (pt_Pos p) then Some InvalidCoordinates
         else if fgt (pt_Accuracy p) (th_MaxAccuracy th) then Some (AccuracyAbove (th_MaxAccuracy th))
         else if age > th_PastWindow th \<or> age < dur_neg (th_FutureWindow th) then Some TimestampOutsideWindow
         else if \<not> is_zero_time (in_LastAccepted inp) \<and> \<not> pt_Timestamp p > in_LastAccepted inp
         then Some NotNewer
         else (case in_Prev inp of
                 Some prev \<Rightarrow> if \<not> pt_Timestamp p > ap_Timestamp prev then Some NotNewer else None
               | None \<Rightarrow> None))"

definition corroborate :: "VerifyInput \<Rightarrow> f64 \<Rightarrow> Corroboration" where
  "corroborate inp along =
     (case (in_Trusted inp, in_TrustedAlong inp) of
        (Some tv, Some ta) \<Rightarrow>
          (let gap = fabs (fsub ta along);
               skew = dur_abs (time_sub (tv_Timestamp tv) (pt_Timestamp (in_Point inp)));
               allowance = fadd (th_CorroborationBase (in_Thresholds inp))
                             (fmul (th_MaxSpeed (in_Thresholds inp)) (dur_seconds skew))
           in if fle gap allowance then Corroborated
              else if fgt gap (fadd allowance (th_ContradictionExtra (in_Thresholds inp))) then Contradicted
              else NoCorroboration)
      | _ \<Rightarrow> Unavailable)"

text \<open>The movement since the previous match, when it cannot have happened.\<close>

definition movement_fault :: "VerifyInput \<Rightarrow> f64 \<Rightarrow> Reason option" where
  "movement_fault inp along =
     (case in_Prev inp of
        None \<Rightarrow> None
      | Some prev \<Rightarrow>
          (let travelled = fsub along (ap_AlongShape prev);
               elapsed = dur_seconds (time_sub (pt_Timestamp (in_Point inp)) (ap_Timestamp prev))
           in if flt travelled (fneg (th_MaxRegression (in_Thresholds inp)))
              then Some (MovedBackwards (fneg travelled))
              else if fgt elapsed (Num 0)
                      \<and> fgt (fdiv (fabs travelled) elapsed) (th_MaxSpeed (in_Thresholds inp))
              then Some (ImpliedSpeed (fdiv (fabs travelled) elapsed) elapsed)
              else None))"

definition Verify :: "VerifyInput \<Rightarrow> Verdict" where
  "Verify inp =
     (case (ignoreReason inp, trip_shape (in_Trip inp)) of
        (None, Some shape) \<Rightarrow>
          (let hint = map_option ap_AlongShape (in_Prev inp);
               p = in_Point inp; th = in_Thresholds inp;
               proj = Project shape (pt_Pos p) hint;
               along = pr_AlongShape proj;
               v = zero_verdict\<lparr>vd_AlongShape := along, vd_DistanceToShape := pr_DistanceToShape proj\<rparr>;
               tolerance = fadd (th_MaxShapeDistance th) (fmax (pt_Accuracy p) (Num 0))
           in if fgt (pr_DistanceToShape proj) tolerance
              then v\<lparr>vd_Outcome := OffRoute, vd_Reason := OffShape (pr_DistanceToShape proj) tolerance\<rparr>
              else
                (case movement_fault inp along of
                   Some r \<Rightarrow> v\<lparr>vd_Outcome := Implausible, vd_Reason := r\<rparr>
                 | None \<Rightarrow>
                     (case ServiceDayStart (in_StartDate inp) (in_Timezone inp) of
                        None \<Rightarrow> v\<lparr>vd_Outcome := OffSchedule, vd_Reason := BadStartDate\<rparr>
                      | Some dayStart \<Rightarrow>
                          (let scheduled = time_add dayStart (ScheduledOffsetAt (in_Trip inp) along);
                               dev = time_sub (pt_Timestamp p) scheduled;
                               v = v\<lparr>vd_ScheduleDeviation := dev\<rparr>
                           in if dev < dur_neg (th_ScheduleEarly th) \<or> dev > th_ScheduleLate th
                              then v\<lparr>vd_Outcome := OffSchedule, vd_Reason := FromSchedule dev\<rparr>
                              else v\<lparr>vd_Outcome := Matched, vd_Corroboration := corroborate inp along\<rparr>))))
      | (Some reason, _) \<Rightarrow> zero_verdict\<lparr>vd_Reason := reason\<rparr>
      | (None, None) \<Rightarrow> zero_verdict)"

section \<open>What a verdict means\<close>

definition usable_point :: "VerifyInput \<Rightarrow> bool" where
  "usable_point inp \<longleftrightarrow>
     trip_shape (in_Trip inp) \<noteq> None \<and> plausiblePos (pt_Pos (in_Point inp))
     \<and> \<not> fgt (pt_Accuracy (in_Point inp)) (th_MaxAccuracy (in_Thresholds inp))
     \<and> dur_neg (th_FutureWindow (in_Thresholds inp)) \<le> time_sub (in_Now inp) (pt_Timestamp (in_Point inp))
     \<and> time_sub (in_Now inp) (pt_Timestamp (in_Point inp)) \<le> th_PastWindow (in_Thresholds inp)
     \<and> (in_LastAccepted inp = 0 \<or> in_LastAccepted inp < pt_Timestamp (in_Point inp))
     \<and> (case in_Prev inp of None \<Rightarrow> True | Some prev \<Rightarrow> ap_Timestamp prev < pt_Timestamp (in_Point inp))"

lemma ignoreReason_None: "ignoreReason inp = None \<longleftrightarrow> usable_point inp"
  by (auto simp: ignoreReason_def usable_point_def Let_def is_zero_time_def split: option.splits)

lemma usable_shape: "ignoreReason inp = None \<Longrightarrow> \<exists>shape. trip_shape (in_Trip inp) = Some shape"
  by (auto simp: ignoreReason_None usable_point_def)

lemma Verify_ignored: "vd_Outcome (Verify inp) = Ignored \<longleftrightarrow> \<not> usable_point inp"
  using usable_shape [of inp] ignoreReason_None [of inp]
  by (cases "ignoreReason inp") (auto simp: Verify_def Let_def zero_verdict_def split: option.splits)





section \<open>Properties\<close>


lemma Verify_matched_along:
  assumes "vd_Outcome (Verify inp) = Matched"
  shows "movement_fault inp (vd_AlongShape (Verify inp)) = None" "usable_point inp"
proof -
  have u: "usable_point inp"
    using assms Verify_ignored [of inp] by (metis Outcome.distinct(7))
  then show "usable_point inp" .
  have i: "ignoreReason inp = None"
    using u by (simp add: ignoreReason_None)
  then obtain shape where sh: "trip_shape (in_Trip inp) = Some shape"
    using usable_shape by blast
  show "movement_fault inp (vd_AlongShape (Verify inp)) = None"
    using assms i sh by (auto simp: Verify_def Let_def zero_verdict_def split: option.splits if_splits)
qed

text \<open>
  A matched point is a possible movement. Measured against the last match, it is strictly newer,
  it lies at most \<open>MaxRegression\<close> metres further back along the shape, and the distance between the
  two is at most \<open>MaxSpeed\<close> times the seconds between their timestamps.
\<close>

theorem matched_point_moves_plausibly:
  assumes "vd_Outcome (Verify inp) = Matched" "in_Prev inp = Some prev"
    "ap_AlongShape prev = Num a" "vd_AlongShape (Verify inp) = Num b"
    "th_MaxSpeed (in_Thresholds inp) = Num v" "th_MaxRegression (in_Thresholds inp) = Num r"
    "\<bar>pt_Timestamp (in_Point inp) - ap_Timestamp prev\<bar> \<le> max_int64"
  shows "ap_Timestamp prev < pt_Timestamp (in_Point inp) \<and> a - r \<le> b
    \<and> \<bar>b - a\<bar> \<le> v * (real_of_int (pt_Timestamp (in_Point inp) - ap_Timestamp prev) / 1000000000)"
proof -
  define dt where "dt = pt_Timestamp (in_Point inp) - ap_Timestamp prev"
  have newer: "0 < dt"
    using Verify_matched_along(2) [OF assms(1)] assms(2) by (simp add: usable_point_def dt_def)
  have sub: "time_sub (pt_Timestamp (in_Point inp)) (ap_Timestamp prev) = dt"
    using assms(7) by (simp add: time_sub_exact dt_def)
  have "- r \<le> b - a" "\<bar>b - a\<bar> / (real_of_int dt / 1000000000) \<le> v"
    using Verify_matched_along(1) [OF assms(1)] newer
    by (auto simp: movement_fault_def assms(2-6) Let_def sub dur_seconds_def nano_def not_less split: if_splits)
  moreover have "ap_Timestamp prev < pt_Timestamp (in_Point inp)"
    using newer by (simp add: dt_def)
  ultimately show ?thesis
    using newer by (simp add: dt_def [symmetric] pos_divide_le_eq)
qed

definition demo_point :: "real \<Rightarrow> gotime \<Rightarrow> Point" where
  "demo_point x t = \<lparr>pt_Pos = \<lparr>Lat = Num 0, Lon = Num (x / 111320)\<rparr>, pt_Accuracy = Num 5, pt_Speed = Num (- 1),
     pt_Bearing = Num (- 1), pt_Timestamp = t\<rparr>"

text \<open>2025-01-02 00:00:00 UTC, and a ride that is two metres in when it is at five metres.\<close>

definition demo_day :: gotime where "demo_day = 63871372800 * nano"

definition demo_input :: VerifyInput where
  "demo_input = \<lparr>in_Trip = Some demo_trip, in_Timezone = (\<lambda>_. 0), in_StartDate = ''20250102'',
     in_Prev = Some \<lparr>ap_Point = demo_point 2 demo_day, ap_AlongShape = Num 2\<rparr>,
     in_LastAccepted = demo_day, in_Point = demo_point 5 (demo_day + second), in_Trusted = None,
     in_TrustedAlong = None, in_Thresholds = DefaultThresholds, in_Now = demo_day + second\<rparr>"

lemma demo_parse: "parse_date ''20250102'' = Some (2025, 1, 2)"
  by code_simp

lemma demo_start: "ServiceDayStart ''20250102'' (\<lambda>_. 0) = Some demo_day"
  by code_simp

lemma demo_project:
  "Project demo_shape (pt_Pos (demo_point 5 t)) (Some (Num 2)) = \<lparr>pr_AlongShape = Num 5, pr_DistanceToShape = Num 0\<rparr>"
  by (simp add: Project_def demo_shape_def demo_point_def local_def metresPerDegree_def projectOnto_def Let_def
      numeral_3_eq_3 best_step_def hint_step_def hint_gap_def isLocalMin_def hintCandidateBand_def backwardHintWeight_def)

lemma demo_verify: "vd_Outcome (Verify demo_input) = Matched" "vd_AlongShape (Verify demo_input) = Num 5"
proof -
  have sched: "ScheduledOffsetAt (Some demo_trip) (Num 5) = 155"
    by (simp add: ScheduledOffsetAt_def demo_trip_def demo_stop_def Let_def dur_add_def f_to_int64_def wrap64_def int64_defs)
  have i: "ignoreReason demo_input = None"
    by (simp add: ignoreReason_None usable_point_def demo_input_def trip_shape_def demo_trip_def plausiblePos_def
        demo_point_def DefaultThresholds_def dur_neg_def wrap64_def time_sub_def int64_defs time_units demo_day_def)
  have m: "movement_fault demo_input (Num 5) = None"
    by (simp add: movement_fault_def demo_input_def demo_point_def Let_def DefaultThresholds_def dur_seconds_def
        time_sub_def int64_defs time_units)
  have c: "corroborate demo_input (Num 5) = Unavailable"
    by (simp add: corroborate_def demo_input_def)
  have sel: "in_Prev demo_input = Some \<lparr>ap_Point = demo_point 2 demo_day, ap_AlongShape = Num 2\<rparr>"
      "in_Point demo_input = demo_point 5 (demo_day + second)" "in_StartDate demo_input = ''20250102''"
      "in_Timezone demo_input = (\<lambda>_. 0)" "in_Trip demo_input = Some demo_trip"
      "in_Thresholds demo_input = DefaultThresholds" "trip_shape (Some demo_trip) = Some demo_shape"
    by (simp_all add: demo_input_def trip_shape_def demo_trip_def)
  have p: "pt_Accuracy (demo_point 5 t) = Num 5" "pt_Timestamp (demo_point 5 t) = t" for t
    by (simp_all add: demo_point_def)
  have "Verify demo_input = \<lparr>vd_Outcome = Matched, vd_Corroboration = Unavailable, vd_AlongShape = Num 5,
     vd_DistanceToShape = Num 0, vd_ScheduleDeviation = second - 155, vd_Reason = NoReason\<rparr>"
    by (simp add: Verify_def i sel p m c demo_project demo_start sched Let_def time_add_def time_sub_def int64_defs
        DefaultThresholds_def dur_neg_def wrap64_def time_units zero_verdict_def)
  then show "vd_Outcome (Verify demo_input) = Matched" "vd_AlongShape (Verify demo_input) = Num 5"
    by simp_all
qed

theorem matched_point_moves_plausibly_witness:
  "demo_day < demo_day + second \<and> (2 :: real) - 50 \<le> 5
   \<and> \<bar>5 - (2 :: real)\<bar> \<le> 35 * (real_of_int (demo_day + second - demo_day) / 1000000000)"
  using matched_point_moves_plausibly [OF demo_verify(1), of _ 2 5 35 50]
  by (simp add: demo_verify(2) [unfolded demo_input_def] demo_input_def demo_point_def DefaultThresholds_def
      int64_defs time_units)

end
