(* ===== verification/Session.thy ===== *)
theory Session
  imports Verify
begin

text \<open>
  One ride (\<open>src/rider/session.go\<close>) and what it is worth (\<open>src/rider/reputation.go\<close>). A session is a
  state machine that folds verdicts into a belief: \<open>Apply\<close>, \<open>End\<close> and \<open>SetTier\<close> are its steps. The
  lemmas give the invariant every reachable session has, what a ride must have shown to be verified,
  and why it was rejected. A Go pointer to a session is its value here: the aggregator owns it.
\<close>

section \<open>Tiers and scores\<close>

datatype Tier = TierNew | TierTrusted | TierBlocked

fun Tier_String :: "Tier \<Rightarrow> string" where
  "Tier_String TierNew = ''new''"
| "Tier_String TierTrusted = ''trusted''"
| "Tier_String TierBlocked = ''blocked''"

definition ParseTier :: "string \<Rightarrow> Tier" where
  "ParseTier s =
     (if s = ''trusted'' then TierTrusted else if s = ''blocked'' then TierBlocked else TierNew)"

definition minScoredRide :: duration where "minScoredRide = 5 * minute"
definition contradictedPenalty :: int where "contradictedPenalty = - 3"
definition rejectedPenalty :: int where "rejectedPenalty = - 1"
definition corroboratedReward :: int where "corroboratedReward = 1"
definition blockedAtOrBelow :: int where "blockedAtOrBelow = - 3"
definition trustedAtOrAbove :: int where "trustedAtOrAbove = 3"
definition maxScore :: int where "maxScore = 10"
definition minScore :: int where "minScore = - 10"

lemmas score_constants =
  contradictedPenalty_def rejectedPenalty_def corroboratedReward_def blockedAtOrBelow_def
  trustedAtOrAbove_def maxScore_def minScore_def

definition TierFor :: "int \<Rightarrow> Tier" where
  "TierFor score =
     (if score \<le> blockedAtOrBelow then TierBlocked
      else if score \<ge> trustedAtOrAbove then TierTrusted else TierNew)"

definition Clamp :: "int \<Rightarrow> int" where
  "Clamp score = min (max score minScore) maxScore"

section \<open>States, reasons, counts\<close>

datatype State = Pending | Verified | Rejected

fun State_String :: "State \<Rightarrow> string" where
  "State_String Pending = ''pending''"
| "State_String Verified = ''verified''"
| "State_String Rejected = ''rejected''"

datatype EndReason =
    EndUserRequested | EndArrived | EndStationary | EndMaxDuration | EndLocationUnavailable
  | EndAuthorizationDenied | EndNetworkFailure | EndAppTerminated | EndOffRoute | EndContradicted
  | EndImplausible | EndOffSchedule | EndSuperseded | EndServerRestart | EndIdle

fun EndReason_String :: "EndReason \<Rightarrow> string" where
  "EndReason_String EndUserRequested = ''user_requested''"
| "EndReason_String EndArrived = ''arrived''"
| "EndReason_String EndStationary = ''stationary''"
| "EndReason_String EndMaxDuration = ''max_duration''"
| "EndReason_String EndLocationUnavailable = ''location_unavailable''"
| "EndReason_String EndAuthorizationDenied = ''authorization_denied''"
| "EndReason_String EndNetworkFailure = ''network_failure''"
| "EndReason_String EndAppTerminated = ''app_terminated''"
| "EndReason_String EndOffRoute = ''off_route''"
| "EndReason_String EndContradicted = ''contradicted''"
| "EndReason_String EndImplausible = ''implausible''"
| "EndReason_String EndOffSchedule = ''off_schedule''"
| "EndReason_String EndSuperseded = ''superseded''"
| "EndReason_String EndServerRestart = ''server_restart''"
| "EndReason_String EndIdle = ''idle''"

definition endReasons :: "EndReason list" where
  "endReasons =
     [EndUserRequested, EndArrived, EndStationary, EndMaxDuration, EndLocationUnavailable,
      EndAuthorizationDenied, EndNetworkFailure, EndAppTerminated, EndOffRoute, EndContradicted,
      EndImplausible, EndOffSchedule, EndSuperseded, EndServerRestart, EndIdle]"

definition clientEndReasons :: "EndReason list" where
  "clientEndReasons =
     [EndUserRequested, EndArrived, EndStationary, EndMaxDuration, EndLocationUnavailable,
      EndAuthorizationDenied, EndNetworkFailure, EndAppTerminated]"

text \<open>The reason a string names; \<open>None\<close> is the result \<open>ok = false\<close>.\<close>

definition ParseEndReason :: "string \<Rightarrow> EndReason option" where
  "ParseEndReason s = find (\<lambda>r. EndReason_String r = s) endReasons"

definition ParseClientEndReason :: "string \<Rightarrow> EndReason option" where
  "ParseClientEndReason s = find (\<lambda>r. EndReason_String r = s) clientEndReasons"

datatype TripKey = TripKey (tk_TripID: string) (tk_StartDate: string)

instantiation TripKey :: linorder
begin

definition less_eq_TripKey :: "TripKey \<Rightarrow> TripKey \<Rightarrow> bool" where
  "less_eq_TripKey a b \<longleftrightarrow> (tk_TripID a, tk_StartDate a) \<le> (tk_TripID b, tk_StartDate b)"

definition less_TripKey :: "TripKey \<Rightarrow> TripKey \<Rightarrow> bool" where
  "less_TripKey a b \<longleftrightarrow> (tk_TripID a, tk_StartDate a) < (tk_TripID b, tk_StartDate b)"

instance
proof
  fix x y z :: TripKey
  show "(x < y) = (x \<le> y \<and> \<not> y \<le> x)"
    unfolding less_eq_TripKey_def less_TripKey_def by auto
  show "x \<le> x"
    unfolding less_eq_TripKey_def by simp
  show "x \<le> y \<Longrightarrow> y \<le> z \<Longrightarrow> x \<le> z"
    unfolding less_eq_TripKey_def by (rule order_trans)
  show "x \<le> y \<Longrightarrow> y \<le> x \<Longrightarrow> x = y"
    unfolding less_eq_TripKey_def by (cases x; cases y) (auto dest: order_antisym)
  show "x \<le> y \<or> y \<le> x"
    unfolding less_eq_TripKey_def by (rule linear)
qed

end

record Counts =
  c_Total :: nat
  c_Matched :: nat
  c_Corroborated :: nat
  c_Contradicted :: nat

record Transition =
  tr_StateChanged :: bool
  tr_Ended :: bool
  tr_EndReason :: "EndReason option"

definition no_transition :: Transition where
  "no_transition = \<lparr>tr_StateChanged = False, tr_Ended = False, tr_EndReason = None\<rparr>"

definition verifyStreak :: nat where "verifyStreak = 3"
definition rejectStreak :: nat where "rejectStreak = 5"
definition contradictStreak :: nat where "contradictStreak = 3"
definition corroborateCount :: nat where "corroborateCount = 12"

lemmas streak_constants = verifyStreak_def rejectStreak_def contradictStreak_def corroborateCount_def

section \<open>The session\<close>

record Session =
  s_id :: string
  s_riderID :: string
  s_key :: TripKey
  s_trip :: "TripInfo option"
  s_tier :: Tier
  s_startedAt :: gotime
  s_state :: State
  s_corroborated :: bool
  s_latest :: "AcceptedPoint option"
  s_latestMatched :: "AcceptedPoint option"
  s_latestCorrob :: Corroboration
  s_counts :: Counts
  s_matchStreak :: nat
  s_contradictions :: nat
  s_nonMatchedStreak :: "Outcome list"
  s_firstMatchedAt :: gotime
  s_lastMatchedAt :: gotime
  s_ended :: bool
  s_endReason :: "EndReason option"
  s_endedAt :: gotime

definition NewSession ::
  "string \<Rightarrow> string \<Rightarrow> TripKey \<Rightarrow> TripInfo option \<Rightarrow> Tier \<Rightarrow> gotime \<Rightarrow> Session" where
  "NewSession i riderID key trip tier startedAt =
     \<lparr>s_id = i, s_riderID = riderID, s_key = key, s_trip = trip, s_tier = tier, s_startedAt = startedAt,
      s_state = Pending, s_corroborated = False, s_latest = None, s_latestMatched = None,
      s_latestCorrob = Unavailable,
      s_counts = \<lparr>c_Total = 0, c_Matched = 0, c_Corroborated = 0, c_Contradicted = 0\<rparr>,
      s_matchStreak = 0, s_contradictions = 0, s_nonMatchedStreak = [], s_firstMatchedAt = 0,
      s_lastMatchedAt = 0, s_ended = False, s_endReason = None, s_endedAt = 0\<rparr>"

definition SetTier :: "Tier \<Rightarrow> Session \<Rightarrow> Session" where
  "SetTier t s = s\<lparr>s_tier := t\<rparr>"

definition OffRouteStreak :: "Session \<Rightarrow> nat" where
  "OffRouteStreak s = length (s_nonMatchedStreak s)"

definition LastAcceptedAt :: "Session \<Rightarrow> gotime" where
  "LastAcceptedAt s = (case s_latest s of None \<Rightarrow> 0 | Some p \<Rightarrow> ap_Timestamp p)"

definition End :: "EndReason \<Rightarrow> gotime \<Rightarrow> Session \<Rightarrow> Session" where
  "End reason t s =
     (if s_ended s then s else s\<lparr>s_ended := True, s_endReason := Some reason, s_endedAt := t\<rparr>)"

definition reject :: "EndReason \<Rightarrow> gotime \<Rightarrow> Session \<Rightarrow> Session" where
  "reject reason t s = End reason t (s\<lparr>s_state := Rejected\<rparr>)"

definition count_outcome :: "Outcome \<Rightarrow> Outcome list \<Rightarrow> nat" where
  "count_outcome o1 streak = length (filter (\<lambda>x. x = o1) streak)"

text \<open>The last element first; then from the end of the streak to its start, on a larger count.\<close>

definition dominantOutcome :: "Outcome list \<Rightarrow> Outcome" where
  "dominantOutcome streak =
     foldr (\<lambda>x best. if count_outcome x streak > count_outcome best streak then x else best)
       streak (last streak)"

fun endReasonFor :: "Outcome \<Rightarrow> EndReason" where
  "endReasonFor OffRoute = EndOffRoute"
| "endReasonFor Implausible = EndImplausible"
| "endReasonFor OffSchedule = EndOffSchedule"
| "endReasonFor _ = EndOffRoute"

definition applyNonMatched :: "Outcome \<Rightarrow> gotime \<Rightarrow> Session \<Rightarrow> Session \<times> Transition" where
  "applyNonMatched o1 t s =
     (let s = s\<lparr>s_matchStreak := 0, s_nonMatchedStreak := s_nonMatchedStreak s @ [o1]\<rparr>
      in if length (s_nonMatchedStreak s) < rejectStreak then (s, no_transition)
         else
           (let s = reject (endReasonFor (dominantOutcome (s_nonMatchedStreak s))) t s
            in (s, \<lparr>tr_StateChanged = True, tr_Ended = True, tr_EndReason = s_endReason s\<rparr>)))"

definition tally_corroboration :: "Corroboration \<Rightarrow> Session \<Rightarrow> Session" where
  "tally_corroboration c s =
     (case c of
        Corroborated \<Rightarrow>
          (let n = c_Corroborated (s_counts s) + 1
           in s\<lparr>s_counts := (s_counts s)\<lparr>c_Corroborated := n\<rparr>, s_contradictions := 0,
                s_corroborated := (if n \<ge> corroborateCount then True else s_corroborated s)\<rparr>)
      | Contradicted \<Rightarrow>
          s\<lparr>s_counts := (s_counts s)\<lparr>c_Contradicted := c_Contradicted (s_counts s) + 1\<rparr>,
            s_contradictions := s_contradictions s + 1\<rparr>
      | _ \<Rightarrow> s)"

definition applyMatched :: "Corroboration \<Rightarrow> gotime \<Rightarrow> Session \<Rightarrow> Session \<times> Transition" where
  "applyMatched c t s =
     (let m = c_Matched (s_counts s) + 1;
          s = s\<lparr>s_counts := (s_counts s)\<lparr>c_Matched := m\<rparr>,
                s_firstMatchedAt := (if m = 1 then t else s_firstMatchedAt s),
                s_lastMatchedAt := t, s_nonMatchedStreak := [], s_matchStreak := s_matchStreak s + 1\<rparr>;
          s = tally_corroboration c s;
          verified = (s_state s = Pending \<and> s_matchStreak s \<ge> verifyStreak);
          s = (if verified then s\<lparr>s_state := Verified\<rparr> else s);
          tr = no_transition\<lparr>tr_StateChanged := verified\<rparr>
      in if s_contradictions s \<ge> contradictStreak
         then (let s = reject EndContradicted t s
               in (s, \<lparr>tr_StateChanged = True, tr_Ended = True, tr_EndReason = s_endReason s\<rparr>))
         else (s, tr))"

definition accept_point :: "Verdict \<Rightarrow> Point \<Rightarrow> Session \<Rightarrow> Session" where
  "accept_point v p s =
     s\<lparr>s_counts := (s_counts s)\<lparr>c_Total := c_Total (s_counts s) + 1\<rparr>,
       s_latest := Some \<lparr>ap_Point = p, ap_AlongShape = vd_AlongShape v\<rparr>,
       s_latestCorrob := vd_Corroboration v\<rparr>"

definition Apply :: "Verdict \<Rightarrow> Point \<Rightarrow> Session \<Rightarrow> Session \<times> Transition" where
  "Apply v p s =
     (if s_ended s then (s, \<lparr>tr_StateChanged = False, tr_Ended = True, tr_EndReason = s_endReason s\<rparr>)
      else if vd_Outcome v = Ignored then (s, no_transition)
      else
        (let s = accept_point v p s
         in if vd_Outcome v \<noteq> Matched then applyNonMatched (vd_Outcome v) (pt_Timestamp p) s
            else applyMatched (vd_Corroboration v) (pt_Timestamp p) (s\<lparr>s_latestMatched := s_latest s\<rparr>)))"

definition Fresh :: "Session \<Rightarrow> gotime \<Rightarrow> duration \<Rightarrow> bool" where
  "Fresh s now maxAge \<longleftrightarrow>
     (case s_latestMatched s of None \<Rightarrow> False | Some p \<Rightarrow> time_sub now (ap_Timestamp p) \<le> maxAge)"

definition Publishable :: "Session \<Rightarrow> gotime \<Rightarrow> duration \<Rightarrow> bool" where
  "Publishable s now maxAge \<longleftrightarrow>
     (if s_state s \<noteq> Verified \<or> s_ended s \<or> \<not> Fresh s now maxAge then False
      else s_tier s \<noteq> TierBlocked \<and> (s_tier s = TierTrusted \<or> s_corroborated s))"

record RideSummary =
  rs_State :: State
  rs_EndReason :: "EndReason option"
  rs_Corroborated :: bool
  rs_MatchedDuration :: duration
  rs_Counts :: Counts
  rs_Duration :: duration

definition RideSummary_Ended :: "RideSummary \<Rightarrow> bool" where
  "RideSummary_Ended r \<longleftrightarrow> rs_EndReason r \<noteq> None"

definition Summary :: "Session \<Rightarrow> RideSummary" where
  "Summary s =
     \<lparr>rs_State = s_state s, rs_EndReason = s_endReason s, rs_Corroborated = s_corroborated s,
      rs_MatchedDuration =
        (if c_Matched (s_counts s) \<ge> 2 then time_sub (s_lastMatchedAt s) (s_firstMatchedAt s) else 0),
      rs_Counts = s_counts s,
      rs_Duration = (if s_ended s then time_sub (s_endedAt s) (s_startedAt s) else 0)\<rparr>"

definition ScoreDelta :: "RideSummary \<Rightarrow> int" where
  "ScoreDelta s =
     (if rs_State s = Rejected
      then (if rs_EndReason s = Some EndContradicted then contradictedPenalty else rejectedPenalty)
      else if rs_Corroborated s \<and> rs_MatchedDuration s \<ge> minScoredRide then corroboratedReward
      else 0)"

section \<open>Steps and reachable sessions\<close>

inductive ride_step :: "Session \<Rightarrow> Session \<Rightarrow> bool" where
  step_apply: "ride_step s (fst (Apply v p s))"
| step_end: "ride_step s (End reason t s)"
| step_tier: "ride_step s (SetTier tier s)"

inductive reachable :: "Session \<Rightarrow> bool" where
  reach_new: "reachable (NewSession i rider key trip tier startedAt)"
| reach_step: "reachable s \<Longrightarrow> ride_step s s' \<Longrightarrow> reachable s'"

inductive_cases ride_stepE: "ride_step s s'"

definition session_ok :: "Session \<Rightarrow> bool" where
  "session_ok s \<longleftrightarrow>
     c_Matched (s_counts s) + length (s_nonMatchedStreak s) \<le> c_Total (s_counts s)
     \<and> c_Corroborated (s_counts s) + c_Contradicted (s_counts s) \<le> c_Matched (s_counts s)
     \<and> s_contradictions s \<le> c_Contradicted (s_counts s)
     \<and> s_matchStreak s \<le> c_Matched (s_counts s)
     \<and> length (s_nonMatchedStreak s) \<le> rejectStreak
     \<and> Matched \<notin> set (s_nonMatchedStreak s) \<and> Ignored \<notin> set (s_nonMatchedStreak s)
     \<and> (s_nonMatchedStreak s \<noteq> [] \<longrightarrow> s_matchStreak s = 0)
     \<and> (s_ended s \<longleftrightarrow> s_endReason s \<noteq> None)
     \<and> (\<not> s_ended s \<longrightarrow> length (s_nonMatchedStreak s) < rejectStreak \<and> s_contradictions s < contradictStreak
                        \<and> s_state s \<noteq> Rejected)
     \<and> (s_state s = Pending \<longrightarrow> s_matchStreak s < verifyStreak)
     \<and> (s_state s = Verified \<longrightarrow> verifyStreak \<le> c_Matched (s_counts s))
     \<and> (s_corroborated s \<longleftrightarrow> corroborateCount \<le> c_Corroborated (s_counts s))
     \<and> (s_latest s = None \<longleftrightarrow> c_Total (s_counts s) = 0)
     \<and> (s_latestMatched s = None \<longleftrightarrow> c_Matched (s_counts s) = 0)
     \<and> (\<forall>p. s_latestMatched s = Some p \<longrightarrow> ap_Timestamp p = s_lastMatchedAt s)"

lemma session_ok_new: "session_ok (NewSession i rider key trip tier startedAt)"
  by (simp add: session_ok_def NewSession_def streak_constants)

lemma session_ok_tier: "session_ok s \<Longrightarrow> session_ok (SetTier tier s)"
  by (simp add: session_ok_def SetTier_def)

lemma session_ok_end: "session_ok s \<Longrightarrow> session_ok (End reason t s)"
  by (auto simp: session_ok_def End_def)

text \<open>What each part of \<open>Apply\<close> does to each field.\<close>

lemma accept_fields [simp]:
  "s_counts (accept_point v p s) = (s_counts s)\<lparr>c_Total := c_Total (s_counts s) + 1\<rparr>"
  "s_latest (accept_point v p s) = Some \<lparr>ap_Point = p, ap_AlongShape = vd_AlongShape v\<rparr>"
  "s_latestCorrob (accept_point v p s) = vd_Corroboration v"
  "s_latestMatched (accept_point v p s) = s_latestMatched s"
  "s_nonMatchedStreak (accept_point v p s) = s_nonMatchedStreak s"
  "s_matchStreak (accept_point v p s) = s_matchStreak s"
  "s_contradictions (accept_point v p s) = s_contradictions s"
  "s_corroborated (accept_point v p s) = s_corroborated s"
  "s_lastMatchedAt (accept_point v p s) = s_lastMatchedAt s"
  "s_ended (accept_point v p s) = s_ended s" "s_endReason (accept_point v p s) = s_endReason s"
  "s_state (accept_point v p s) = s_state s" "s_tier (accept_point v p s) = s_tier s"
  "s_id (accept_point v p s) = s_id s" "s_riderID (accept_point v p s) = s_riderID s"
  "s_key (accept_point v p s) = s_key s" "s_trip (accept_point v p s) = s_trip s"
  "s_startedAt (accept_point v p s) = s_startedAt s"
  by (simp_all add: accept_point_def)

definition streak_after :: "Corroboration \<Rightarrow> nat \<Rightarrow> nat" where
  "streak_after c n = (case c of Corroborated \<Rightarrow> 0 | Contradicted \<Rightarrow> n + 1 | _ \<Rightarrow> n)"

lemma tally_fields [simp]:
  "s_counts (tally_corroboration c s) = (s_counts s)\<lparr>
     c_Corroborated := c_Corroborated (s_counts s) + (if c = Corroborated then 1 else 0),
     c_Contradicted := c_Contradicted (s_counts s) + (if c = Contradicted then 1 else 0)\<rparr>"
  "s_contradictions (tally_corroboration c s) = streak_after c (s_contradictions s)"
  "s_corroborated (tally_corroboration c s)
     = (s_corroborated s \<or> c = Corroborated \<and> corroborateCount \<le> c_Corroborated (s_counts s) + 1)"
  "s_latest (tally_corroboration c s) = s_latest s"
  "s_latestMatched (tally_corroboration c s) = s_latestMatched s"
  "s_nonMatchedStreak (tally_corroboration c s) = s_nonMatchedStreak s"
  "s_matchStreak (tally_corroboration c s) = s_matchStreak s"
  "s_lastMatchedAt (tally_corroboration c s) = s_lastMatchedAt s"
  "s_ended (tally_corroboration c s) = s_ended s" "s_endReason (tally_corroboration c s) = s_endReason s"
  "s_state (tally_corroboration c s) = s_state s" "s_tier (tally_corroboration c s) = s_tier s"
  "s_id (tally_corroboration c s) = s_id s" "s_riderID (tally_corroboration c s) = s_riderID s"
  "s_key (tally_corroboration c s) = s_key s" "s_trip (tally_corroboration c s) = s_trip s"
  "s_startedAt (tally_corroboration c s) = s_startedAt s"
  by (simp_all add: tally_corroboration_def streak_after_def Let_def split: Corroboration.split)

lemma applyMatched_fields:
  fixes s :: Session and c :: Corroboration and t :: gotime
  assumes "\<not> s_ended s"
  defines "s' \<equiv> fst (applyMatched c t s)"
  shows "s_counts s' = (s_counts s)\<lparr>c_Matched := c_Matched (s_counts s) + 1,
           c_Corroborated := c_Corroborated (s_counts s) + (if c = Corroborated then 1 else 0),
           c_Contradicted := c_Contradicted (s_counts s) + (if c = Contradicted then 1 else 0)\<rparr>"
    "s_nonMatchedStreak s' = []" "s_matchStreak s' = s_matchStreak s + 1"
    "s_contradictions s' = streak_after c (s_contradictions s)"
    "s_corroborated s' = (s_corroborated s \<or> c = Corroborated \<and> corroborateCount \<le> c_Corroborated (s_counts s) + 1)"
    "s_latest s' = s_latest s" "s_latestMatched s' = s_latestMatched s" "s_lastMatchedAt s' = t"
    "s_ended s' = (contradictStreak \<le> streak_after c (s_contradictions s))"
    "s_endReason s' = (if contradictStreak \<le> streak_after c (s_contradictions s) then Some EndContradicted else s_endReason s)"
    "s_state s' = (if contradictStreak \<le> streak_after c (s_contradictions s) then Rejected
        else if s_state s = Pending \<and> verifyStreak \<le> s_matchStreak s + 1 then Verified else s_state s)"
  unfolding s'_def using assms(1) by (simp_all add: applyMatched_def reject_def End_def Let_def)

lemma applyNonMatched_fields:
  fixes s :: Session and f :: Outcome and t :: gotime
  assumes "\<not> s_ended s"
  defines "s' \<equiv> fst (applyNonMatched f t s)"
  defines "live \<equiv> length (s_nonMatchedStreak s) + 1 < rejectStreak"
  shows "s_counts s' = s_counts s" "s_nonMatchedStreak s' = s_nonMatchedStreak s @ [f]" "s_matchStreak s' = 0"
    "s_contradictions s' = s_contradictions s" "s_corroborated s' = s_corroborated s"
    "s_latest s' = s_latest s" "s_latestMatched s' = s_latestMatched s" "s_lastMatchedAt s' = s_lastMatchedAt s"
    "s_ended s' = (\<not> live)"
    "s_endReason s' = (if live then s_endReason s
        else Some (endReasonFor (dominantOutcome (s_nonMatchedStreak s @ [f]))))"
    "s_state s' = (if live then s_state s else Rejected)"
  unfolding s'_def live_def using assms(1) by (simp_all add: applyNonMatched_def reject_def End_def Let_def)

text \<open>The two kinds of accepted point.\<close>

lemma Apply_cases:
  assumes "\<not> s_ended s" "vd_Outcome v \<noteq> Ignored"
  obtains
    (non_matched) "vd_Outcome v \<noteq> Matched"
      "Apply v p s = applyNonMatched (vd_Outcome v) (pt_Timestamp p) (accept_point v p s)"
      "\<not> s_ended (accept_point v p s)"
  | (matched) s1 where "vd_Outcome v = Matched"
      "Apply v p s = applyMatched (vd_Corroboration v) (pt_Timestamp p) s1"
      "s1 = (accept_point v p s)\<lparr>s_latestMatched := Some \<lparr>ap_Point = p, ap_AlongShape = vd_AlongShape v\<rparr>\<rparr>"
      "\<not> s_ended s1"
  using assms by (cases "vd_Outcome v = Matched") (simp_all add: Apply_def Let_def)

lemma session_ok_apply:
  assumes "session_ok s"
  shows "session_ok (fst (Apply v p s))"
proof (cases "s_ended s \<or> vd_Outcome v = Ignored")
  case True
  then show ?thesis using assms by (auto simp: Apply_def no_transition_def)
next
  case False
  then have "\<not> s_ended s" "vd_Outcome v \<noteq> Ignored" by simp_all
  then show ?thesis
  proof (cases rule: Apply_cases [where p = p])
    case non_matched
    have "Ignored \<noteq> vd_Outcome v" "Matched \<noteq> vd_Outcome v" "length (s_nonMatchedStreak s) < 5"
        "s_state s \<noteq> Rejected"
      using assms False non_matched(1) by (auto simp: session_ok_def streak_constants)
    then show ?thesis
      using assms False unfolding non_matched(2) session_ok_def applyNonMatched_fields [OF non_matched(3)]
      by (cases "s_state s") (auto simp: streak_constants)
  next
    case (matched s1)
    have "s_contradictions s < 3" "s_state s \<noteq> Rejected"
      using assms False by (auto simp: session_ok_def streak_constants)
    then show ?thesis
      using assms False unfolding matched(2) session_ok_def applyMatched_fields [OF matched(4)] unfolding matched(3)
      by (cases "vd_Corroboration v"; cases "s_state s") (simp_all add: streak_after_def streak_constants, auto)
  qed
qed

lemma session_ok_reachable: "reachable s \<Longrightarrow> session_ok s"
proof (induction rule: reachable.induct)
  case reach_new
  show ?case by (rule session_ok_new)
next
  case (reach_step s s')
  from reach_step.hyps(2) show ?case
    by (cases rule: ride_step.cases)
      (use reach_step.IH session_ok_apply session_ok_end session_ok_tier in auto)
qed

lemma Apply_ended: "s_ended s \<Longrightarrow> fst (Apply v p s) = s"
  by (simp add: Apply_def)

text \<open>What no step changes: whose ride it is, and on which trip.\<close>

definition identity :: "Session \<Rightarrow> string \<times> string \<times> TripKey \<times> TripInfo option \<times> gotime" where
  "identity s = (s_id s, s_riderID s, s_key s, s_trip s, s_startedAt s)"

lemma identity_End [simp]: "identity (End reason t s) = identity s"
  by (simp add: identity_def End_def)

lemma identity_SetTier [simp]: "identity (SetTier tier s) = identity s"
  by (simp add: identity_def SetTier_def)

lemma identity_Apply [simp]: "identity (fst (Apply v p s)) = identity s"
  by (simp add: Apply_def applyMatched_def applyNonMatched_def reject_def End_def Let_def identity_def)

lemma identity_fields:
  assumes "identity s' = identity s"
  shows "s_id s' = s_id s" "s_riderID s' = s_riderID s" "s_key s' = s_key s" "s_trip s' = s_trip s"
    "s_startedAt s' = s_startedAt s"
  using assms by (simp_all add: identity_def)

text \<open>The latest accepted point, and the time it gives the session.\<close>

lemma LastAcceptedAt_Apply:
  "\<not> s_ended s \<Longrightarrow> vd_Outcome v \<noteq> Ignored \<Longrightarrow> LastAcceptedAt (fst (Apply v p s)) = pt_Timestamp p"
  by (simp add: Apply_def applyMatched_def applyNonMatched_def reject_def End_def Let_def LastAcceptedAt_def)

section \<open>The dominant failure\<close>

lemma dominant_foldr:
  assumes "xs \<noteq> []"
  shows "\<exists>ys zs. xs = ys @ foldr (\<lambda>x best. if cnt x > cnt best then x else best) xs (last xs) # zs
     \<and> (\<forall>x \<in> set zs. cnt x < cnt (foldr (\<lambda>x best. if cnt x > cnt best then x else best) xs (last xs)))
     \<and> (\<forall>x \<in> set ys. cnt x \<le> (cnt (foldr (\<lambda>x best. if cnt x > cnt best then x else best) xs (last xs)) :: nat))"
  using assms
proof (induction xs)
  case (Cons a xs)
  show ?case
  proof (cases "xs = []")
    case True
    then show ?thesis by (intro exI [of _ "[]"]) simp
  next
    case False
    let ?f = "\<lambda>x best. if cnt x > cnt best then x else best"
    define d where "d = foldr ?f xs (last xs)"
    obtain ys zs where d: "xs = ys @ d # zs" "\<forall>x \<in> set zs. cnt x < cnt d" "\<forall>x \<in> set ys. cnt x \<le> cnt d"
      using Cons.IH [OF False] unfolding d_def by blast
    have step: "foldr ?f (a # xs) (last (a # xs)) = ?f a d"
      using False by (simp add: d_def)
    show ?thesis
    proof (cases "cnt d < cnt a")
      case True
      then have "\<forall>x \<in> set xs. cnt x < cnt a"
        unfolding d(1) using d(2,3) by auto
      then show ?thesis
        unfolding step using True by (intro exI [of _ "[]"] exI [of _ xs]) simp
    next
      case False
      then show ?thesis
        unfolding step using d by (intro exI [of _ "a # ys"] exI [of _ zs]) auto
    qed
  qed
qed simp

lemma dominantOutcome_split:
  assumes "streak \<noteq> []"
  shows "\<exists>ys zs. streak = ys @ dominantOutcome streak # zs
     \<and> (\<forall>x \<in> set zs. count_outcome x streak < count_outcome (dominantOutcome streak) streak)
     \<and> (\<forall>x \<in> set ys. count_outcome x streak \<le> count_outcome (dominantOutcome streak) streak)"
  using dominant_foldr [OF assms, of "\<lambda>x. count_outcome x streak"] unfolding dominantOutcome_def .

section \<open>The history of a ride\<close>

text \<open>A ride from its start: the verdicts applied in order, and the outcomes that were accepted.\<close>

definition run_ride :: "(Verdict \<times> Point) list \<Rightarrow> Session \<Rightarrow> Session" where
  "run_ride vs s = fold (\<lambda>(v, p) s. fst (Apply v p s)) vs s"

definition accepted :: "(Verdict \<times> Point) list \<Rightarrow> Outcome list" where
  "accepted vs = filter (\<lambda>x. x \<noteq> Ignored) (map (vd_Outcome \<circ> fst) vs)"

definition three_in_a_row :: "Outcome list \<Rightarrow> bool" where
  "three_in_a_row os \<longleftrightarrow> (\<exists>pre post. os = pre @ [Matched, Matched, Matched] @ post)"

lemma run_ride_snoc: "run_ride (vs @ [(v, p)]) s = fst (Apply v p (run_ride vs s))"
  by (simp add: run_ride_def)

lemma accepted_snoc:
  "accepted (vs @ [(v, p)]) = (if vd_Outcome v = Ignored then accepted vs else accepted vs @ [vd_Outcome v])"
  by (simp add: accepted_def)

lemma run_ride_ok: "session_ok s \<Longrightarrow> session_ok (run_ride vs s)"
  by (induction vs rule: rev_induct) (simp_all add: run_ride_def session_ok_apply split_beta)

definition matched_tail :: "Outcome list \<Rightarrow> nat" where
  "matched_tail os = length (takeWhile (\<lambda>x. x = Matched) (rev os))"

definition failed_tail :: "Outcome list \<Rightarrow> Outcome list" where
  "failed_tail os = rev (takeWhile (\<lambda>x. x \<noteq> Matched) (rev os))"

lemma tails_snoc [simp]:
  "matched_tail (os @ [x]) = (if x = Matched then matched_tail os + 1 else 0)"
  "failed_tail (os @ [x]) = (if x = Matched then [] else failed_tail os @ [x])"
  "matched_tail [] = 0" "failed_tail [] = []"
  by (simp_all add: matched_tail_def failed_tail_def)

lemma failed_tail_suffix: "\<exists>pre. os = pre @ failed_tail os \<and> Matched \<notin> set (failed_tail os)"
proof (induction os rule: rev_induct)
  case (snoc x os)
  then show ?case by (cases "x = Matched") auto
qed simp

lemma matched_tail_two: "2 \<le> matched_tail os \<longleftrightarrow> (\<exists>pre. os = pre @ [Matched, Matched])"
proof (cases os rule: rev_exhaust)
  case (snoc os' x)
  then show ?thesis
    by (cases os' rule: rev_exhaust) (auto simp: matched_tail_def split: if_splits)
qed simp

lemma three_in_a_row_snoc:
  "three_in_a_row (os @ [x]) \<longleftrightarrow> three_in_a_row os \<or> x = Matched \<and> 2 \<le> matched_tail os"
proof
  assume "three_in_a_row (os @ [x])"
  then obtain pre post where e: "os @ [x] = pre @ [Matched, Matched, Matched] @ post"
    unfolding three_in_a_row_def by blast
  show "three_in_a_row os \<or> x = Matched \<and> 2 \<le> matched_tail os"
  proof (cases post rule: rev_exhaust)
    case Nil
    then have "os = pre @ [Matched, Matched] \<and> x = Matched"
      using e by (metis append_Cons append_Nil append_assoc butlast_snoc last_snoc append_Nil2)
    then show ?thesis
      unfolding matched_tail_two by blast
  next
    case (snoc post' y)
    then have "os = pre @ [Matched, Matched, Matched] @ post'"
      using e by (metis append_assoc butlast_snoc)
    then show ?thesis
      unfolding three_in_a_row_def by blast
  qed
next
  assume "three_in_a_row os \<or> x = Matched \<and> 2 \<le> matched_tail os"
  then show "three_in_a_row (os @ [x])"
    unfolding three_in_a_row_def matched_tail_two by (metis append_Cons append_Nil append_assoc)
qed

text \<open>What a live session knows of its history.\<close>

definition tracks :: "Outcome list \<Rightarrow> Session \<Rightarrow> bool" where
  "tracks os s \<longleftrightarrow> s_nonMatchedStreak s = failed_tail os \<and> s_matchStreak s = matched_tail os
     \<and> (s_state s = Verified \<longleftrightarrow> three_in_a_row os)"

lemma tracks_apply:
  assumes "session_ok s" "\<not> s_ended s" "tracks os s" "vd_Outcome v \<noteq> Ignored"
    "\<not> s_ended (fst (Apply v p s))"
  shows "tracks (os @ [vd_Outcome v]) (fst (Apply v p s))"
  using assms(2,4)
proof (cases rule: Apply_cases [where p = p])
  case non_matched
  then show ?thesis
    using assms(3,5) unfolding non_matched(2) tracks_def applyNonMatched_fields [OF non_matched(3)]
    by (simp add: three_in_a_row_snoc)
next
  case (matched s1)
  have ok: "s_state s \<noteq> Rejected" "s_state s = Pending \<Longrightarrow> s_matchStreak s < 3"
    using assms(1,2) by (simp_all add: session_ok_def streak_constants)
  show ?thesis
    using assms(3,5) matched(1) ok unfolding matched(2) tracks_def applyMatched_fields [OF matched(4)]
    unfolding matched(3)
    by (cases "s_state s") (auto simp: three_in_a_row_snoc streak_constants)
qed

lemma run_ride_tracks:
  assumes "\<not> s_ended (run_ride vs (NewSession i rider key trip tier startedAt))"
  shows "tracks (accepted vs) (run_ride vs (NewSession i rider key trip tier startedAt))"
  using assms
proof (induction vs rule: rev_induct)
  case Nil
  then show ?case by (simp add: tracks_def run_ride_def NewSession_def accepted_def three_in_a_row_def)
next
  case (snoc vp vs)
  obtain v p where vp: "vp = (v, p)" by (cases vp)
  let ?s = "run_ride vs (NewSession i rider key trip tier startedAt)"
  have live: "\<not> s_ended ?s"
    using snoc.prems by (auto simp: vp run_ride_snoc Apply_ended)
  have ok: "session_ok ?s"
    by (rule run_ride_ok [OF session_ok_new])
  show ?case
  proof (cases "vd_Outcome v = Ignored")
    case True
    then show ?thesis
      using snoc.IH [OF live] live by (simp add: vp run_ride_snoc accepted_snoc Apply_def)
  next
    case False
    then show ?thesis
      using tracks_apply [OF ok live snoc.IH [OF live], of v p] snoc.prems
      by (simp add: vp run_ride_snoc accepted_snoc)
  qed
qed

text \<open>Why a ride that only saw verdicts has ended.\<close>

definition rejected_for :: "(Verdict \<times> Point) list \<Rightarrow> Session \<Rightarrow> bool" where
  "rejected_for vs s \<longleftrightarrow>
     s_state s = Rejected
     \<and> (s_endReason s = Some EndContradicted \<and> contradictStreak \<le> c_Contradicted (s_counts s)
        \<or> (\<exists>n pre run. accepted (take n vs) = pre @ run \<and> length run = rejectStreak \<and> Matched \<notin> set run
             \<and> s_endReason s = Some (endReasonFor (dominantOutcome run))))"

lemma rejected_for_mono: "rejected_for vs s \<Longrightarrow> rejected_for (vs @ ws) s"
proof -
  assume r: "rejected_for vs s"
  have "accepted (take n vs) = accepted (take (min n (length vs)) (vs @ ws))" for n
    by (simp add: min_def)
  then show ?thesis
    using r unfolding rejected_for_def by metis
qed

lemma rejected_for_apply:
  assumes "session_ok s" "\<not> s_ended s" "tracks (accepted vs) s" "s_ended (fst (Apply v p s))"
  shows "rejected_for (vs @ [(v, p)]) (fst (Apply v p s))"
proof -
  have ni: "vd_Outcome v \<noteq> Ignored"
    using assms(2,4) by (auto simp: Apply_def no_transition_def)
  from assms(2) ni show ?thesis
  proof (cases rule: Apply_cases [where p = p])
    case non_matched
    let ?run = "s_nonMatchedStreak s @ [vd_Outcome v]"
    obtain pre where pre: "accepted vs = pre @ s_nonMatchedStreak s" "Matched \<notin> set (s_nonMatchedStreak s)"
      using failed_tail_suffix [of "accepted vs"] assms(3) by (auto simp: tracks_def)
    have dead: "\<not> length (s_nonMatchedStreak s) + 1 < rejectStreak"
      using assms(4) unfolding non_matched(2) applyNonMatched_fields [OF non_matched(3)] by simp
    then have len: "length ?run = rejectStreak"
      using assms(1,2) by (simp add: session_ok_def)
    have st: "s_state (fst (Apply v p s)) = Rejected"
        "s_endReason (fst (Apply v p s)) = Some (endReasonFor (dominantOutcome ?run))"
      using dead unfolding non_matched(2) applyNonMatched_fields [OF non_matched(3)] by simp_all
    have "accepted (take (Suc (length vs)) (vs @ [(v, p)])) = pre @ ?run"
      using ni pre(1) by (simp add: accepted_snoc)
    moreover have "Matched \<notin> set ?run"
      using pre(2) non_matched(1) by auto
    ultimately show ?thesis
      unfolding rejected_for_def using st len by blast
  next
    case (matched s1)
    have le: "s_contradictions s \<le> c_Contradicted (s_counts s)"
      using assms(1) by (simp add: session_ok_def)
    have ended: "contradictStreak \<le> streak_after (vd_Corroboration v) (s_contradictions s)"
      using assms(4) unfolding matched(2) applyMatched_fields [OF matched(4)] by (simp add: matched(3))
    have c: "contradictStreak \<le> c_Contradicted (s_counts (fst (Apply v p s)))"
      using ended le unfolding matched(2) applyMatched_fields [OF matched(4)]
      by (cases "vd_Corroboration v") (simp_all add: matched(3) streak_after_def contradictStreak_def)
    have st: "s_state (fst (Apply v p s)) = Rejected"
        "s_endReason (fst (Apply v p s)) = Some EndContradicted"
      using ended unfolding matched(2) applyMatched_fields [OF matched(4)] by (simp_all add: matched(3))
    show ?thesis
      unfolding rejected_for_def using st c by blast
  qed
qed

lemma run_ride_rejected:
  assumes "s_ended (run_ride vs (NewSession i rider key trip tier startedAt))"
  shows "rejected_for vs (run_ride vs (NewSession i rider key trip tier startedAt))"
  using assms
proof (induction vs rule: rev_induct)
  case Nil
  then show ?case by (simp add: run_ride_def NewSession_def)
next
  case (snoc vp vs)
  obtain v p where vp: "vp = (v, p)" by (cases vp)
  let ?s = "run_ride vs (NewSession i rider key trip tier startedAt)"
  show ?case
  proof (cases "s_ended ?s")
    case True
    then show ?thesis
      using rejected_for_mono [OF snoc.IH [OF True]] by (simp add: vp run_ride_snoc Apply_ended)
  next
    case False
    then show ?thesis
      using rejected_for_apply [OF run_ride_ok [OF session_ok_new] False run_ride_tracks [OF False]] snoc.prems
      by (simp add: vp run_ride_snoc)
  qed
qed

section \<open>Properties\<close>

text \<open>
  C2: a ride that has only been shown points is verified exactly when it has not ended and three
  consecutive accepted points matched the trip. When it has ended it is rejected, either because a
  trusted feed contradicted at least three of its points, or because five accepted points in a row
  failed, and then the reason is the dominant failure of those five.
\<close>

theorem verified_by_three_matches:
  "(s_state (run_ride vs (NewSession i rider key trip tier startedAt)) = Verified \<longleftrightarrow>
      \<not> s_ended (run_ride vs (NewSession i rider key trip tier startedAt)) \<and> three_in_a_row (accepted vs))
   \<and> (\<not> s_ended (run_ride vs (NewSession i rider key trip tier startedAt))
      \<or> rejected_for vs (run_ride vs (NewSession i rider key trip tier startedAt)))"
proof (cases "s_ended (run_ride vs (NewSession i rider key trip tier startedAt))")
  case True
  then show ?thesis
    using run_ride_rejected [OF True] by (auto simp: rejected_for_def)
next
  case False
  then show ?thesis
    using run_ride_tracks [OF False] by (simp add: tracks_def)
qed

theorem verified_by_three_matches_witness:
  "let v = zero_verdict\<lparr>vd_Outcome := Matched\<rparr>;
       p = demo_point 2 demo_day
   in s_state (run_ride [(v, p), (v, p), (v, p)] (NewSession ''r'' ''u'' (TripKey ''t'' ''20250102'') None TierNew 0))
        = Verified"
proof -
  let ?v = "zero_verdict\<lparr>vd_Outcome := Matched\<rparr>"
  let ?p = "demo_point 2 demo_day"
  let ?s = "NewSession ''r'' ''u'' (TripKey ''t'' ''20250102'') None TierNew 0"
  have "\<not> s_ended (run_ride [(?v, ?p), (?v, ?p), (?v, ?p)] ?s)"
    by (simp add: run_ride_def Apply_def accept_point_def applyMatched_def tally_corroboration_def NewSession_def
        zero_verdict_def Let_def verifyStreak_def contradictStreak_def)
  moreover have "three_in_a_row (accepted [(?v, ?p), (?v, ?p), (?v, ?p)])"
    unfolding three_in_a_row_def by (rule exI [of _ "[]"], rule exI [of _ "[]"]) (simp add: accepted_def)
  ultimately show ?thesis
    using verified_by_three_matches [of "[(?v, ?p), (?v, ?p), (?v, ?p)]" "''r''" "''u''" "TripKey ''t'' ''20250102''" None TierNew 0]
    by (simp add: Let_def)
qed

text \<open>
  The failure a rejected ride is blamed on is one of its streak, no failure is more frequent,
  and among equally frequent ones it is the most recent: everything after its last occurrence is
  strictly rarer.
\<close>

theorem dominantOutcome_most_frequent:
  assumes "streak \<noteq> []"
  shows "\<exists>ys zs. streak = ys @ dominantOutcome streak # zs
     \<and> (\<forall>x. count_outcome x streak \<le> count_outcome (dominantOutcome streak) streak)
     \<and> (\<forall>x \<in> set zs. count_outcome x streak < count_outcome (dominantOutcome streak) streak)"
proof -
  obtain ys zs where d: "streak = ys @ dominantOutcome streak # zs"
      "\<forall>x \<in> set zs. count_outcome x streak < count_outcome (dominantOutcome streak) streak"
      "\<forall>x \<in> set ys. count_outcome x streak \<le> count_outcome (dominantOutcome streak) streak"
    using dominantOutcome_split [OF assms] by blast
  have "count_outcome x streak \<le> count_outcome (dominantOutcome streak) streak" for x
  proof (cases "x \<in> set streak")
    case True
    then have "x \<in> set ys \<or> x = dominantOutcome streak \<or> x \<in> set zs"
      using d(1) by (metis UnE set_append set_ConsD)
    then show ?thesis
      using d(2,3) by (auto intro: less_imp_le)
  next
    case False
    then have "filter (\<lambda>z. z = x) streak = []"
      by (auto simp: filter_empty_conv)
    then show ?thesis by (simp add: count_outcome_def)
  qed
  then show ?thesis
    using d by blast
qed

theorem dominantOutcome_most_frequent_witness:
  "dominantOutcome [OffRoute, OffRoute, OffSchedule, OffSchedule, Implausible] = OffSchedule
   \<and> (\<forall>x. count_outcome x [OffRoute, OffRoute, OffSchedule, OffSchedule, Implausible] \<le> 2)"
  using dominantOutcome_most_frequent [of "[OffRoute, OffRoute, OffSchedule, OffSchedule, Implausible]"]
  by (simp add: dominantOutcome_def count_outcome_def)

text \<open>
  C14: in every session reachable from a new one by points, ends and tier changes, the counts are
  consistent (matched and failed points are accepted points, corroborated and contradicted ones are
  matched points), the streaks of a live session are below the limits that reject it, a rejected
  session has ended, an ended one has a reason, and a verified one has at least three matches.
\<close>

theorem session_invariant:
  assumes "reachable s"
  shows "c_Matched (s_counts s) + length (s_nonMatchedStreak s) \<le> c_Total (s_counts s)
     \<and> c_Corroborated (s_counts s) + c_Contradicted (s_counts s) \<le> c_Matched (s_counts s)
     \<and> (s_ended s \<or> length (s_nonMatchedStreak s) < 5 \<and> s_contradictions s < 3 \<and> s_state s \<noteq> Rejected)
     \<and> (s_ended s \<longleftrightarrow> s_endReason s \<noteq> None)
     \<and> (s_state s \<noteq> Verified \<or> 3 \<le> c_Matched (s_counts s))
     \<and> (s_corroborated s \<longleftrightarrow> 12 \<le> c_Corroborated (s_counts s))
     \<and> (s_latestMatched s = None \<longleftrightarrow> c_Matched (s_counts s) = 0)"
  using session_ok_reachable [OF assms] by (auto simp: session_ok_def streak_constants)

theorem session_invariant_witness:
  "(let s = End EndArrived 7 (NewSession ''a'' ''r'' (TripKey ''t'' ''20250102'') None TierNew 5)
    in s_ended s \<and> (s_ended s \<longleftrightarrow> s_endReason s \<noteq> None) \<and> (s_state s \<noteq> Verified \<or> 3 \<le> c_Matched (s_counts s)))"
proof -
  have "reachable (End EndArrived 7 (NewSession ''a'' ''r'' (TripKey ''t'' ''20250102'') None TierNew 5))"
    by (rule reach_step [OF reach_new step_end])
  from session_invariant [OF this] show ?thesis
    by (simp add: Let_def) (simp add: End_def NewSession_def)
qed

text \<open>
  The first end wins. Once a session has ended, no point, later end or tier change alters
  anything but the tier: its state, counts, reason and end time are final.
\<close>

theorem ended_is_final:
  assumes "ride_step s s'" "s_ended s"
  shows "s' = s\<lparr>s_tier := s_tier s'\<rparr>"
  using assms by (cases rule: ride_step.cases) (auto simp: Apply_def End_def SetTier_def)

theorem ended_is_final_witness:
  "End EndIdle 9 (End EndArrived 7 (NewSession ''a'' ''r'' (TripKey ''t'' ''20250102'') None TierNew 5))
     = (End EndArrived 7 (NewSession ''a'' ''r'' (TripKey ''t'' ''20250102'') None TierNew 5))
         \<lparr>s_tier := TierNew\<rparr>"
  using ended_is_final [OF step_end [of "End EndArrived 7 (NewSession ''a'' ''r'' (TripKey ''t'' ''20250102'') None TierNew 5)"
      EndIdle 9]]
  by (simp add: End_def NewSession_def)

text \<open>
  What a finished ride does to the score. It costs three points exactly when a trusted feed
  contradicted it and one when it was rejected otherwise; it earns a point only when a trusted feed
  corroborated at least twelve of its points and its matched points span at least five minutes. A
  score never leaves \<open>[-10, 10]\<close>, and the tier is the one the score earns.
\<close>

theorem ScoreDelta_earned:
  assumes "reachable s"
  shows "ScoreDelta (Summary s) \<in> {- 3, - 1, 0, 1}
    \<and> (ScoreDelta (Summary s) = - 3 \<longleftrightarrow> s_state s = Rejected \<and> s_endReason s = Some EndContradicted)
    \<and> (ScoreDelta (Summary s) < 0 \<longleftrightarrow> s_state s = Rejected)
    \<and> (ScoreDelta (Summary s) = 1 \<longleftrightarrow> s_state s \<noteq> Rejected \<and> 12 \<le> c_Corroborated (s_counts s)
         \<and> 5 * minute \<le> time_sub (s_lastMatchedAt s) (s_firstMatchedAt s))
    \<and> - 10 \<le> Clamp (n + ScoreDelta (Summary s)) \<and> Clamp (n + ScoreDelta (Summary s)) \<le> 10"
proof -
  have ok: "s_corroborated s \<longleftrightarrow> 12 \<le> c_Corroborated (s_counts s)"
      "12 \<le> c_Corroborated (s_counts s) \<Longrightarrow> 2 \<le> c_Matched (s_counts s)"
    using session_ok_reachable [OF assms] by (auto simp: session_ok_def streak_constants)
  show ?thesis
    using ok by (auto simp: ScoreDelta_def Summary_def score_constants minScoredRide_def Clamp_def)
qed

theorem ScoreDelta_earned_witness:
  "ScoreDelta (Summary (NewSession ''a'' ''r'' (TripKey ''t'' ''20250102'') None TierNew 5)) \<in> {- 3, - 1, 0, 1}"
  using ScoreDelta_earned [OF reach_new] by blast

lemma EndReason_String_inj: "EndReason_String a = EndReason_String b \<Longrightarrow> a = b"
  by (cases a; cases b; simp)

lemma ParseEndReason_iff: "ParseEndReason s = Some r \<longleftrightarrow> EndReason_String r = s"
proof -
  have "r \<in> set endReasons"
    by (cases r) (simp_all add: endReasons_def)
  then show ?thesis
    unfolding ParseEndReason_def by (simp add: find_inj [OF EndReason_String_inj])
qed

lemma ParseClientEndReason_iff:
  "ParseClientEndReason s = Some r \<longleftrightarrow> EndReason_String r = s \<and> r \<in> set clientEndReasons"
  unfolding ParseClientEndReason_def by (rule find_inj [OF EndReason_String_inj])

lemma ParseTier_String [simp]: "ParseTier (Tier_String t) = t"
  by (cases t) (simp_all add: ParseTier_def)

end
