(* ===== verification/Aggregator.thy ===== *)
theory Aggregator
  imports Session
begin

text \<open>
  The registry of live rides (\<open>src/rider/aggregator.go\<close>): which rides are registered and whose they
  are, what a batch of points does to one, when rides run out of time, and the vehicle position the
  riders of a trip add up to. Each operation the mutex guards is a function of the registry; the one
  that lets go of the mutex, \<open>ApplyBatch\<close>, takes what other callers did meanwhile as an argument.
  Where the code ranges over a map, the order of the keys is an argument.
\<close>

definition idleTimeout :: duration where "idleTimeout = 15 * minute"
definition maxRideDuration :: duration where "maxRideDuration = 3 * hour"
definition consensusDistance :: f64 where "consensusDistance = Num 100"
definition outlierDistance :: f64 where "outlierDistance = Num 100"

record AppliedPoint =
  apl_Point :: Point
  apl_Verdict :: Verdict

record BatchResult =
  br_Published :: bool
  br_Corroboration :: Corroboration
  br_Accepted :: nat
  br_Ignored :: nat
  br_OffRouteStreak :: nat
  br_Points :: "AppliedPoint list"
  br_Summary :: RideSummary

record TripEstimate =
  te_Key :: TripKey
  te_RouteID :: string
  te_Pos :: LatLon
  te_Bearing :: f64
  te_Speed :: "f64 option"
  te_Timestamp :: gotime
  te_StopID :: string
  te_StopSequence :: int
  te_Riders :: nat

record Aggregator =
  ag_th :: Thresholds
  ag_tz :: location
  ag_sessions :: "string \<rightharpoonup> Session"
  ag_byRider :: "string \<rightharpoonup> string"

record RideSnapshot =
  sn_ID :: string
  sn_RiderID :: string
  sn_Key :: TripKey
  sn_Tier :: Tier
  sn_StartedAt :: gotime
  sn_Ended :: bool
  sn_Summary :: RideSummary

section \<open>The registry\<close>

definition NewAggregator :: "Thresholds \<Rightarrow> location \<Rightarrow> Aggregator" where
  "NewAggregator th tz = \<lparr>ag_th = th, ag_tz = tz, ag_sessions = Map.empty, ag_byRider = Map.empty\<rparr>"

definition agg_Add :: "Session \<Rightarrow> Aggregator \<Rightarrow> Aggregator" where
  "agg_Add s a = a\<lparr>ag_sessions := (ag_sessions a)(s_id s \<mapsto> s), ag_byRider := (ag_byRider a)(s_riderID s \<mapsto> s_id s)\<rparr>"

definition snapshot_of :: "Session \<Rightarrow> bool \<Rightarrow> RideSnapshot" where
  "snapshot_of s ended =
     \<lparr>sn_ID = s_id s, sn_RiderID = s_riderID s, sn_Key = s_key s, sn_Tier = s_tier s,
      sn_StartedAt = s_startedAt s, sn_Ended = ended, sn_Summary = Summary s\<rparr>"

definition Snapshot :: "Aggregator \<Rightarrow> string \<Rightarrow> RideSnapshot option" where
  "Snapshot a rideID = map_option (\<lambda>s. snapshot_of s (s_ended s)) (ag_sessions a rideID)"

definition agg_End :: "string \<Rightarrow> EndReason \<Rightarrow> gotime \<Rightarrow> Aggregator \<Rightarrow> Aggregator \<times> RideSnapshot option" where
  "agg_End rideID reason now a =
     (case ag_sessions a rideID of
        None \<Rightarrow> (a, None)
      | Some s \<Rightarrow>
          (let s = End reason now s
           in (a\<lparr>ag_sessions := (ag_sessions a)(rideID \<mapsto> s)\<rparr>, Some (snapshot_of s True))))"

definition activeForRiderLocked :: "Aggregator \<Rightarrow> string \<Rightarrow> Session option" where
  "activeForRiderLocked a riderID =
     (case ag_byRider a riderID of
        None \<Rightarrow> None
      | Some rideID \<Rightarrow>
          (case ag_sessions a rideID of
             None \<Rightarrow> None
           | Some s \<Rightarrow> if s_ended s then None else Some s))"

definition ActiveRideForRider :: "Aggregator \<Rightarrow> string \<Rightarrow> string option" where
  "ActiveRideForRider a riderID = map_option s_id (activeForRiderLocked a riderID)"

definition agg_SetTier :: "string \<Rightarrow> Tier \<Rightarrow> Aggregator \<Rightarrow> Aggregator" where
  "agg_SetTier riderID tier a =
     (case (activeForRiderLocked a riderID, ag_byRider a riderID) of
        (Some s, Some rideID) \<Rightarrow> a\<lparr>ag_sessions := (ag_sessions a)(rideID \<mapsto> SetTier tier s)\<rparr>
      | _ \<Rightarrow> a)"

definition removeLocked :: "string \<Rightarrow> Aggregator \<Rightarrow> Aggregator \<times> Session option" where
  "removeLocked rideID a =
     (case ag_sessions a rideID of
        None \<Rightarrow> (a, None)
      | Some s \<Rightarrow>
          (a\<lparr>ag_sessions := (ag_sessions a)(rideID := None),
             ag_byRider := (if ag_byRider a (s_riderID s) = Some rideID
                            then (ag_byRider a)(s_riderID s := None) else ag_byRider a)\<rparr>,
           Some s))"

definition Remove :: "string \<Rightarrow> Aggregator \<Rightarrow> Aggregator \<times> Session option" where
  "Remove rideID a = removeLocked rideID a"

definition ActiveCount :: "string list \<Rightarrow> Aggregator \<Rightarrow> nat" where
  "ActiveCount ks a = length (filter (\<lambda>s. \<not> s_ended s) (range_values ks (ag_sessions a)))"

section \<open>Applying a batch\<close>

definition liveKey :: "Aggregator \<Rightarrow> string \<Rightarrow> TripKey option" where  \<comment> \<open>\<open>None\<close> is \<open>ErrUnknownRide\<close>\<close>
  "liveKey a rideID =
     (case ag_sessions a rideID of
        None \<Rightarrow> None
      | Some s \<Rightarrow> if s_ended s then None else Some (s_key s))"

definition verify_input ::
  "Thresholds \<Rightarrow> location \<Rightarrow> TrustedVehicle option \<Rightarrow> f64 option \<Rightarrow> gotime \<Rightarrow> Session \<Rightarrow> Point \<Rightarrow> VerifyInput" where
  "verify_input th tz trusted trustedAlong now s p =
     \<lparr>in_Trip = s_trip s, in_Timezone = tz, in_StartDate = tk_StartDate (s_key s),
      in_Prev = s_latestMatched s, in_LastAccepted = LastAcceptedAt s, in_Point = p,
      in_Trusted = trusted, in_TrustedAlong = trustedAlong, in_Thresholds = th, in_Now = now\<rparr>"

text \<open>
  The loop over the sorted batch: the session, the points accepted so far, how many were ignored.
  \<open>judge\<close> is the verdict on a point for the session as it stands.
\<close>

fun apply_points ::
  "(Session \<Rightarrow> Point \<Rightarrow> Verdict) \<Rightarrow> Point list \<Rightarrow> Session \<times> AppliedPoint list \<times> nat
     \<Rightarrow> Session \<times> AppliedPoint list \<times> nat" where
  "apply_points judge [] st = st"
| "apply_points judge (p # ps) (s, pts, ign) =
     (if s_ended s then (s, pts, ign + length (p # ps))
      else
        (let v = judge s p
         in if vd_Outcome v = Ignored then apply_points judge ps (s, pts, ign + 1)
            else apply_points judge ps
                   (fst (Apply v p s), pts @ [\<lparr>apl_Point = p, apl_Verdict = v\<rparr>], ign)))"

definition trusted_along :: "TrustedVehicle option \<Rightarrow> Session \<Rightarrow> f64 option" where
  "trusted_along trusted s =
     (case (trusted, trip_shape (s_trip s)) of
        (Some tv, Some shape) \<Rightarrow>
          Some (pr_AlongShape (Project shape (tv_Pos tv) (map_option ap_AlongShape (s_latestMatched s))))
      | _ \<Rightarrow> None)"

definition sort_points :: "Point list \<Rightarrow> Point list" where
  "sort_points points = stable_sort (\<lambda>x y. cmp (pt_Timestamp x) (pt_Timestamp y)) points"

text \<open>The part under the registry lock; \<open>None\<close> is \<open>ErrUnknownRide\<close>.\<close>

definition apply_batch_locked ::
  "TripKey \<Rightarrow> TrustedVehicle option \<Rightarrow> string \<Rightarrow> Point list \<Rightarrow> gotime \<Rightarrow> Aggregator
     \<Rightarrow> Aggregator \<times> BatchResult option" where
  "apply_batch_locked key trusted rideID sorted_pts now a =
     (case ag_sessions a rideID of
        None \<Rightarrow> (a, None)
      | Some s \<Rightarrow>
          if s_ended s \<or> s_key s \<noteq> key then (a, None)
          else
            (let judge = (\<lambda>s' p. Verify (verify_input (ag_th a) (ag_tz a) trusted (trusted_along trusted s) now s' p));
                 (s, pts, ign) = apply_points judge sorted_pts (s, [], 0)
             in (a\<lparr>ag_sessions := (ag_sessions a)(rideID \<mapsto> s)\<rparr>,
                 Some \<lparr>br_Published = Publishable s now (th_PointMaxAge (ag_th a)),
                       br_Corroboration = s_latestCorrob s, br_Accepted = length pts, br_Ignored = ign,
                       br_OffRouteStreak = OffRouteStreak s, br_Points = pts, br_Summary = Summary s\<rparr>)))"

text \<open>\<open>meanwhile\<close> is what other callers did to the registry while the lock was free.\<close>

definition ApplyBatch ::
  "(Aggregator \<Rightarrow> Aggregator) \<Rightarrow> string \<Rightarrow> Point list \<Rightarrow> (TripKey \<Rightarrow> TrustedVehicle option) option \<Rightarrow> gotime
     \<Rightarrow> Aggregator \<Rightarrow> Aggregator \<times> BatchResult option" where
  "ApplyBatch meanwhile rideID points lookup now a =
     (case liveKey a rideID of
        None \<Rightarrow> (a, None)
      | Some key \<Rightarrow>
          (let trusted = (case lookup of None \<Rightarrow> None | Some f \<Rightarrow> f key)
           in apply_batch_locked key trusted rideID (sort_points points) now (meanwhile a)))"

section \<open>Running out of time\<close>

definition expiry :: "Session \<Rightarrow> gotime \<Rightarrow> EndReason option" where
  "expiry s now =
     (if time_sub now (s_startedAt s) > maxRideDuration then Some EndMaxDuration
      else
        (let lst = (if is_zero_time (LastAcceptedAt s) then s_startedAt s else LastAcceptedAt s)
         in if time_sub now lst > idleTimeout then Some EndIdle else None))"

definition reap_step ::
  "gotime \<Rightarrow> string \<Rightarrow> (string \<rightharpoonup> Session) \<times> string list \<Rightarrow> (string \<rightharpoonup> Session) \<times> string list" where
  "reap_step now i st =
     (case st of (m, reaped) \<Rightarrow>
       (case m i of
          None \<Rightarrow> st
        | Some s \<Rightarrow>
            if s_ended s then (m, reaped @ [i])
            else (case expiry s now of
                    None \<Rightarrow> st
                  | Some reason \<Rightarrow> (m(i \<mapsto> End reason now s), reaped @ [i]))))"

definition Reap :: "string list \<Rightarrow> gotime \<Rightarrow> Aggregator \<Rightarrow> Aggregator \<times> string list" where
  "Reap ks now a =
     (let (m, reaped) = fold (reap_step now) ks (ag_sessions a, [])
      in (a\<lparr>ag_sessions := m\<rparr>, sort reaped))"

section \<open>The position riders add up to\<close>

record estimateMember =
  em_riderID :: string
  em_along :: f64
  em_speed :: f64
  em_timestamp :: gotime
  em_publishable :: bool

record tripGroup =
  tg_trip :: "TripInfo option"
  tg_members :: "estimateMember list"

definition memberOfLocked :: "Aggregator \<Rightarrow> gotime \<Rightarrow> Session \<Rightarrow> estimateMember option" where
  "memberOfLocked a now s =
     (if s_ended s \<or> s_tier s = TierBlocked \<or> s_state s \<noteq> Verified
         \<or> \<not> Fresh s now (th_PointMaxAge (ag_th a)) then None
      else if ag_byRider a (s_riderID s) \<noteq> Some (s_id s) then None
      else (case s_latestMatched s of
              None \<Rightarrow> None
            | Some m \<Rightarrow>
                Some \<lparr>em_riderID = s_riderID s, em_along = ap_AlongShape m, em_speed = pt_Speed (ap_Point m),
                      em_timestamp = ap_Timestamp m,
                      em_publishable = Publishable s now (th_PointMaxAge (ag_th a))\<rparr>))"

definition group_step :: "Aggregator \<Rightarrow> gotime \<Rightarrow> Session \<Rightarrow> (TripKey \<rightharpoonup> tripGroup) \<Rightarrow> (TripKey \<rightharpoonup> tripGroup)" where
  "group_step a now s out =
     (case memberOfLocked a now s of
        None \<Rightarrow> out
      | Some m \<Rightarrow>
          (let g = (case out (s_key s) of None \<Rightarrow> \<lparr>tg_trip = s_trip s, tg_members = []\<rparr> | Some g \<Rightarrow> g)
           in out(s_key s \<mapsto> g\<lparr>tg_members := tg_members g @ [m]\<rparr>)))"

definition groups :: "string list \<Rightarrow> gotime \<Rightarrow> Aggregator \<Rightarrow> (TripKey \<rightharpoonup> tripGroup)" where
  "groups ks now a = fold (group_step a now) (range_values ks (ag_sessions a)) Map.empty"

definition in_consensus :: "estimateMember \<Rightarrow> estimateMember \<Rightarrow> bool" where
  "in_consensus x y \<longleftrightarrow>
     em_riderID x \<noteq> em_riderID y \<and> fle (fabs (fsub (em_along x) (em_along y))) consensusDistance"

fun some_pair :: "('a \<Rightarrow> 'a \<Rightarrow> bool) \<Rightarrow> 'a list \<Rightarrow> bool" where
  "some_pair r [] = False"
| "some_pair r (x # xs) = (list_ex (r x) xs \<or> some_pair r xs)"

definition publishable :: "estimateMember list \<Rightarrow> bool" where
  "publishable members \<longleftrightarrow> list_ex em_publishable members \<or> some_pair in_consensus members"

definition canEstimate :: "tripGroup \<Rightarrow> bool" where
  "canEstimate g \<longleftrightarrow> trip_shape (tg_trip g) \<noteq> None \<and> publishable (tg_members g)"

definition within_limit :: "estimateMember list \<Rightarrow> f64 \<Rightarrow> f64 \<Rightarrow> estimateMember list" where
  "within_limit members along limit = filter (\<lambda>m. fle (fabs (fsub (em_along m) along)) limit) members"

text \<open>\<open>slices.Sort\<close> of floats: NaN before every number.\<close>

definition f_less :: "f64 \<Rightarrow> f64 \<Rightarrow> bool" where
  "f_less x y \<longleftrightarrow> flt x y \<or> f_is_nan x \<and> \<not> f_is_nan y"

definition f_cmp :: "f64 \<Rightarrow> f64 \<Rightarrow> int" where
  "f_cmp x y = (if f_less x y then - 1 else if f_less y x then 1 else 0)"

definition median :: "f64 list \<Rightarrow> f64" where
  "median values =
     (let sorted = stable_sort f_cmp values; n = length sorted
      in if n mod 2 = 1 then sorted ! (n div 2)
         else fdiv (fadd (sorted ! (n div 2 - 1)) (sorted ! (n div 2))) (Num 2))"

definition medianAlong :: "estimateMember list \<Rightarrow> f64" where
  "medianAlong members = median (map em_along members)"

definition medianSpeed :: "estimateMember list \<Rightarrow> f64 option" where
  "medianSpeed members =
     (let speeds = filter (\<lambda>x. fge x (Num 0)) (map em_speed members)
      in if speeds = [] then None else Some (median speeds))"

definition newestTimestamp :: "estimateMember list \<Rightarrow> gotime \<Rightarrow> gotime" where
  "newestTimestamp members now =
     (let newest = fold (\<lambda>m t. if em_timestamp m > t then em_timestamp m else t) (tl members)
                     (em_timestamp (hd members))
      in if newest > now then now else newest)"

definition distinctRiders :: "estimateMember list \<Rightarrow> nat" where
  "distinctRiders members = length (remdups (map em_riderID members))"

definition nextStop :: "TripInfo \<Rightarrow> f64 \<Rightarrow> StopTimeInfo option" where
  "nextStop trip along = find (\<lambda>st. fge (si_AlongShape st) along) (ti_StopTimes trip)"

text \<open>The members the estimate is made of; \<open>None\<close> is the refusal.\<close>

definition survivors :: "tripGroup \<Rightarrow> estimateMember list option" where
  "survivors g =
     (let members = tg_members g;
          kept = within_limit members (medianAlong members) outlierDistance
      in if length kept < length members
         then (if kept = [] \<or> \<not> publishable kept then None else Some kept)
         else Some members)"

definition make_estimate :: "TripKey \<Rightarrow> gotime \<Rightarrow> TripInfo \<Rightarrow> ShapeGeom \<Rightarrow> estimateMember list \<Rightarrow> TripEstimate" where
  "make_estimate key now trip shape members =
     (let m = medianAlong members; stop = nextStop trip m
      in \<lparr>te_Key = key, te_RouteID = ti_RouteID trip, te_Pos = PointAt shape m, te_Bearing = BearingAt shape m,
          te_Speed = medianSpeed members, te_Timestamp = newestTimestamp members now,
          te_StopID = (case stop of None \<Rightarrow> [] | Some st \<Rightarrow> si_StopID st),
          te_StopSequence = (case stop of None \<Rightarrow> 0 | Some st \<Rightarrow> si_Sequence st),
          te_Riders = distinctRiders members\<rparr>)"

definition estimate :: "TripKey \<Rightarrow> gotime \<Rightarrow> tripGroup \<Rightarrow> TripEstimate option" where
  "estimate key now g =
     (if \<not> canEstimate g then None
      else (case (tg_trip g, trip_shape (tg_trip g), survivors g) of
              (Some trip, Some shape, Some members) \<Rightarrow> Some (make_estimate key now trip shape members)
            | _ \<Rightarrow> None))"

definition is_covered :: "(TripKey \<Rightarrow> bool) option \<Rightarrow> TripKey \<Rightarrow> bool" where
  "is_covered covered key = (case covered of None \<Rightarrow> False | Some f \<Rightarrow> f key)"

definition estimates_of ::
  "(TripKey \<rightharpoonup> tripGroup) \<Rightarrow> gotime \<Rightarrow> (TripKey \<Rightarrow> bool) option \<Rightarrow> TripKey list \<Rightarrow> TripEstimate list" where
  "estimates_of gs now covered kks =
     List.map_filter (\<lambda>key. if is_covered covered key then None
                            else case gs key of None \<Rightarrow> None | Some g \<Rightarrow> estimate key now g) kks"

text \<open>\<open>ks\<close> orders the sessions, \<open>kks\<close> the groups.\<close>

definition Estimates ::
  "string list \<Rightarrow> TripKey list \<Rightarrow> gotime \<Rightarrow> (TripKey \<Rightarrow> bool) option \<Rightarrow> Aggregator \<Rightarrow> TripEstimate list" where
  "Estimates ks kks now covered a =
     stable_sort (\<lambda>x y. cmp (te_Key x) (te_Key y)) (estimates_of (groups ks now a) now covered kks)"

definition PublishableCount ::
  "string list \<Rightarrow> TripKey list \<Rightarrow> gotime \<Rightarrow> (TripKey \<Rightarrow> bool) option \<Rightarrow> Aggregator \<Rightarrow> nat" where
  "PublishableCount ks kks now covered a = length (Estimates ks kks now covered a)"

definition TripStatus ::
  "string list \<Rightarrow> TripKey \<Rightarrow> gotime \<Rightarrow> (TripKey \<Rightarrow> bool) option \<Rightarrow> Aggregator \<Rightarrow> bool \<times> nat" where
  "TripStatus ks key now covered a =
     (case groups ks now a key of
        None \<Rightarrow> (False, 0)
      | Some g \<Rightarrow>
          (let riders = distinctRiders (tg_members g)
           in if is_covered covered key then (False, riders)
              else (estimate key now g \<noteq> None, riders)))"

section \<open>The registry stays consistent\<close>

definition agg_ok :: "Aggregator \<Rightarrow> bool" where
  "agg_ok a \<longleftrightarrow>
     finite (dom (ag_sessions a))
     \<and> (\<forall>i s. ag_sessions a i = Some s \<longrightarrow> s_id s = i \<and> reachable s)
     \<and> (\<forall>r i. ag_byRider a r = Some i \<longrightarrow> (\<exists>s. ag_sessions a i = Some s \<and> s_riderID s = r))"

text \<open>
  The steps of the registry. A ride id is never reused by another rider, which is what the store's
  primary key gives; that is the guard of \<open>agg_add\<close>.
\<close>

inductive agg_step :: "Aggregator \<Rightarrow> Aggregator \<Rightarrow> bool" where
  agg_add: "(\<forall>s0. ag_sessions a (s_id s) = Some s0 \<longrightarrow> s_riderID s0 = s_riderID s) \<Longrightarrow> reachable s
     \<Longrightarrow> agg_step a (agg_Add s a)"
| agg_end: "agg_step a (fst (agg_End i reason now a))"
| agg_tier: "agg_step a (agg_SetTier r tier a)"
| agg_remove: "agg_step a (fst (Remove i a))"
| agg_batch: "agg_step a (fst (apply_batch_locked key trusted i pts now a))"
| agg_reap: "agg_step a (fst (Reap ks now a))"

inductive agg_reachable :: "Aggregator \<Rightarrow> bool" where
  agg_new: "agg_reachable (NewAggregator th tz)"
| agg_more: "agg_reachable a \<Longrightarrow> agg_step a a' \<Longrightarrow> agg_reachable a'"

text \<open>Changing a registered session in place, keeping whose it is.\<close>

lemma agg_ok_update:
  assumes "agg_ok a" "ag_sessions a i = Some s" "identity s' = identity s" "reachable s'"
  shows "agg_ok (a\<lparr>ag_sessions := (ag_sessions a)(i \<mapsto> s')\<rparr>)"
  using assms identity_fields [OF assms(3)] unfolding agg_ok_def
  by (simp add: dom_fun_upd) (metis option.inject)

lemma reachable_End: "reachable s \<Longrightarrow> reachable (End reason t s)"
  by (rule reach_step [OF _ step_end])

lemma reachable_SetTier: "reachable s \<Longrightarrow> reachable (SetTier t s)"
  by (rule reach_step [OF _ step_tier])

lemma reachable_Apply: "reachable s \<Longrightarrow> reachable (fst (Apply v p s))"
  by (rule reach_step [OF _ step_apply])

lemma apply_points_result:
  "apply_points judge ps (s, pts, ign) = (s', pts', ign') \<Longrightarrow>
     identity s' = identity s \<and> (reachable s \<longrightarrow> reachable s')
     \<and> (\<exists>new. pts' = pts @ new \<and> length new + ign' = ign + length ps)"
proof (induction ps arbitrary: s pts ign)
  case Nil
  then show ?case by simp
next
  case (Cons p ps)
  let ?v = "judge s p"
  consider (ended) "s_ended s" | (ignored) "\<not> s_ended s" "vd_Outcome ?v = Ignored"
    | (applied) "\<not> s_ended s" "vd_Outcome ?v \<noteq> Ignored"
    by blast
  then show ?case
  proof cases
    case ended
    then show ?thesis using Cons.prems by simp
  next
    case ignored
    then show ?thesis using Cons.prems Cons.IH [of s pts "ign + 1"] by (auto simp: Let_def)
  next
    case applied
    then have "apply_points judge ps (fst (Apply ?v p s), pts @ [\<lparr>apl_Point = p, apl_Verdict = ?v\<rparr>], ign) = (s', pts', ign')"
      using Cons.prems by (simp add: Let_def)
    from Cons.IH [OF this] show ?thesis
      using reachable_Apply [of s ?v p] by auto
  qed
qed

text \<open>
  A session that takes points one after the other, each while it has not ended: from the first session
  to the second.
\<close>

inductive fed :: "Session \<Rightarrow> AppliedPoint list \<Rightarrow> Session \<Rightarrow> bool" where
  fed_none: "fed s [] s"
| fed_point: "\<not> s_ended s \<Longrightarrow> fed (fst (Apply (apl_Verdict x) (apl_Point x) s)) xs s' \<Longrightarrow> fed s (x # xs) s'"

lemma apply_points_fed:
  "apply_points judge ps (s, pts, ign) = (s', pts', ign') \<Longrightarrow>
     \<exists>new. pts' = pts @ new \<and> fed s new s' \<and> set (map apl_Point new) \<subseteq> set ps"
proof (induction ps arbitrary: s pts ign)
  case Nil
  then show ?case by (simp add: fed_none)
next
  case (Cons p ps)
  let ?v = "judge s p"
  let ?x = "\<lparr>apl_Point = p, apl_Verdict = ?v\<rparr>"
  consider (ended) "s_ended s" | (ignored) "\<not> s_ended s" "vd_Outcome ?v = Ignored"
    | (applied) "\<not> s_ended s" "vd_Outcome ?v \<noteq> Ignored"
    by blast
  then show ?case
  proof cases
    case ended
    then show ?thesis using Cons.prems by (simp add: fed_none)
  next
    case ignored
    then show ?thesis using Cons.prems Cons.IH [of s pts "ign + 1"] by (auto simp: Let_def)
  next
    case applied
    then have "apply_points judge ps (fst (Apply ?v p s), pts @ [?x], ign) = (s', pts', ign')"
      using Cons.prems by (simp add: Let_def)
    then obtain new where "pts' = pts @ ?x # new" "fed (fst (Apply ?v p s)) new s'" "set (map apl_Point new) \<subseteq> set ps"
      using Cons.IH by fastforce
    then show ?thesis
      using fed_point [of s ?x new s'] applied by (intro exI [of _ "?x # new"]) auto
  qed
qed

lemma batch_answered:
  assumes "apply_batch_locked key trusted i (sort_points pts) now a = (a', Some res)"
  obtains s s' where "ag_sessions a i = Some s" "\<not> s_ended s" "a' = a\<lparr>ag_sessions := (ag_sessions a)(i \<mapsto> s')\<rparr>"
    "identity s' = identity s" "br_Summary res = Summary s'" "br_Accepted res = length (br_Points res)"
    "fed s (br_Points res) s'" "set (map apl_Point (br_Points res)) \<subseteq> set pts"
    "br_Accepted res + br_Ignored res = length pts"
proof -
  obtain s where s: "ag_sessions a i = Some s" "\<not> s_ended s" "s_key s = key"
    using assms by (auto simp: apply_batch_locked_def split: option.splits if_splits)
  define judge where "judge = (\<lambda>s' p. Verify (verify_input (ag_th a) (ag_tz a) trusted (trusted_along trusted s) now s' p))"
  obtain s' new ign where r: "apply_points judge (sort_points pts) (s, [], 0) = (s', new, ign)"
    by (cases "apply_points judge (sort_points pts) (s, [], 0)") auto
  have "br_Points res = new" "br_Accepted res = length new" "br_Ignored res = ign" "br_Summary res = Summary s'"
      "a' = a\<lparr>ag_sessions := (ag_sessions a)(i \<mapsto> s')\<rparr>"
    using assms s r by (auto simp: apply_batch_locked_def judge_def Let_def)
  then show thesis
    using that [OF s(1,2)] apply_points_fed [OF r] apply_points_result [OF r] by (auto simp: sort_points_def)
qed

lemma ApplyBatch_fed:
  assumes "ApplyBatch meanwhile i pts lookup now a = (a', answer)"
  shows "case answer of
      None \<Rightarrow> a' = a \<or> a' = meanwhile a
    | Some res \<Rightarrow> \<exists>s s'. ag_sessions (meanwhile a) i = Some s \<and> \<not> s_ended s \<and> fed s (br_Points res) s'
        \<and> length (br_Points res) = br_Accepted res \<and> set (map apl_Point (br_Points res)) \<subseteq> set pts
        \<and> a' = (meanwhile a)\<lparr>ag_sessions := (ag_sessions (meanwhile a))(i \<mapsto> s')\<rparr>"
proof (cases answer)
  case None
  then show ?thesis
    using assms by (auto simp: ApplyBatch_def apply_batch_locked_def Let_def split: option.splits if_splits prod.splits)
next
  case (Some res)
  then obtain key trusted where batch: "apply_batch_locked key trusted i (sort_points pts) now (meanwhile a) = (a', Some res)"
    using assms by (auto simp: ApplyBatch_def Let_def split: option.splits)
  show ?thesis
    unfolding Some option.case by (rule batch_answered [OF batch]) (use Some in auto)
qed

lemma agg_ok_batch:
  assumes "agg_ok a"
  shows "agg_ok (fst (apply_batch_locked key trusted i pts now a))"
proof (cases "\<exists>s. ag_sessions a i = Some s \<and> \<not> s_ended s \<and> s_key s = key")
  case True
  then obtain s where s: "ag_sessions a i = Some s" "\<not> s_ended s" "s_key s = key" by blast
  define judge where
    "judge = (\<lambda>s' p. Verify (verify_input (ag_th a) (ag_tz a) trusted (trusted_along trusted s) now s' p))"
  obtain s' ps' ign' where r: "apply_points judge pts (s, [], 0) = (s', ps', ign')"
    by (cases "apply_points judge pts (s, [], 0)") auto
  have "reachable s"
    using assms s(1) by (simp add: agg_ok_def)
  then have "identity s' = identity s" "reachable s'"
    using apply_points_result [OF r] by simp_all
  then show ?thesis
    using agg_ok_update [OF assms s(1)] s r by (simp add: apply_batch_locked_def judge_def Let_def)
next
  case False
  then show ?thesis
    using assms by (auto simp: apply_batch_locked_def split: option.splits)
qed

lemma reap_step_other: "j \<noteq> i \<Longrightarrow> fst (reap_step now i st) j = fst st j"
  by (auto simp: reap_step_def split: prod.splits option.splits)

definition reaped_session :: "gotime \<Rightarrow> Session \<Rightarrow> Session" where
  "reaped_session now s =
     (if s_ended s then s else case expiry s now of None \<Rightarrow> s | Some r \<Rightarrow> End r now s)"

lemma reap_step_at:
  "reap_step now i (m, reaped) =
     (m(i := map_option (reaped_session now) (m i)),
      if \<exists>s. m i = Some s \<and> s_ended (reaped_session now s) then reaped @ [i] else reaped)"
  by (auto simp: reap_step_def reaped_session_def End_def fun_eq_iff split: option.splits)

lemma reap_fold:
  "distinct ks \<Longrightarrow>
   fold (reap_step now) ks (m, reaped) =
     ((\<lambda>i. if i \<in> set ks then map_option (reaped_session now) (m i) else m i),
      reaped @ filter (\<lambda>i. \<exists>s. m i = Some s \<and> s_ended (reaped_session now s)) ks)"
proof (induction ks arbitrary: m reaped)
  case Nil
  then show ?case by simp
next
  case (Cons k ks)
  let ?m = "m(k := map_option (reaped_session now) (m k))"
  have "filter (\<lambda>i. \<exists>s. ?m i = Some s \<and> s_ended (reaped_session now s)) ks
      = filter (\<lambda>i. \<exists>s. m i = Some s \<and> s_ended (reaped_session now s)) ks"
    using Cons.prems by (intro filter_cong) auto
  then show ?case
    using Cons.prems by (auto simp: reap_step_at Cons.IH fun_eq_iff)
qed

lemma Reap_all:
  assumes "range_order ks (ag_sessions a)"
  shows "Reap ks now a =
     (a\<lparr>ag_sessions := map_option (reaped_session now) \<circ> ag_sessions a\<rparr>,
      sort (filter (\<lambda>i. \<exists>s. ag_sessions a i = Some s \<and> s_ended (reaped_session now s)) ks))"
proof -
  have "(\<lambda>i. if i \<in> set ks then map_option (reaped_session now) (ag_sessions a i) else ag_sessions a i)
      = map_option (reaped_session now) \<circ> ag_sessions a"
    using assms by (auto simp: range_order_def fun_eq_iff domIff)
  then show ?thesis
    using assms by (simp add: Reap_def reap_fold range_order_def)
qed

lemma reap_fold_ok:
  assumes "agg_ok a"
  shows "agg_ok (a\<lparr>ag_sessions := fst (fold (reap_step now) ks (ag_sessions a, reaped))\<rparr>)"
  using assms
proof (induction ks arbitrary: a reaped)
  case Nil
  then show ?case by simp
next
  case (Cons k ks)
  obtain m r where mr: "reap_step now k (ag_sessions a, reaped) = (m, r)"
    by (cases "reap_step now k (ag_sessions a, reaped)")
  have m: "m = (ag_sessions a)(k := map_option (reaped_session now) (ag_sessions a k))"
    using mr by (simp add: reap_step_at)
  have "agg_ok (a\<lparr>ag_sessions := m\<rparr>)"
  proof (cases "ag_sessions a k")
    case None
    then show ?thesis using Cons.prems by (simp add: m fun_upd_idem)
  next
    case (Some s)
    have s: "reachable s"
      using Cons.prems Some by (simp add: agg_ok_def)
    then have "identity (reaped_session now s) = identity s" "reachable (reaped_session now s)"
      by (auto simp: reaped_session_def reachable_End split: option.splits)
    then show ?thesis
      using agg_ok_update [OF Cons.prems Some] by (simp add: m Some)
  qed
  from Cons.IH [OF this, of r] show ?case
    by (simp add: mr)
qed

lemma agg_ok_step:
  assumes "agg_step a a'" "agg_ok a"
  shows "agg_ok a'"
  using assms
proof (cases rule: agg_step.cases)
  case (agg_add s)
  then show ?thesis
    using assms(2) by (auto simp: agg_ok_def agg_Add_def) (metis option.inject)
next
  case (agg_end i reason now)
  show ?thesis
  proof (cases "ag_sessions a i")
    case None
    then show ?thesis using assms(2) by (simp add: agg_end agg_End_def)
  next
    case (Some s)
    then have "reachable s" using assms(2) by (simp add: agg_ok_def)
    then show ?thesis
      using agg_ok_update [OF assms(2) Some identity_End reachable_End] by (simp add: agg_end agg_End_def Some Let_def)
  qed
next
  case (agg_tier r tier)
  show ?thesis
  proof (cases "activeForRiderLocked a r")
    case None
    then show ?thesis using assms(2) by (simp add: agg_tier agg_SetTier_def)
  next
    case (Some s)
    then obtain i where i: "ag_byRider a r = Some i" "ag_sessions a i = Some s"
      by (auto simp: activeForRiderLocked_def split: option.splits if_splits)
    then have "reachable s" using assms(2) by (simp add: agg_ok_def)
    then show ?thesis
      using agg_ok_update [OF assms(2) i(2) identity_SetTier reachable_SetTier] Some i(1)
      by (simp add: agg_tier agg_SetTier_def)
  qed
next
  case (agg_remove i)
  show ?thesis
  proof (cases "ag_sessions a i")
    case None
    then show ?thesis using assms(2) by (simp add: agg_remove Remove_def removeLocked_def)
  next
    case (Some s)
    have "\<exists>s0. ag_sessions a j = Some s0 \<and> s_riderID s0 = r \<and> j \<noteq> i"
      if "ag_byRider a r = Some j" "\<not> (r = s_riderID s \<and> j = i)" for r j
      using that assms(2) Some unfolding agg_ok_def by (metis option.inject)
    then show ?thesis
      using assms(2) Some by (auto simp: agg_remove Remove_def removeLocked_def agg_ok_def)
  qed
next
  case (agg_batch key trusted i pts now)
  then show ?thesis using agg_ok_batch [OF assms(2)] by simp
next
  case (agg_reap ks now)
  then show ?thesis
    using reap_fold_ok [OF assms(2), of now ks "[]"] by (simp add: Reap_def split_beta)
qed

lemma agg_ok_reachable: "agg_reachable a \<Longrightarrow> agg_ok a"
proof (induction rule: agg_reachable.induct)
  case agg_new
  show ?case by (simp add: agg_ok_def NewAggregator_def)
next
  case agg_more
  then show ?case using agg_ok_step by blast
qed

section \<open>Batches\<close>

text \<open>Accepted points are strictly newer than everything accepted before them.\<close>

definition newer_than :: "gotime \<Rightarrow> AppliedPoint list \<Rightarrow> bool" where
  "newer_than t pts \<longleftrightarrow> sorted_wrt (<) (t # map (\<lambda>x. pt_Timestamp (apl_Point x)) pts)"

definition positive_judge :: "(Session \<Rightarrow> Point \<Rightarrow> Verdict) \<Rightarrow> bool" where
  "positive_judge judge \<longleftrightarrow>
     (\<forall>s p. vd_Outcome (judge s p) \<noteq> Ignored \<longrightarrow> LastAcceptedAt s < pt_Timestamp p \<or> s_latest s = None)
     \<and> (\<forall>s p. vd_Outcome (judge s p) \<noteq> Ignored \<longrightarrow> 0 < pt_Timestamp p)"

lemma latest_Apply:
  "\<not> s_ended s \<Longrightarrow> vd_Outcome v \<noteq> Ignored \<Longrightarrow>
   s_latest (fst (Apply v p s)) = Some \<lparr>ap_Point = p, ap_AlongShape = vd_AlongShape v\<rparr>"
  by (simp add: Apply_def applyMatched_def applyNonMatched_def reject_def End_def Let_def)

lemma apply_points_newer:
  assumes "positive_judge judge" "apply_points judge ps (s, pts, ign) = (s', pts', ign')"
    "s_latest s \<noteq> None \<or> pts = []"
    "sorted_wrt (<) (map (\<lambda>x. pt_Timestamp (apl_Point x)) pts)"
    "\<forall>x \<in> set pts. pt_Timestamp (apl_Point x) \<le> LastAcceptedAt s"
  shows "sorted_wrt (<) (map (\<lambda>x. pt_Timestamp (apl_Point x)) pts')"
  using assms(2-5)
proof (induction ps arbitrary: s pts ign)
  case Nil
  then show ?case by simp
next
  case (Cons p ps)
  let ?v = "judge s p"
  consider (ended) "s_ended s" | (ignored) "\<not> s_ended s" "vd_Outcome ?v = Ignored"
    | (applied) "\<not> s_ended s" "vd_Outcome ?v \<noteq> Ignored"
    by blast
  then show ?case
  proof cases
    case ended
    then show ?thesis using Cons.prems by simp
  next
    case ignored
    then show ?thesis using Cons.prems Cons.IH [of s pts "ign + 1"] by (simp add: Let_def)
  next
    case applied
    let ?s = "fst (Apply ?v p s)"
    let ?new = "\<lparr>apl_Point = p, apl_Verdict = ?v\<rparr>"
    have step: "apply_points judge ps (?s, pts @ [?new], ign) = (s', pts', ign')"
      using Cons.prems(1) applied by (simp add: Let_def)
    have lst: "LastAcceptedAt ?s = pt_Timestamp p" "s_latest ?s \<noteq> None"
      using applied by (simp_all add: LastAcceptedAt_Apply latest_Apply)
    have "\<forall>x \<in> set pts. pt_Timestamp (apl_Point x) < pt_Timestamp p"
      using Cons.prems(2,4) assms(1) applied(2) unfolding positive_judge_def by fastforce
    then show ?thesis
      using Cons.prems(3) lst
      by (intro Cons.IH [OF step]) (auto simp: sorted_wrt_append intro: less_imp_le)
  qed
qed

lemma verify_positive:
  assumes "th_PastWindow th < now" "th_PastWindow th < max_int64" "min_int64 \<le> th_PastWindow th"
  shows "positive_judge (\<lambda>s p. Verify (verify_input th tz trusted ta now s p))"
proof -
  have pos: "0 < pt_Timestamp p" if "usable_point (verify_input th tz trusted ta now s p)" for s p
    using that assms by (auto simp: usable_point_def verify_input_def time_sub_le_iff)
  have "LastAcceptedAt s < pt_Timestamp p \<or> s_latest s = None"
    if "usable_point (verify_input th tz trusted ta now s p)" for s p
    using that pos [OF that] by (auto simp: usable_point_def verify_input_def)
  then show ?thesis
    using pos unfolding positive_judge_def by (simp add: Verify_ignored)
qed

section \<open>Who contributes to a trip\<close>

definition contributes :: "Aggregator \<Rightarrow> gotime \<Rightarrow> TripKey \<Rightarrow> Session \<Rightarrow> bool" where
  "contributes a now key s \<longleftrightarrow> s_key s = key \<and> memberOfLocked a now s \<noteq> None"

definition member_of :: "Aggregator \<Rightarrow> gotime \<Rightarrow> Session \<Rightarrow> estimateMember" where
  "member_of a now s = the (memberOfLocked a now s)"

lemma group_fold:
  "fold (group_step a now) ss out key =
     (case filter (contributes a now key) ss of
        [] \<Rightarrow> out key
      | s # r \<Rightarrow>
          Some ((case out key of None \<Rightarrow> \<lparr>tg_trip = s_trip s, tg_members = []\<rparr> | Some g \<Rightarrow> g)
                 \<lparr>tg_members := (case out key of None \<Rightarrow> [] | Some g \<Rightarrow> tg_members g) @ map (member_of a now) (s # r)\<rparr>))"
proof (induction ss arbitrary: out)
  case Nil
  then show ?case by simp
next
  case (Cons s ss)
  show ?case
  proof (cases "contributes a now key s")
    case True
    then obtain m where m: "memberOfLocked a now s = Some m" "s_key s = key"
      by (auto simp: contributes_def)
    then show ?thesis
      using True unfolding fold_simps comp_apply Cons.IH
      by (simp add: group_step_def Let_def member_of_def split: list.split option.split)
  next
    case False
    then have "group_step a now s out key = out key"
      by (auto simp: group_step_def contributes_def Let_def split: option.splits)
    then show ?thesis
      using False unfolding fold_simps comp_apply Cons.IH by (simp split: list.split)
  qed
qed

lemma groups_at:
  "groups ks now a key =
     (case filter (contributes a now key) (range_values ks (ag_sessions a)) of
        [] \<Rightarrow> None
      | s # r \<Rightarrow> Some \<lparr>tg_trip = s_trip s, tg_members = map (member_of a now) (s # r)\<rparr>)"
  by (simp add: groups_def group_fold split: list.split)

lemma contributes_iff:
  "contributes a now key s \<longleftrightarrow>
     s_key s = key \<and> \<not> s_ended s \<and> s_tier s \<noteq> TierBlocked \<and> s_state s = Verified
     \<and> Fresh s now (th_PointMaxAge (ag_th a)) \<and> ag_byRider a (s_riderID s) = Some (s_id s)"
  by (auto simp: contributes_def memberOfLocked_def Fresh_def split: option.splits)

lemma member_of_fields:
  assumes "contributes a now key s"
  shows "em_riderID (member_of a now s) = s_riderID s"
    "em_publishable (member_of a now s) = Publishable s now (th_PointMaxAge (ag_th a))"
    "\<exists>m. s_latestMatched s = Some m \<and> em_along (member_of a now s) = ap_AlongShape m"
  using assms by (auto simp: contributes_def member_of_def memberOfLocked_def split: option.splits if_splits)

section \<open>What an estimate is made of\<close>

lemma survivors_sub: "survivors g = Some ms \<Longrightarrow> set ms \<subseteq> set (tg_members g)"
  by (auto simp: survivors_def within_limit_def Let_def split: if_splits)

lemma survivors_publishable:
  "survivors g = Some ms \<Longrightarrow> publishable (tg_members g) \<Longrightarrow> publishable ms"
  by (auto simp: survivors_def Let_def split: if_splits)

lemma publishable_Nil [simp]: "\<not> publishable []"
  by (simp add: publishable_def)

lemma survivors_near:
  assumes "survivors g = Some ms" "m \<in> set ms"
  shows "fle (fabs (fsub (em_along m) (medianAlong (tg_members g)))) outlierDistance"
proof (cases "length (within_limit (tg_members g) (medianAlong (tg_members g)) outlierDistance) < length (tg_members g)")
  case True
  then show ?thesis
    using assms by (auto simp: survivors_def within_limit_def Let_def split: if_splits)
next
  case False
  then have "within_limit (tg_members g) (medianAlong (tg_members g)) outlierDistance = tg_members g"
    unfolding within_limit_def by (metis filter_True length_filter_less)
  moreover have "ms = tg_members g"
    using assms(1) False by (simp add: survivors_def Let_def)
  ultimately have "m \<in> set (within_limit (tg_members g) (medianAlong (tg_members g)) outlierDistance)"
    using assms(2) by simp
  then show ?thesis
    by (simp add: within_limit_def)
qed

lemma estimate_SomeD:
  assumes "estimate key now g = Some e"
  obtains trip shape ms where "tg_trip g = Some trip" "trip_shape (Some trip) = Some shape" "survivors g = Some ms"
    "publishable ms" "e = make_estimate key now trip shape ms" "publishable (tg_members g)"
proof -
  have c: "canEstimate g"
    using assms by (simp add: estimate_def split: if_splits)
  obtain trip where t: "tg_trip g = Some trip"
    using c by (cases "tg_trip g") (auto simp: canEstimate_def trip_shape_def)
  obtain shape where sh: "trip_shape (Some trip) = Some shape"
    using c t by (auto simp: canEstimate_def)
  obtain ms where ms: "survivors g = Some ms" "e = make_estimate key now trip shape ms"
    using assms c t sh by (auto simp: estimate_def split: option.splits)
  have "publishable (tg_members g)"
    using c by (simp add: canEstimate_def)
  then show thesis
    using that t sh ms survivors_publishable [OF ms(1)] by blast
qed

lemma some_pairD: "some_pair r xs \<Longrightarrow> \<exists>x \<in> set xs. \<exists>y \<in> set xs. r x y"
  by (induction xs) (auto simp: list_ex_iff)

lemma newestTimestamp_le: "newestTimestamp ms now \<le> now"
  by (simp add: newestTimestamp_def Let_def)

lemma distinctRiders_card: "distinctRiders ms = card (em_riderID ` set ms)"
  by (simp add: distinctRiders_def length_remdups_card_conv)

lemma in_estimates:
  "e \<in> set (Estimates ks kks now covered a) \<longleftrightarrow>
     (\<exists>key g. key \<in> set kks \<and> \<not> is_covered covered key \<and> groups ks now a key = Some g
        \<and> estimate key now g = Some e)"
  by (force simp: Estimates_def estimates_of_def List.map_filter_def split: if_splits option.splits)

lemma estimate_key: "estimate key now g = Some e \<Longrightarrow> te_Key e = key"
  by (erule estimate_SomeD) (simp add: make_estimate_def Let_def)

section \<open>The order of the map does not matter\<close>

definition f_key :: "f64 \<Rightarrow> int \<times> real" where
  "f_key x = (case x of NaN \<Rightarrow> (0, 0) | NInf \<Rightarrow> (1, 0) | Num a \<Rightarrow> (2, a) | PInf \<Rightarrow> (3, 0))"

lemma f_key_inj: "inj f_key"
  by (auto simp: inj_def f_key_def split: f64.splits)

lemma f_cmp_key: "f_cmp x y \<le> 0 \<longleftrightarrow> f_key x \<le> f_key y"
  by (cases x; cases y) (auto simp: f_cmp_def f_less_def f_key_def less_eq_prod_simp)

lemma median_mset:
  assumes "mset xs = mset ys"
  shows "median xs = median ys"
proof -
  have "stable_sort f_cmp xs = stable_sort f_cmp ys"
    unfolding stable_sort_key [of f_cmp f_key, OF f_cmp_key]
    by (rule sort_key_mset [OF assms inj_on_subset [OF f_key_inj subset_UNIV]])
  then show ?thesis
    by (simp add: median_def)
qed

lemma fabs_fsub_sym: "fabs (fsub x y) = fabs (fsub y x)"
  by (cases x; cases y) (simp_all add: fsub_def)

lemma in_consensus_sym: "in_consensus x y \<longleftrightarrow> in_consensus y x"
  using fabs_fsub_sym [of "em_along x" "em_along y"] by (auto simp: in_consensus_def)

lemma some_pair_iff:
  "\<forall>x y. r x y = r y x \<Longrightarrow> \<forall>x. \<not> r x x \<Longrightarrow> some_pair r xs \<longleftrightarrow> (\<exists>x \<in> set xs. \<exists>y \<in> set xs. r x y)"
  by (induction xs) (auto simp: list_ex_iff)

lemma publishable_iff:
  "publishable ms \<longleftrightarrow>
     (\<exists>m \<in> set ms. em_publishable m) \<or> (\<exists>x \<in> set ms. \<exists>y \<in> set ms. in_consensus x y)"
proof -
  have "some_pair in_consensus ms \<longleftrightarrow> (\<exists>x \<in> set ms. \<exists>y \<in> set ms. in_consensus x y)"
    by (rule some_pair_iff) (use in_consensus_sym in blast, simp add: in_consensus_def)
  then show ?thesis
    by (simp add: publishable_def list_ex_iff)
qed

lemma newestTimestamp_Max:
  assumes "ms \<noteq> []"
  shows "newestTimestamp ms now = min now (Max (em_timestamp ` set ms))"
proof -
  have f: "(\<lambda>m t. if em_timestamp m > t then em_timestamp m else t) = (\<lambda>m. max (em_timestamp m))"
    by (auto simp: fun_eq_iff max_def)
  obtain m r where ms: "ms = m # r"
    using assms by (cases ms) auto
  have "fold (\<lambda>m. max (em_timestamp m)) r (em_timestamp m) = Max (em_timestamp ` set (m # r))"
    using Max.set_eq_fold [of "em_timestamp m" "map em_timestamp r"] by (simp add: fold_map comp_def)
  then show ?thesis
    unfolding ms newestTimestamp_def Let_def f by (simp add: min_def)
qed

lemma medianAlong_mset: "mset xs = mset ys \<Longrightarrow> medianAlong xs = medianAlong ys"
  unfolding medianAlong_def by (rule median_mset) (simp add: mset_map)

lemma medianSpeed_mset:
  assumes "mset xs = mset ys"
  shows "medianSpeed xs = medianSpeed ys"
proof -
  have m: "mset (filter (\<lambda>x. fge x (Num 0)) (map em_speed xs)) = mset (filter (\<lambda>x. fge x (Num 0)) (map em_speed ys))"
    using assms by (simp add: mset_filter)
  then have "filter (\<lambda>x. fge x (Num 0)) (map em_speed xs) = [] \<longleftrightarrow> filter (\<lambda>x. fge x (Num 0)) (map em_speed ys) = []"
    by (metis mset_zero_iff)
  then show ?thesis
    unfolding medianSpeed_def Let_def using median_mset [OF m] by simp
qed

lemma make_estimate_mset:
  assumes "mset xs = mset ys" "xs \<noteq> []"
  shows "make_estimate key now trip shape xs = make_estimate key now trip shape ys"
proof -
  have "ys \<noteq> []" "set xs = set ys"
    using assms mset_eq_setD by auto
  then show ?thesis
    using assms medianAlong_mset [OF assms(1)] medianSpeed_mset [OF assms(1)]
    by (simp add: make_estimate_def newestTimestamp_Max distinctRiders_card)
qed

lemma estimate_mset:
  assumes "mset xs = mset ys"
  shows "estimate key now \<lparr>tg_trip = t, tg_members = xs\<rparr> = estimate key now \<lparr>tg_trip = t, tg_members = ys\<rparr>"
proof (cases "canEstimate \<lparr>tg_trip = t, tg_members = xs\<rparr>")
  case False
  then have "\<not> canEstimate \<lparr>tg_trip = t, tg_members = ys\<rparr>"
    using mset_eq_setD [OF assms] by (simp add: canEstimate_def publishable_iff)
  then show ?thesis
    using False by (simp add: estimate_def)
next
  case True
  then have y: "canEstimate \<lparr>tg_trip = t, tg_members = ys\<rparr>" and ne: "xs \<noteq> []"
    using mset_eq_setD [OF assms] by (auto simp: canEstimate_def publishable_iff)
  let ?kx = "within_limit xs (medianAlong xs) outlierDistance"
  let ?ky = "within_limit ys (medianAlong ys) outlierDistance"
  have k: "mset ?kx = mset ?ky"
    using assms medianAlong_mset [OF assms] by (simp add: within_limit_def mset_filter)
  have l: "length ?kx = length ?ky" "length xs = length ys" "?kx = [] \<longleftrightarrow> ?ky = []" "publishable ?kx \<longleftrightarrow> publishable ?ky"
    using k assms mset_eq_setD [OF k] by (auto simp: publishable_iff dest: mset_eq_length)
  have mk: "make_estimate key now trip shape xs = make_estimate key now trip shape ys" for trip shape
    using make_estimate_mset [OF assms ne] .
  have mkk: "?kx \<noteq> [] \<Longrightarrow> make_estimate key now trip shape ?kx = make_estimate key now trip shape ?ky" for trip shape
    using make_estimate_mset [OF k] .
  show ?thesis
    using True y l mk mkk
    by (simp add: estimate_def survivors_def Let_def split: option.split)
qed

text \<open>Every session of a trip holds the same timetable.\<close>

definition coherent_trips :: "Aggregator \<Rightarrow> bool" where
  "coherent_trips a \<longleftrightarrow>
     (\<forall>i j s t. ag_sessions a i = Some s \<and> ag_sessions a j = Some t \<and> s_key s = s_key t \<longrightarrow> s_trip s = s_trip t)"

lemma range_values_mset:
  assumes "range_order ks m" "range_order ks' m"
  shows "mset (range_values ks m) = mset (range_values ks' m)"
proof -
  have "mset ks = mset ks'"
    using assms unfolding range_order_def by (metis set_eq_iff_mset_eq_distinct)
  then show ?thesis
    unfolding range_values_def by (rule mset_map_filter)
qed

lemma groups_order:
  assumes "range_order ks (ag_sessions a)" "range_order ks' (ag_sessions a)" "coherent_trips a"
  shows "map_option (estimate key now) (groups ks now a key) = map_option (estimate key now) (groups ks' now a key)"
    "map_option (\<lambda>g. distinctRiders (tg_members g)) (groups ks now a key)
       = map_option (\<lambda>g. distinctRiders (tg_members g)) (groups ks' now a key)"
proof -
  let ?f = "\<lambda>ks. filter (contributes a now key) (range_values ks (ag_sessions a))"
  have m: "mset (?f ks) = mset (?f ks')"
    using range_values_mset [OF assms(1,2)] by (simp add: mset_filter)
  have trip: "s_trip s = s_trip t" if st: "s \<in> set (?f ks)" "t \<in> set (?f ks')" for s t
  proof -
    obtain i j where "ag_sessions a i = Some s" "ag_sessions a j = Some t" "s_key s = s_key t"
      using st by (auto simp: contributes_def set_range_values)
    then show ?thesis
      using assms(3) unfolding coherent_trips_def by blast
  qed
  have "map_option (estimate key now) (groups ks now a key) = map_option (estimate key now) (groups ks' now a key)
    \<and> map_option (\<lambda>g. distinctRiders (tg_members g)) (groups ks now a key)
       = map_option (\<lambda>g. distinctRiders (tg_members g)) (groups ks' now a key)"
  proof (cases "?f ks")
    case Nil
    then have "?f ks' = []"
      using m by (metis mset_zero_iff mset.simps(1))
    then show ?thesis
      using Nil by (simp add: groups_at)
  next
    case (Cons s r)
    then obtain s' r' where c': "?f ks' = s' # r'"
      using m by (cases "?f ks'") auto
    have "s_trip s = s_trip s'"
      using trip [of s s'] Cons c' by simp
    moreover have mm: "mset (map (member_of a now) (s # r)) = mset (map (member_of a now) (s' # r'))"
      using m unfolding Cons c' by (simp only: mset_map)
    ultimately show ?thesis
      using estimate_mset [OF mm, of key now "s_trip s"] mset_eq_setD [OF mm]
      by (simp add: groups_at Cons c' distinctRiders_card)
  qed
  then show "map_option (estimate key now) (groups ks now a key) = map_option (estimate key now) (groups ks' now a key)"
    "map_option (\<lambda>g. distinctRiders (tg_members g)) (groups ks now a key)
       = map_option (\<lambda>g. distinctRiders (tg_members g)) (groups ks' now a key)"
    by simp_all
qed

lemma estimates_of_case:
  "(case g of None \<Rightarrow> None | Some g \<Rightarrow> estimate key now g) = (case map_option (estimate key now) g of None \<Rightarrow> None | Some e \<Rightarrow> e)"
  by (cases g) simp_all

lemma Estimates_order:
  assumes "range_order ks (ag_sessions a)" "range_order ks' (ag_sessions a)" "coherent_trips a"
    "range_order kks (groups ks now a)" "range_order kks' (groups ks' now a)"
  shows "Estimates ks kks now covered a = Estimates ks' kks' now covered a"
proof -
  define f where "f ks key = (if is_covered covered key then None
      else case groups ks now a key of None \<Rightarrow> None | Some g \<Rightarrow> estimate key now g)" for ks key
  have g: "map_option (estimate key now) (groups ks now a key) = map_option (estimate key now) (groups ks' now a key)" for key
    using groups_order(1) [OF assms(1-3)] .
  then have f: "f ks = f ks'"
    unfolding f_def estimates_of_case by (intro ext) simp
  have "groups ks now a key = None \<longleftrightarrow> groups ks' now a key = None" for key
    using g [of key] by (cases "groups ks now a key"; cases "groups ks' now a key") simp_all
  then have "dom (groups ks now a) = dom (groups ks' now a)"
    by (simp add: dom_def)
  then have "mset kks = mset kks'"
    using assms(4,5) unfolding range_order_def by (metis set_eq_iff_mset_eq_distinct)
  then have m: "mset (List.map_filter (f ks) kks) = mset (List.map_filter (f ks') kks')"
    unfolding f by (rule mset_map_filter)
  have "te_Key e = key" if "f ks key = Some e" for key e
    using that by (auto simp: f_def estimate_key split: if_splits option.splits)
  then have "inj_on te_Key (set (List.map_filter (f ks) kks))"
    by (auto simp: inj_on_def List.map_filter_def)
  then have "sort_key te_Key (List.map_filter (f ks) kks) = sort_key te_Key (List.map_filter (f ks') kks')"
    by (rule sort_key_mset [OF m])
  moreover have F: "(\<lambda>key. if is_covered covered key then None
      else case groups ks now a key of None \<Rightarrow> None | Some g \<Rightarrow> estimate key now g) = f ks" for ks
    by (intro ext) (simp add: f_def)
  ultimately show ?thesis
    by (simp only: Estimates_def estimates_of_def F stable_sort_key [of "\<lambda>x y. cmp (te_Key x) (te_Key y)" te_Key] cmp_simps)
qed

section \<open>Properties\<close>

text \<open>
  C3: in every registry reachable by the aggregator's operations each ride is registered under its
  own id and is a reachable session, and every rider's active-ride entry names a registered ride of that
  same rider, as long as no ride id is registered for two riders, which the primary key of the rides table
  gives. And a new point never reaches a ride that has ended: whatever others do to the registry while
  \<open>ApplyBatch\<close> has let go of the lock, a batch that is answered finds the ride registered and not ended, each
  of the points it took met the session before it had ended, and nothing but that session has changed; a
  batch that is refused changes nothing.
\<close>

theorem registry_invariant:
  assumes "agg_reachable a"
  shows "(ag_sessions a i \<noteq> Some s \<or> s_id s = i \<and> reachable s)
    \<and> (activeForRiderLocked a r \<noteq> Some s0 \<or> s_riderID s0 = r \<and> \<not> s_ended s0)
    \<and> (ag_byRider a r \<noteq> Some j \<or> (\<exists>s1. ag_sessions a j = Some s1 \<and> s_riderID s1 = r))
    \<and> (ApplyBatch meanwhile i points lookup now a = (a', answer) \<longrightarrow>
        (case answer of
           None \<Rightarrow> a' = a \<or> a' = meanwhile a
         | Some res \<Rightarrow> \<exists>q q'. ag_sessions (meanwhile a) i = Some q \<and> \<not> s_ended q \<and> fed q (br_Points res) q'
             \<and> length (br_Points res) = br_Accepted res \<and> set (map apl_Point (br_Points res)) \<subseteq> set points
             \<and> a' = (meanwhile a)\<lparr>ag_sessions := (ag_sessions (meanwhile a))(i \<mapsto> q')\<rparr>))"
proof -
  have ok: "ag_sessions a i = Some s \<Longrightarrow> s_id s = i \<and> reachable s"
      "ag_byRider a r = Some i \<Longrightarrow> \<exists>s. ag_sessions a i = Some s \<and> s_riderID s = r" for i r s
    using agg_ok_reachable [OF assms] by (simp_all add: agg_ok_def)
  have "s_riderID s0 = r \<and> \<not> s_ended s0" if "activeForRiderLocked a r = Some s0"
    using that ok(2) by (fastforce simp: activeForRiderLocked_def split: option.splits if_splits)
  then show ?thesis
    using ok(1) [of i s] ok(2) [of r j] ApplyBatch_fed [of meanwhile i points lookup now a a' answer] by blast
qed

definition demo_session :: Session where
  "demo_session = NewSession ''ride1'' ''rider1'' (TripKey ''t1'' ''20250102'') (Some demo_trip) TierTrusted demo_day"

theorem registry_invariant_witness:
  "activeForRiderLocked (agg_Add demo_session (NewAggregator DefaultThresholds (\<lambda>_. 0))) ''rider1'' = Some demo_session
   \<and> s_riderID demo_session = ''rider1''"
proof -
  let ?a = "agg_Add demo_session (NewAggregator DefaultThresholds (\<lambda>_. 0))"
  have "agg_reachable ?a"
    by (rule agg_more [OF agg_new agg_add]) (simp_all add: NewAggregator_def demo_session_def reach_new)
  from registry_invariant [OF this, where r = "''rider1''" and ?s0.0 = demo_session] show ?thesis
    by (simp add: activeForRiderLocked_def agg_Add_def NewAggregator_def demo_session_def NewSession_def)
qed

text \<open>
  A batch is accounted for in full. When \<open>ApplyBatch\<close> answers, every submitted point was either
  accepted or ignored, the accepted ones are listed, in strictly increasing order of their
  timestamps, and no other ride of the registry has changed.
\<close>

theorem ApplyBatch_accounts:
  assumes "apply_batch_locked key trusted i (sort_points points) now a = (a', Some res)"
    "th_PastWindow (ag_th a) < now" "0 \<le> th_PastWindow (ag_th a)" "th_PastWindow (ag_th a) < max_int64"
  shows "br_Accepted res + br_Ignored res = length points \<and> length (br_Points res) = br_Accepted res
    \<and> sorted_wrt (<) (map (\<lambda>x. pt_Timestamp (apl_Point x)) (br_Points res))
    \<and> (ag_sessions a')(i := None) = (ag_sessions a)(i := None)"
proof -
  obtain s where s: "ag_sessions a i = Some s" "\<not> s_ended s" "s_key s = key"
    using assms(1) by (auto simp: apply_batch_locked_def split: option.splits if_splits)
  define judge where
    "judge = (\<lambda>s' p. Verify (verify_input (ag_th a) (ag_tz a) trusted (trusted_along trusted s) now s' p))"
  obtain s' pts ign where r: "apply_points judge (sort_points points) (s, [], 0) = (s', pts, ign)"
    by (cases "apply_points judge (sort_points points) (s, [], 0)") auto
  have res: "br_Points res = pts" "br_Accepted res = length pts" "br_Ignored res = ign"
      "ag_sessions a' = (ag_sessions a)(i \<mapsto> s')"
    using assms(1) s r by (auto simp: apply_batch_locked_def judge_def Let_def)
  have count: "length pts + ign = length points"
    using apply_points_result [OF r] by (auto simp: sort_points_def)
  have "positive_judge judge"
    unfolding judge_def using assms(2-4) by (intro verify_positive) (simp_all add: min_int64_def)
  then have "sorted_wrt (<) (map (\<lambda>x. pt_Timestamp (apl_Point x)) pts)"
    by (rule apply_points_newer [OF _ r]) simp_all
  then show ?thesis
    using res count by simp
qed

theorem ApplyBatch_accounts_witness:
  "\<exists>a' res. apply_batch_locked (TripKey ''t1'' ''20250102'') None ''ride1'' (sort_points [demo_point 5 demo_day])
      (demo_day + second) (agg_Add demo_session (NewAggregator DefaultThresholds (\<lambda>_. 0))) = (a', Some res)
    \<and> br_Accepted res + br_Ignored res = 1"
proof -
  let ?a = "agg_Add demo_session (NewAggregator DefaultThresholds (\<lambda>_. 0))"
  have s: "ag_sessions ?a ''ride1'' = Some demo_session" "\<not> s_ended demo_session"
      "s_key demo_session = TripKey ''t1'' ''20250102''" "ag_th ?a = DefaultThresholds"
    by (simp_all add: agg_Add_def demo_session_def NewSession_def NewAggregator_def)
  obtain a' res where r: "apply_batch_locked (TripKey ''t1'' ''20250102'') None ''ride1''
      (sort_points [demo_point 5 demo_day]) (demo_day + second) ?a = (a', Some res)"
  proof -
    have "snd (apply_batch_locked (TripKey ''t1'' ''20250102'') None ''ride1'' (sort_points [demo_point 5 demo_day])
        (demo_day + second) ?a) \<noteq> None"
      by (simp add: apply_batch_locked_def s split_beta Let_def)
    then show ?thesis
      using that by (metis not_None_eq prod.collapse)
  qed
  have th: "th_PastWindow (ag_th ?a) < demo_day + second" "0 \<le> th_PastWindow (ag_th ?a)"
      "th_PastWindow (ag_th ?a) < max_int64"
    unfolding s by (simp_all add: DefaultThresholds_def time_units demo_day_def int64_defs)
  show ?thesis
    using ApplyBatch_accounts [OF r] r th by (intro exI conjI) auto
qed

text \<open>
  \<open>Reap\<close> ends exactly the rides that have run out of time. Whatever the order of the map, the
  ids it returns are those of the ended rides still registered, sorted and without repetition;
  nothing is unregistered; and a ride it leaves live is unchanged, has been going for at most three
  hours and has been accepted a point (or started) within the last fifteen minutes.
\<close>

theorem Reap_exact:
  assumes "range_order ks (ag_sessions a)" "Reap ks now a = (a', ids)"
  shows "sorted ids \<and> distinct ids \<and> set ids = {i. \<exists>s. ag_sessions a' i = Some s \<and> s_ended s}
    \<and> dom (ag_sessions a') = dom (ag_sessions a)
    \<and> (\<forall>i s. ag_sessions a' i = Some s \<and> \<not> s_ended s \<longrightarrow>
         ag_sessions a i = Some s \<and> time_sub now (s_startedAt s) \<le> 3 * hour
         \<and> time_sub now (if LastAcceptedAt s = 0 then s_startedAt s else LastAcceptedAt s) \<le> 15 * minute)"
proof -
  have r: "ag_sessions a' = map_option (reaped_session now) \<circ> ag_sessions a"
      "ids = sort (filter (\<lambda>i. \<exists>s. ag_sessions a i = Some s \<and> s_ended (reaped_session now s)) ks)"
    using assms(2) by (auto simp: Reap_all [OF assms(1)])
  have ids: "set ids = {i. \<exists>s. ag_sessions a' i = Some s \<and> s_ended s}"
    using assms(1) by (auto simp: r range_order_def)
  have live: "ag_sessions a i = Some s \<and> time_sub now (s_startedAt s) \<le> 3 * hour
         \<and> time_sub now (if LastAcceptedAt s = 0 then s_startedAt s else LastAcceptedAt s) \<le> 15 * minute"
    if s: "ag_sessions a' i = Some s" "\<not> s_ended s" for i s
  proof -
    obtain s0 where s0: "ag_sessions a i = Some s0" "s = reaped_session now s0"
      using s(1) by (auto simp: r)
    have "s = s0" "expiry s0 now = None"
      using s(2) unfolding s0(2)
      by (cases "s_ended s0"; cases "expiry s0 now"; simp add: reaped_session_def End_def)+
    then show ?thesis
      using s0(1) by (auto simp: expiry_def maxRideDuration_def idleTimeout_def is_zero_time_def Let_def split: if_splits)
  qed
  have "dom (ag_sessions a') = dom (ag_sessions a)"
    by (auto simp: r dom_def)
  moreover have "sorted ids" "distinct ids"
    using assms(1) by (simp_all add: r(2) range_order_def)
  ultimately show ?thesis
    using ids live by blast
qed

theorem Reap_exact_witness:
  "\<exists>a' ids. Reap [''ride1''] (demo_day + hour) (agg_Add demo_session (NewAggregator DefaultThresholds (\<lambda>_. 0))) = (a', ids)
    \<and> ids = [''ride1''] \<and> set ids = {i. \<exists>s. ag_sessions a' i = Some s \<and> s_ended s}"
proof -
  let ?a = "agg_Add demo_session (NewAggregator DefaultThresholds (\<lambda>_. 0))"
  have o: "range_order [''ride1''] (ag_sessions ?a)"
    by (simp add: range_order_def agg_Add_def demo_session_def NewSession_def NewAggregator_def)
  obtain a' ids where r: "Reap [''ride1''] (demo_day + hour) ?a = (a', ids)"
    by (cases "Reap [''ride1''] (demo_day + hour) ?a") auto
  have "ids = [''ride1'']"
    using r by (simp add: Reap_def reap_step_def agg_Add_def demo_session_def NewSession_def NewAggregator_def
        expiry_def LastAcceptedAt_def is_zero_time_def time_sub_def maxRideDuration_def idleTimeout_def time_units
        int64_defs demo_day_def)
  then show ?thesis
    using Reap_exact [OF o r] r by blast
qed

lemma groups_members:
  assumes "groups ks now a key = Some g" "m \<in> set (tg_members g)"
  shows "\<exists>s i. ag_sessions a i = Some s \<and> contributes a now key s \<and> m = member_of a now s"
proof -
  have "tg_members g = map (member_of a now) (filter (contributes a now key) (range_values ks (ag_sessions a)))"
    using assms(1) unfolding groups_at by (cases "filter (contributes a now key) (range_values ks (ag_sessions a))") auto
  then have "m \<in> member_of a now ` set (filter (contributes a now key) (range_values ks (ag_sessions a)))"
    using assms(2) by simp
  then show ?thesis
    by (auto simp: set_range_values)
qed

text \<open>The members of an estimate are publishable because one of them is on its own, or two agree.\<close>

lemma publishable_members:
  assumes "publishable ms" "set ms = member_of a now ` ss" "\<And>s. s \<in> ss \<Longrightarrow> contributes a now key s"
  shows "(\<exists>s \<in> ss. Publishable s now (th_PointMaxAge (ag_th a)))
     \<or> (\<exists>s \<in> ss. \<exists>t \<in> ss. s_riderID s \<noteq> s_riderID t
          \<and> (\<exists>p q. s_latestMatched s = Some p \<and> s_latestMatched t = Some q
               \<and> fle (fabs (fsub (ap_AlongShape p) (ap_AlongShape q))) (Num 100)))"
proof -
  have "(\<exists>s \<in> ss. em_publishable (member_of a now s))
      \<or> (\<exists>s \<in> ss. \<exists>t \<in> ss. in_consensus (member_of a now s) (member_of a now t))"
    using assms(1) unfolding publishable_iff assms(2) by blast
  then show ?thesis
  proof
    assume "\<exists>s \<in> ss. em_publishable (member_of a now s)"
    then show ?thesis using member_of_fields(2) [OF assms(3)] by auto
  next
    assume "\<exists>s \<in> ss. \<exists>t \<in> ss. in_consensus (member_of a now s) (member_of a now t)"
    then obtain s t where st: "s \<in> ss" "t \<in> ss" "in_consensus (member_of a now s) (member_of a now t)" by blast
    obtain p q where pq: "s_latestMatched s = Some p" "s_latestMatched t = Some q"
        "em_along (member_of a now s) = ap_AlongShape p" "em_along (member_of a now t) = ap_AlongShape q"
      using member_of_fields(3) [OF assms(3) [OF st(1)]] member_of_fields(3) [OF assms(3) [OF st(2)]] by blast
    have "s_riderID s \<noteq> s_riderID t" "fle (fabs (fsub (ap_AlongShape p) (ap_AlongShape q))) (Num 100)"
      using st(3) pq(3,4) member_of_fields(1) [OF assms(3) [OF st(1)]] member_of_fields(1) [OF assms(3) [OF st(2)]]
      by (simp_all add: in_consensus_def consensusDistance_def)
    then show ?thesis
      using st(1,2) pq(1,2) by blast
  qed
qed

text \<open>
  C8: a rider-derived position is never published on one untrusted rider's word. Behind every
  estimate, whatever the order of the maps, stand registered rides on exactly that trip that are
  live, verified, fresh and not blocked; one of them may be published on its own (a trusted rider,
  or one a trusted feed corroborated), or two different riders are within 100 m of each other along
  the shape; \<open>Riders\<close> is how many different riders they are; the trip is not covered by a trusted
  feed and the timestamp is not in the future.
\<close>

theorem estimates_are_credible:
  assumes "e \<in> set (Estimates ks kks now covered a)"
  shows "\<not> is_covered covered (te_Key e) \<and> te_Timestamp e \<le> now
    \<and> (\<exists>ss. ss \<noteq> {} \<and> te_Riders e = card (s_riderID ` ss)
         \<and> (\<forall>s \<in> ss. (\<exists>i. ag_sessions a i = Some s) \<and> s_key s = te_Key e \<and> \<not> s_ended s \<and> s_state s = Verified
              \<and> s_tier s \<noteq> TierBlocked \<and> Fresh s now (th_PointMaxAge (ag_th a)))
         \<and> ((\<exists>s \<in> ss. Publishable s now (th_PointMaxAge (ag_th a)))
            \<or> (\<exists>s \<in> ss. \<exists>t \<in> ss. s_riderID s \<noteq> s_riderID t
                 \<and> (\<exists>p q. s_latestMatched s = Some p \<and> s_latestMatched t = Some q
                      \<and> fle (fabs (fsub (ap_AlongShape p) (ap_AlongShape q))) (Num 100)))))"
proof -
  obtain key g where kg: "\<not> is_covered covered key" "groups ks now a key = Some g" "estimate key now g = Some e"
    using assms by (auto simp: in_estimates)
  obtain trip shape ms where e: "survivors g = Some ms" "publishable ms" "e = make_estimate key now trip shape ms"
    using kg(3) by (elim estimate_SomeD) blast
  have key: "te_Key e = key"
    using estimate_key [OF kg(3)] .
  define ss where "ss = {s. (\<exists>i. ag_sessions a i = Some s) \<and> contributes a now key s \<and> member_of a now s \<in> set ms}"
  have img: "set ms = member_of a now ` ss"
  proof
    show "set ms \<subseteq> member_of a now ` ss"
      using survivors_sub [OF e(1)] groups_members [OF kg(2)] unfolding ss_def by blast
    show "member_of a now ` ss \<subseteq> set ms"
      by (auto simp: ss_def)
  qed
  have c: "contributes a now key s" if "s \<in> ss" for s
    using that by (simp add: ss_def)
  have riders: "te_Riders e = card (s_riderID ` ss)"
  proof -
    have "em_riderID ` set ms = s_riderID ` ss"
      unfolding img image_image using member_of_fields(1) [OF c] by (intro image_cong) auto
    then show ?thesis
      by (simp add: e(3) make_estimate_def Let_def distinctRiders_card)
  qed
  have "ms \<noteq> []"
    using e(2) by auto
  then have "ss \<noteq> {}"
    using img by auto
  moreover have "(\<exists>s \<in> ss. Publishable s now (th_PointMaxAge (ag_th a)))
            \<or> (\<exists>s \<in> ss. \<exists>t \<in> ss. s_riderID s \<noteq> s_riderID t
                 \<and> (\<exists>p q. s_latestMatched s = Some p \<and> s_latestMatched t = Some q
                      \<and> fle (fabs (fsub (ap_AlongShape p) (ap_AlongShape q))) (Num 100)))"
    by (rule publishable_members [OF e(2) img c])
  moreover have "te_Timestamp e \<le> now"
    by (simp add: e(3) make_estimate_def Let_def newestTimestamp_le)
  ultimately show ?thesis
    using kg(1) key riders c by (intro conjI exI [of _ ss]) (auto simp: contributes_iff ss_def)
qed

definition demo_verified :: Session where
  "demo_verified = demo_session\<lparr>s_state := Verified,
     s_latestMatched := Some \<lparr>ap_Point = demo_point 5 demo_day, ap_AlongShape = Num 5\<rparr>\<rparr>"

definition demo_registry :: Aggregator where
  "demo_registry = agg_Add demo_verified (NewAggregator DefaultThresholds (\<lambda>_. 0))"

lemma demo_contributes: "contributes demo_registry demo_day (TripKey ''t1'' ''20250102'') demo_verified"
  by (simp add: contributes_iff demo_registry_def demo_verified_def demo_session_def NewSession_def agg_Add_def
      NewAggregator_def Fresh_def DefaultThresholds_def demo_point_def time_sub_def int64_defs time_units)

lemma demo_groups:
  "groups [''ride1''] demo_day demo_registry (TripKey ''t1'' ''20250102'')
     = Some \<lparr>tg_trip = Some demo_trip, tg_members = [member_of demo_registry demo_day demo_verified]\<rparr>"
proof -
  have "ag_sessions demo_registry ''ride1'' = Some demo_verified" "s_trip demo_verified = Some demo_trip"
    by (simp_all add: demo_registry_def agg_Add_def NewAggregator_def demo_verified_def demo_session_def NewSession_def)
  then show ?thesis
    by (simp add: groups_at demo_contributes)
qed

lemma demo_estimate:
  "\<exists>e. estimate (TripKey ''t1'' ''20250102'') demo_day
     \<lparr>tg_trip = Some demo_trip, tg_members = [member_of demo_registry demo_day demo_verified]\<rparr> = Some e"
proof -
  let ?m = "member_of demo_registry demo_day demo_verified"
  have m: "em_along ?m = Num 5" "em_publishable ?m"
    by (simp_all add: member_of_def memberOfLocked_def demo_registry_def demo_verified_def demo_session_def NewSession_def
        agg_Add_def NewAggregator_def Fresh_def Publishable_def DefaultThresholds_def demo_point_def time_sub_def
        int64_defs time_units)
  then have "survivors \<lparr>tg_trip = Some demo_trip, tg_members = [?m]\<rparr> = Some [?m]"
    by (simp add: survivors_def within_limit_def medianAlong_def median_def stable_sort_def outlierDistance_def Let_def)
  moreover have "trip_shape (Some demo_trip) = Some demo_shape"
    by (simp add: trip_shape_def demo_trip_def)
  ultimately show ?thesis
    using m by (simp add: estimate_def canEstimate_def publishable_def)
qed

theorem estimates_are_credible_witness:
  "\<exists>e. e \<in> set (Estimates [''ride1''] [TripKey ''t1'' ''20250102''] demo_day None demo_registry)
     \<and> te_Timestamp e \<le> demo_day
     \<and> (\<exists>ss :: Session set. ss \<noteq> {} \<and> te_Riders e = card (s_riderID ` ss))"
proof -
  obtain e where "estimate (TripKey ''t1'' ''20250102'') demo_day
     \<lparr>tg_trip = Some demo_trip, tg_members = [member_of demo_registry demo_day demo_verified]\<rparr> = Some e"
    using demo_estimate by blast
  then have e: "e \<in> set (Estimates [''ride1''] [TripKey ''t1'' ''20250102''] demo_day None demo_registry)"
    unfolding in_estimates using demo_groups by (auto simp: is_covered_def)
  have c: "te_Timestamp e \<le> demo_day"
    using estimates_are_credible [OF e] by (rule conjunct1 [OF conjunct2])
  have "\<exists>ss :: Session set. ss \<noteq> {} \<and> te_Riders e = card (s_riderID ` ss)"
    using conjunct2 [OF conjunct2 [OF estimates_are_credible [OF e]]] by (elim exE conjE) (intro exI conjI, assumption+)
  then show ?thesis
    using e c by blast
qed

text \<open>
  The trip status a rider is shown, the count of published trips and the feed agree, although
  each ranges over the registry in its own order: \<open>TripStatus\<close> says a position is being published
  exactly when \<open>Estimates\<close> has one for that trip, \<open>Estimates\<close> is the same list in every order, strictly
  sorted by trip, and \<open>PublishableCount\<close> counts the trips with such a status.
\<close>

theorem status_agrees_with_feed:
  assumes "range_order ks (ag_sessions a)" "range_order ks' (ag_sessions a)" "coherent_trips a"
    "range_order kks (groups ks now a)" "range_order kks' (groups ks' now a)"
  shows "(fst (TripStatus ks' key now covered a) \<longleftrightarrow> key \<in> te_Key ` set (Estimates ks kks now covered a))
    \<and> Estimates ks kks now covered a = Estimates ks' kks' now covered a
    \<and> sorted_wrt (<) (map te_Key (Estimates ks kks now covered a))
    \<and> PublishableCount ks kks now covered a = card {k. fst (TripStatus ks' k now covered a)}"
proof -
  have order: "Estimates ks kks now covered a = Estimates ks' kks' now covered a"
    using Estimates_order [OF assms] .
  have status: "fst (TripStatus ks' key now covered a) \<longleftrightarrow> key \<in> te_Key ` set (Estimates ks kks now covered a)" for key
  proof -
    have "key \<in> te_Key ` set (Estimates ks' kks' now covered a) \<longleftrightarrow>
        (\<exists>g e. \<not> is_covered covered key \<and> groups ks' now a key = Some g \<and> estimate key now g = Some e)"
    proof
      assume "key \<in> te_Key ` set (Estimates ks' kks' now covered a)"
      then show "\<exists>g e. \<not> is_covered covered key \<and> groups ks' now a key = Some g \<and> estimate key now g = Some e"
        using estimate_key by (auto simp: in_estimates)
    next
      assume "\<exists>g e. \<not> is_covered covered key \<and> groups ks' now a key = Some g \<and> estimate key now g = Some e"
      then obtain g e where ge: "\<not> is_covered covered key" "groups ks' now a key = Some g" "estimate key now g = Some e"
        by blast
      then have "key \<in> set kks'"
        using assms(5) by (auto simp: range_order_def)
      then have "e \<in> set (Estimates ks' kks' now covered a)"
        using ge by (auto simp: in_estimates)
      then show "key \<in> te_Key ` set (Estimates ks' kks' now covered a)"
        using estimate_key [OF ge(3)] by force
    qed
    then show ?thesis
      unfolding order by (auto simp: TripStatus_def Let_def split: option.splits)
  qed
  define f where "f key = (if is_covered covered key then None
      else case groups ks now a key of None \<Rightarrow> None | Some g \<Rightarrow> estimate key now g)" for key
  have fk: "te_Key e = k" if "f k = Some e" for k e
    using that by (auto simp: f_def estimate_key split: if_splits option.splits)
  have keys: "map te_Key (List.map_filter f ks0) = filter (\<lambda>k. f k \<noteq> None) ks0" for ks0
    by (induction ks0) (auto simp: List.map_filter_def fk)
  have mf: "Estimates ks kks now covered a = sort_key te_Key (List.map_filter f kks)"
  proof -
    have "(\<lambda>key. if is_covered covered key then None
        else case groups ks now a key of None \<Rightarrow> None | Some g \<Rightarrow> estimate key now g) = f"
      by (intro ext) (simp add: f_def)
    then show ?thesis
      by (simp only: Estimates_def estimates_of_def stable_sort_key [of "\<lambda>x y. cmp (te_Key x) (te_Key y)" te_Key] cmp_simps)
  qed
  have "distinct (map te_Key (Estimates ks kks now covered a))"
  proof -
    have "distinct (map te_Key (List.map_filter f kks))"
      unfolding keys using assms(4) by (simp add: range_order_def)
    then show ?thesis
      unfolding mf by (simp add: distinct_map)
  qed
  moreover have "sorted (map te_Key (Estimates ks kks now covered a))"
    unfolding mf by (rule sorted_sort_key)
  ultimately have strict: "sorted_wrt (<) (map te_Key (Estimates ks kks now covered a))"
      and dist: "distinct (map te_Key (Estimates ks kks now covered a))"
    by (simp_all add: strict_sorted_iff)
  have "{k. fst (TripStatus ks' k now covered a)} = set (map te_Key (Estimates ks kks now covered a))"
    using status by auto
  then have "PublishableCount ks kks now covered a = card {k. fst (TripStatus ks' k now covered a)}"
    using distinct_card [OF dist] by (simp add: PublishableCount_def)
  then show ?thesis
    using status order strict by blast
qed

theorem status_agrees_with_feed_witness:
  "fst (TripStatus [''ride1''] (TripKey ''t1'' ''20250102'') demo_day None demo_registry) \<longleftrightarrow>
     TripKey ''t1'' ''20250102'' \<in> te_Key ` set (Estimates [''ride1''] [TripKey ''t1'' ''20250102''] demo_day None demo_registry)"
proof -
  have s: "ag_sessions demo_registry = [''ride1'' \<mapsto> demo_verified]"
    by (simp add: demo_registry_def agg_Add_def NewAggregator_def demo_verified_def demo_session_def NewSession_def)
  have o: "range_order [''ride1''] (ag_sessions demo_registry)" "coherent_trips demo_registry"
    by (auto simp: s range_order_def coherent_trips_def split: if_splits)
  have g: "range_order [TripKey ''t1'' ''20250102''] (groups [''ride1''] demo_day demo_registry)"
  proof -
    have "groups [''ride1''] demo_day demo_registry k \<noteq> None \<longleftrightarrow> k = TripKey ''t1'' ''20250102''" for k
      using demo_contributes by (auto simp: groups_at s contributes_def split: list.splits if_splits)
    then show ?thesis by (auto simp: range_order_def dom_def)
  qed
  show ?thesis
    using status_agrees_with_feed [OF o(1) o(1) o(2) g g, of "TripKey ''t1'' ''20250102''" None] by blast
qed

end
