(* ===== verification/Tracker.thy ===== *)
theory Tracker
  imports Prelude
begin

text \<open>
  The in-memory positions of the driver half (\<open>src/tracker.go\<close>), with the report a driver posts
  (\<open>LocationReport\<close> of \<open>src/handlers.go\<close>). The clock a method reads is an argument; the goroutine
  that calls \<open>cleanup\<close> is a caller of it like any other. Copying the values behind the optional
  pointers is copying the values.
\<close>

record LocationReport =
  lr_VehicleID :: string
  lr_TripID :: string
  lr_RouteID :: string
  lr_StartDate :: string
  lr_Latitude :: f64
  lr_Longitude :: f64
  lr_Bearing :: "f64 option"
  lr_Speed :: "f64 option"
  lr_Accuracy :: "f64 option"
  lr_Timestamp :: int
  lr_DriverID :: string

record VehicleState =
  ve_VehicleID :: string
  ve_TripID :: string
  ve_RouteID :: string
  ve_StartDate :: string
  ve_Latitude :: f64
  ve_Longitude :: f64
  ve_Bearing :: "f64 option"
  ve_Speed :: "f64 option"
  ve_Accuracy :: "f64 option"
  ve_Timestamp :: int
  ve_UpdatedAt :: gotime

record Tracker =
  tk_vehicles :: "string \<rightharpoonup> VehicleState"
  tk_seen :: "string set"
  tk_maxAge :: duration

record TrackerStatus =
  ts_ActiveVehicles :: nat
  ts_TotalVehiclesTracked :: nat
  ts_LastUpdate :: "gotime option"

definition NewTracker :: "duration \<Rightarrow> Tracker option" where  \<comment> \<open>\<open>None\<close> is the panic\<close>
  "NewTracker maxAge =
     (if maxAge \<le> 0 then None else Some \<lparr>tk_vehicles = Map.empty, tk_seen = {}, tk_maxAge = maxAge\<rparr>)"

definition Update :: "LocationReport \<Rightarrow> gotime \<Rightarrow> Tracker \<Rightarrow> Tracker" where
  "Update loc now t =
     t\<lparr>tk_seen := insert (lr_VehicleID loc) (tk_seen t),
       tk_vehicles := (tk_vehicles t)(lr_VehicleID loc \<mapsto>
         \<lparr>ve_VehicleID = lr_VehicleID loc, ve_TripID = lr_TripID loc, ve_RouteID = lr_RouteID loc,
          ve_StartDate = lr_StartDate loc, ve_Latitude = lr_Latitude loc, ve_Longitude = lr_Longitude loc,
          ve_Bearing = lr_Bearing loc, ve_Speed = lr_Speed loc, ve_Accuracy = lr_Accuracy loc,
          ve_Timestamp = lr_Timestamp loc, ve_UpdatedAt = now\<rparr>)\<rparr>"

definition cutoff :: "Tracker \<Rightarrow> gotime \<Rightarrow> gotime" where
  "cutoff t now = time_add now (- tk_maxAge t)"

definition ActiveVehicles :: "string list \<Rightarrow> gotime \<Rightarrow> Tracker \<Rightarrow> VehicleState list" where
  "ActiveVehicles ks now t =
     filter (\<lambda>v. ve_UpdatedAt v > cutoff t now) (range_values ks (tk_vehicles t))"

definition on_trip_step ::
  "Tracker \<Rightarrow> string \<Rightarrow> gotime \<Rightarrow> VehicleState \<Rightarrow> VehicleState option \<Rightarrow> VehicleState option" where
  "on_trip_step t tripID now v found =
     (if ve_TripID v \<noteq> tripID \<or> \<not> ve_UpdatedAt v > cutoff t now then found
      else (case found of
              None \<Rightarrow> Some v
            | Some f \<Rightarrow> if ve_Timestamp v > ve_Timestamp f then Some v else found))"

definition VehicleOnTrip :: "string list \<Rightarrow> string \<Rightarrow> gotime \<Rightarrow> Tracker \<Rightarrow> VehicleState option" where
  "VehicleOnTrip ks tripID now t =
     (if tripID = [] then None
      else fold (on_trip_step t tripID now) (range_values ks (tk_vehicles t)) None)"

definition Status :: "string list \<Rightarrow> gotime \<Rightarrow> Tracker \<Rightarrow> TrackerStatus" where
  "Status ks now t =
     (let vs = range_values ks (tk_vehicles t);
          latest = fold (\<lambda>v l. if ve_UpdatedAt v > l then ve_UpdatedAt v else l) vs 0
      in \<lparr>ts_ActiveVehicles = length (filter (\<lambda>v. ve_UpdatedAt v > cutoff t now) vs),
          ts_TotalVehiclesTracked = card (tk_seen t),
          ts_LastUpdate = (if is_zero_time latest then None else Some latest)\<rparr>)"

definition cleanup :: "string list \<Rightarrow> gotime \<Rightarrow> Tracker \<Rightarrow> Tracker" where
  "cleanup ks now t =
     t\<lparr>tk_vehicles := delete_where (\<lambda>v. ve_UpdatedAt v < cutoff t now) ks (tk_vehicles t)\<rparr>"

section \<open>What the tracker knows\<close>

definition tracker_ok :: "Tracker \<Rightarrow> bool" where
  "tracker_ok t \<longleftrightarrow> 0 < tk_maxAge t \<and> finite (tk_seen t) \<and> dom (tk_vehicles t) \<subseteq> tk_seen t
     \<and> (\<forall>i v. tk_vehicles t i = Some v \<longrightarrow> ve_VehicleID v = i)"

inductive tracker_reachable :: "Tracker \<Rightarrow> bool" where
  tracker_new: "NewTracker maxAge = Some t \<Longrightarrow> tracker_reachable t"
| tracker_update: "tracker_reachable t \<Longrightarrow> tracker_reachable (Update loc now t)"
| tracker_cleanup: "tracker_reachable t \<Longrightarrow> tracker_reachable (cleanup ks now t)"

lemma tracker_ok_reachable: "tracker_reachable t \<Longrightarrow> tracker_ok t"
proof (induction rule: tracker_reachable.induct)
  case (tracker_new maxAge t)
  then show ?case by (auto simp: NewTracker_def tracker_ok_def split: if_splits)
next
  case (tracker_update t loc now)
  then show ?case by (auto simp: Update_def tracker_ok_def)
next
  case (tracker_cleanup t ks now)
  then show ?case
    using delete_where_dom [of "\<lambda>v. ve_UpdatedAt v < cutoff t now" ks "tk_vehicles t"]
    by (auto simp: cleanup_def tracker_ok_def delete_where_lookup split: option.splits if_splits)
qed

definition eligible :: "Tracker \<Rightarrow> string \<Rightarrow> gotime \<Rightarrow> VehicleState \<Rightarrow> bool" where
  "eligible t tripID now v \<longleftrightarrow> ve_TripID v = tripID \<and> ve_UpdatedAt v > cutoff t now"

lemma on_trip_fold:
  "(case fold (on_trip_step t tripID now) vs found of
      None \<Rightarrow> found = None \<and> (\<forall>v \<in> set vs. \<not> eligible t tripID now v)
    | Some f \<Rightarrow> (found = Some f \<or> f \<in> set vs \<and> eligible t tripID now f)
        \<and> (\<forall>g. found = Some g \<longrightarrow> ve_Timestamp g \<le> ve_Timestamp f)
        \<and> (\<forall>v \<in> set vs. eligible t tripID now v \<longrightarrow> ve_Timestamp v \<le> ve_Timestamp f))"
proof (induction vs arbitrary: found)
  case Nil
  then show ?case by (auto split: option.splits)
next
  case (Cons v vs)
  let ?found = "on_trip_step t tripID now v found"
  show ?case
  proof (cases "eligible t tripID now v")
    case False
    then have "?found = found"
      by (auto simp: on_trip_step_def eligible_def)
    then show ?thesis
      using Cons.IH [of ?found] False by (auto split: option.splits)
  next
    case True
    then have "\<exists>w. ?found = Some w \<and> (w = v \<or> found = Some w) \<and> ve_Timestamp v \<le> ve_Timestamp w
        \<and> (\<forall>g. found = Some g \<longrightarrow> ve_Timestamp g \<le> ve_Timestamp w)"
      by (cases found) (auto simp: on_trip_step_def eligible_def)
    then obtain w where w: "?found = Some w" "w = v \<or> found = Some w" "ve_Timestamp v \<le> ve_Timestamp w"
        "\<forall>g. found = Some g \<longrightarrow> ve_Timestamp g \<le> ve_Timestamp w"
      by blast
    then show ?thesis
      using Cons.IH [of ?found] True by (auto split: option.splits intro: order_trans)
  qed
qed

lemma VehicleOnTrip_cases:
  assumes "range_order ks (tk_vehicles t)" "tripID \<noteq> []"
  shows "case VehicleOnTrip ks tripID now t of
      None \<Rightarrow> \<forall>v \<in> ran (tk_vehicles t). \<not> eligible t tripID now v
    | Some f \<Rightarrow> f \<in> ran (tk_vehicles t) \<and> eligible t tripID now f
        \<and> (\<forall>v \<in> ran (tk_vehicles t). eligible t tripID now v \<longrightarrow> ve_Timestamp v \<le> ve_Timestamp f)"
  using on_trip_fold [where vs = "range_values ks (tk_vehicles t)" and found = None and t = t and tripID = tripID and now = now] assms(2)
  by (simp add: VehicleOnTrip_def range_values_all [OF assms(1)] split: option.splits)

lemma active_ids_distinct:
  assumes "tracker_ok t" "distinct ks"
  shows "distinct (map ve_VehicleID (ActiveVehicles ks now t))"
proof -
  have "map ve_VehicleID (filter p (range_values ks (tk_vehicles t)))
      = filter (\<lambda>k. case tk_vehicles t k of None \<Rightarrow> False | Some v \<Rightarrow> p v) ks" for p
    using assms(1) by (induction ks) (auto simp: tracker_ok_def split: option.splits)
  then show ?thesis
    using assms(2) by (simp add: ActiveVehicles_def)
qed

section \<open>Properties\<close>

text \<open>
  The tracker answers from exactly the vehicles that reported within the staleness threshold.
  In every reachable tracker and every order of the map, \<open>ActiveVehicles\<close> lists those vehicles, each
  once; \<open>VehicleOnTrip\<close> answers one of them on that trip, with the newest device timestamp, and
  answers nothing exactly when there is none; and \<open>cleanup\<close> removes none of them.
\<close>

theorem tracker_answers_fresh:
  assumes "tracker_reachable t" "range_order ks (tk_vehicles t)" "tripID \<noteq> []"
  shows "set (ActiveVehicles ks now t) = {v \<in> ran (tk_vehicles t). now - tk_maxAge t < ve_UpdatedAt v}
    \<and> distinct (map ve_VehicleID (ActiveVehicles ks now t))
    \<and> (case VehicleOnTrip ks tripID now t of
         None \<Rightarrow> \<forall>v \<in> set (ActiveVehicles ks now t). ve_TripID v \<noteq> tripID
       | Some f \<Rightarrow> f \<in> set (ActiveVehicles ks now t) \<and> ve_TripID f = tripID
           \<and> (\<forall>v \<in> set (ActiveVehicles ks now t). ve_TripID v = tripID \<longrightarrow> ve_Timestamp v \<le> ve_Timestamp f))
    \<and> (\<forall>v \<in> set (ActiveVehicles ks now t). tk_vehicles (cleanup ks now t) (ve_VehicleID v) = Some v)"
proof -
  have ok: "tracker_ok t"
    using tracker_ok_reachable [OF assms(1)] .
  have act: "set (ActiveVehicles ks now t) = {v \<in> ran (tk_vehicles t). now - tk_maxAge t < ve_UpdatedAt v}"
    by (auto simp: ActiveVehicles_def range_values_all [OF assms(2)] cutoff_def time_add_def)
  have "distinct (map ve_VehicleID (ActiveVehicles ks now t))"
    using active_ids_distinct [OF ok] assms(2) by (simp add: range_order_def)
  moreover have "case VehicleOnTrip ks tripID now t of
         None \<Rightarrow> \<forall>v \<in> set (ActiveVehicles ks now t). ve_TripID v \<noteq> tripID
       | Some f \<Rightarrow> f \<in> set (ActiveVehicles ks now t) \<and> ve_TripID f = tripID
           \<and> (\<forall>v \<in> set (ActiveVehicles ks now t). ve_TripID v = tripID \<longrightarrow> ve_Timestamp v \<le> ve_Timestamp f)"
    using VehicleOnTrip_cases [OF assms(2,3), of now] unfolding act
    by (auto simp: eligible_def cutoff_def time_add_def split: option.splits)
  moreover have "tk_vehicles (cleanup ks now t) (ve_VehicleID v) = Some v"
    if "v \<in> set (ActiveVehicles ks now t)" for v
  proof -
    have "tk_vehicles t (ve_VehicleID v) = Some v" "\<not> ve_UpdatedAt v < cutoff t now"
      using that ok unfolding act by (auto simp: ran_def tracker_ok_def cutoff_def time_add_def)
    then show ?thesis
      by (simp add: cleanup_def delete_where_lookup)
  qed
  ultimately show ?thesis
    using act by blast
qed

theorem tracker_answers_fresh_witness:
  "\<exists>t. set (ActiveVehicles [] 5 t) = {v \<in> ran (tk_vehicles t). 5 - tk_maxAge t < ve_UpdatedAt v} \<and> tk_maxAge t = 3"
proof -
  let ?t = "\<lparr>tk_vehicles = Map.empty, tk_seen = {}, tk_maxAge = 3\<rparr>"
  have "tracker_reachable ?t"
    by (rule tracker_new [of 3]) (simp add: NewTracker_def)
  then show ?thesis
    using tracker_answers_fresh [of ?t "[]" "''a''" 5] by (intro exI [of _ ?t]) (auto simp: range_order_def)
qed

end
