(* ===== verification/Trusted.thy ===== *)
theory Trusted
  imports Aggregator Tracker
begin

text \<open>
  Where the agency itself says its trips are: the poller of GTFS-realtime feeds
  (\<open>src/rider/trusted.go\<close>) and \<open>trustedSources\<close> of \<open>src/rider_wiring.go\<close>, which puts the server's own
  driver tracker behind it. The HTTP transport and the protobuf decoder are parameters. The contract
  the rider engine relies on is the locale \<open>trusted_positions\<close>; both sources are interpretations of it.
\<close>

definition trustedMaxBodyBytes :: nat where "trustedMaxBodyBytes = 32 * 1048576"

datatype FetchError = TransportError string | BadStatus nat | ReadError string | BodyTooLarge | DecodeError string

record FeedHealth =
  fh_URL :: string
  fh_LastSuccess :: gotime
  fh_LastError :: "FetchError option"
  fh_Entities :: nat

record feedState =
  fs_url :: string
  fs_etag :: string
  fs_lastModified :: string
  fs_entities :: "TripKey \<rightharpoonup> TrustedVehicle"
  fs_lastSuccess :: gotime
  fs_lastError :: "FetchError option"

record TrustedFeed =
  tf_maxAge :: duration
  tf_feeds :: "feedState list"

definition NewTrustedFeed :: "string list \<Rightarrow> duration \<Rightarrow> TrustedFeed" where
  "NewTrustedFeed urls maxAge =
     \<lparr>tf_maxAge = maxAge,
      tf_feeds = map (\<lambda>u. \<lparr>fs_url = u, fs_etag = [], fs_lastModified = [], fs_entities = Map.empty,
                          fs_lastSuccess = 0, fs_lastError = None\<rparr>) urls\<rparr>"

definition Configured :: "TrustedFeed \<Rightarrow> bool" where
  "Configured f \<longleftrightarrow> length (tf_feeds f) > 0"

section \<open>Fetching\<close>

text \<open>The fields of a decoded feed entity the code reads; the getters give zero values for nil.\<close>

record GVehiclePosition =
  gv_Position :: "(f64 \<times> f64) option"
  gv_Timestamp :: nat
  gv_TripId :: string
  gv_StartDate :: string
  gv_VehicleId :: string

type_synonym GFeedMessage = "GVehiclePosition option list"

record GResponse =
  gp_StatusCode :: nat
  gp_Body :: "string + string"  \<comment> \<open>\<open>Inl\<close> a read error\<close>
  gp_ETag :: string
  gp_LastModified :: string

type_synonym transport = "string \<Rightarrow> string option \<Rightarrow> string option \<Rightarrow> string + GResponse"

definition vehicle_step :: "GVehiclePosition option \<Rightarrow> (TripKey \<rightharpoonup> TrustedVehicle) \<Rightarrow> (TripKey \<rightharpoonup> TrustedVehicle)" where
  "vehicle_step ent out =
     (case ent of
        None \<Rightarrow> out
      | Some vp \<Rightarrow>
          (case gv_Position vp of
             None \<Rightarrow> out
           | Some (la, lo) \<Rightarrow>
               if gv_Timestamp vp = 0 then out
               else if gv_TripId vp = [] then out
               else out(TripKey (gv_TripId vp) (gv_StartDate vp) \<mapsto>
                      \<lparr>tv_VehicleID = gv_VehicleId vp, tv_Pos = \<lparr>Lat = la, Lon = lo\<rparr>,
                       tv_Timestamp = time_unix (wrap64 (int (gv_Timestamp vp)))\<rparr>)))"

definition vehiclesByTrip :: "GFeedMessage \<Rightarrow> (TripKey \<rightharpoonup> TrustedVehicle)" where
  "vehiclesByTrip msg = fold vehicle_step msg Map.empty"

record fetchResult =
  fr_entities :: "TripKey \<rightharpoonup> TrustedVehicle"
  fr_etag :: string
  fr_lastModified :: string
  fr_notModified :: bool

definition fetch ::
  "transport \<Rightarrow> (string \<Rightarrow> string + GFeedMessage) \<Rightarrow> string \<Rightarrow> string \<Rightarrow> string \<Rightarrow> FetchError + fetchResult" where
  "fetch http unmarshal url etag lastModified =
     (case http url (if etag \<noteq> [] then Some etag else None) (if lastModified \<noteq> [] then Some lastModified else None) of
        Inl e \<Rightarrow> Inl (TransportError e)
      | Inr resp \<Rightarrow>
          if gp_StatusCode resp = 304
          then Inr \<lparr>fr_entities = Map.empty, fr_etag = [], fr_lastModified = [], fr_notModified = True\<rparr>
          else if gp_StatusCode resp \<noteq> 200 then Inl (BadStatus (gp_StatusCode resp))
          else (case gp_Body resp of
                  Inl e \<Rightarrow> Inl (ReadError e)
                | Inr body \<Rightarrow>
                    if length body > trustedMaxBodyBytes then Inl BodyTooLarge
                    else (case unmarshal body of
                            Inl e \<Rightarrow> Inl (DecodeError e)
                          | Inr msg \<Rightarrow> Inr \<lparr>fr_entities = vehiclesByTrip msg, fr_etag = gp_ETag resp,
                                          fr_lastModified = gp_LastModified resp, fr_notModified = False\<rparr>)))"

text \<open>The result of a fetch folded into the feed's state; \<open>now\<close> is the clock after the fetch.\<close>

definition pollOne ::
  "transport \<Rightarrow> (string \<Rightarrow> string + GFeedMessage) \<Rightarrow> gotime \<Rightarrow> feedState \<Rightarrow> feedState" where
  "pollOne http unmarshal now feed =
     (case fetch http unmarshal (fs_url feed) (fs_etag feed) (fs_lastModified feed) of
        Inl err \<Rightarrow> feed\<lparr>fs_lastError := Some err\<rparr>
      | Inr got \<Rightarrow>
          (let feed = feed\<lparr>fs_lastError := None, fs_lastSuccess := now\<rparr>
           in if fr_notModified got then feed
              else feed\<lparr>fs_entities := fr_entities got, fs_etag := fr_etag got,
                        fs_lastModified := fr_lastModified got\<rparr>))"

text \<open>
  One poll of every feed: the goroutines finish in some order, the list of the feeds' indices with
  the time each finished; a poll whose context is already done does nothing.
\<close>

definition Poll ::
  "transport \<Rightarrow> (string \<Rightarrow> string + GFeedMessage) \<Rightarrow> bool \<Rightarrow> (nat \<times> gotime) list \<Rightarrow> TrustedFeed \<Rightarrow> TrustedFeed" where
  "Poll http unmarshal ctx_done finished f =
     (if ctx_done then f
      else f\<lparr>tf_feeds := fold (\<lambda>(i, now) fs. fs[i := pollOne http unmarshal now (fs ! i)]) finished (tf_feeds f)\<rparr>)"

section \<open>Looking up\<close>

definition lookup_step ::
  "duration \<Rightarrow> TripKey \<Rightarrow> gotime \<Rightarrow> feedState \<Rightarrow> TrustedVehicle option \<Rightarrow> TrustedVehicle option" where
  "lookup_step maxAge key now feed found =
     (case fs_entities feed key of
        None \<Rightarrow> found
      | Some v \<Rightarrow> if time_sub now (tv_Timestamp v) > maxAge then found else Some v)"

definition lookupLocked :: "TrustedFeed \<Rightarrow> TripKey \<Rightarrow> gotime \<Rightarrow> TrustedVehicle option" where
  "lookupLocked f key now = fold (lookup_step (tf_maxAge f) key now) (tf_feeds f) None"

definition Lookup :: "TrustedFeed \<Rightarrow> TripKey \<Rightarrow> gotime \<Rightarrow> TrustedVehicle option" where
  "Lookup f key now =
     (case lookupLocked f key now of
        Some v \<Rightarrow> Some v
      | None \<Rightarrow> if tk_StartDate key = [] then None else lookupLocked f (TripKey (tk_TripID key) []) now)"

definition Covers :: "TrustedFeed \<Rightarrow> TripKey \<Rightarrow> gotime \<Rightarrow> bool" where
  "Covers f key now \<longleftrightarrow> Lookup f key now \<noteq> None"

definition Health :: "TrustedFeed \<Rightarrow> FeedHealth list" where
  "Health f =
     map (\<lambda>feed. \<lparr>fh_URL = fs_url feed, fh_LastSuccess = fs_lastSuccess feed, fh_LastError = fs_lastError feed,
                  fh_Entities = card (dom (fs_entities feed))\<rparr>) (tf_feeds f)"

section \<open>Behind the feed, the server's own drivers\<close>

record trustedSources =
  src_feed :: TrustedFeed
  src_tracker :: "Tracker option"

text \<open>\<open>ks\<close> is the order in which the tracker's map is visited.\<close>

definition sources_Lookup :: "string list \<Rightarrow> trustedSources \<Rightarrow> TripKey \<Rightarrow> gotime \<Rightarrow> TrustedVehicle option" where
  "sources_Lookup ks t key now =
     (case Lookup (src_feed t) key now of
        Some v \<Rightarrow> Some v
      | None \<Rightarrow>
          (case src_tracker t of
             None \<Rightarrow> None
           | Some tracker \<Rightarrow>
               (case VehicleOnTrip ks (tk_TripID key) now tracker of
                  None \<Rightarrow> None
                | Some v \<Rightarrow> Some \<lparr>tv_VehicleID = ve_VehicleID v,
                                tv_Pos = \<lparr>Lat = ve_Latitude v, Lon = ve_Longitude v\<rparr>,
                                tv_Timestamp = time_unix (ve_Timestamp v)\<rparr>)))"

definition sources_Covers :: "string list \<Rightarrow> trustedSources \<Rightarrow> TripKey \<Rightarrow> gotime \<Rightarrow> bool" where
  "sources_Covers ks t key now \<longleftrightarrow> sources_Lookup ks t key now \<noteq> None"

definition sources_Configured :: "trustedSources \<Rightarrow> bool" where
  "sources_Configured t = Configured (src_feed t)"

definition sources_Health :: "trustedSources \<Rightarrow> FeedHealth list" where
  "sources_Health t = Health (src_feed t)"

section \<open>The contract the rider engine relies on\<close>

locale trusted_positions =
  fixes lookup :: "'s \<Rightarrow> TripKey \<Rightarrow> gotime \<Rightarrow> TrustedVehicle option"
    and covers :: "'s \<Rightarrow> TripKey \<Rightarrow> gotime \<Rightarrow> bool"
  assumes covers_iff: "covers s key now \<longleftrightarrow> lookup s key now \<noteq> None"
begin

text \<open>A trip the source has a position for never appears in the rider estimates beside it.\<close>

lemma no_estimate_beside:
  assumes "e \<in> set (Estimates ks kks now (Some (\<lambda>k. covers s k now)) a)"
  shows "lookup s (te_Key e) now = None"
  using assms by (auto simp: in_estimates is_covered_def covers_iff dest: estimate_key)

lemma status_yields:
  assumes "lookup s key now \<noteq> None"
  shows "\<not> fst (TripStatus ks key now (Some (\<lambda>k. covers s k now)) a)"
  using assms by (auto simp: TripStatus_def is_covered_def covers_iff Let_def split: option.splits)

text \<open>A point is compared with a position exactly when the trip is covered and its ride has a shape.\<close>

lemma compared_iff_covered:
  assumes "vd_Outcome (Verify (verify_input th tz (lookup s key now) (trusted_along (lookup s key now) ride) now' ride p)) = Matched"
    "trip_shape (s_trip ride) \<noteq> None"
  shows "vd_Corroboration (Verify (verify_input th tz (lookup s key now) (trusted_along (lookup s key now) ride) now' ride p))
           = Unavailable \<longleftrightarrow> \<not> covers s key now"
proof -
  let ?inp = "verify_input th tz (lookup s key now) (trusted_along (lookup s key now) ride) now' ride p"
  have c: "\<exists>along. vd_Corroboration (Verify ?inp) = corroborate ?inp along"
    using assms(1) by (auto simp: Verify_def Let_def zero_verdict_def split: option.splits if_splits)
  show ?thesis
    using c assms(2) unfolding covers_iff
    by (cases "lookup s key now")
      (auto simp: corroborate_def verify_input_def trusted_along_def Let_def split: if_splits)
qed

end

interpretation feed_source: trusted_positions Lookup Covers
  by unfold_locales (simp add: Covers_def)

interpretation all_sources: trusted_positions "sources_Lookup ks" "sources_Covers ks" for ks
  by unfold_locales (simp add: sources_Covers_def)

section \<open>What a lookup answers\<close>

definition fresh_in :: "duration \<Rightarrow> TripKey \<Rightarrow> gotime \<Rightarrow> feedState \<Rightarrow> TrustedVehicle option" where
  "fresh_in maxAge key now feed =
     (case fs_entities feed key of
        None \<Rightarrow> None
      | Some v \<Rightarrow> if time_sub now (tv_Timestamp v) > maxAge then None else Some v)"

lemma lookup_fold:
  "fold (lookup_step maxAge key now) feeds found =
     (case filter (\<lambda>f. fresh_in maxAge key now f \<noteq> None) feeds of
        [] \<Rightarrow> found
      | fs \<Rightarrow> fresh_in maxAge key now (last fs))"
proof (induction feeds arbitrary: found)
  case (Cons f feeds)
  then show ?case
    by (auto simp: lookup_step_def fresh_in_def split: option.splits list.splits if_splits)
qed simp

definition last_fresh :: "TrustedFeed \<Rightarrow> TripKey \<Rightarrow> gotime \<Rightarrow> TrustedVehicle option" where
  "last_fresh f key now =
     (case filter (\<lambda>x. fresh_in (tf_maxAge f) key now x \<noteq> None) (tf_feeds f) of
        [] \<Rightarrow> None
      | fs \<Rightarrow> fresh_in (tf_maxAge f) key now (last fs))"

lemma lookupLocked_last: "lookupLocked f key now = last_fresh f key now"
  by (simp add: lookupLocked_def last_fresh_def lookup_fold)

lemma last_fresh_fresh:
  "last_fresh f key now = Some v \<Longrightarrow> time_sub now (tv_Timestamp v) \<le> tf_maxAge f
     \<and> (\<exists>x \<in> set (tf_feeds f). fs_entities x key = Some v)"
proof -
  assume a: "last_fresh f key now = Some v"
  let ?fs = "filter (\<lambda>x. fresh_in (tf_maxAge f) key now x \<noteq> None) (tf_feeds f)"
  have ne: "?fs \<noteq> []"
    using a by (auto simp: last_fresh_def)
  then have "last ?fs \<in> set (tf_feeds f)"
    using last_in_set [OF ne] by auto
  moreover have "fresh_in (tf_maxAge f) key now (last ?fs) = Some v"
    using a ne by (auto simp: last_fresh_def split: list.splits)
  ultimately show ?thesis
    by (auto simp: fresh_in_def split: option.splits if_splits)
qed

lemma last_fresh_None: "last_fresh f key now = None \<longleftrightarrow> (\<forall>x \<in> set (tf_feeds f). fresh_in (tf_maxAge f) key now x = None)"
proof -
  let ?fs = "filter (\<lambda>x. fresh_in (tf_maxAge f) key now x \<noteq> None) (tf_feeds f)"
  show ?thesis
  proof (cases "?fs = []")
    case True
    then show ?thesis by (simp add: last_fresh_def filter_empty_conv)
  next
    case False
    then have "fresh_in (tf_maxAge f) key now (last ?fs) \<noteq> None"
      using last_in_set [OF False] by auto
    moreover have "\<exists>x \<in> set (tf_feeds f). fresh_in (tf_maxAge f) key now x \<noteq> None"
      using False by (auto simp: filter_empty_conv)
    ultimately show ?thesis
      using False by (auto simp: last_fresh_def split: list.splits)
  qed
qed

lemma poll_fold_nth:
  "\<forall>(i, now) \<in> set fin. i < length fs \<Longrightarrow> distinct (map fst fin) \<Longrightarrow>
   length (fold (\<lambda>(i, now) fs. fs[i := g now (fs ! i)]) fin fs) = length fs
   \<and> (\<forall>j < length fs. fold (\<lambda>(i, now) fs. fs[i := g now (fs ! i)]) fin fs ! j =
        (case map_of fin j of None \<Rightarrow> fs ! j | Some now \<Rightarrow> g now (fs ! j)))"
proof (induction fin arbitrary: fs)
  case (Cons x fin)
  obtain i now where x: "x = (i, now)" by (cases x)
  have "map_of fin i = None"
    using Cons.prems(2) by (simp add: x map_of_eq_None_iff)
  then show ?case
    using Cons.IH [of "fs[i := g now (fs ! i)]"] Cons.prems
    by (auto simp: x nth_list_update split: option.split)
qed simp

section \<open>Properties\<close>

text \<open>
  \<open>Lookup\<close> answers the fresh position of the last configured feed that has one for exactly the
  trip and date; only when no feed has one does it fall back on a feed that publishes the trip
  without a date. What it answers is never older than the threshold, and it answers nothing exactly
  when no feed holds a fresh position under either key.
\<close>

theorem Lookup_prefers_exact_and_last:
  "(last_fresh f key now \<noteq> None \<longrightarrow> Lookup f key now = last_fresh f key now)
   \<and> (last_fresh f key now = None \<longrightarrow>
        Lookup f key now = (if tk_StartDate key = [] then None else last_fresh f (TripKey (tk_TripID key) []) now))
   \<and> (Lookup f key now \<noteq> Some v \<or> time_sub now (tv_Timestamp v) \<le> tf_maxAge f)
   \<and> (Lookup f key now = None \<longleftrightarrow>
        (\<forall>feed \<in> set (tf_feeds f). fresh_in (tf_maxAge f) key now feed = None
           \<and> (tk_StartDate key = [] \<or> fresh_in (tf_maxAge f) (TripKey (tk_TripID key) []) now feed = None)))"
proof -
  have l: "Lookup f key now = (case last_fresh f key now of Some v \<Rightarrow> Some v
      | None \<Rightarrow> if tk_StartDate key = [] then None else last_fresh f (TripKey (tk_TripID key) []) now)"
    unfolding Lookup_def lookupLocked_last ..
  have fresh: "Lookup f key now \<noteq> Some v \<or> time_sub now (tv_Timestamp v) \<le> tf_maxAge f"
    using last_fresh_fresh by (auto simp: l split: option.splits if_splits)
  have every: "(\<forall>feed \<in> set (tf_feeds f). fresh_in (tf_maxAge f) key now feed = None
        \<and> (tk_StartDate key = [] \<or> fresh_in (tf_maxAge f) (TripKey (tk_TripID key) []) now feed = None))
      \<longleftrightarrow> last_fresh f key now = None \<and> (tk_StartDate key = [] \<or> last_fresh f (TripKey (tk_TripID key) []) now = None)"
    unfolding last_fresh_None by (cases "tk_StartDate key = []") (simp_all add: ball_conj_distrib)
  show ?thesis
    unfolding every by (intro conjI fresh) (simp_all add: l split: option.split)
qed

theorem Lookup_prefers_exact_and_last_witness:
  "let feed = \<lparr>fs_url = ''u'', fs_etag = [], fs_lastModified = [],
       fs_entities = [TripKey ''t'' ''20250102'' \<mapsto> \<lparr>tv_VehicleID = ''v'', tv_Pos = \<lparr>Lat = Num 1, Lon = Num 1\<rparr>, tv_Timestamp = 5\<rparr>],
       fs_lastSuccess = 0, fs_lastError = None\<rparr>;
     f = \<lparr>tf_maxAge = 10, tf_feeds = [feed]\<rparr>
   in Lookup f (TripKey ''t'' ''20250102'') 9
        = Some \<lparr>tv_VehicleID = ''v'', tv_Pos = \<lparr>Lat = Num 1, Lon = Num 1\<rparr>, tv_Timestamp = 5\<rparr>"
  using Lookup_prefers_exact_and_last [of "\<lparr>tf_maxAge = 10, tf_feeds = [\<lparr>fs_url = ''u'', fs_etag = [], fs_lastModified = [],
       fs_entities = [TripKey ''t'' ''20250102'' \<mapsto> \<lparr>tv_VehicleID = ''v'', tv_Pos = \<lparr>Lat = Num 1, Lon = Num 1\<rparr>, tv_Timestamp = 5\<rparr>],
       fs_lastSuccess = 0, fs_lastError = None\<rparr>]\<rparr>" "TripKey ''t'' ''20250102''" 9]
  by (simp add: Let_def last_fresh_def fresh_in_def time_sub_def int64_defs)

text \<open>
  A poll treats the feeds independently. Whatever the order in which the fetches finish, each
  feed's new state is its own fetch folded into its own old state, and a feed whose fetch failed or
  answered that nothing changed keeps exactly the vehicles it had.
\<close>

theorem Poll_order_irrelevant:
  assumes "\<forall>(i, now) \<in> set finished. i < length (tf_feeds f)" "distinct (map fst finished)"
    "mset finished' = mset finished" "map_of finished i = Some now"
  shows "Poll http unmarshal False finished' f = Poll http unmarshal False finished f
    \<and> tf_feeds (Poll http unmarshal False finished f) ! i = pollOne http unmarshal now (tf_feeds f ! i)
    \<and> ((\<exists>got. fetch http unmarshal (fs_url (tf_feeds f ! i)) (fs_etag (tf_feeds f ! i)) (fs_lastModified (tf_feeds f ! i))
            = Inr got \<and> \<not> fr_notModified got)
       \<or> fs_entities (tf_feeds (Poll http unmarshal False finished f) ! i) = fs_entities (tf_feeds f ! i))"
proof -
  let ?g = "pollOne http unmarshal"
  have d': "distinct (map fst finished')"
    using assms(2) mset_eq_imp_distinct_iff [of "map fst finished'" "map fst finished"] assms(3) by simp
  have b': "\<forall>(i, now) \<in> set finished'. i < length (tf_feeds f)"
    using assms(1) mset_eq_setD [OF assms(3)] by simp
  have m: "map_of finished' = map_of finished"
    using map_of_inject_set [OF d' assms(2)] mset_eq_setD [OF assms(3)] by simp
  have "tf_feeds (Poll http unmarshal False finished' f) = tf_feeds (Poll http unmarshal False finished f)"
    using poll_fold_nth [OF assms(1,2), of ?g] poll_fold_nth [OF b' d', of ?g] m
    by (intro nth_equalityI) (simp_all add: Poll_def)
  then have same: "Poll http unmarshal False finished' f = Poll http unmarshal False finished f"
    by (simp add: Poll_def)
  have i: "i < length (tf_feeds f)"
    using assms(1,4) by (auto dest: map_of_SomeD)
  then have one: "tf_feeds (Poll http unmarshal False finished f) ! i = ?g now (tf_feeds f ! i)"
    using poll_fold_nth [OF assms(1,2), of ?g] assms(4) by (simp add: Poll_def)
  show ?thesis
    using same one by (auto simp: pollOne_def Let_def split: sum.split)
qed

theorem Poll_order_irrelevant_witness:
  "let f = NewTrustedFeed [''a'', ''b''] 10; http = (\<lambda>_ _ _. Inl ''down''); un = (\<lambda>_. Inl ''bad'')
   in Poll http un False [(1, 6), (0, 5)] f = Poll http un False [(0, 5), (1, 6)] f"
  using Poll_order_irrelevant [of "[(0, 5), (1, 6)]" "NewTrustedFeed [''a'', ''b''] 10" "[(1, 6), (0, 5)]" 0 5
      "\<lambda>_ _ _. Inl ''down''" "\<lambda>_. Inl ''bad''"]
  by (simp add: NewTrustedFeed_def)

section \<open>What the agency says\<close>

text \<open>
  Said of the state alone: a configured feed holds a position of the trip, dated or not, that is not older than
  the threshold; a driver whose last report has not gone stale reported the trip.
\<close>

definition feed_position :: "TrustedFeed \<Rightarrow> TripKey \<Rightarrow> gotime \<Rightarrow> bool" where
  "feed_position f key now \<longleftrightarrow>
     (\<exists>feed \<in> set (tf_feeds f). \<exists>v. (fs_entities feed key = Some v \<or> fs_entities feed (TripKey (tk_TripID key) []) = Some v)
        \<and> time_sub now (tv_Timestamp v) \<le> tf_maxAge f)"

definition driver_on_trip :: "Tracker \<Rightarrow> string \<Rightarrow> gotime \<Rightarrow> bool" where
  "driver_on_trip t trip now \<longleftrightarrow>
     trip \<noteq> [] \<and> (\<exists>v \<in> ran (tk_vehicles t). ve_TripID v = trip \<and> now - tk_maxAge t < ve_UpdatedAt v)"

definition agency_position :: "trustedSources \<Rightarrow> TripKey \<Rightarrow> gotime \<Rightarrow> bool" where
  "agency_position src key now \<longleftrightarrow>
     feed_position (src_feed src) key now
     \<or> (case src_tracker src of None \<Rightarrow> False | Some t \<Rightarrow> driver_on_trip t (tk_TripID key) now)"

lemma Lookup_feed_position: "Lookup f key now \<noteq> None \<longleftrightarrow> feed_position f key now"
proof -
  have fresh: "fresh_in (tf_maxAge f) k now feed \<noteq> None
      \<longleftrightarrow> (\<exists>v. fs_entities feed k = Some v \<and> time_sub now (tv_Timestamp v) \<le> tf_maxAge f)" for k feed
    by (auto simp: fresh_in_def split: option.splits)
  have "Lookup f key now \<noteq> None \<longleftrightarrow> last_fresh f key now \<noteq> None
      \<or> tk_StartDate key \<noteq> [] \<and> last_fresh f (TripKey (tk_TripID key) []) now \<noteq> None"
    by (cases "last_fresh f key now") (simp_all add: Lookup_def lookupLocked_last)
  also have "\<dots> \<longleftrightarrow> last_fresh f key now \<noteq> None \<or> last_fresh f (TripKey (tk_TripID key) []) now \<noteq> None"
    by (cases key; cases "tk_StartDate key = []") simp_all
  also have "\<dots> \<longleftrightarrow> feed_position f key now"
    unfolding last_fresh_None feed_position_def using fresh by blast
  finally show ?thesis .
qed

lemma VehicleOnTrip_driver:
  assumes "range_order ks (tk_vehicles t)"
  shows "VehicleOnTrip ks trip now t \<noteq> None \<longleftrightarrow> driver_on_trip t trip now"
proof (cases "trip = []")
  case False
  then show ?thesis
    using VehicleOnTrip_cases [OF assms False, of now]
    by (auto simp: driver_on_trip_def eligible_def cutoff_def time_add_def split: option.splits)
qed (simp add: VehicleOnTrip_def driver_on_trip_def)

lemma sources_Lookup_agency:
  assumes "\<And>t. src_tracker src = Some t \<Longrightarrow> range_order order (tk_vehicles t)"
  shows "sources_Lookup order src key now \<noteq> None \<longleftrightarrow> agency_position src key now"
  using assms Lookup_feed_position [of "src_feed src" key now] VehicleOnTrip_driver [of order _ "tk_TripID key" now]
  by (fastforce simp: sources_Lookup_def agency_position_def split: option.splits)

text \<open>
  C9: the feed never carries a rider estimate beside the agency's own position. With the coverage
  test the server wires in, a trip is covered exactly when a configured feed holds a position of it, under
  its date or without one, that is not older than the threshold, or a driver of the server's own whose last report
  has not gone stale is on it, whatever order the tracker's map is visited in. No published estimate is
  for a trip either of them has a position of, and such a trip is never shown to riders as rider-reported.
\<close>

theorem no_estimate_beside_trusted:
  assumes "\<forall>t. src_tracker src = Some t \<longrightarrow> range_order order (tk_vehicles t)"
  shows "(sources_Covers order src key now \<longleftrightarrow> agency_position src key now)
     \<and> (\<forall>e \<in> set (Estimates ks kks now (Some (\<lambda>k. sources_Covers order src k now)) a). \<not> agency_position src (te_Key e) now)
     \<and> (agency_position src key now \<longrightarrow> \<not> fst (TripStatus ks key now (Some (\<lambda>k. sources_Covers order src k now)) a))"
proof -
  have agency: "sources_Lookup order src k now \<noteq> None \<longleftrightarrow> agency_position src k now" for k
    using assms by (intro sources_Lookup_agency) simp
  show ?thesis
    using all_sources.no_estimate_beside [of _ ks kks now order src a] all_sources.status_yields [of order src key now ks a]
    by (auto simp: all_sources.covers_iff agency [symmetric])
qed

text \<open>A driver on the trip, and no feed configured.\<close>

definition driver_sources :: trustedSources where
  "driver_sources =
     \<lparr>src_feed = NewTrustedFeed [] 10,
      src_tracker = Some (Update \<lparr>lr_VehicleID = ''bus'', lr_TripID = ''t1'', lr_RouteID = [], lr_StartDate = [],
         lr_Latitude = Num 1, lr_Longitude = Num 1, lr_Bearing = None, lr_Speed = None, lr_Accuracy = None,
         lr_Timestamp = 5, lr_DriverID = ''d''\<rparr> demo_day \<lparr>tk_vehicles = Map.empty, tk_seen = {}, tk_maxAge = 3\<rparr>)\<rparr>"

theorem no_estimate_beside_trusted_witness:
  "\<not> fst (TripStatus [''ride1''] (TripKey ''t1'' ''20250102'') demo_day
        (Some (\<lambda>k. sources_Covers [''bus''] driver_sources k demo_day)) demo_registry)"
proof -
  have "\<forall>t. src_tracker driver_sources = Some t \<longrightarrow> range_order [''bus''] (tk_vehicles t)"
    by (simp add: driver_sources_def Update_def range_order_def)
  moreover have "agency_position driver_sources (TripKey ''t1'' ''20250102'') demo_day"
    by (simp add: agency_position_def driver_on_trip_def driver_sources_def Update_def)
  ultimately show ?thesis
    using no_estimate_beside_trusted [of driver_sources "[''bus'']" "TripKey ''t1'' ''20250102''" demo_day "[''ride1'']" _ demo_registry]
    by blast
qed

end
