(* ===== verification/RateLimit.thy ===== *)
theory RateLimit
  imports Prelude
begin

text \<open>
  The limiters in front of the endpoints that take anonymous or costly requests: the per-key token
  buckets of \<open>src/ratelimit.go\<close> (the bucket itself, \<open>golang.org/x/time/rate\<close>, is a parameter), and the
  fixed windows of \<open>src/ratelimit_login.go\<close>, \<open>src/ratelimit_refresh.go\<close> and \<open>src/rider_auth.go\<close>.
  Every method holds the limiter's mutex for its whole body, so a history is a sequence of calls. The
  clock a method reads is an argument. What a single-key window promises is the locale
  \<open>window_limiter\<close>; the refresh and registration limiters are its interpretations.
\<close>

section \<open>Token buckets\<close>

definition rateInterval :: duration where "rateInterval = 5 * second"
definition rateBurst :: nat where "rateBurst = 2"
definition maxTrackedRates :: nat where "maxTrackedRates = 10000"

record 'b rateLimiterEntry =
  rl_limiter :: 'b
  rl_lastSeen :: gotime

record 'b VehicleRateLimiter =
  vl_limiters :: "string \<rightharpoonup> 'b rateLimiterEntry"
  vl_interval :: duration
  vl_burst :: nat
  vl_failClosed :: bool

definition NewKeyedRateLimiter :: "duration \<Rightarrow> nat \<Rightarrow> bool \<Rightarrow> 'b VehicleRateLimiter" where
  "NewKeyedRateLimiter interval burst failClosed =
     \<lparr>vl_limiters = Map.empty, vl_interval = interval, vl_burst = burst, vl_failClosed = failClosed\<rparr>"

definition NewVehicleRateLimiter :: "'b VehicleRateLimiter" where
  "NewVehicleRateLimiter = NewKeyedRateLimiter rateInterval rateBurst False"

text \<open>\<open>new\<close> is \<open>rate.NewLimiter(rate.Every(interval), burst)\<close> and \<open>draw\<close> the bucket's own \<open>Allow\<close>.\<close>

definition Vehicle_Allow ::
  "(duration \<Rightarrow> nat \<Rightarrow> 'b) \<Rightarrow> ('b \<Rightarrow> gotime \<Rightarrow> 'b \<times> bool) \<Rightarrow> string \<Rightarrow> gotime \<Rightarrow> 'b VehicleRateLimiter
     \<Rightarrow> 'b VehicleRateLimiter \<times> bool" where
  "Vehicle_Allow new draw key now vrl =
     (case vl_limiters vrl key of
        None \<Rightarrow>
          if card (dom (vl_limiters vrl)) \<ge> maxTrackedRates then (vrl, \<not> vl_failClosed vrl)
          else (let (b, allowed) = draw (new (vl_interval vrl) (vl_burst vrl)) now
                in (vrl\<lparr>vl_limiters := (vl_limiters vrl)(key \<mapsto> \<lparr>rl_limiter = b, rl_lastSeen = now\<rparr>)\<rparr>, allowed))
      | Some entry \<Rightarrow>
          (let (b, allowed) = draw (rl_limiter entry) now
           in (vrl\<lparr>vl_limiters := (vl_limiters vrl)(key \<mapsto> \<lparr>rl_limiter = b, rl_lastSeen = now\<rparr>)\<rparr>, allowed)))"

definition Vehicle_cleanup :: "string list \<Rightarrow> gotime \<Rightarrow> 'b VehicleRateLimiter \<Rightarrow> 'b VehicleRateLimiter" where
  "Vehicle_cleanup ks now vrl =
     vrl\<lparr>vl_limiters := delete_where (\<lambda>e. rl_lastSeen e < time_add now (- minute)) ks (vl_limiters vrl)\<rparr>"

section \<open>Fixed windows\<close>

definition loginIPLimit :: nat where "loginIPLimit = 10"
definition loginEmailLimit :: nat where "loginEmailLimit = 5"
definition loginWindow :: duration where "loginWindow = minute"
definition maxTrackedLogins :: nat where "maxTrackedLogins = 10000"

record loginWindowEntry =
  lw_count :: nat
  lw_windowStart :: gotime

type_synonym windows = "string \<rightharpoonup> loginWindowEntry"

definition allowInWindow :: "windows \<Rightarrow> string \<Rightarrow> nat \<Rightarrow> gotime \<Rightarrow> windows \<times> bool" where
  "allowInWindow m key limit now =
     (case m key of
        None \<Rightarrow>
          if card (dom m) \<ge> maxTrackedLogins then (m, False)
          else (m(key \<mapsto> \<lparr>lw_count = 1, lw_windowStart = now\<rparr>), True)
      | Some e \<Rightarrow>
          if time_sub now (lw_windowStart e) \<ge> loginWindow
          then (m(key \<mapsto> \<lparr>lw_count = 1, lw_windowStart = now\<rparr>), True)
          else (m(key \<mapsto> e\<lparr>lw_count := lw_count e + 1\<rparr>), lw_count e + 1 \<le> limit))"

definition pruneStaleWindows :: "string list \<Rightarrow> gotime \<Rightarrow> windows \<Rightarrow> windows" where
  "pruneStaleWindows ks oldest m = delete_where (\<lambda>e. lw_windowStart e < oldest) ks m"

definition refund :: "string \<Rightarrow> windows \<Rightarrow> windows" where
  "refund key m =
     (case m key of
        None \<Rightarrow> m
      | Some e \<Rightarrow> if lw_count e > 0 then m(key \<mapsto> e\<lparr>lw_count := lw_count e - 1\<rparr>) else m)"

record LoginRateLimiter =
  ll_byIP :: windows
  ll_byEmail :: windows

definition NewLoginRateLimiter :: LoginRateLimiter where
  "NewLoginRateLimiter = \<lparr>ll_byIP = Map.empty, ll_byEmail = Map.empty\<rparr>"

definition Login_Allow :: "string \<Rightarrow> string \<Rightarrow> gotime \<Rightarrow> LoginRateLimiter \<Rightarrow> LoginRateLimiter \<times> bool" where
  "Login_Allow ip email now l =
     (case allowInWindow (ll_byIP l) ip loginIPLimit now of
        (m, False) \<Rightarrow> (l\<lparr>ll_byIP := m\<rparr>, False)
      | (m, True) \<Rightarrow>
          (let (m', ok) = allowInWindow (ll_byEmail l) email loginEmailLimit now
           in (l\<lparr>ll_byIP := m, ll_byEmail := m'\<rparr>, ok)))"

definition RecordSuccess :: "string \<Rightarrow> string \<Rightarrow> LoginRateLimiter \<Rightarrow> LoginRateLimiter" where
  "RecordSuccess ip email l =
     l\<lparr>ll_byEmail := (ll_byEmail l)(email := None), ll_byIP := refund ip (ll_byIP l)\<rparr>"

definition stale_cutoff :: "gotime \<Rightarrow> gotime" where
  "stale_cutoff now = time_add now (- 2 * loginWindow)"

definition Login_cleanup :: "string list \<Rightarrow> string list \<Rightarrow> gotime \<Rightarrow> LoginRateLimiter \<Rightarrow> LoginRateLimiter" where
  "Login_cleanup ips emails now l =
     l\<lparr>ll_byIP := pruneStaleWindows ips (stale_cutoff now) (ll_byIP l),
       ll_byEmail := pruneStaleWindows emails (stale_cutoff now) (ll_byEmail l)\<rparr>"

definition refreshIPLimit :: nat where "refreshIPLimit = 60"

record RefreshRateLimiter =
  rf_byIP :: windows
  rf_limit :: nat

definition NewRefreshRateLimiter :: RefreshRateLimiter where
  "NewRefreshRateLimiter = \<lparr>rf_byIP = Map.empty, rf_limit = refreshIPLimit\<rparr>"

definition Refresh_Allow :: "string \<Rightarrow> gotime \<Rightarrow> RefreshRateLimiter \<Rightarrow> RefreshRateLimiter \<times> bool" where
  "Refresh_Allow ip now l =
     (let (m, ok) = allowInWindow (rf_byIP l) ip (rf_limit l) now in (l\<lparr>rf_byIP := m\<rparr>, ok))"

definition Refresh_cleanup :: "string list \<Rightarrow> gotime \<Rightarrow> RefreshRateLimiter \<Rightarrow> RefreshRateLimiter" where
  "Refresh_cleanup ks now l = l\<lparr>rf_byIP := pruneStaleWindows ks (stale_cutoff now) (rf_byIP l)\<rparr>"

definition registrationIPLimit :: nat where "registrationIPLimit = 5"

record RegistrationRateLimiter =
  rg_byIP :: windows
  rg_limit :: nat

definition NewRegistrationRateLimiter :: RegistrationRateLimiter where
  "NewRegistrationRateLimiter = \<lparr>rg_byIP = Map.empty, rg_limit = registrationIPLimit\<rparr>"

definition Registration_Allow :: "string \<Rightarrow> gotime \<Rightarrow> RegistrationRateLimiter \<Rightarrow> RegistrationRateLimiter \<times> bool" where
  "Registration_Allow ip now l =
     (let (m, ok) = allowInWindow (rg_byIP l) ip (rg_limit l) now in (l\<lparr>rg_byIP := m\<rparr>, ok))"

definition Registration_cleanup :: "string list \<Rightarrow> gotime \<Rightarrow> RegistrationRateLimiter \<Rightarrow> RegistrationRateLimiter" where
  "Registration_cleanup ks now l = l\<lparr>rg_byIP := pruneStaleWindows ks (stale_cutoff now) (rg_byIP l)\<rparr>"

section \<open>What a window admits\<close>

text \<open>
  \<open>among xs t u\<close> counts the instants of \<open>xs\<close> in \<open>[t, u)\<close>. The invariant of one key's window relates
  its entry with the attempts admitted so far, \<open>adm\<close>, and those handed back, \<open>rfd\<close>: no interval the
  length of a window holds more than twice the limit beyond what was handed back, because it meets at
  most two windows.
\<close>

definition among :: "gotime list \<Rightarrow> gotime \<Rightarrow> gotime \<Rightarrow> nat" where
  "among xs t u = length (filter (\<lambda>x. t \<le> x \<and> x < u) xs)"

lemma among_Nil [simp]: "among [] t u = 0"
  by (simp add: among_def)

lemma among_Cons: "among (x # xs) t u = (if t \<le> x \<and> x < u then 1 else 0) + among xs t u"
  by (simp add: among_def)

lemma among_snoc [simp]: "among (xs @ [x]) t u = among xs t u + (if t \<le> x \<and> x < u then 1 else 0)"
  by (simp add: among_def)

lemma among_append: "among (xs @ ys) t u = among xs t u + among ys t u"
  by (simp add: among_def)

lemma among_split: "t \<le> v \<Longrightarrow> v \<le> u \<Longrightarrow> among xs t u = among xs t v + among xs v u"
  by (induction xs) (auto simp: among_Cons)

lemma among_beyond: "\<forall>x \<in> set xs. x < v \<Longrightarrow> v \<le> u \<Longrightarrow> among xs t u = among xs t v"
  by (induction xs) (auto simp: among_Cons)

lemma among_none: "\<forall>x \<in> set xs. x < t \<or> u \<le> x \<Longrightarrow> among xs t u = 0"
  by (induction xs) (auto simp: among_Cons)

lemma among_mono: "t' \<le> t \<Longrightarrow> u \<le> u' \<Longrightarrow> among xs t u \<le> among xs t' u'"
  by (induction xs) (auto simp: among_Cons)

definition in_window :: "nat \<Rightarrow> gotime \<Rightarrow> loginWindowEntry \<Rightarrow> gotime list \<Rightarrow> gotime list \<Rightarrow> bool" where
  "in_window limit now e adm rfd \<longleftrightarrow>
     (\<forall>a \<in> set adm. a < lw_windowStart e + loginWindow)
     \<and> (\<forall>t u. lw_windowStart e \<le> t \<longrightarrow> now < u \<longrightarrow>
            among adm t u \<le> among rfd t u + min (lw_count e) limit)
     \<and> (\<forall>t u. lw_windowStart e \<le> t \<longrightarrow> among adm t u \<le> among rfd t u + limit)
     \<and> (\<forall>t. lw_windowStart e < t + loginWindow \<longrightarrow>
            among adm t (lw_windowStart e) \<le> among rfd t (lw_windowStart e) + limit)"

definition window_ok :: "nat \<Rightarrow> gotime \<Rightarrow> loginWindowEntry option \<Rightarrow> gotime list \<Rightarrow> gotime list \<Rightarrow> bool" where
  "window_ok limit now e adm rfd \<longleftrightarrow>
     (\<forall>t u. u \<le> t + loginWindow \<longrightarrow> among adm t u \<le> among rfd t u + 2 * limit)
     \<and> (\<forall>x \<in> set adm \<union> set rfd. x \<le> now)
     \<and> (case e of
          None \<Rightarrow> \<forall>a \<in> set adm. a + loginWindow \<le> now
        | Some e \<Rightarrow> lw_windowStart e \<le> now \<and> in_window limit now e adm rfd)"

lemma loginWindow_pos: "0 < loginWindow"
  by (simp add: loginWindow_def time_units)

lemma window_elapsed: "loginWindow \<le> time_sub now start \<longleftrightarrow> start + loginWindow \<le> now"
  using time_sub_gt_iff [of "loginWindow - 1" now start]
  by (simp add: loginWindow_def time_units int64_defs) linarith

lemma window_ok_later:
  "window_ok limit now e adm rfd \<Longrightarrow> now \<le> now' \<Longrightarrow> window_ok limit now' e adm rfd"
  unfolding window_ok_def in_window_def by (cases e) (simp_all, (meson order_trans order_le_less_trans)+)

text \<open>Counting fewer admissions, or more refunds, keeps it.\<close>

lemma window_ok_weaken:
  assumes ok: "window_ok limit now e adm rfd"
    and fewer: "\<And>t u. among adm' t u \<le> among adm t u" "set adm' \<subseteq> set adm"
    and more: "\<And>t u. among rfd t u \<le> among rfd1 t u" "\<forall>x \<in> set rfd1. x \<le> now"
  shows "window_ok limit now e adm' rfd1"
proof -
  have le: "among adm' t u \<le> among rfd1 t u + n" if "among adm t u \<le> among rfd t u + n" for t u n
    using that fewer(1) [of t u] more(1) [of t u] by linarith
  show ?thesis
    using ok fewer(2) more(2) le unfolding window_ok_def in_window_def
    by (cases e) (simp_all add: subset_iff ball_Un)
qed

lemma window_ok_fresh: "window_ok limit now None [] rfd \<longleftrightarrow> (\<forall>x \<in> set rfd. x \<le> now)"
  by (simp add: window_ok_def)

text \<open>A new window opens: the key had no entry, or its window has passed.\<close>

lemma window_ok_opens:
  assumes ok: "window_ok limit now e adm rfd" and lim: "1 \<le> limit"
    and old: "\<forall>e'. e = Some e' \<longrightarrow> lw_windowStart e' + loginWindow \<le> now"
  shows "window_ok limit now (Some \<lparr>lw_count = 1, lw_windowStart = now\<rparr>) (adm @ [now]) rfd"
proof -
  have past: "\<forall>a \<in> set adm. a < now"
    using ok old loginWindow_pos by (fastforce simp: window_ok_def in_window_def split: option.splits)
  have before: "among adm t u \<le> among rfd t u + limit" if "now < t + loginWindow" for t u
  proof (cases e)
    case None
    then have "among adm t u = 0"
      using ok that by (intro among_none) (fastforce simp: window_ok_def)
    then show ?thesis by simp
  next
    case (Some e')
    then show ?thesis
      using ok old that by (fastforce simp: window_ok_def in_window_def)
  qed
  have one: "among adm t u = 0" if "now \<le> t" for t u
    using past that by (intro among_none) auto
  let ?e = "\<lparr>lw_count = 1, lw_windowStart = now\<rparr>"
  have "among (adm @ [now]) t u \<le> among rfd t u + 2 * limit" if "u \<le> t + loginWindow" for t u
    using before [of t u] that lim ok by (auto simp: window_ok_def)
  moreover have "in_window limit now ?e (adm @ [now]) rfd"
    using past before one lim loginWindow_pos by (auto simp: in_window_def)
  ultimately show ?thesis
    using ok by (auto simp: window_ok_def)
qed

text \<open>A further attempt in the running window, admitted or not.\<close>

lemma window_ok_counts:
  assumes ok: "window_ok limit now (Some e) adm rfd" and cur: "now < lw_windowStart e + loginWindow"
    and adm': "adm' = adm \<or> adm' = adm @ [now] \<and> lw_count e + 1 \<le> limit"
  shows "window_ok limit now (Some (e\<lparr>lw_count := lw_count e + 1\<rparr>)) adm' rfd"
proof (cases "adm' = adm")
  case True
  have "among adm t u \<le> among rfd t u + min (lw_count e + 1) limit"
    if "among adm t u \<le> among rfd t u + min (lw_count e) limit" for t u
    using that by simp
  then show ?thesis
    using ok True unfolding window_ok_def in_window_def by simp
next
  case False
  then have adm: "adm' = adm @ [now]" and room: "lw_count e + 1 \<le> limit"
    using adm' by auto
  let ?s = "lw_windowStart e"
  have s: "?s \<le> now" and past: "\<forall>a \<in> set adm \<union> set rfd. a \<le> now"
    using ok by (auto simp: window_ok_def)
  have tot: "among adm t u \<le> among rfd t u + lw_count e"
    if "?s \<le> t" "now < u" for t u
  proof -
    have "among adm t u \<le> among rfd t u + min (lw_count e) limit"
      using ok that by (simp add: window_ok_def in_window_def)
    then show ?thesis by simp
  qed
  have within: "among adm' t u \<le> among rfd t u + limit" if "?s \<le> t" for t u
  proof (cases "now < u")
    case True
    then show ?thesis
      using tot [OF that True] room by (auto simp: adm)
  next
    case False
    then show ?thesis
      using ok that by (auto simp: adm window_ok_def in_window_def)
  qed
  have prev: "among adm' t ?s \<le> among rfd t ?s + limit" if "?s < t + loginWindow" for t
    using ok that s by (auto simp: adm window_ok_def in_window_def)
  have "among adm' t u \<le> among rfd t u + 2 * limit" if w: "u \<le> t + loginWindow" for t u
  proof (cases "?s \<le> t \<or> u \<le> now")
    case True
    then show ?thesis
      using within [of t u] ok w by (auto simp: adm window_ok_def)
  next
    case False
    then have "among adm' t u = among adm' t ?s + among adm' ?s u" "among rfd t u = among rfd t ?s + among rfd ?s u"
      using s by (auto intro: among_split)
    then show ?thesis
      using prev [of t] within [of ?s u] False s w by simp
  qed
  moreover have "among adm' t u \<le> among rfd t u + min (lw_count e + 1) limit"
    if "?s \<le> t" "now < u" for t u
    using tot [of t u] that room by (auto simp: adm min_def)
  ultimately show ?thesis
    using within prev ok cur by (auto simp: window_ok_def in_window_def adm)
qed

lemma window_ok_refund:
  assumes ok: "window_ok limit now (Some e) adm rfd"
  shows "window_ok limit now (Some (e\<lparr>lw_count := lw_count e - 1\<rparr>)) adm (rfd @ [now])"
proof -
  have w: "window_ok limit now (Some e) adm (rfd @ [now])"
    using ok by (rule window_ok_weaken) (use ok in \<open>auto simp: window_ok_def\<close>)
  have "among adm t u \<le> among (rfd @ [now]) t u + min (lw_count e - 1) limit"
    if "lw_windowStart e \<le> t" "now < u" for t u
  proof (cases "t \<le> now")
    case True
    have "among adm t u \<le> among rfd t u + min (lw_count e) limit"
      using ok that unfolding window_ok_def in_window_def by simp
    also have "\<dots> \<le> among rfd t u + 1 + min (lw_count e - 1) limit"
      by simp
    finally show ?thesis
      using that True by simp
  next
    case False
    then have "among adm t u = 0"
      using ok by (intro among_none ballI) (auto simp: window_ok_def dest!: bspec)
    then show ?thesis by simp
  qed
  then show ?thesis
    using w unfolding window_ok_def in_window_def by (simp del: among_snoc)
qed

text \<open>What each operation on the windows does to one key.\<close>

lemma allow_window_ok:
  assumes ok: "window_ok limit now (m key) adm rfd" and lim: "1 \<le> limit"
  shows "window_ok limit now (fst (allowInWindow m key' limit now) key)
           (if key' = key \<and> snd (allowInWindow m key' limit now) then adm @ [now] else adm) rfd"
proof (cases "key' = key")
  case True
  show ?thesis
  proof (cases "m key")
    case None
    then show ?thesis
      using ok True window_ok_opens [OF ok lim] by (auto simp: allowInWindow_def)
  next
    case (Some e)
    then show ?thesis
      using True window_ok_opens [OF ok lim] window_ok_counts [of limit now e adm rfd] ok
      by (auto simp: allowInWindow_def window_elapsed)
  qed
next
  case False
  then show ?thesis
    using ok by (auto simp: allowInWindow_def split: option.split)
qed

lemma allow_window_weaker:
  assumes ok: "window_ok limit now (m key) adm rfd" and lim: "1 \<le> limit"
  shows "window_ok limit now (fst (allowInWindow m key' limit now) key) adm rfd"
proof -
  let ?hit = "key' = key \<and> snd (allowInWindow m key' limit now)"
  have "window_ok limit now (fst (allowInWindow m key' limit now) key) (if ?hit then adm @ [now] else adm) rfd"
    using ok lim by (rule allow_window_ok)
  then show ?thesis
    by (rule window_ok_weaken) (use ok in \<open>auto simp: window_ok_def\<close>)
qed

lemma prune_window_ok:
  assumes "window_ok limit now (m key) adm rfd"
  shows "window_ok limit now (pruneStaleWindows ks (stale_cutoff now) m key) adm rfd"
proof -
  have "a + loginWindow \<le> now"
    if "m key = Some e" "lw_windowStart e < stale_cutoff now" "a \<in> set adm" for e a
    using assms that by (auto simp: window_ok_def in_window_def stale_cutoff_def time_add_def)
  then show ?thesis
    using assms
    by (auto simp: pruneStaleWindows_def delete_where_lookup window_ok_def split: option.splits)
qed

lemma refund_window_ok:
  assumes ok: "window_ok limit now (m key) adm rfd"
  shows "window_ok limit now (refund key' m key) adm (if key' = key then rfd @ [now] else rfd)"
proof -
  have "window_ok limit now (m key) adm (rfd @ [now])"
    using ok by (rule window_ok_weaken) (use ok in \<open>auto simp: window_ok_def\<close>)
  then show ?thesis
    using ok window_ok_refund [of limit now _ adm rfd]
    by (auto simp: refund_def split: option.splits)
qed

section \<open>Tables that do not grow\<close>

definition small_table :: "windows \<Rightarrow> bool" where
  "small_table m \<longleftrightarrow> finite (dom m) \<and> card (dom m) \<le> maxTrackedLogins"

lemma small_empty [simp]: "small_table Map.empty"
  by (simp add: small_table_def)

lemma small_subset: "small_table m \<Longrightarrow> dom m' \<subseteq> dom m \<Longrightarrow> small_table m'"
  unfolding small_table_def by (meson card_mono finite_subset le_trans)

lemma small_allow: "small_table m \<Longrightarrow> small_table (fst (allowInWindow m key limit now))"
  by (auto simp: small_table_def allowInWindow_def insert_absorb domI card_insert_if split: option.splits)

lemma small_prune: "small_table m \<Longrightarrow> small_table (pruneStaleWindows ks oldest m)"
  by (erule small_subset) (simp add: pruneStaleWindows_def delete_where_dom)

lemma small_refund: "small_table m \<Longrightarrow> small_table (refund key m)"
  by (erule small_subset) (auto simp: refund_def split: option.splits if_splits)

section \<open>Histories of a single-key window\<close>

datatype window_event = Attempt string gotime | Prune "string list" gotime

fun event_time :: "window_event \<Rightarrow> gotime" where
  "event_time (Attempt k t) = t"
| "event_time (Prune ks t) = t"

type_synonym window_log = "(string \<times> gotime \<times> bool) list"

fun window_step ::
  "(string \<Rightarrow> gotime \<Rightarrow> 's \<Rightarrow> 's \<times> bool) \<Rightarrow> (string list \<Rightarrow> gotime \<Rightarrow> 's \<Rightarrow> 's) \<Rightarrow> window_event
     \<Rightarrow> window_log \<times> 's \<Rightarrow> window_log \<times> 's" where
  "window_step allow clean (Attempt k t) (lg, s) = (let (s', ok) = allow k t s in (lg @ [(k, t, ok)], s'))"
| "window_step allow clean (Prune ks t) (lg, s) = (lg, clean ks t s)"

definition window_run ::
  "(string \<Rightarrow> gotime \<Rightarrow> 's \<Rightarrow> 's \<times> bool) \<Rightarrow> (string list \<Rightarrow> gotime \<Rightarrow> 's \<Rightarrow> 's) \<Rightarrow> window_event list \<Rightarrow> 's
     \<Rightarrow> window_log \<times> 's" where
  "window_run allow clean evs s = fold (window_step allow clean) evs ([], s)"

definition admitted :: "string \<Rightarrow> window_log \<Rightarrow> gotime list" where
  "admitted key lg = map (\<lambda>(k, t, ok). t) (filter (\<lambda>(k, t, ok). k = key \<and> ok) lg)"

lemma admitted_Nil [simp]: "admitted key [] = []"
  by (simp add: admitted_def)

lemma admitted_snoc [simp]:
  "admitted key (lg @ [(k, t, ok)]) = (if k = key \<and> ok then admitted key lg @ [t] else admitted key lg)"
  by (simp add: admitted_def)

locale window_limiter =
  fixes allow :: "string \<Rightarrow> gotime \<Rightarrow> 's \<Rightarrow> 's \<times> bool"
    and clean :: "string list \<Rightarrow> gotime \<Rightarrow> 's \<Rightarrow> 's"
    and wins :: "'s \<Rightarrow> windows"
    and good :: "'s \<Rightarrow> bool"
    and limit :: nat
  assumes limit_pos: "1 \<le> limit"
    and allow_windows: "good s \<Longrightarrow> (wins (fst (allow k t s)), snd (allow k t s)) = allowInWindow (wins s) k limit t"
    and allow_good: "good s \<Longrightarrow> good (fst (allow k t s))"
    and clean_windows: "good s \<Longrightarrow> wins (clean ks t s) = pruneStaleWindows ks (stale_cutoff t) (wins s)"
    and clean_good: "good s \<Longrightarrow> good (clean ks t s)"
begin

definition fine :: "string \<Rightarrow> gotime \<Rightarrow> window_log \<times> 's \<Rightarrow> bool" where
  "fine key now st \<longleftrightarrow> good (snd st) \<and> small_table (wins (snd st))
     \<and> window_ok limit now (wins (snd st) key) (admitted key (fst st)) []"

lemma fine_step:
  assumes "fine key now st" "now \<le> event_time ev"
  shows "fine key (event_time ev) (window_step allow clean ev st)"
proof -
  obtain lg s where st: "st = (lg, s)"
    by (cases st)
  have g: "good s" and sm: "small_table (wins s)"
    and ok: "window_ok limit (event_time ev) (wins s key) (admitted key lg) []"
    using assms window_ok_later by (auto simp: fine_def st)
  show ?thesis
  proof (cases ev)
    case (Attempt k t)
    let ?r = "allowInWindow (wins s) k limit t"
    have "wins (fst (allow k t s)) = fst ?r" "snd (allow k t s) = snd ?r"
      using allow_windows [OF g, of k t] by (metis fst_conv, metis snd_conv)
    then show ?thesis
      using allow_window_ok [of limit t "wins s" key "admitted key lg" "[]" k] ok limit_pos allow_good [OF g]
        small_allow [OF sm]
      by (auto simp: fine_def Attempt st split_beta)
  next
    case (Prune ks t)
    then show ?thesis
      using prune_window_ok [of limit t "wins s" key "admitted key lg" "[]" ks] ok clean_windows [OF g] clean_good [OF g] small_prune [OF sm]
      by (simp add: fine_def st Prune)
  qed
qed

lemma fine_run:
  "sorted (map event_time evs) \<Longrightarrow> \<forall>ev \<in> set evs. now \<le> event_time ev \<Longrightarrow> fine key now st
     \<Longrightarrow> \<exists>now'. fine key now' (fold (window_step allow clean) evs st)"
proof (induction evs arbitrary: now st)
  case (Cons ev evs)
  have "fine key (event_time ev) (window_step allow clean ev st)"
    using Cons.prems by (intro fine_step [of key now]) auto
  then show ?case
    using Cons.IH [of "event_time ev"] Cons.prems by (cases "window_step allow clean ev st") auto
qed auto

lemma bounded:
  assumes "sorted (map event_time evs)" "good s" "wins s = Map.empty"
  shows "among (admitted key (fst (window_run allow clean evs s))) t (t + loginWindow) \<le> 2 * limit
    \<and> small_table (wins (snd (window_run allow clean evs s)))"
proof -
  let ?now = "if evs = [] then 0 else event_time (hd evs)"
  have "fine key ?now ([], s)"
    using assms by (simp add: fine_def window_ok_fresh)
  moreover have "\<forall>ev \<in> set evs. ?now \<le> event_time ev"
    using assms(1) by (cases evs) auto
  ultimately obtain now' where "fine key now' (window_run allow clean evs s)"
    unfolding window_run_def using fine_run [OF assms(1)] by blast
  then show ?thesis
    by (auto simp: fine_def window_ok_def)
qed

end

interpretation refresh: window_limiter Refresh_Allow Refresh_cleanup rf_byIP
    "\<lambda>l. rf_limit l = refreshIPLimit" refreshIPLimit
  by unfold_locales
    (auto simp: Refresh_Allow_def Refresh_cleanup_def refreshIPLimit_def split: prod.splits)

interpretation registration: window_limiter Registration_Allow Registration_cleanup rg_byIP
    "\<lambda>l. rg_limit l = registrationIPLimit" registrationIPLimit
  by unfold_locales
    (auto simp: Registration_Allow_def Registration_cleanup_def registrationIPLimit_def split: prod.splits)

section \<open>Histories of the login limiter\<close>

datatype login_event =
    LoginAttempt string string gotime
  | LoginSuccess string string gotime
  | LoginCleanup "string list" "string list" gotime

fun login_time :: "login_event \<Rightarrow> gotime" where
  "login_time (LoginAttempt ip email t) = t"
| "login_time (LoginSuccess ip email t) = t"
| "login_time (LoginCleanup ips emails t) = t"

type_synonym login_log = "(login_event \<times> bool) list"

fun login_step :: "login_event \<Rightarrow> login_log \<times> LoginRateLimiter \<Rightarrow> login_log \<times> LoginRateLimiter" where
  "login_step (LoginAttempt ip email t) (lg, l) =
     (let (l', ok) = Login_Allow ip email t l in (lg @ [(LoginAttempt ip email t, ok)], l'))"
| "login_step (LoginSuccess ip email t) (lg, l) =
     (lg @ [(LoginSuccess ip email t, True)], RecordSuccess ip email l)"
| "login_step (LoginCleanup ips emails t) (lg, l) = (lg, Login_cleanup ips emails t l)"

definition login_run :: "login_event list \<Rightarrow> login_log \<times> LoginRateLimiter" where
  "login_run evs = fold login_step evs ([], NewLoginRateLimiter)"

definition ip_admitted :: "string \<Rightarrow> login_log \<Rightarrow> gotime list" where
  "ip_admitted ip lg =
     List.map_filter (\<lambda>e. case e of (LoginAttempt i _ t, True) \<Rightarrow> if i = ip then Some t else None | _ \<Rightarrow> None) lg"

definition ip_successes :: "string \<Rightarrow> login_log \<Rightarrow> gotime list" where
  "ip_successes ip lg =
     List.map_filter (\<lambda>e. case e of (LoginSuccess i _ t, _) \<Rightarrow> if i = ip then Some t else None | _ \<Rightarrow> None) lg"

text \<open>The attempts on an account admitted since it last signed in.\<close>

fun email_step :: "string \<Rightarrow> login_event \<times> bool \<Rightarrow> gotime list \<Rightarrow> gotime list" where
  "email_step email (LoginAttempt ip e t, ok) ts = (if e = email \<and> ok then ts @ [t] else ts)"
| "email_step email (LoginSuccess ip e t, ok) ts = (if e = email then [] else ts)"
| "email_step email (LoginCleanup ips es t, ok) ts = ts"

definition email_admitted :: "string \<Rightarrow> login_log \<Rightarrow> gotime list" where
  "email_admitted email lg = fold (email_step email) lg []"

lemma map_filter_snoc:
  "List.map_filter f (xs @ [x]) = List.map_filter f xs @ (case f x of None \<Rightarrow> [] | Some y \<Rightarrow> [y])"
  by (simp add: List.map_filter_def split: option.split)

lemmas login_log_defs = ip_admitted_def ip_successes_def email_admitted_def map_filter_snoc

definition login_fine :: "string \<Rightarrow> string \<Rightarrow> gotime \<Rightarrow> login_log \<times> LoginRateLimiter \<Rightarrow> bool" where
  "login_fine ip email now st \<longleftrightarrow>
     small_table (ll_byIP (snd st)) \<and> small_table (ll_byEmail (snd st))
     \<and> window_ok loginIPLimit now (ll_byIP (snd st) ip) (ip_admitted ip (fst st)) (ip_successes ip (fst st))
     \<and> window_ok loginEmailLimit now (ll_byEmail (snd st) email) (email_admitted email (fst st)) []"

lemma login_limits_pos: "1 \<le> loginIPLimit" "1 \<le> loginEmailLimit"
  by (simp_all add: loginIPLimit_def loginEmailLimit_def)

lemma login_fine_step:
  assumes "login_fine ip email now st" "now \<le> login_time ev"
  shows "login_fine ip email (login_time ev) (login_step ev st)"
proof -
  obtain lg l where st: "st = (lg, l)"
    by (cases st)
  let ?t = "login_time ev"
  have small: "small_table (ll_byIP l)" "small_table (ll_byEmail l)"
    and ipok: "window_ok loginIPLimit ?t (ll_byIP l ip) (ip_admitted ip lg) (ip_successes ip lg)"
    and emok: "window_ok loginEmailLimit ?t (ll_byEmail l email) (email_admitted email lg) []"
    using assms window_ok_later by (auto simp: login_fine_def st)
  show ?thesis
  proof (cases ev)
    case (LoginAttempt i e t)
    note 1 = allow_window_ok [of loginIPLimit t "ll_byIP l" ip "ip_admitted ip lg" "ip_successes ip lg" i]
    note 2 = allow_window_weaker [of loginIPLimit t "ll_byIP l" ip "ip_admitted ip lg" "ip_successes ip lg" i]
    note 3 = allow_window_ok [of loginEmailLimit t "ll_byEmail l" email "email_admitted email lg" "[]" e]
    show ?thesis
      using 1 2 3 ipok emok small_allow [OF small(1), of i loginIPLimit t]
        small_allow [OF small(2), of e loginEmailLimit t] small login_limits_pos
      by (auto simp: LoginAttempt st login_fine_def Login_Allow_def login_log_defs split: prod.splits bool.splits)
  next
    case (LoginSuccess i e t)
    note 1 = refund_window_ok [of loginIPLimit t "ll_byIP l" ip "ip_admitted ip lg" "ip_successes ip lg" i]
    have "small_table ((ll_byEmail l)(e := None))"
      using small(2) by (rule small_subset) auto
    then show ?thesis
      using 1 ipok emok small_refund [OF small(1)]
      by (auto simp: LoginSuccess st login_fine_def RecordSuccess_def login_log_defs window_ok_fresh)
  next
    case (LoginCleanup ips es t)
    note 1 = prune_window_ok [of loginIPLimit t "ll_byIP l" ip "ip_admitted ip lg" "ip_successes ip lg" ips]
    note 2 = prune_window_ok [of loginEmailLimit t "ll_byEmail l" email "email_admitted email lg" "[]" es]
    show ?thesis
      using 1 2 ipok emok small_prune small by (simp add: LoginCleanup st login_fine_def Login_cleanup_def)
  qed
qed

lemma login_fine_run:
  "sorted (map login_time evs) \<Longrightarrow> \<forall>ev \<in> set evs. now \<le> login_time ev \<Longrightarrow> login_fine ip email now st
     \<Longrightarrow> \<exists>now'. login_fine ip email now' (fold login_step evs st)"
proof (induction evs arbitrary: now st)
  case (Cons ev evs)
  have "login_fine ip email (login_time ev) (login_step ev st)"
    using Cons.prems by (intro login_fine_step [of ip email now]) auto
  then show ?case
    using Cons.IH [of "login_time ev"] Cons.prems by (cases "login_step ev st") auto
qed auto

section \<open>Histories of the keyed buckets\<close>

datatype vehicle_event = VAllow string gotime | VCleanup "string list" gotime

fun vehicle_time :: "vehicle_event \<Rightarrow> gotime" where
  "vehicle_time (VAllow k t) = t"
| "vehicle_time (VCleanup ks t) = t"

fun vehicle_keys :: "vehicle_event \<Rightarrow> string set" where
  "vehicle_keys (VAllow k t) = {k}"
| "vehicle_keys (VCleanup ks t) = {}"

fun vehicle_step ::
  "(duration \<Rightarrow> nat \<Rightarrow> 'b) \<Rightarrow> ('b \<Rightarrow> gotime \<Rightarrow> 'b \<times> bool) \<Rightarrow> vehicle_event
     \<Rightarrow> window_log \<times> 'b VehicleRateLimiter \<Rightarrow> window_log \<times> 'b VehicleRateLimiter" where
  "vehicle_step new draw (VAllow k t) (lg, l) =
     (let (l', ok) = Vehicle_Allow new draw k t l in (lg @ [(k, t, ok)], l'))"
| "vehicle_step new draw (VCleanup ks t) (lg, l) = (lg, Vehicle_cleanup ks t l)"

definition vehicle_run ::
  "(duration \<Rightarrow> nat \<Rightarrow> 'b) \<Rightarrow> ('b \<Rightarrow> gotime \<Rightarrow> 'b \<times> bool) \<Rightarrow> vehicle_event list
     \<Rightarrow> 'b VehicleRateLimiter \<Rightarrow> window_log \<times> 'b VehicleRateLimiter" where
  "vehicle_run new draw evs l = fold (vehicle_step new draw) evs ([], l)"

text \<open>A bucket of one's own, drawn on at the given instants: the bucket left, and the answers.\<close>

definition private_draws :: "('b \<Rightarrow> gotime \<Rightarrow> 'b \<times> bool) \<Rightarrow> 'b \<Rightarrow> gotime list \<Rightarrow> 'b \<times> bool list" where
  "private_draws draw b ts = fold (\<lambda>t (b, oks). let (b', ok) = draw b t in (b', oks @ [ok])) ts (b, [])"

text \<open>What the limiter relies on: a bucket nobody drew on for a minute is as good as a new one.\<close>

definition refills :: "('b \<Rightarrow> gotime \<Rightarrow> 'b \<times> bool) \<Rightarrow> 'b \<Rightarrow> bool" where
  "refills draw b0 \<longleftrightarrow> (\<forall>b t t'. t + minute \<le> t' \<longrightarrow> draw (fst (draw b t)) t' = draw b0 t')"

definition own_times :: "string \<Rightarrow> window_log \<Rightarrow> gotime list" where
  "own_times key lg = map (\<lambda>(k, t, ok). t) (filter (\<lambda>(k, t, ok). k = key) lg)"

definition own_answers :: "string \<Rightarrow> window_log \<Rightarrow> bool list" where
  "own_answers key lg = map (\<lambda>(k, t, ok). ok) (filter (\<lambda>(k, t, ok). k = key) lg)"

lemma private_snoc:
  "private_draws draw b (ts @ [t]) =
     (let (b', oks) = private_draws draw b ts; (b'', ok) = draw b' t in (b'', oks @ [ok]))"
  by (simp add: private_draws_def split_beta Let_def)

lemma own_snoc [simp]:
  "own_times key (lg @ [(k, t, ok)]) = (if k = key then own_times key lg @ [t] else own_times key lg)"
  "own_answers key (lg @ [(k, t, ok)]) = (if k = key then own_answers key lg @ [ok] else own_answers key lg)"
  by (simp_all add: own_times_def own_answers_def)

definition bucket_fine ::
  "(duration \<Rightarrow> nat \<Rightarrow> 'b) \<Rightarrow> ('b \<Rightarrow> gotime \<Rightarrow> 'b \<times> bool) \<Rightarrow> duration \<Rightarrow> nat \<Rightarrow> string \<Rightarrow> gotime
     \<Rightarrow> window_log \<times> 'b VehicleRateLimiter \<Rightarrow> bool" where
  "bucket_fine new draw interval burst key now st \<longleftrightarrow>
     vl_interval (snd st) = interval \<and> vl_burst (snd st) = burst
     \<and> (case private_draws draw (new interval burst) (own_times key (fst st)) of (b, oks) \<Rightarrow>
          oks = own_answers key (fst st)
          \<and> (case vl_limiters (snd st) key of
               Some e \<Rightarrow> rl_limiter e = b \<and> (\<exists>b0. b = fst (draw b0 (rl_lastSeen e)))
             | None \<Rightarrow> b = new interval burst \<or> (\<exists>b0 t. b = fst (draw b0 t) \<and> t + minute \<le> now)))"

lemma bucket_fine_step:
  assumes refills: "refills draw (new interval burst)"
    and fine: "bucket_fine new draw interval burst key now st" and later: "now \<le> vehicle_time ev"
    and room: "card (dom (vl_limiters (snd st))) < maxTrackedRates"
  shows "bucket_fine new draw interval burst key (vehicle_time ev) (vehicle_step new draw ev st)"
proof -
  obtain lg l where st: "st = (lg, l)"
    by (cases st)
  obtain b oks where b: "private_draws draw (new interval burst) (own_times key lg) = (b, oks)"
    by (cases "private_draws draw (new interval burst) (own_times key lg)")
  have later': "t + minute \<le> vehicle_time ev" if "t + minute \<le> now" for t
    using that later by simp
  show ?thesis
  proof (cases ev)
    case (VAllow k t)
    show ?thesis
    proof (cases "k = key")
      case True
      obtain b' ok where draw: "draw b t = (b', ok)"
        by (cases "draw b t")
      have oks: "oks = own_answers key lg"
        using fine by (simp add: bucket_fine_def st b)
      have "Vehicle_Allow new draw key t l
          = (l\<lparr>vl_limiters := (vl_limiters l)(key \<mapsto> \<lparr>rl_limiter = b', rl_lastSeen = t\<rparr>)\<rparr>, ok)"
      proof (cases "vl_limiters l key")
        case None
        then have "draw (new interval burst) t = (b', ok)"
          using fine later refills draw unfolding bucket_fine_def refills_def
          by (auto simp: st b VAllow)
        then show ?thesis
          using None fine room by (simp add: Vehicle_Allow_def bucket_fine_def st)
      next
        case (Some e)
        then show ?thesis
          using fine draw by (simp add: Vehicle_Allow_def bucket_fine_def st b)
      qed
      moreover have "\<exists>b0. b' = fst (draw b0 t)"
        using draw by (intro exI [of _ b]) simp
      ultimately show ?thesis
        using fine True oks by (simp add: bucket_fine_def st b VAllow private_snoc draw)
    next
      case False
      then show ?thesis
        using fine room later'
        by (cases "vl_limiters l k"; cases "vl_limiters l key")
          (auto simp: bucket_fine_def st b VAllow Vehicle_Allow_def split: prod.splits)
    qed
  next
    case (VCleanup ks t)
    have "rl_lastSeen e + minute \<le> t" if "rl_lastSeen e < time_add t (- minute)" for e :: "'a rateLimiterEntry"
      using that by (simp add: time_add_def)
    then show ?thesis
      using fine later'
      by (auto simp: bucket_fine_def st b VCleanup Vehicle_cleanup_def delete_where_lookup split: option.splits)
  qed
qed

lemma vehicle_step_keys:
  "dom (vl_limiters (snd (vehicle_step new draw ev st))) \<subseteq> dom (vl_limiters (snd st)) \<union> vehicle_keys ev"
proof (cases st; cases ev)
  fix lg l k t assume "st = (lg, l)" "ev = VAllow k t"
  then show ?thesis
    by (auto simp: Vehicle_Allow_def split_beta split: option.splits if_splits)
next
  fix lg l ks t assume "st = (lg, l)" "ev = VCleanup ks t"
  then show ?thesis
    using delete_where_dom [of _ ks "vl_limiters l"] by (auto simp: Vehicle_cleanup_def)
qed

lemma bucket_fine_run:
  assumes refills: "refills draw (new interval burst)"
    and few: "finite K" "card K < maxTrackedRates"
  shows "sorted (map vehicle_time evs) \<Longrightarrow> \<forall>ev \<in> set evs. now \<le> vehicle_time ev \<and> vehicle_keys ev \<subseteq> K
    \<Longrightarrow> dom (vl_limiters (snd st)) \<subseteq> K \<Longrightarrow> bucket_fine new draw interval burst key now st
    \<Longrightarrow> \<exists>now'. bucket_fine new draw interval burst key now' (fold (vehicle_step new draw) evs st)"
proof (induction evs arbitrary: now st)
  case (Cons ev evs)
  have "card (dom (vl_limiters (snd st))) < maxTrackedRates"
    using few Cons.prems(3) by (meson card_mono le_less_trans)
  then have "bucket_fine new draw interval burst key (vehicle_time ev) (vehicle_step new draw ev st)"
    using Cons.prems by (intro bucket_fine_step [where now = now] refills) auto
  moreover have "dom (vl_limiters (snd (vehicle_step new draw ev st))) \<subseteq> K"
    by (rule order_trans [OF vehicle_step_keys]) (use Cons.prems in auto)
  ultimately show ?case
    using Cons.IH [of "vehicle_time ev" "vehicle_step new draw ev st"] Cons.prems by auto
qed auto

section \<open>Properties\<close>

text \<open>
  However the calls interleave and whenever the cleanup runs, no minute holds more than twice the
  limit of refreshes or of registrations admitted from one address, and neither table ever holds more
  than the fixed number of addresses.
\<close>

theorem windows_bound_attempts:
  assumes "sorted (map event_time evs)"
  shows "(case window_run Refresh_Allow Refresh_cleanup evs NewRefreshRateLimiter of (lg, l) \<Rightarrow>
            among (admitted ip lg) t (t + loginWindow) \<le> 2 * refreshIPLimit \<and> small_table (rf_byIP l))
    \<and> (case window_run Registration_Allow Registration_cleanup evs NewRegistrationRateLimiter of (lg, l) \<Rightarrow>
            among (admitted ip lg) t (t + loginWindow) \<le> 2 * registrationIPLimit \<and> small_table (rg_byIP l))"
  using refresh.bounded [OF assms, of NewRefreshRateLimiter ip t]
    registration.bounded [OF assms, of NewRegistrationRateLimiter ip t]
  by (simp add: NewRefreshRateLimiter_def NewRegistrationRateLimiter_def split_beta)

theorem windows_bound_attempts_witness:
  "case window_run Registration_Allow Registration_cleanup (map (Attempt ''ip'') [0, 0, 1, 2, 3, 4, 5])
      NewRegistrationRateLimiter of (lg, l) \<Rightarrow>
     admitted ''ip'' lg = [0, 0, 1, 2, 3] \<and> among (admitted ''ip'' lg) 0 loginWindow \<le> 2 * registrationIPLimit"
proof -
  have "fst (window_run Registration_Allow Registration_cleanup (map (Attempt ''ip'') [0, 0, 1, 2, 3, 4, 5])
      NewRegistrationRateLimiter)
    = [(''ip'', 0, True), (''ip'', 0, True), (''ip'', 1, True), (''ip'', 2, True), (''ip'', 3, True),
       (''ip'', 4, False), (''ip'', 5, False)]"
    by (simp add: window_run_def Registration_Allow_def NewRegistrationRateLimiter_def allowInWindow_def
        registrationIPLimit_def maxTrackedLogins_def time_sub_def loginWindow_def time_units int64_defs)
  then show ?thesis
    using windows_bound_attempts [of "map (Attempt ''ip'') [0, 0, 1, 2, 3, 4, 5]" "''ip''" 0]
    by (simp add: split_beta admitted_def)
qed

text \<open>
  No minute admits from one address more sign-in attempts than twice the limit beyond the ones
  that succeeded, so guessing is bounded while a depot that signs in correctly is not refused; and no
  minute admits for one account more than twice its limit since the account last signed in. Neither
  table outgrows its cap.
\<close>

theorem login_attempts_bounded:
  assumes "sorted (map login_time evs)"
  shows "case login_run evs of (lg, l) \<Rightarrow>
     among (ip_admitted ip lg) t (t + loginWindow) \<le> among (ip_successes ip lg) t (t + loginWindow) + 2 * loginIPLimit
     \<and> among (email_admitted email lg) t (t + loginWindow) \<le> 2 * loginEmailLimit
     \<and> small_table (ll_byIP l) \<and> small_table (ll_byEmail l)"
proof -
  let ?now = "if evs = [] then 0 else login_time (hd evs)"
  have "login_fine ip email ?now ([], NewLoginRateLimiter)"
    by (simp add: login_fine_def NewLoginRateLimiter_def window_ok_fresh login_log_defs List.map_filter_def)
  moreover have "\<forall>ev \<in> set evs. ?now \<le> login_time ev"
    using assms by (cases evs) auto
  ultimately obtain now' where "login_fine ip email now' (login_run evs)"
    unfolding login_run_def using login_fine_run [OF assms] by blast
  then show ?thesis
    by (auto simp: login_fine_def window_ok_def split_beta)
qed

theorem login_attempts_bounded_witness:
  "case login_run [LoginAttempt ''ip'' ''a'' 0, LoginSuccess ''ip'' ''a'' 1, LoginAttempt ''ip'' ''b'' 2] of (lg, l) \<Rightarrow>
     ip_admitted ''ip'' lg = [0, 2] \<and> email_admitted ''a'' lg = []
     \<and> among (ip_admitted ''ip'' lg) 0 loginWindow \<le> among (ip_successes ''ip'' lg) 0 loginWindow + 2 * loginIPLimit"
proof -
  let ?evs = "[LoginAttempt ''ip'' ''a'' 0, LoginSuccess ''ip'' ''a'' 1, LoginAttempt ''ip'' ''b'' 2]"
  have "fst (login_run ?evs)
     = [(LoginAttempt ''ip'' ''a'' 0, True), (LoginSuccess ''ip'' ''a'' 1, True), (LoginAttempt ''ip'' ''b'' 2, True)]"
    by (simp add: login_run_def Login_Allow_def NewLoginRateLimiter_def allowInWindow_def RecordSuccess_def refund_def
        loginIPLimit_def loginEmailLimit_def maxTrackedLogins_def time_sub_def loginWindow_def time_units int64_defs)
  then show ?thesis
    using login_attempts_bounded [of ?evs "''ip''" 0 "''a''"]
    by (simp add: split_beta login_log_defs List.map_filter_def)
qed

text \<open>
  The limiter gives every key a bucket of its own. As long as fewer keys than the cap have been
  seen, what one key is answered is exactly what its own bucket would have answered its own requests,
  whatever the other keys did and whenever the cleanup dropped idle buckets, because a bucket left alone for
  a minute is full again. A new key that finds the table full is refused by the limiter of anonymous
  riders and let through untracked by the one of the agency's drivers.
\<close>

theorem vehicle_limiter_isolates_keys:
  assumes refills: "refills draw (new interval burst)"
    and "sorted (map vehicle_time evs)"
    and "card (\<Union>ev \<in> set evs. vehicle_keys ev) < maxTrackedRates"
    and full: "vl_limiters full_l key = None" "maxTrackedRates \<le> card (dom (vl_limiters full_l))"
  shows "(case vehicle_run new draw evs (NewKeyedRateLimiter interval burst fc) of (lg, l) \<Rightarrow>
            own_answers key lg = snd (private_draws draw (new interval burst) (own_times key lg)))
    \<and> Vehicle_Allow new draw key now full_l = (full_l, \<not> vl_failClosed full_l)"
proof -
  let ?st = "([], NewKeyedRateLimiter interval burst fc) :: window_log \<times> 'a VehicleRateLimiter"
  let ?K = "\<Union>ev \<in> set evs. vehicle_keys ev"
  let ?now = "if evs = [] then 0 else vehicle_time (hd evs)"
  have fin: "finite (vehicle_keys ev)" for ev
    by (cases ev) auto
  have "bucket_fine new draw interval burst key ?now ?st"
    by (simp add: bucket_fine_def NewKeyedRateLimiter_def private_draws_def own_times_def own_answers_def)
  moreover have "\<forall>ev \<in> set evs. ?now \<le> vehicle_time ev \<and> vehicle_keys ev \<subseteq> ?K"
    using assms(2) by (cases evs) auto
  moreover have "dom (vl_limiters (snd ?st)) \<subseteq> ?K"
    by (simp add: NewKeyedRateLimiter_def)
  ultimately obtain now' where
    "bucket_fine new draw interval burst key now' (vehicle_run new draw evs (NewKeyedRateLimiter interval burst fc))"
    unfolding vehicle_run_def using bucket_fine_run [of draw new interval burst ?K evs ?now ?st key] refills assms(2,3) fin by blast
  then show ?thesis
    using full by (auto simp: bucket_fine_def Vehicle_Allow_def split: prod.splits)
qed

theorem vehicle_limiter_isolates_keys_witness:
  "let new = \<lambda>_ _. None; draw = \<lambda>b t. (Some t, case b of None \<Rightarrow> True | Some u \<Rightarrow> t - u \<ge> rateInterval);
       full = \<lparr>vl_limiters = map_of (map (\<lambda>n. (replicate n CHR ''a'', \<lparr>rl_limiter = None, rl_lastSeen = 0\<rparr>)) [0..<10000]),
               vl_interval = rateInterval, vl_burst = 1, vl_failClosed = True\<rparr>
   in own_answers ''b'' (fst (vehicle_run new draw [VAllow ''b'' 0, VAllow ''c'' 1, VAllow ''b'' 2]
          (NewKeyedRateLimiter rateInterval 1 True))) = [True, False]
      \<and> Vehicle_Allow new draw ''b'' 0 full = (full, False)"
proof -
  let ?new = "\<lambda>_ _. None :: gotime option"
  let ?draw = "\<lambda>b t. (Some t, case b of None \<Rightarrow> True | Some u \<Rightarrow> t - u \<ge> rateInterval)"
  let ?m = "map_of (map (\<lambda>n. (replicate n CHR ''a'', \<lparr>rl_limiter = None :: gotime option, rl_lastSeen = 0\<rparr>)) [0..<10000])"
  let ?full = "\<lparr>vl_limiters = ?m, vl_interval = rateInterval, vl_burst = 1, vl_failClosed = True\<rparr>"
  let ?evs = "[VAllow ''b'' 0, VAllow ''c'' 1, VAllow ''b'' 2]"
  have "refills ?draw (?new rateInterval 1)"
    by (simp add: refills_def rateInterval_def time_units)
  moreover have "?m ''b'' = None"
  proof -
    have "replicate n CHR ''a'' \<noteq> ''b''" for n
      by (cases n) auto
    then show ?thesis
      by (auto simp: map_of_eq_None_iff dest: sym)
  qed
  moreover have "dom ?m = (\<lambda>n. replicate n CHR ''a'') ` {0..<10000}"
    by (simp add: dom_map_of_conv_image_fst image_image)
  then have "card (dom ?m) = 10000"
    by (simp add: card_image inj_on_def)
  moreover have "own_times ''b'' (fst (vehicle_run ?new ?draw ?evs (NewKeyedRateLimiter rateInterval 1 True))) = [0, 2]"
    by (simp add: vehicle_run_def Vehicle_Allow_def NewKeyedRateLimiter_def own_times_def maxTrackedRates_def)
  ultimately show ?thesis
    using vehicle_limiter_isolates_keys [of ?draw ?new rateInterval 1 ?evs ?full "''b''" True 0]
    by (simp add: Let_def split_beta maxTrackedRates_def private_draws_def rateInterval_def time_units insert_commute)
qed

end
