(* ===== verification/Database.thy ===== *)
theory Database
  imports Prelude
begin

text \<open>
  The PostgreSQL schema of \<open>src/migrations\<close> as a record of tables, and each prepared statement of
  \<open>src/db/query.sql.go\<close> and \<open>src/db/batch.go\<close> as a function on it. A table is the list of its rows in
  order of insertion; where SQL leaves an order open, that order breaks the tie. \<open>NOW()\<close>, the start of
  the transaction, is the argument \<open>now\<close>. A constraint the schema declares is a check of the statement
  that could break it, and its violation is the error the driver reports. The row types carry Go's
  values: a nullable column is an \<open>option\<close>, a 32-bit counter a number the driver converts with
  \<open>wrap32\<close>.
\<close>

section \<open>Rows\<close>

record UserRow =
  u_ID :: int
  u_Name :: string
  u_Email :: string
  u_PasswordHash :: string
  u_Role :: string
  u_Active :: bool
  u_CreatedAt :: gotime
  u_UpdatedAt :: gotime

record VehicleRow =
  v_ID :: string
  v_Label :: string
  v_AgencyTag :: string
  v_Active :: bool
  v_CreatedAt :: gotime
  v_UpdatedAt :: gotime

record UserVehicleRow =
  uv_UserID :: int
  uv_VehicleID :: string
  uv_CreatedAt :: gotime

record TripRow =
  t_ID :: int
  t_UserID :: int
  t_VehicleID :: string
  t_RouteID :: string
  t_GtfsTripID :: string
  t_StartTime :: gotime
  t_EndTime :: "gotime option"
  t_Status :: string
  t_CreatedAt :: gotime
  t_UpdatedAt :: gotime

record LocationPointRow =
  lp_ID :: int
  lp_VehicleID :: string
  lp_TripID :: string
  lp_RouteID :: string
  lp_StartDate :: string
  lp_Latitude :: f64
  lp_Longitude :: f64
  lp_Bearing :: "f64 option"
  lp_Speed :: "f64 option"
  lp_Accuracy :: "f64 option"
  lp_Timestamp :: int
  lp_DriverID :: string
  lp_ReceivedAt :: gotime

record RefreshTokenRow =
  rt_ID :: int
  rt_TokenHash :: string
  rt_UserID :: int
  rt_ExpiresAt :: gotime
  rt_UsedAt :: "gotime option"
  rt_CreatedAt :: gotime

record RevokedTokenRow =
  rv_Jti :: string
  rv_UserID :: "int option"
  rv_ExpiresAt :: gotime
  rv_RevokedAt :: gotime

record RiderRow =
  rr_ID :: string
  rr_InstallationID :: string
  rr_Platform :: string
  rr_AppID :: string
  rr_AppVersion :: string
  rr_Attested :: bool
  rr_Score :: int
  rr_Tier :: string
  rr_RidesTotal :: int
  rr_RidesCorroborated :: int
  rr_RidesRejected :: int
  rr_CreatedAt :: gotime
  rr_LastSeenAt :: gotime

record RideRow =
  rd_ID :: string
  rd_RiderID :: string
  rd_TripID :: string
  rd_StartDate :: string
  rd_RouteID :: string
  rd_VehicleID :: string
  rd_BoardingStopID :: string
  rd_DestinationStopID :: string
  rd_Status :: string
  rd_State :: string
  rd_Corroborated :: bool
  rd_EndReason :: string
  rd_PointsTotal :: int
  rd_PointsMatched :: int
  rd_PointsCorroborated :: int
  rd_PointsContradicted :: int
  rd_StartedAt :: gotime
  rd_EndedAt :: "gotime option"
  rd_UpdatedAt :: gotime

record RidePointRow =
  rp_ID :: int
  rp_RideID :: string
  rp_Latitude :: f64
  rp_Longitude :: f64
  rp_Accuracy :: "f64 option"
  rp_Speed :: "f64 option"
  rp_Bearing :: "f64 option"
  rp_Timestamp :: int
  rp_Outcome :: string
  rp_Corroboration :: string
  rp_AlongShape :: "f64 option"
  rp_DistanceToShape :: "f64 option"
  rp_ScheduleDeviationSeconds :: "int option"
  rp_ReceivedAt :: gotime

record ApiKeyRow =
  ak_ID :: int
  ak_Name :: string
  ak_KeyHash :: string
  ak_Active :: bool
  ak_LastUsedAt :: "gotime option"
  ak_CreatedAt :: gotime
  ak_UpdatedAt :: gotime

record FeedCacheRow =
  fc_Source :: string
  fc_Body :: string
  fc_Sha256 :: string
  fc_FetchedAt :: gotime

text \<open>The tables; \<open>db_serial\<close> is the next value of the \<open>BIGSERIAL\<close> columns.\<close>

record Database =
  db_users :: "UserRow list"
  db_vehicles :: "VehicleRow list"
  db_user_vehicles :: "UserVehicleRow list"
  db_trips :: "TripRow list"
  db_location_points :: "LocationPointRow list"
  db_refresh_tokens :: "RefreshTokenRow list"
  db_revoked_tokens :: "RevokedTokenRow list"
  db_riders :: "RiderRow list"
  db_rides :: "RideRow list"
  db_ride_points :: "RidePointRow list"
  db_api_keys :: "ApiKeyRow list"
  db_feed_cache :: "FeedCacheRow list"
  db_serial :: int

definition empty_db :: Database where
  "empty_db = \<lparr>db_users = [], db_vehicles = [], db_user_vehicles = [], db_trips = [], db_location_points = [],
     db_refresh_tokens = [], db_revoked_tokens = [], db_riders = [], db_rides = [], db_ride_points = [],
     db_api_keys = [], db_feed_cache = [], db_serial = 1\<rparr>"

datatype DbError =
    NoRows
  | UniqueViolation string
  | FKViolation string
  | CheckViolation string
  | Unreachable

type_synonym 'a stmt = "Database \<Rightarrow> DbError + 'a \<times> Database"

section \<open>Rows of a statement\<close>

text \<open>\<open>UPDATE ... SET f WHERE p\<close> and \<open>DELETE ... WHERE p\<close>, with the number of rows affected.\<close>

definition update_rows :: "('r \<Rightarrow> bool) \<Rightarrow> ('r \<Rightarrow> 'r) \<Rightarrow> 'r list \<Rightarrow> 'r list" where
  "update_rows p f rows = map (\<lambda>r. if p r then f r else r) rows"

definition count_rows :: "('r \<Rightarrow> bool) \<Rightarrow> 'r list \<Rightarrow> int" where
  "count_rows p rows = int (length (filter p rows))"

definition delete_rows :: "('r \<Rightarrow> bool) \<Rightarrow> 'r list \<Rightarrow> 'r list" where
  "delete_rows p rows = filter (\<lambda>r. \<not> p r) rows"

text \<open>\<open>QueryRow(...).Scan\<close> of a \<open>:one\<close> query: the first row, or \<open>pgx.ErrNoRows\<close>.\<close>

definition one_row :: "'r list \<Rightarrow> DbError + 'r" where
  "one_row rows = (case rows of [] \<Rightarrow> Inl NoRows | r # _ \<Rightarrow> Inr r)"

definition read_one :: "'r list \<Rightarrow> Database \<Rightarrow> DbError + 'r \<times> Database" where
  "read_one rows d = (case one_row rows of Inl e \<Rightarrow> Inl e | Inr r \<Rightarrow> Inr (r, d))"

text \<open>\<open>ORDER BY key DESC, tie DESC\<close>.\<close>

definition order_desc :: "('r \<Rightarrow> 'k::linorder) \<Rightarrow> ('r \<Rightarrow> 'l::linorder) \<Rightarrow> 'r list \<Rightarrow> 'r list" where
  "order_desc key tie rows =
     stable_sort (\<lambda>x y. if cmp (key y) (key x) \<noteq> 0 then cmp (key y) (key x) else cmp (tie y) (tie x)) rows"

definition order_asc :: "('r \<Rightarrow> 'k::linorder) \<Rightarrow> 'r list \<Rightarrow> 'r list" where
  "order_asc key rows = stable_sort (\<lambda>x y. cmp (key x) (key y)) rows"

text \<open>\<open>SELECT DISTINCT ON (key)\<close>: the first row of each key.\<close>

fun distinct_on :: "('r \<Rightarrow> 'k) \<Rightarrow> 'r list \<Rightarrow> 'r list" where
  "distinct_on key [] = []"
| "distinct_on key (r # rows) = r # distinct_on key (filter (\<lambda>x. key x \<noteq> key r) rows)"

section \<open>Vehicles and locations\<close>

definition db_UpsertVehicle :: "string \<Rightarrow> gotime \<Rightarrow> unit stmt" where
  "db_UpsertVehicle i now d =
     (if i = [] then Inl (CheckViolation ''vehicles_id_check'')
      else if list_ex (\<lambda>v. v_ID v = i) (db_vehicles d)
      then Inr ((), d\<lparr>db_vehicles := update_rows (\<lambda>v. v_ID v = i) (\<lambda>v. v\<lparr>v_UpdatedAt := now\<rparr>) (db_vehicles d)\<rparr>)
      else Inr ((), d\<lparr>db_vehicles := db_vehicles d
             @ [\<lparr>v_ID = i, v_Label = [], v_AgencyTag = [], v_Active = True, v_CreatedAt = now, v_UpdatedAt = now\<rparr>]\<rparr>))"

text \<open>The parameters of an insert are the row without its server-assigned columns.\<close>

record InsertLocationPointParams =
  il_VehicleID :: string
  il_TripID :: string
  il_RouteID :: string
  il_StartDate :: string
  il_Latitude :: f64
  il_Longitude :: f64
  il_Bearing :: "f64 option"
  il_Speed :: "f64 option"
  il_Accuracy :: "f64 option"
  il_Timestamp :: int
  il_DriverID :: string

definition between :: "f64 \<Rightarrow> f64 \<Rightarrow> f64 \<Rightarrow> bool" where
  "between lo hi x \<longleftrightarrow> fle lo x \<and> fle x hi"

definition db_InsertLocationPoint :: "InsertLocationPointParams \<Rightarrow> gotime \<Rightarrow> unit stmt" where
  "db_InsertLocationPoint p now d =
     (if \<not> between (Num (- 90)) (Num 90) (il_Latitude p) then Inl (CheckViolation ''location_points_latitude_check'')
      else if \<not> between (Num (- 180)) (Num 180) (il_Longitude p)
      then Inl (CheckViolation ''location_points_longitude_check'')
      else if il_Timestamp p \<le> 0 then Inl (CheckViolation ''location_points_timestamp_check'')
      else if \<not> list_ex (\<lambda>v. v_ID v = il_VehicleID p) (db_vehicles d)
      then Inl (FKViolation ''location_points_vehicle_id_fkey'')
      else Inr ((), d\<lparr>db_location_points := db_location_points d
             @ [\<lparr>lp_ID = db_serial d, lp_VehicleID = il_VehicleID p, lp_TripID = il_TripID p,
                 lp_RouteID = il_RouteID p, lp_StartDate = il_StartDate p, lp_Latitude = il_Latitude p,
                 lp_Longitude = il_Longitude p, lp_Bearing = il_Bearing p, lp_Speed = il_Speed p,
                 lp_Accuracy = il_Accuracy p, lp_Timestamp = il_Timestamp p, lp_DriverID = il_DriverID p,
                 lp_ReceivedAt = now\<rparr>],
             db_serial := db_serial d + 1\<rparr>))"

definition db_GetRecentLocations :: "gotime \<Rightarrow> LocationPointRow list stmt" where
  "db_GetRecentLocations since d =
     Inr (distinct_on lp_VehicleID
            (order_asc lp_VehicleID (order_desc lp_ReceivedAt (\<lambda>_. 0 :: int)
               (filter (\<lambda>p. lp_ReceivedAt p > since) (db_location_points d)))), d)"

definition db_GetLocationHistory :: "string \<Rightarrow> int \<Rightarrow> int \<Rightarrow> nat \<Rightarrow> LocationPointRow list stmt" where
  "db_GetLocationHistory vid t1 t2 n d =
     Inr (take n (order_desc lp_Timestamp (\<lambda>_. 0 :: int)
            (filter (\<lambda>p. lp_VehicleID p = vid \<and> t1 \<le> lp_Timestamp p \<and> lp_Timestamp p \<le> t2) (db_location_points d))), d)"

definition db_DeleteLocationPointsBefore :: "gotime \<Rightarrow> nat \<Rightarrow> int stmt" where
  "db_DeleteLocationPointsBefore before batch d =
     (let doomed = take batch (order_asc lp_ReceivedAt (filter (\<lambda>p. lp_ReceivedAt p < before) (db_location_points d)));
          gone = map lp_ID doomed
      in Inr (int (length doomed), d\<lparr>db_location_points := filter (\<lambda>p. lp_ID p \<notin> set gone) (db_location_points d)\<rparr>))"

definition db_ListVehicles :: "VehicleRow list stmt" where
  "db_ListVehicles d = Inr (take 1000 (order_desc v_CreatedAt v_ID (db_vehicles d)), d)"

definition db_GetVehicleByID :: "string \<Rightarrow> VehicleRow stmt" where
  "db_GetVehicleByID i d = read_one (filter (\<lambda>v. v_ID v = i) (db_vehicles d)) d"

definition db_CreateVehicle :: "string \<Rightarrow> string \<Rightarrow> string \<Rightarrow> gotime \<Rightarrow> int stmt" where
  "db_CreateVehicle i label tag now d =
     (if i = [] then Inl (CheckViolation ''vehicles_id_check'')
      else if list_ex (\<lambda>v. v_ID v = i) (db_vehicles d) then Inr (0, d)
      else Inr (1, d\<lparr>db_vehicles := db_vehicles d
             @ [\<lparr>v_ID = i, v_Label = label, v_AgencyTag = tag, v_Active = True, v_CreatedAt = now, v_UpdatedAt = now\<rparr>]\<rparr>))"

definition db_UpsertAdminVehicle :: "string \<Rightarrow> string \<Rightarrow> string \<Rightarrow> gotime \<Rightarrow> VehicleRow stmt" where
  "db_UpsertAdminVehicle i label tag now d =
     (if i = [] then Inl (CheckViolation ''vehicles_id_check'')
      else
        (let d' = (if list_ex (\<lambda>v. v_ID v = i) (db_vehicles d)
                   then d\<lparr>db_vehicles := update_rows (\<lambda>v. v_ID v = i)
                            (\<lambda>v. v\<lparr>v_Label := label, v_AgencyTag := tag, v_Active := True, v_UpdatedAt := now\<rparr>) (db_vehicles d)\<rparr>
                   else d\<lparr>db_vehicles := db_vehicles d
                            @ [\<lparr>v_ID = i, v_Label = label, v_AgencyTag = tag, v_Active = True, v_CreatedAt = now, v_UpdatedAt = now\<rparr>]\<rparr>)
         in read_one (filter (\<lambda>v. v_ID v = i) (db_vehicles d')) d'))"

definition db_VehicleExists :: "string \<Rightarrow> bool stmt" where
  "db_VehicleExists i d = Inr (list_ex (\<lambda>v. v_ID v = i) (db_vehicles d), d)"

definition db_UpdateVehicleInfo :: "string \<Rightarrow> string \<Rightarrow> string \<Rightarrow> gotime \<Rightarrow> int stmt" where
  "db_UpdateVehicleInfo i label tag now d =
     Inr (count_rows (\<lambda>v. v_ID v = i) (db_vehicles d),
          d\<lparr>db_vehicles := update_rows (\<lambda>v. v_ID v = i)
              (\<lambda>v. v\<lparr>v_Label := label, v_AgencyTag := tag, v_UpdatedAt := now\<rparr>) (db_vehicles d)\<rparr>)"

definition db_SetVehicleActive :: "string \<Rightarrow> bool \<Rightarrow> gotime \<Rightarrow> int stmt" where
  "db_SetVehicleActive i active now d =
     Inr (count_rows (\<lambda>v. v_ID v = i) (db_vehicles d),
          d\<lparr>db_vehicles := update_rows (\<lambda>v. v_ID v = i) (\<lambda>v. v\<lparr>v_Active := active, v_UpdatedAt := now\<rparr>) (db_vehicles d)\<rparr>)"

definition db_CountActiveVehicles :: "int stmt" where
  "db_CountActiveVehicles d = Inr (count_rows v_Active (db_vehicles d), d)"

section \<open>Users, assignments and driver trips\<close>

definition db_ListUsers :: "UserRow list stmt" where
  "db_ListUsers d = Inr (take 1000 (order_desc u_CreatedAt u_ID (db_users d)), d)"

definition db_GetUserByID :: "int \<Rightarrow> UserRow stmt" where
  "db_GetUserByID i d = read_one (filter (\<lambda>u. u_ID u = i) (db_users d)) d"

definition user_role_ok :: "string \<Rightarrow> bool" where
  "user_role_ok r \<longleftrightarrow> r = ''driver'' \<or> r = ''admin''"

definition db_CreateUser :: "string \<Rightarrow> string \<Rightarrow> string \<Rightarrow> string \<Rightarrow> gotime \<Rightarrow> UserRow stmt" where
  "db_CreateUser name email hash role now d =
     (if email = [] then Inl (CheckViolation ''users_email_check'')
      else if hash = [] then Inl (CheckViolation ''users_password_hash_check'')
      else if \<not> user_role_ok role then Inl (CheckViolation ''users_role_check'')
      else if list_ex (\<lambda>u. u_Email u = email) (db_users d) then Inl (UniqueViolation ''users_email_key'')
      else
        (let row = \<lparr>u_ID = db_serial d, u_Name = name, u_Email = email, u_PasswordHash = hash, u_Role = role,
                    u_Active = True, u_CreatedAt = now, u_UpdatedAt = now\<rparr>
         in Inr (row, d\<lparr>db_users := db_users d @ [row], db_serial := db_serial d + 1\<rparr>)))"

text \<open>Every update of a user passes the trigger that stamps \<open>updated_at\<close>.\<close>

definition db_UpdateUser :: "string \<Rightarrow> string \<Rightarrow> string \<Rightarrow> int \<Rightarrow> gotime \<Rightarrow> UserRow stmt" where
  "db_UpdateUser name email role i now d =
     (if \<not> list_ex (\<lambda>u. u_ID u = i) (db_users d) then Inl NoRows
      else if email = [] then Inl (CheckViolation ''users_email_check'')
      else if \<not> user_role_ok role then Inl (CheckViolation ''users_role_check'')
      else if list_ex (\<lambda>u. u_Email u = email \<and> u_ID u \<noteq> i) (db_users d) then Inl (UniqueViolation ''users_email_key'')
      else
        (let d' = d\<lparr>db_users := update_rows (\<lambda>u. u_ID u = i)
                      (\<lambda>u. u\<lparr>u_Name := name, u_Email := email, u_Role := role, u_UpdatedAt := now\<rparr>) (db_users d)\<rparr>
         in read_one (filter (\<lambda>u. u_ID u = i) (db_users d')) d'))"

text \<open>Deleting a user cascades to assignments and refresh tokens and forgets the user of a revocation.\<close>

definition db_DeleteUser :: "int \<Rightarrow> int stmt" where
  "db_DeleteUser i d =
     (if list_ex (\<lambda>t. t_UserID t = i) (db_trips d) \<and> list_ex (\<lambda>u. u_ID u = i) (db_users d)
      then Inl (FKViolation ''trips_user_id_fkey'')
      else Inr (count_rows (\<lambda>u. u_ID u = i) (db_users d),
             d\<lparr>db_users := delete_rows (\<lambda>u. u_ID u = i) (db_users d),
               db_user_vehicles := delete_rows (\<lambda>uv. uv_UserID uv = i) (db_user_vehicles d),
               db_refresh_tokens := delete_rows (\<lambda>r. rt_UserID r = i) (db_refresh_tokens d),
               db_revoked_tokens := update_rows (\<lambda>r. rv_UserID r = Some i) (\<lambda>r. r\<lparr>rv_UserID := None\<rparr>) (db_revoked_tokens d)\<rparr>))"

definition db_SetUserActive :: "int \<Rightarrow> bool \<Rightarrow> gotime \<Rightarrow> int stmt" where
  "db_SetUserActive i active now d =
     Inr (count_rows (\<lambda>u. u_ID u = i) (db_users d),
          d\<lparr>db_users := update_rows (\<lambda>u. u_ID u = i) (\<lambda>u. u\<lparr>u_Active := active, u_UpdatedAt := now\<rparr>) (db_users d)\<rparr>)"

definition db_UpdateUserPassword :: "int \<Rightarrow> string \<Rightarrow> gotime \<Rightarrow> int stmt" where
  "db_UpdateUserPassword i hash now d =
     (if hash = [] \<and> list_ex (\<lambda>u. u_ID u = i) (db_users d) then Inl (CheckViolation ''users_password_hash_check'')
      else Inr (count_rows (\<lambda>u. u_ID u = i) (db_users d),
             d\<lparr>db_users := update_rows (\<lambda>u. u_ID u = i) (\<lambda>u. u\<lparr>u_PasswordHash := hash, u_UpdatedAt := now\<rparr>) (db_users d)\<rparr>))"

text \<open>\<open>SELECT ... FOR UPDATE\<close>: the row lock is what makes the transaction atomic for the user.\<close>

definition db_LockUser :: "int \<Rightarrow> int stmt" where
  "db_LockUser i d = read_one (map u_ID (filter (\<lambda>u. u_ID u = i) (db_users d))) d"

definition db_CountUsersByRole :: "string \<Rightarrow> int stmt" where
  "db_CountUsersByRole role d = Inr (count_rows (\<lambda>u. u_Role u = role) (db_users d), d)"

definition db_CountActiveUsersByRole :: "string \<Rightarrow> int stmt" where
  "db_CountActiveUsersByRole role d = Inr (count_rows (\<lambda>u. u_Role u = role \<and> u_Active u) (db_users d), d)"

definition db_CheckUserVehicleAssignment :: "int \<Rightarrow> string \<Rightarrow> UserVehicleRow stmt" where
  "db_CheckUserVehicleAssignment uid vid d =
     read_one (filter (\<lambda>uv. uv_UserID uv = uid \<and> uv_VehicleID uv = vid) (db_user_vehicles d)) d"

definition db_GetActiveTripByUser :: "int \<Rightarrow> TripRow stmt" where
  "db_GetActiveTripByUser uid d =
     read_one (filter (\<lambda>t. t_UserID t = uid \<and> t_Status t = ''active'') (db_trips d)) d"

definition db_StartTrip :: "int \<Rightarrow> string \<Rightarrow> string \<Rightarrow> string \<Rightarrow> gotime \<Rightarrow> TripRow stmt" where
  "db_StartTrip uid vid route gtfs now d =
     (if list_ex (\<lambda>t. t_UserID t = uid \<and> t_Status t = ''active'') (db_trips d)
      then Inl (UniqueViolation ''idx_trips_one_active_per_user'')
      else if \<not> list_ex (\<lambda>u. u_ID u = uid) (db_users d) then Inl (FKViolation ''trips_user_id_fkey'')
      else if \<not> list_ex (\<lambda>v. v_ID v = vid) (db_vehicles d) then Inl (FKViolation ''trips_vehicle_id_fkey'')
      else
        (let row = \<lparr>t_ID = db_serial d, t_UserID = uid, t_VehicleID = vid, t_RouteID = route, t_GtfsTripID = gtfs,
                    t_StartTime = now, t_EndTime = None, t_Status = ''active'', t_CreatedAt = now, t_UpdatedAt = now\<rparr>
         in Inr (row, d\<lparr>db_trips := db_trips d @ [row], db_serial := db_serial d + 1\<rparr>)))"

definition db_EndTrip :: "int \<Rightarrow> int \<Rightarrow> gotime \<Rightarrow> int stmt" where
  "db_EndTrip i uid now d =
     (let p = (\<lambda>t. t_ID t = i \<and> t_UserID t = uid \<and> t_Status t = ''active'')
      in Inr (count_rows p (db_trips d),
              d\<lparr>db_trips := update_rows p (\<lambda>t. t\<lparr>t_Status := ''completed'', t_EndTime := Some now, t_UpdatedAt := now\<rparr>)
                  (db_trips d)\<rparr>))"

definition db_AssignUserVehicle :: "int \<Rightarrow> string \<Rightarrow> gotime \<Rightarrow> UserVehicleRow stmt" where
  "db_AssignUserVehicle uid vid now d =
     (if list_ex (\<lambda>uv. uv_UserID uv = uid \<and> uv_VehicleID uv = vid) (db_user_vehicles d)
      then Inl (UniqueViolation ''user_vehicles_pkey'')
      else if \<not> list_ex (\<lambda>u. u_ID u = uid) (db_users d) then Inl (FKViolation ''user_vehicles_user_id_fkey'')
      else if \<not> list_ex (\<lambda>v. v_ID v = vid) (db_vehicles d) then Inl (FKViolation ''user_vehicles_vehicle_id_fkey'')
      else
        (let row = \<lparr>uv_UserID = uid, uv_VehicleID = vid, uv_CreatedAt = now\<rparr>
         in Inr (row, d\<lparr>db_user_vehicles := db_user_vehicles d @ [row]\<rparr>)))"

definition db_UnassignUserVehicle :: "int \<Rightarrow> string \<Rightarrow> int stmt" where
  "db_UnassignUserVehicle uid vid d =
     (let p = (\<lambda>uv. uv_UserID uv = uid \<and> uv_VehicleID uv = vid)
      in Inr (count_rows p (db_user_vehicles d), d\<lparr>db_user_vehicles := delete_rows p (db_user_vehicles d)\<rparr>))"

definition db_ListVehiclesByUser :: "int \<Rightarrow> UserVehicleRow list stmt" where
  "db_ListVehiclesByUser uid d =
     Inr (take 1000 (order_desc uv_CreatedAt (\<lambda>_. 0 :: int) (filter (\<lambda>uv. uv_UserID uv = uid) (db_user_vehicles d))), d)"

definition db_ListUsersByVehicle :: "string \<Rightarrow> UserVehicleRow list stmt" where
  "db_ListUsersByVehicle vid d =
     Inr (take 1000 (order_desc uv_CreatedAt (\<lambda>_. 0 :: int) (filter (\<lambda>uv. uv_VehicleID uv = vid) (db_user_vehicles d))), d)"

definition db_ListActiveVehiclesByUser :: "int \<Rightarrow> VehicleRow list stmt" where
  "db_ListActiveVehiclesByUser uid d =
     Inr (take 1000 (order_asc v_Label (order_asc v_ID
            (filter (\<lambda>v. v_Active v \<and> list_ex (\<lambda>uv. uv_UserID uv = uid \<and> uv_VehicleID uv = v_ID v) (db_user_vehicles d))
               (db_vehicles d)))), d)"

definition db_CountActiveTrips :: "int stmt" where
  "db_CountActiveTrips d = Inr (count_rows (\<lambda>t. t_Status t = ''active'') (db_trips d), d)"

text \<open>The joined rows of a trip with its vehicle's label and its driver's name.\<close>

definition trip_joined :: "Database \<Rightarrow> TripRow \<Rightarrow> (TripRow \<times> string \<times> string) list" where
  "trip_joined d t =
     concat (map (\<lambda>u. map (\<lambda>v. (t, v_Label v, u_Name u)) (filter (\<lambda>v. v_ID v = t_VehicleID t) (db_vehicles d)))
       (filter (\<lambda>u. u_ID u = t_UserID t) (db_users d)))"

definition db_GetTripSummary :: "int \<Rightarrow> (TripRow \<times> string \<times> string) stmt" where
  "db_GetTripSummary i d = read_one (concat (map (trip_joined d) (filter (\<lambda>t. t_ID t = i) (db_trips d)))) d"

text \<open>\<open>show_id\<close> is the cast \<open>user_id::text\<close>.\<close>

definition db_ListTripLocations :: "(int \<Rightarrow> string) \<Rightarrow> int \<Rightarrow> gotime \<Rightarrow> LocationPointRow list stmt" where
  "db_ListTripLocations show_id i now d =
     Inr (take 10000 (order_asc lp_ReceivedAt (concat (map (\<lambda>t.
            filter (\<lambda>p. lp_VehicleID p = t_VehicleID t \<and> lp_DriverID p = show_id (t_UserID t)
                      \<and> t_StartTime t \<le> lp_ReceivedAt p
                      \<and> lp_ReceivedAt p \<le> (case t_EndTime t of None \<Rightarrow> now | Some e \<Rightarrow> e)) (db_location_points d))
            (filter (\<lambda>t. t_ID t = i) (db_trips d))))), d)"

definition db_ListActiveTripsByVehicle :: "(TripRow \<times> string) list stmt" where
  "db_ListActiveTripsByVehicle d =
     Inr (distinct_on (\<lambda>(t, n). t_VehicleID t)
            (order_asc (\<lambda>(t, n). t_VehicleID t) (order_desc (\<lambda>(t, n). t_StartTime t) (\<lambda>_. 0 :: int)
              (concat (map (\<lambda>t. map (\<lambda>u. (t, u_Name u)) (filter (\<lambda>u. u_ID u = t_UserID t) (db_users d)))
                (filter (\<lambda>t. t_Status t = ''active'') (db_trips d)))))), d)"

section \<open>Tokens and API keys\<close>

definition db_RevokeToken :: "string \<Rightarrow> int option \<Rightarrow> gotime \<Rightarrow> gotime \<Rightarrow> unit stmt" where
  "db_RevokeToken jti uid expiresAt now d =
     (if jti = [] then Inl (CheckViolation ''revoked_tokens_jti_check'')
      else if list_ex (\<lambda>r. rv_Jti r = jti) (db_revoked_tokens d) then Inr ((), d)
      else if (case uid of None \<Rightarrow> False | Some i \<Rightarrow> \<not> list_ex (\<lambda>u. u_ID u = i) (db_users d))
      then Inl (FKViolation ''revoked_tokens_user_id_fkey'')
      else Inr ((), d\<lparr>db_revoked_tokens := db_revoked_tokens d
             @ [\<lparr>rv_Jti = jti, rv_UserID = uid, rv_ExpiresAt = expiresAt, rv_RevokedAt = now\<rparr>]\<rparr>))"

definition db_IsTokenRevoked :: "string \<Rightarrow> bool stmt" where
  "db_IsTokenRevoked jti d = Inr (list_ex (\<lambda>r. rv_Jti r = jti) (db_revoked_tokens d), d)"

definition db_CreateRefreshToken :: "string \<Rightarrow> int \<Rightarrow> gotime \<Rightarrow> gotime \<Rightarrow> unit stmt" where
  "db_CreateRefreshToken hash uid expiresAt now d =
     (if hash = [] then Inl (CheckViolation ''refresh_tokens_token_hash_check'')
      else if list_ex (\<lambda>r. rt_TokenHash r = hash) (db_refresh_tokens d)
      then Inl (UniqueViolation ''refresh_tokens_token_hash_key'')
      else if \<not> list_ex (\<lambda>u. u_ID u = uid) (db_users d) then Inl (FKViolation ''refresh_tokens_user_id_fkey'')
      else Inr ((), d\<lparr>db_refresh_tokens := db_refresh_tokens d
             @ [\<lparr>rt_ID = db_serial d, rt_TokenHash = hash, rt_UserID = uid, rt_ExpiresAt = expiresAt,
                 rt_UsedAt = None, rt_CreatedAt = now\<rparr>],
             db_serial := db_serial d + 1\<rparr>))"

definition db_GetRefreshTokenByHash :: "string \<Rightarrow> RefreshTokenRow stmt" where
  "db_GetRefreshTokenByHash hash d = read_one (filter (\<lambda>r. rt_TokenHash r = hash) (db_refresh_tokens d)) d"

definition db_MarkRefreshTokenUsed :: "int \<Rightarrow> gotime \<Rightarrow> int stmt" where
  "db_MarkRefreshTokenUsed i now d =
     (let p = (\<lambda>r. rt_ID r = i \<and> rt_UsedAt r = None)
      in Inr (count_rows p (db_refresh_tokens d),
              d\<lparr>db_refresh_tokens := update_rows p (\<lambda>r. r\<lparr>rt_UsedAt := Some now\<rparr>) (db_refresh_tokens d)\<rparr>))"

definition db_DeleteRefreshTokensForUser :: "int \<Rightarrow> unit stmt" where
  "db_DeleteRefreshTokensForUser uid d =
     Inr ((), d\<lparr>db_refresh_tokens := delete_rows (\<lambda>r. rt_UserID r = uid) (db_refresh_tokens d)\<rparr>)"

definition db_DeleteExpiredRefreshTokens :: "gotime \<Rightarrow> int stmt" where
  "db_DeleteExpiredRefreshTokens before d =
     (let p = (\<lambda>r. rt_ExpiresAt r < before)
      in Inr (count_rows p (db_refresh_tokens d), d\<lparr>db_refresh_tokens := delete_rows p (db_refresh_tokens d)\<rparr>))"

definition db_GetAPIKeyByHash :: "string \<Rightarrow> ApiKeyRow stmt" where
  "db_GetAPIKeyByHash hash d = read_one (filter (\<lambda>k. ak_KeyHash k = hash) (db_api_keys d)) d"

definition db_UpdateAPIKeyLastUsed :: "int \<Rightarrow> gotime \<Rightarrow> unit stmt" where
  "db_UpdateAPIKeyLastUsed i now d =
     Inr ((), d\<lparr>db_api_keys := update_rows (\<lambda>k. ak_ID k = i) (\<lambda>k. k\<lparr>ak_LastUsedAt := Some now\<rparr>) (db_api_keys d)\<rparr>)"

definition db_CreateAPIKey :: "string \<Rightarrow> string \<Rightarrow> gotime \<Rightarrow> ApiKeyRow stmt" where
  "db_CreateAPIKey name hash now d =
     (if name = [] then Inl (CheckViolation ''api_keys_name_check'')
      else if hash = [] then Inl (CheckViolation ''api_keys_key_hash_check'')
      else if list_ex (\<lambda>k. ak_KeyHash k = hash) (db_api_keys d) then Inl (UniqueViolation ''api_keys_key_hash_key'')
      else
        (let row = \<lparr>ak_ID = db_serial d, ak_Name = name, ak_KeyHash = hash, ak_Active = True, ak_LastUsedAt = None,
                    ak_CreatedAt = now, ak_UpdatedAt = now\<rparr>
         in Inr (row, d\<lparr>db_api_keys := db_api_keys d @ [row], db_serial := db_serial d + 1\<rparr>)))"

definition db_ListAPIKeys :: "ApiKeyRow list stmt" where
  "db_ListAPIKeys d = Inr (take 1000 (order_desc ak_CreatedAt (\<lambda>_. 0 :: int) (db_api_keys d)), d)"

definition db_DeactivateAPIKey :: "int \<Rightarrow> gotime \<Rightarrow> int stmt" where
  "db_DeactivateAPIKey i now d =
     Inr (count_rows (\<lambda>k. ak_ID k = i) (db_api_keys d),
          d\<lparr>db_api_keys := update_rows (\<lambda>k. ak_ID k = i) (\<lambda>k. k\<lparr>ak_Active := False, ak_UpdatedAt := now\<rparr>) (db_api_keys d)\<rparr>)"

section \<open>Riders and rides\<close>

text \<open>The row, and whether this call inserted it.\<close>

definition db_UpsertRider ::
  "string \<Rightarrow> string \<Rightarrow> string \<Rightarrow> string \<Rightarrow> string \<Rightarrow> gotime \<Rightarrow> (RiderRow \<times> bool) stmt" where
  "db_UpsertRider i installation platform app_id app_version now d =
     (if i = [] then Inl (CheckViolation ''riders_id_check'')
      else if installation = [] then Inl (CheckViolation ''riders_installation_id_check'')
      else if list_ex (\<lambda>r. rr_InstallationID r = installation) (db_riders d)
      then (let d' = d\<lparr>db_riders := update_rows (\<lambda>r. rr_InstallationID r = installation)
                         (\<lambda>r. r\<lparr>rr_LastSeenAt := now, rr_AppVersion := app_version, rr_Platform := platform,
                                rr_AppID := app_id\<rparr>) (db_riders d)\<rparr>
            in case one_row (filter (\<lambda>r. rr_InstallationID r = installation) (db_riders d')) of
                 Inl e \<Rightarrow> Inl e
               | Inr r \<Rightarrow> Inr ((r, False), d'))
      else if list_ex (\<lambda>r. rr_ID r = i) (db_riders d) then Inl (UniqueViolation ''riders_pkey'')
      else
        (let row = \<lparr>rr_ID = i, rr_InstallationID = installation, rr_Platform = platform, rr_AppID = app_id,
                    rr_AppVersion = app_version, rr_Attested = False, rr_Score = 0, rr_Tier = ''new'', rr_RidesTotal = 0,
                    rr_RidesCorroborated = 0, rr_RidesRejected = 0, rr_CreatedAt = now, rr_LastSeenAt = now\<rparr>
         in Inr ((row, True), d\<lparr>db_riders := db_riders d @ [row]\<rparr>)))"

definition db_GetRider :: "string \<Rightarrow> RiderRow stmt" where
  "db_GetRider i d = read_one (filter (\<lambda>r. rr_ID r = i) (db_riders d)) d"

definition db_TouchRider :: "string \<Rightarrow> gotime \<Rightarrow> unit stmt" where
  "db_TouchRider i now d =
     Inr ((), d\<lparr>db_riders := update_rows (\<lambda>r. rr_ID r = i) (\<lambda>r. r\<lparr>rr_LastSeenAt := now\<rparr>) (db_riders d)\<rparr>)"

definition db_ApplyRideOutcome :: "string \<Rightarrow> int \<Rightarrow> int \<Rightarrow> int \<Rightarrow> gotime \<Rightarrow> RiderRow stmt" where
  "db_ApplyRideOutcome i delta corroborated rejected now d =
     (let d' = d\<lparr>db_riders := update_rows (\<lambda>r. rr_ID r = i)
                   (\<lambda>r. r\<lparr>rr_Score := min 10 (max (- 10) (rr_Score r + delta)), rr_RidesTotal := rr_RidesTotal r + 1,
                          rr_RidesCorroborated := rr_RidesCorroborated r + corroborated,
                          rr_RidesRejected := rr_RidesRejected r + rejected, rr_LastSeenAt := now\<rparr>) (db_riders d)\<rparr>
      in read_one (filter (\<lambda>r. rr_ID r = i) (db_riders d')) d')"

definition tier_ok :: "string \<Rightarrow> bool" where
  "tier_ok t \<longleftrightarrow> t = ''new'' \<or> t = ''trusted'' \<or> t = ''blocked''"

definition db_SetRiderTier :: "string \<Rightarrow> string \<Rightarrow> unit stmt" where
  "db_SetRiderTier i tier d =
     (if \<not> tier_ok tier \<and> list_ex (\<lambda>r. rr_ID r = i) (db_riders d) then Inl (CheckViolation ''riders_tier_check'')
      else Inr ((), d\<lparr>db_riders := update_rows (\<lambda>r. rr_ID r = i) (\<lambda>r. r\<lparr>rr_Tier := tier\<rparr>) (db_riders d)\<rparr>))"

text \<open>\<open>GROUP BY tier\<close>: each tier that occurs, with its count.\<close>

definition db_CountRidersByTier :: "(string \<times> int) list stmt" where
  "db_CountRidersByTier d =
     Inr (map (\<lambda>t. (t, count_rows (\<lambda>r. rr_Tier r = t) (db_riders d))) (remdups (map rr_Tier (db_riders d))), d)"

record InsertRideParams =
  ir_ID :: string
  ir_RiderID :: string
  ir_TripID :: string
  ir_StartDate :: string
  ir_RouteID :: string
  ir_VehicleID :: string
  ir_BoardingStopID :: string
  ir_DestinationStopID :: string

definition db_InsertRide :: "InsertRideParams \<Rightarrow> gotime \<Rightarrow> RideRow stmt" where
  "db_InsertRide p now d =
     (if ir_ID p = [] then Inl (CheckViolation ''rides_id_check'')
      else if list_ex (\<lambda>r. rd_ID r = ir_ID p) (db_rides d) then Inl (UniqueViolation ''rides_pkey'')
      else if list_ex (\<lambda>r. rd_RiderID r = ir_RiderID p \<and> rd_Status r = ''active'') (db_rides d)
      then Inl (UniqueViolation ''idx_rides_one_active_per_rider'')
      else if \<not> list_ex (\<lambda>r. rr_ID r = ir_RiderID p) (db_riders d) then Inl (FKViolation ''rides_rider_id_fkey'')
      else
        (let row = \<lparr>rd_ID = ir_ID p, rd_RiderID = ir_RiderID p, rd_TripID = ir_TripID p, rd_StartDate = ir_StartDate p,
                    rd_RouteID = ir_RouteID p, rd_VehicleID = ir_VehicleID p, rd_BoardingStopID = ir_BoardingStopID p,
                    rd_DestinationStopID = ir_DestinationStopID p, rd_Status = ''active'', rd_State = ''pending'',
                    rd_Corroborated = False, rd_EndReason = [], rd_PointsTotal = 0, rd_PointsMatched = 0,
                    rd_PointsCorroborated = 0, rd_PointsContradicted = 0, rd_StartedAt = now, rd_EndedAt = None,
                    rd_UpdatedAt = now\<rparr>
         in Inr (row, d\<lparr>db_rides := db_rides d @ [row]\<rparr>)))"

definition db_GetRide :: "string \<Rightarrow> RideRow stmt" where
  "db_GetRide i d = read_one (filter (\<lambda>r. rd_ID r = i) (db_rides d)) d"

definition ride_state_ok :: "string \<Rightarrow> bool" where
  "ride_state_ok s \<longleftrightarrow> s = ''pending'' \<or> s = ''verified'' \<or> s = ''rejected''"

definition active_ride :: "string \<Rightarrow> RideRow \<Rightarrow> bool" where
  "active_ride i r \<longleftrightarrow> rd_ID r = i \<and> rd_Status r = ''active''"

record RideProgressParams =
  pg_State :: string
  pg_Corroborated :: bool
  pg_PointsTotal :: int
  pg_PointsMatched :: int
  pg_PointsCorroborated :: int
  pg_PointsContradicted :: int

definition set_progress :: "RideProgressParams \<Rightarrow> gotime \<Rightarrow> RideRow \<Rightarrow> RideRow" where
  "set_progress p now r =
     r\<lparr>rd_State := pg_State p, rd_Corroborated := pg_Corroborated p, rd_PointsTotal := pg_PointsTotal p,
       rd_PointsMatched := pg_PointsMatched p, rd_PointsCorroborated := pg_PointsCorroborated p,
       rd_PointsContradicted := pg_PointsContradicted p, rd_UpdatedAt := now\<rparr>"

definition db_UpdateRideProgress :: "string \<Rightarrow> RideProgressParams \<Rightarrow> gotime \<Rightarrow> int stmt" where
  "db_UpdateRideProgress i p now d =
     (if \<not> ride_state_ok (pg_State p) \<and> list_ex (active_ride i) (db_rides d) then Inl (CheckViolation ''rides_state_check'')
      else Inr (count_rows (active_ride i) (db_rides d),
                d\<lparr>db_rides := update_rows (active_ride i) (set_progress p now) (db_rides d)\<rparr>))"

text \<open>Returns the rider of the ride it ended.\<close>

definition db_EndRide :: "string \<Rightarrow> string \<Rightarrow> RideProgressParams \<Rightarrow> gotime \<Rightarrow> string stmt" where
  "db_EndRide i reason p now d =
     (if \<not> ride_state_ok (pg_State p) \<and> list_ex (active_ride i) (db_rides d) then Inl (CheckViolation ''rides_state_check'')
      else
        (case one_row (filter (active_ride i) (db_rides d)) of
           Inl e \<Rightarrow> Inl e
         | Inr r \<Rightarrow>
             Inr (rd_RiderID r,
                  d\<lparr>db_rides := update_rows (active_ride i)
                      (\<lambda>r. (set_progress p now r)\<lparr>rd_Status := ''ended'', rd_EndedAt := Some now, rd_EndReason := reason\<rparr>)
                      (db_rides d)\<rparr>)))"

definition db_EndAllActiveRides :: "string \<Rightarrow> gotime \<Rightarrow> int stmt" where
  "db_EndAllActiveRides reason now d =
     Inr (count_rows (\<lambda>r. rd_Status r = ''active'') (db_rides d),
          d\<lparr>db_rides := update_rows (\<lambda>r. rd_Status r = ''active'')
              (\<lambda>r. r\<lparr>rd_Status := ''ended'', rd_EndedAt := Some now, rd_EndReason := reason, rd_UpdatedAt := now\<rparr>)
              (db_rides d)\<rparr>)"

definition db_ListRides :: "string \<Rightarrow> nat \<Rightarrow> nat \<Rightarrow> RideRow list stmt" where
  "db_ListRides status n offset d =
     Inr (take n (drop offset (order_desc rd_StartedAt rd_ID (filter (\<lambda>r. rd_Status r = status) (db_rides d)))), d)"

record InsertRidePointParams =
  ip_RideID :: string
  ip_Latitude :: f64
  ip_Longitude :: f64
  ip_Accuracy :: "f64 option"
  ip_Speed :: "f64 option"
  ip_Bearing :: "f64 option"
  ip_Timestamp :: int
  ip_Outcome :: string
  ip_Corroboration :: string
  ip_AlongShape :: "f64 option"
  ip_DistanceToShape :: "f64 option"
  ip_ScheduleDeviationSeconds :: "int option"

text \<open>One statement of the batch: nothing is inserted into a ride that is not active.\<close>

definition db_InsertRidePoint :: "InsertRidePointParams \<Rightarrow> gotime \<Rightarrow> unit stmt" where
  "db_InsertRidePoint p now d =
     (if \<not> list_ex (active_ride (ip_RideID p)) (db_rides d) then Inr ((), d)
      else if ip_Timestamp p \<le> 0 then Inl (CheckViolation ''ride_points_timestamp_check'')
      else Inr ((), d\<lparr>db_ride_points := db_ride_points d
             @ [\<lparr>rp_ID = db_serial d, rp_RideID = ip_RideID p, rp_Latitude = ip_Latitude p, rp_Longitude = ip_Longitude p,
                 rp_Accuracy = ip_Accuracy p, rp_Speed = ip_Speed p, rp_Bearing = ip_Bearing p,
                 rp_Timestamp = ip_Timestamp p, rp_Outcome = ip_Outcome p, rp_Corroboration = ip_Corroboration p,
                 rp_AlongShape = ip_AlongShape p, rp_DistanceToShape = ip_DistanceToShape p,
                 rp_ScheduleDeviationSeconds = ip_ScheduleDeviationSeconds p, rp_ReceivedAt = now\<rparr>],
             db_serial := db_serial d + 1\<rparr>))"

text \<open>The batch: every statement in turn; after the first error the transaction answers only errors.\<close>

fun db_InsertRidePoints :: "InsertRidePointParams list \<Rightarrow> gotime \<Rightarrow> unit stmt" where
  "db_InsertRidePoints [] now d = Inr ((), d)"
| "db_InsertRidePoints (p # ps) now d =
     (case db_InsertRidePoint p now d of Inl e \<Rightarrow> Inl e | Inr (_, d') \<Rightarrow> db_InsertRidePoints ps now d')"

definition db_CountRidePointsForRide :: "string \<Rightarrow> int stmt" where
  "db_CountRidePointsForRide i d = Inr (count_rows (\<lambda>p. rp_RideID p = i) (db_ride_points d), d)"

definition db_DeleteRidePointsBefore :: "gotime \<Rightarrow> int stmt" where
  "db_DeleteRidePointsBefore before d =
     (let p = (\<lambda>p. rp_ReceivedAt p < before)
      in Inr (count_rows p (db_ride_points d), d\<lparr>db_ride_points := delete_rows p (db_ride_points d)\<rparr>))"

section \<open>The GTFS cache\<close>

definition db_GetGTFSFeedCache :: "FeedCacheRow stmt" where
  "db_GetGTFSFeedCache d = read_one (db_feed_cache d) d"

definition db_GetGTFSFeedCacheDigest :: "(string \<times> string) stmt" where
  "db_GetGTFSFeedCacheDigest d = read_one (map (\<lambda>c. (fc_Source c, fc_Sha256 c)) (db_feed_cache d)) d"

definition db_UpsertGTFSFeedCache :: "string \<Rightarrow> string \<Rightarrow> string \<Rightarrow> gotime \<Rightarrow> unit stmt" where
  "db_UpsertGTFSFeedCache source body sha256 now d =
     Inr ((), d\<lparr>db_feed_cache := [\<lparr>fc_Source = source, fc_Body = body, fc_Sha256 = sha256, fc_FetchedAt = now\<rparr>]\<rparr>)"

section \<open>Round trips to the database\<close>

text \<open>
  Each round trip either works (\<open>Committed\<close>), fails before the server acted (\<open>Failed\<close>), or is acted on
  with the answer lost (\<open>Lost\<close>). \<open>net\<close> is the list of what the coming round trips will do; when it runs
  out they all work. A call is a function of the network and the database.
\<close>

type_synonym net = "commit list"
type_synonym 'a call = "net \<times> Database \<Rightarrow> 'a \<times> net \<times> Database"

definition next_trip :: "net \<Rightarrow> commit \<times> net" where
  "next_trip net = (case net of [] \<Rightarrow> (Committed, []) | c # cs \<Rightarrow> (c, cs))"

text \<open>A statement on its own, which commits by itself.\<close>

definition exec :: "'a stmt \<Rightarrow> (DbError + 'a) call" where
  "exec q st =
     (case st of (net, d) \<Rightarrow>
       (case next_trip net of
          (Committed, net') \<Rightarrow> (case q d of Inl e \<Rightarrow> (Inl e, net', d) | Inr (x, d') \<Rightarrow> (Inr x, net', d'))
        | (Failed, net') \<Rightarrow> (Inl Unreachable, net', d)
        | (Lost, net') \<Rightarrow> (Inl Unreachable, net', (case q d of Inl e \<Rightarrow> d | Inr (x, d') \<Rightarrow> d'))))"

text \<open>
  A transaction: begin, the body, commit. \<open>fail\<close> turns a failed begin or commit into the caller's
  error. A body that answers an error returns before the commit, and its deferred rollback undoes it.
\<close>

definition begin_tx :: "(DbError + unit) call" where
  "begin_tx = exec (\<lambda>d. Inr ((), d))"

definition in_tx :: "(DbError \<Rightarrow> 'e) \<Rightarrow> ('e + 'a) call \<Rightarrow> ('e + 'a) call" where
  "in_tx fail body st =
     (case begin_tx st of
        (Inl e, st') \<Rightarrow> (Inl (fail e), st')
      | (Inr _, net, d) \<Rightarrow>
          (case body (net, d) of
             (Inl e, net', d') \<Rightarrow> (Inl e, net', d)
           | (Inr x, net', d') \<Rightarrow>
               (case next_trip net' of
                  (Committed, net'') \<Rightarrow> (Inr x, net'', d')
                | (Failed, net'') \<Rightarrow> (Inl (fail Unreachable), net'', d)
                | (Lost, net'') \<Rightarrow> (Inl (fail Unreachable), net'', d'))))"

text \<open>Sequencing: go on with the answer, or return the error \<open>fail\<close> makes of it.\<close>

definition and_then :: "(DbError + 'a) call \<Rightarrow> (DbError \<Rightarrow> 'e) \<Rightarrow> ('a \<Rightarrow> ('e + 'b) call) \<Rightarrow> ('e + 'b) call" where
  "and_then m fail k st = (case m st of (Inl e, st') \<Rightarrow> (Inl (fail e), st') | (Inr x, st') \<Rightarrow> k x st')"

definition answer :: "'a \<Rightarrow> 'a call" where
  "answer x st = (x, st)"

end
