(* ===== verification/Integrity.thy ===== *)
theory Integrity
  imports Database
begin

text \<open>
  What the schema guarantees whatever statements run: keys are unique, references exist, a driver has at
  most one active trip and a rider at most one active ride, scores stay in their range. \<open>keeps\<close> says a
  statement, and \<open>call_keeps\<close> that a call, preserves a property of the database; the rules in
  \<open>keeps_intros\<close> build the second from the first along the shape of a store method.
\<close>

named_theorems keeps_intros

definition keeps :: "(Database \<Rightarrow> bool) \<Rightarrow> 'a stmt \<Rightarrow> bool" where
  "keeps P q \<longleftrightarrow> (\<forall>d x d'. P d \<longrightarrow> q d = Inr (x, d') \<longrightarrow> P d')"

definition call_keeps :: "(Database \<Rightarrow> bool) \<Rightarrow> 'a call \<Rightarrow> bool" where
  "call_keeps P m \<longleftrightarrow> (\<forall>net d. P d \<longrightarrow> P (snd (snd (m (net, d)))))"

lemma call_keepsD: "call_keeps P m \<Longrightarrow> m (net, d) = (r, net', d') \<Longrightarrow> P d \<Longrightarrow> P d'"
  unfolding call_keeps_def by (metis snd_conv)

lemma keepsI: "(\<And>d x d'. P d \<Longrightarrow> q d = Inr (x, d') \<Longrightarrow> P d') \<Longrightarrow> keeps P q"
  by (simp add: keeps_def)

lemma call_keeps_exec [keeps_intros]: "keeps P q \<Longrightarrow> call_keeps P (exec q)"
  by (auto simp: keeps_def call_keeps_def exec_def next_trip_def split: list.splits commit.splits sum.splits)

lemma call_keeps_and_then [keeps_intros]:
  assumes "call_keeps P m" "\<And>x. call_keeps P (k x)"
  shows "call_keeps P (and_then m fail k)"
proof -
  have "P (snd (snd (and_then m fail k (net, d))))" if "P d" for net d
  proof (cases "m (net, d)")
    case (fields r net' d')
    have "P d'"
      using assms(1) that fields unfolding call_keeps_def by (metis snd_conv)
    then show ?thesis
      using assms(2) fields by (cases r) (auto simp: and_then_def call_keeps_def)
  qed
  then show ?thesis
    by (simp add: call_keeps_def)
qed

lemma call_keeps_answer [keeps_intros]: "call_keeps P (answer x)"
  by (simp add: call_keeps_def answer_def)

lemma call_keeps_if [keeps_intros]:
  "(c \<Longrightarrow> call_keeps P m) \<Longrightarrow> (\<not> c \<Longrightarrow> call_keeps P m') \<Longrightarrow> call_keeps P (if c then m else m')"
  by simp

lemma call_keeps_in_tx [keeps_intros]:
  assumes "call_keeps P body"
  shows "call_keeps P (in_tx fail body)"
proof -
  have "P (snd (snd (in_tx fail body (net, d))))" if d: "P d" for net d
  proof -
    obtain c net1 where "next_trip net = (c, net1)"
      by (cases "next_trip net")
    moreover obtain r net2 d2 where body: "body (net1, d) = (r, net2, d2)"
      by (metis prod_cases3)
    moreover have "P d2"
      using assms d body unfolding call_keeps_def by (metis snd_conv)
    ultimately show ?thesis
      using d by (auto simp: in_tx_def begin_tx_def exec_def split: commit.splits sum.splits prod.splits)
  qed
  then show ?thesis
    by (simp add: call_keeps_def)
qed

section \<open>Keys and references\<close>

text \<open>\<open>unique f rows\<close>: no two rows share \<open>f\<close>. \<open>refers f rows g rows'\<close>: every \<open>f\<close> is the \<open>g\<close> of a row of the other table.\<close>

named_theorems rows

definition unique :: "('r \<Rightarrow> 'k) \<Rightarrow> 'r list \<Rightarrow> bool" where
  "unique f rows \<longleftrightarrow> distinct (map f rows)"

definition refers :: "('r \<Rightarrow> 'k) \<Rightarrow> 'r list \<Rightarrow> ('s \<Rightarrow> 'k) \<Rightarrow> 's list \<Rightarrow> bool" where
  "refers f rows g rows' \<longleftrightarrow> f ` set rows \<subseteq> g ` set rows'"

lemma list_ex_key [rows]: "list_ex (\<lambda>r. f r = x) rows \<longleftrightarrow> x \<in> f ` set rows"
  by (auto simp: list_ex_iff)

lemma unique_Nil [rows]: "unique f []"
  by (simp add: unique_def)

lemma unique_snoc [rows]: "unique f (rows @ [r]) \<longleftrightarrow> unique f rows \<and> f r \<notin> f ` set rows"
  by (auto simp: unique_def)

lemma set_update_rows: "set (update_rows p g rows) = (\<lambda>r. if p r then g r else r) ` set rows"
  by (simp add: update_rows_def)

lemma ball_update_rows [rows]:
  "(\<forall>r \<in> set (update_rows p g rows). q r) \<longleftrightarrow> (\<forall>r \<in> set rows. if p r then q (g r) else q r)"
  by (auto simp: update_rows_def)

lemma map_update_rows: "(\<And>r. f (g r) = f r) \<Longrightarrow> map f (update_rows p g rows) = map f rows"
  by (simp add: update_rows_def)

lemma image_update_rows [rows]: "(\<And>r. f (g r) = f r) \<Longrightarrow> f ` set (update_rows p g rows) = f ` set rows"
  using arg_cong [OF map_update_rows [of f g p rows], of set] by simp

lemma unique_update [rows]: "(\<And>r. f (g r) = f r) \<Longrightarrow> unique f (update_rows p g rows) = unique f rows"
  by (simp add: unique_def map_update_rows)

lemma unique_delete [rows]: "unique f rows \<Longrightarrow> unique f (delete_rows p rows)"
  by (simp add: unique_def delete_rows_def distinct_map_filter)

lemma unique_filter [rows]: "unique f rows \<Longrightarrow> unique f (filter p rows)"
  by (simp add: unique_def distinct_map_filter)

lemma refers_Nil [rows]: "refers f [] g rows'"
  by (simp add: refers_def)

lemma refers_snoc [rows]: "refers f (rows @ [r]) g rows' \<longleftrightarrow> refers f rows g rows' \<and> f r \<in> g ` set rows'"
  by (auto simp: refers_def)

lemma refers_more [rows]: "refers f rows g rows' \<Longrightarrow> refers f rows g (rows' @ xs)"
  by (auto simp: refers_def)

lemma refers_update [rows]: "(\<And>r. f (h r) = f r) \<Longrightarrow> refers f (update_rows p h rows) g rows' = refers f rows g rows'"
  by (simp add: refers_def image_update_rows)

lemma refers_update_right [rows]:
  "(\<And>r. g (h r) = g r) \<Longrightarrow> refers f rows g (update_rows p h rows') = refers f rows g rows'"
  by (simp add: refers_def image_update_rows)

lemma refers_delete [rows]: "refers f rows g rows' \<Longrightarrow> refers f (delete_rows p rows) g rows'"
  by (auto simp: refers_def delete_rows_def)

lemma refers_filter [rows]: "refers f rows g rows' \<Longrightarrow> refers f (filter p rows) g rows'"
  by (auto simp: refers_def)

text \<open>Rows that leave the active ones do not disturb their keys.\<close>

lemma unique_active_update:
  assumes "\<And>r. f (g r) = f r" "\<And>r. q (g r) \<Longrightarrow> q r"
  shows "unique f (filter q rows) \<Longrightarrow> unique f (filter q (update_rows p g rows))"
proof (induction rows)
  case (Cons r rows)
  have "f ` set (filter q (update_rows p g rows)) \<subseteq> f ` set (filter q rows)"
    using assms by (force simp: update_rows_def)
  then show ?case
    using Cons assms by (auto simp: update_rows_def unique_def split: if_splits)
qed (simp add: update_rows_def unique_def)

section \<open>Integrity of each table\<close>

definition users_ok :: "int \<Rightarrow> UserRow list \<Rightarrow> bool" where
  "users_ok n us \<longleftrightarrow> unique u_ID us \<and> unique u_Email us \<and> (\<forall>u \<in> set us. u_ID u < n \<and> user_role_ok (u_Role u))"

definition trips_ok :: "int \<Rightarrow> TripRow list \<Rightarrow> bool" where
  "trips_ok n ts \<longleftrightarrow> unique t_ID ts \<and> (\<forall>t \<in> set ts. t_ID t < n)
     \<and> unique t_UserID (filter (\<lambda>t. t_Status t = ''active'') ts)"

definition refresh_ok :: "int \<Rightarrow> RefreshTokenRow list \<Rightarrow> bool" where
  "refresh_ok n rs \<longleftrightarrow> unique rt_ID rs \<and> unique rt_TokenHash rs \<and> (\<forall>r \<in> set rs. rt_ID r < n)"

definition api_keys_ok :: "int \<Rightarrow> ApiKeyRow list \<Rightarrow> bool" where
  "api_keys_ok n ks \<longleftrightarrow> unique ak_ID ks \<and> unique ak_KeyHash ks \<and> (\<forall>k \<in> set ks. ak_ID k < n)"

definition riders_ok :: "RiderRow list \<Rightarrow> bool" where
  "riders_ok rs \<longleftrightarrow> unique rr_ID rs \<and> unique rr_InstallationID rs
     \<and> (\<forall>r \<in> set rs. tier_ok (rr_Tier r) \<and> - 10 \<le> rr_Score r \<and> rr_Score r \<le> 10)"

definition rides_ok :: "RideRow list \<Rightarrow> bool" where
  "rides_ok rs \<longleftrightarrow> unique rd_ID rs \<and> unique rd_RiderID (filter (\<lambda>r. rd_Status r = ''active'') rs)
     \<and> (\<forall>r \<in> set rs. rd_Status r = (if rd_EndedAt r = None then ''active'' else ''ended''))"

definition locations_ok :: "int \<Rightarrow> LocationPointRow list \<Rightarrow> bool" where
  "locations_ok n ps \<longleftrightarrow> unique lp_ID ps \<and> (\<forall>p \<in> set ps. lp_ID p < n \<and> 0 < lp_Timestamp p
     \<and> between (Num (- 90)) (Num 90) (lp_Latitude p) \<and> between (Num (- 180)) (Num 180) (lp_Longitude p))"

lemmas table_defs = users_ok_def trips_ok_def refresh_ok_def riders_ok_def rides_ok_def api_keys_ok_def locations_ok_def

definition tables_ok :: "Database \<Rightarrow> bool" where
  "tables_ok d \<longleftrightarrow>
     users_ok (db_serial d) (db_users d) \<and> unique v_ID (db_vehicles d)
     \<and> unique (\<lambda>uv. (uv_UserID uv, uv_VehicleID uv)) (db_user_vehicles d)
     \<and> trips_ok (db_serial d) (db_trips d) \<and> refresh_ok (db_serial d) (db_refresh_tokens d)
     \<and> unique rv_Jti (db_revoked_tokens d) \<and> riders_ok (db_riders d) \<and> rides_ok (db_rides d)
     \<and> api_keys_ok (db_serial d) (db_api_keys d) \<and> locations_ok (db_serial d) (db_location_points d)
     \<and> length (db_feed_cache d) \<le> 1"

definition refs_ok :: "Database \<Rightarrow> bool" where
  "refs_ok d \<longleftrightarrow>
     refers t_UserID (db_trips d) u_ID (db_users d) \<and> refers t_VehicleID (db_trips d) v_ID (db_vehicles d)
     \<and> refers uv_UserID (db_user_vehicles d) u_ID (db_users d)
     \<and> refers uv_VehicleID (db_user_vehicles d) v_ID (db_vehicles d)
     \<and> refers rt_UserID (db_refresh_tokens d) u_ID (db_users d)
     \<and> refers rd_RiderID (db_rides d) rr_ID (db_riders d)
     \<and> refers rp_RideID (db_ride_points d) rd_ID (db_rides d)
     \<and> refers lp_VehicleID (db_location_points d) v_ID (db_vehicles d)"

definition db_ok :: "Database \<Rightarrow> bool" where
  "db_ok d \<longleftrightarrow> tables_ok d \<and> refs_ok d"

lemmas ok_defs = db_ok_def tables_ok_def refs_ok_def

lemma empty_db_ok: "db_ok empty_db"
  by (simp add: ok_defs empty_db_def table_defs rows)

text \<open>Serial numbers only grow, which keeps every table's rows below the next one.\<close>

lemma serial_mono [rows]:
  "users_ok n us \<Longrightarrow> users_ok (n + 1) us"
  "trips_ok n ts \<Longrightarrow> trips_ok (n + 1) ts"
  "refresh_ok n rs \<Longrightarrow> refresh_ok (n + 1) rs"
  "api_keys_ok n ks \<Longrightarrow> api_keys_ok (n + 1) ks"
  "locations_ok n ps \<Longrightarrow> locations_ok (n + 1) ps"
  by (fastforce simp: table_defs)+

lemma fresh_key: "\<forall>r \<in> set rows. f r < n \<Longrightarrow> n \<notin> f ` set rows" for n :: int
  by auto

section \<open>Every statement keeps the integrity\<close>

lemma read_oneE: "read_one rows d = Inr (x, d') \<Longrightarrow> d' = d"
  by (auto simp: read_one_def one_row_def split: list.splits)

lemma read_one_keeps [keeps_intros]: "keeps P (\<lambda>d. read_one (rows d) d)"
  by (auto intro: keepsI dest: read_oneE)

lemma query_keeps [keeps_intros]: "keeps P (\<lambda>d. Inr (f d, d))"
  by (auto intro: keepsI)

text \<open>Statements are unfolded to the table they write; the rest of the record is untouched.\<close>

lemma keeps_vehicles [keeps_intros]:
  "keeps db_ok (db_UpsertVehicle i now)"
  "keeps db_ok (db_CreateVehicle i label tag now)"
  "keeps db_ok (db_UpdateVehicleInfo i label tag now)"
  "keeps db_ok (db_SetVehicleActive i active now)"
  by (rule keepsI; simp add: db_UpsertVehicle_def db_CreateVehicle_def
      db_UpdateVehicleInfo_def db_SetVehicleActive_def ok_defs rows split: if_splits; (elim conjE)?; clarsimp simp: rows)+

lemma keeps_admin_vehicle [keeps_intros]: "keeps db_ok (db_UpsertAdminVehicle i label tag now)"
  by (rule keepsI) (auto simp: db_UpsertAdminVehicle_def Let_def ok_defs rows list_ex_iff dest!: read_oneE split: if_splits)

lemma users_ok_snoc:
  "users_ok n us \<Longrightarrow> u_ID r = n \<Longrightarrow> u_Email r \<notin> u_Email ` set us \<Longrightarrow> user_role_ok (u_Role r)
     \<Longrightarrow> users_ok (n + 1) (us @ [r])"
  by (fastforce simp: users_ok_def rows)

lemma users_ok_update [rows]:
  "(\<And>u. u_ID (g u) = u_ID u \<and> u_Email (g u) = u_Email u \<and> u_Role (g u) = u_Role u) \<Longrightarrow> users_ok n us
     \<Longrightarrow> users_ok n (update_rows p g us)"
  by (auto simp: users_ok_def rows)

lemma users_ok_delete [rows]: "users_ok n us \<Longrightarrow> users_ok n (delete_rows p us)"
  by (auto simp: users_ok_def rows) (simp add: delete_rows_def)+

text \<open>Giving one row a new key that no other row has.\<close>

lemma update_rows_Cons:
  "update_rows p g (r # rows) = (if p r then g r else r) # update_rows p g rows"
  by (simp add: update_rows_def)

lemma unique_rekey:
  assumes ident: "unique k rows" and keep: "\<And>r. k (g r) = k r" and new: "\<And>r. f (g r) = x"
    and free: "\<forall>r \<in> set rows. f r = x \<longrightarrow> k r = i"
  shows "unique f rows \<Longrightarrow> unique f (update_rows (\<lambda>r. k r = i) g rows)"
  using ident free
proof (induction rows)
  case (Cons r rows)
  have same: "update_rows (\<lambda>r. k r = i) g rows = rows" if "k r = i"
    using Cons.prems(2) that unfolding update_rows_def unique_def by (intro map_idI) (metis distinct.simps(2) image_eqI list.map(2) list.set_map)
  show ?case
  proof (cases "k r = i")
    case True
    then have "x \<notin> f ` set rows"
      using Cons.prems(2,3) by (auto simp: unique_def image_iff)
    then show ?thesis
      using Cons.prems(1) same True new by (simp add: unique_def update_rows_def)
  next
    case False
    then have "f r \<noteq> x" and "f r \<notin> f ` set rows"
      using Cons.prems by (auto simp: unique_def)
    then have "f r \<notin> f ` set (update_rows (\<lambda>r. k r = i) g rows)"
      using new by (auto simp: update_rows_def split: if_splits)
    moreover have "unique f (update_rows (\<lambda>r. k r = i) g rows)"
      using Cons by (simp add: unique_def)
    ultimately show ?thesis
      using False update_rows_Cons [of "\<lambda>r. k r = i" g r rows] by (simp add: unique_def)
  qed
qed (simp add: update_rows_def)

lemma users_ok_rekey:
  assumes "users_ok n us" "user_role_ok role" "\<forall>u \<in> set us. u_Email u = email \<longrightarrow> u_ID u = i"
  shows "users_ok n (update_rows (\<lambda>u. u_ID u = i)
      (\<lambda>u. u\<lparr>u_Name := name, u_Email := email, u_Role := role, u_UpdatedAt := now\<rparr>) us)"
proof -
  let ?g = "\<lambda>u. u\<lparr>u_Name := name, u_Email := email, u_Role := role, u_UpdatedAt := now\<rparr>"
  have "unique u_Email (update_rows (\<lambda>u. u_ID u = i) ?g us)"
    using assms by (intro unique_rekey [where x = email]) (simp_all add: users_ok_def)
  then show ?thesis
    using assms(1,2) by (auto simp: users_ok_def rows)
qed

lemma refers_less: "refers f xs g ys \<Longrightarrow> refers f (delete_rows (\<lambda>r. f r = x) xs) g (delete_rows (\<lambda>r. g r = x) ys)"
  by (simp add: refers_def delete_rows_def image_subset_iff image_iff) metis

lemma refers_unused: "refers f xs g ys \<Longrightarrow> x \<notin> f ` set xs \<Longrightarrow> refers f xs g (delete_rows (\<lambda>r. g r = x) ys)"
  by (simp add: refers_def delete_rows_def image_subset_iff image_iff) metis

lemma refresh_ok_delete [rows]: "refresh_ok n rs \<Longrightarrow> refresh_ok n (delete_rows p rs)"
  by (auto simp: refresh_ok_def rows) (simp add: delete_rows_def)

lemma absent_trip: "refers f xs g ys \<Longrightarrow> x \<notin> g ` set ys \<Longrightarrow> x \<notin> f ` set xs"
  by (auto simp: refers_def)

lemma keeps_users [keeps_intros]:
  "keeps db_ok (db_CreateUser name email hash role now)"
  "keeps db_ok (db_UpdateUser name email role i now)"
  "keeps db_ok (db_SetUserActive i active now)"
  "keeps db_ok (db_UpdateUserPassword i hash now)"
proof -
  show "keeps db_ok (db_CreateUser name email hash role now)"
    by (rule keepsI) (clarsimp simp: db_CreateUser_def Let_def ok_defs rows users_ok_snoc split: if_splits)
  show "keeps db_ok (db_UpdateUser name email role i now)"
  proof (rule keepsI)
    fix d d' :: Database and x
    let ?us = "update_rows (\<lambda>u. u_ID u = i)
        (\<lambda>u. u\<lparr>u_Name := name, u_Email := email, u_Role := role, u_UpdatedAt := now\<rparr>) (db_users d)"
    assume ok: "db_ok d" and run: "db_UpdateUser name email role i now d = Inr (x, d')"
    then have "d' = d\<lparr>db_users := ?us\<rparr>" "user_role_ok role"
      "\<forall>u \<in> set (db_users d). u_Email u = email \<longrightarrow> u_ID u = i"
      by (auto simp: db_UpdateUser_def Let_def list_ex_iff dest!: read_oneE split: if_splits)
    then show "db_ok d'"
      using ok by (simp add: ok_defs rows users_ok_rekey)
  qed
  show "keeps db_ok (db_SetUserActive i active now)" "keeps db_ok (db_UpdateUserPassword i hash now)"
    by (rule keepsI; clarsimp simp: db_SetUserActive_def db_UpdateUserPassword_def ok_defs rows split: if_splits)+
qed

lemma keeps_delete_user [keeps_intros]: "keeps db_ok (db_DeleteUser i)"
proof (rule keepsI)
  fix d d' :: Database and x
  assume ok: "db_ok d" and run: "db_DeleteUser i d = Inr (x, d')"
  have trips: "i \<notin> t_UserID ` set (db_trips d)"
    using ok run absent_trip [of t_UserID "db_trips d" u_ID "db_users d" i]
    by (auto simp: db_DeleteUser_def rows ok_defs split: if_splits)
  show "db_ok d'"
    using ok run trips
    by (clarsimp simp: db_DeleteUser_def ok_defs rows refers_less refers_unused split: if_splits)
qed

lemma keeps_trips [keeps_intros]:
  "keeps db_ok (db_StartTrip uid vid route gtfs now)"
  "keeps db_ok (db_EndTrip i uid now)"
  "keeps db_ok (db_AssignUserVehicle uid vid now)"
  "keeps db_ok (db_UnassignUserVehicle uid vid)"
proof -
  have "trips_ok (n + 1) (ts @ [r])"
    if "trips_ok n ts" "t_ID r = n" "\<not> list_ex (\<lambda>t. t_UserID t = t_UserID r \<and> t_Status t = ''active'') ts" for n ts r
    using that by (fastforce simp: trips_ok_def rows list_ex_iff)
  then show "keeps db_ok (db_StartTrip uid vid route gtfs now)"
    by (intro keepsI) (clarsimp simp: db_StartTrip_def Let_def ok_defs rows split: if_splits)
  have "trips_ok n (update_rows p (\<lambda>t. t\<lparr>t_Status := ''completed'', t_EndTime := Some now, t_UpdatedAt := now\<rparr>) ts)"
    if "trips_ok n ts" for n ts p
    using that by (auto simp: trips_ok_def rows intro!: unique_active_update)
  then show "keeps db_ok (db_EndTrip i uid now)"
    by (intro keepsI) (clarsimp simp: db_EndTrip_def Let_def ok_defs rows)
  show "keeps db_ok (db_AssignUserVehicle uid vid now)"
    by (rule keepsI) (auto simp: db_AssignUserVehicle_def Let_def ok_defs rows list_ex_iff split: if_splits)
  show "keeps db_ok (db_UnassignUserVehicle uid vid)"
    by (rule keepsI) (clarsimp simp: db_UnassignUserVehicle_def Let_def ok_defs rows)
qed

lemma keeps_tokens [keeps_intros]:
  "keeps db_ok (db_RevokeToken jti u expiresAt now)"
  "keeps db_ok (db_CreateRefreshToken hash uid expiresAt now)"
  "keeps db_ok (db_MarkRefreshTokenUsed i now)"
  "keeps db_ok (db_DeleteRefreshTokensForUser uid)"
  "keeps db_ok (db_DeleteExpiredRefreshTokens before)"
proof -
  show "keeps db_ok (db_RevokeToken jti u expiresAt now)"
    by (rule keepsI) (auto simp: db_RevokeToken_def ok_defs rows split: if_splits)
  have "refresh_ok (n + 1) (rs @ [r])"
    if "refresh_ok n rs" "rt_ID r = n" "rt_TokenHash r \<notin> rt_TokenHash ` set rs" for n rs r
    using that by (fastforce simp: refresh_ok_def rows)
  then show "keeps db_ok (db_CreateRefreshToken hash uid expiresAt now)"
    by (intro keepsI) (clarsimp simp: db_CreateRefreshToken_def ok_defs rows split: if_splits)
  have "refresh_ok n (update_rows p (\<lambda>r. r\<lparr>rt_UsedAt := Some now\<rparr>) rs)" if "refresh_ok n rs" for n rs p
    using that by (simp add: refresh_ok_def rows)
  then show "keeps db_ok (db_MarkRefreshTokenUsed i now)"
    by (intro keepsI) (clarsimp simp: db_MarkRefreshTokenUsed_def Let_def ok_defs rows)
  show "keeps db_ok (db_DeleteRefreshTokensForUser uid)" "keeps db_ok (db_DeleteExpiredRefreshTokens before)"
    by (rule keepsI; clarsimp simp: db_DeleteRefreshTokensForUser_def db_DeleteExpiredRefreshTokens_def Let_def ok_defs rows)+
qed

lemma keeps_api_keys [keeps_intros]:
  "keeps db_ok (db_UpdateAPIKeyLastUsed i now)"
  "keeps db_ok (db_CreateAPIKey name hash now)"
  "keeps db_ok (db_DeactivateAPIKey i now)"
proof -
  have "api_keys_ok n (update_rows p g ks)"
    if "api_keys_ok n ks" "\<And>k. ak_ID (g k) = ak_ID k \<and> ak_KeyHash (g k) = ak_KeyHash k" for n ks p g
    using that by (simp add: api_keys_ok_def rows)
  then show "keeps db_ok (db_UpdateAPIKeyLastUsed i now)" "keeps db_ok (db_DeactivateAPIKey i now)"
    by (intro keepsI; clarsimp simp: db_UpdateAPIKeyLastUsed_def db_DeactivateAPIKey_def ok_defs)+
  have "api_keys_ok (n + 1) (ks @ [k])"
    if "api_keys_ok n ks" "ak_ID k = n" "ak_KeyHash k \<notin> ak_KeyHash ` set ks" for n ks k
    using that by (fastforce simp: api_keys_ok_def rows)
  then show "keeps db_ok (db_CreateAPIKey name hash now)"
    by (intro keepsI) (clarsimp simp: db_CreateAPIKey_def Let_def ok_defs rows split: if_splits)
qed

lemma keeps_riders [keeps_intros]:
  "keeps db_ok (db_UpsertRider i installation platform app_id app_version now)"
  "keeps db_ok (db_TouchRider i now)"
  "keeps db_ok (db_ApplyRideOutcome i delta corroborated rejected now)"
  "keeps db_ok (db_SetRiderTier i tier)"
proof -
  have upd: "riders_ok (update_rows p g rs)"
    if "riders_ok rs" "\<And>r. rr_ID (g r) = rr_ID r \<and> rr_InstallationID (g r) = rr_InstallationID r"
      "\<And>r. p r \<Longrightarrow> tier_ok (rr_Tier r) \<Longrightarrow> - 10 \<le> rr_Score r \<Longrightarrow> rr_Score r \<le> 10 \<Longrightarrow>
         tier_ok (rr_Tier (g r)) \<and> - 10 \<le> rr_Score (g r) \<and> rr_Score (g r) \<le> 10" for rs p g
    using that by (simp add: riders_ok_def rows)
  have snoc: "riders_ok (rs @ [r])"
    if "riders_ok rs" "rr_ID r \<notin> rr_ID ` set rs" "rr_InstallationID r \<notin> rr_InstallationID ` set rs"
      "tier_ok (rr_Tier r)" "rr_Score r = 0" for rs r
    using that by (auto simp: riders_ok_def rows)
  show "keeps db_ok (db_UpsertRider i installation platform app_id app_version now)"
    by (rule keepsI) (auto simp: db_UpsertRider_def Let_def ok_defs rows tier_ok_def intro!: upd snoc
        split: if_splits sum.splits)
  show "keeps db_ok (db_TouchRider i now)"
    by (rule keepsI) (auto simp: db_TouchRider_def ok_defs rows intro!: upd)
  show "keeps db_ok (db_ApplyRideOutcome i delta corroborated rejected now)"
    by (rule keepsI) (auto simp: db_ApplyRideOutcome_def Let_def ok_defs rows intro!: upd dest!: read_oneE)
  have noone: "update_rows (\<lambda>r. rr_ID r = i) g rs = rs" if "i \<notin> rr_ID ` set rs" for g rs
    using that by (auto simp: update_rows_def intro!: map_idI)
  show "keeps db_ok (db_SetRiderTier i tier)"
    by (rule keepsI) (auto simp: db_SetRiderTier_def ok_defs rows noone intro!: upd split: if_splits)
qed

lemma keeps_rides [keeps_intros]:
  "keeps db_ok (db_InsertRide p now)"
  "keeps db_ok (db_UpdateRideProgress i g now)"
  "keeps db_ok (db_EndRide i reason g now)"
  "keeps db_ok (db_EndAllActiveRides reason now)"
proof -
  have upd: "rides_ok (update_rows q f rs)"
    if "rides_ok rs" "\<And>r. rd_ID (f r) = rd_ID r \<and> rd_RiderID (f r) = rd_RiderID r"
      "\<And>r. rd_Status (f r) = ''active'' \<Longrightarrow> rd_Status r = ''active''"
      "\<And>r. q r \<Longrightarrow> rd_Status r = (if rd_EndedAt r = None then ''active'' else ''ended'')
          \<Longrightarrow> rd_Status (f r) = (if rd_EndedAt (f r) = None then ''active'' else ''ended'')" for rs q f
    using that by (auto simp: rides_ok_def rows intro!: unique_active_update)
  have snoc: "rides_ok (rs @ [r])"
    if "rides_ok rs" "rd_ID r \<notin> rd_ID ` set rs" "rd_Status r = ''active''" "rd_EndedAt r = None"
      "\<not> list_ex (\<lambda>x. rd_RiderID x = rd_RiderID r \<and> rd_Status x = ''active'') rs" for rs r
    using that by (auto simp: rides_ok_def rows list_ex_iff)
  show "keeps db_ok (db_InsertRide p now)"
    by (rule keepsI) (auto simp: db_InsertRide_def Let_def ok_defs rows intro!: snoc split: if_splits)
  show "keeps db_ok (db_UpdateRideProgress i g now)"
    by (rule keepsI) (auto simp: db_UpdateRideProgress_def set_progress_def ok_defs rows intro!: upd split: if_splits)
  show "keeps db_ok (db_EndRide i reason g now)"
    by (rule keepsI) (auto simp: db_EndRide_def set_progress_def ok_defs rows intro!: upd split: if_splits sum.splits)
  show "keeps db_ok (db_EndAllActiveRides reason now)"
    by (rule keepsI) (auto simp: db_EndAllActiveRides_def ok_defs rows intro!: upd)
qed

lemma keeps_insert_point: "keeps db_ok (db_InsertRidePoint p now)"
proof (rule keepsI)
  fix d d' :: Database and x
  assume ok: "db_ok d" and run: "db_InsertRidePoint p now d = Inr (x, d')"
  show "db_ok d'"
  proof (cases "list_ex (active_ride (ip_RideID p)) (db_rides d)")
    case True
    then have "ip_RideID p \<in> rd_ID ` set (db_rides d)"
      by (force simp: list_ex_iff active_ride_def image_iff)
    then show ?thesis
      using ok run True by (auto simp: db_InsertRidePoint_def ok_defs rows split: if_splits)
  qed (use ok run in \<open>simp add: db_InsertRidePoint_def\<close>)
qed

lemma keeps_insert_points [keeps_intros]: "keeps db_ok (db_InsertRidePoints ps now)"
proof (rule keepsI)
  fix d d' :: Database and x
  assume "db_ok d" "db_InsertRidePoints ps now d = Inr (x, d')"
  then show "db_ok d'"
  proof (induction ps arbitrary: d)
    case (Cons p ps)
    then show ?case
      using keeps_insert_point [of p now] by (auto simp: keeps_def split: sum.splits)
  qed simp
qed

lemma keeps_points [keeps_intros]:
  "keeps db_ok (db_DeleteRidePointsBefore before)"
  "keeps db_ok (db_InsertLocationPoint q now)"
  "keeps db_ok (db_DeleteLocationPointsBefore before batch)"
proof -
  show "keeps db_ok (db_DeleteRidePointsBefore before)"
    by (rule keepsI) (auto simp: db_DeleteRidePointsBefore_def Let_def ok_defs rows)
  have "locations_ok (n + 1) (ps @ [p])"
    if "locations_ok n ps" "lp_ID p = n" "0 < lp_Timestamp p" "between (Num (- 90)) (Num 90) (lp_Latitude p)"
      "between (Num (- 180)) (Num 180) (lp_Longitude p)" for n ps p
    using that by (fastforce simp: locations_ok_def rows)
  then show "keeps db_ok (db_InsertLocationPoint q now)"
    by (intro keepsI) (clarsimp simp: db_InsertLocationPoint_def ok_defs rows split: if_splits)
  have "locations_ok n (filter f ps)" if "locations_ok n ps" for n ps f
    using that by (auto simp: locations_ok_def rows)
  then show "keeps db_ok (db_DeleteLocationPointsBefore before batch)"
    by (intro keepsI) (clarsimp simp: db_DeleteLocationPointsBefore_def Let_def ok_defs rows)
qed

lemma keeps_cache [keeps_intros]: "keeps db_ok (db_UpsertGTFSFeedCache source body sha256 now)"
  by (rule keepsI) (auto simp: db_UpsertGTFSFeedCache_def ok_defs)

section \<open>Every database the server can reach\<close>

text \<open>A step is one statement that succeeded; a statement that fails changes nothing.\<close>

inductive db_step :: "Database \<Rightarrow> Database \<Rightarrow> bool" where
  UpsertVehicle_step: "db_UpsertVehicle i now d = Inr (x, d') \<Longrightarrow> db_step d d'"
| CreateVehicle_step: "db_CreateVehicle i label tag now d = Inr (x, d') \<Longrightarrow> db_step d d'"
| UpsertAdminVehicle_step: "db_UpsertAdminVehicle i label tag now d = Inr (x, d') \<Longrightarrow> db_step d d'"
| UpdateVehicleInfo_step: "db_UpdateVehicleInfo i label tag now d = Inr (x, d') \<Longrightarrow> db_step d d'"
| SetVehicleActive_step: "db_SetVehicleActive i active now d = Inr (x, d') \<Longrightarrow> db_step d d'"
| CreateUser_step: "db_CreateUser name email hash role now d = Inr (x, d') \<Longrightarrow> db_step d d'"
| UpdateUser_step: "db_UpdateUser name email role i now d = Inr (x, d') \<Longrightarrow> db_step d d'"
| SetUserActive_step: "db_SetUserActive i active now d = Inr (x, d') \<Longrightarrow> db_step d d'"
| UpdateUserPassword_step: "db_UpdateUserPassword i hash now d = Inr (x, d') \<Longrightarrow> db_step d d'"
| DeleteUser_step: "db_DeleteUser i d = Inr (x, d') \<Longrightarrow> db_step d d'"
| StartTrip_step: "db_StartTrip uid vid route gtfs now d = Inr (x, d') \<Longrightarrow> db_step d d'"
| EndTrip_step: "db_EndTrip i uid now d = Inr (x, d') \<Longrightarrow> db_step d d'"
| AssignUserVehicle_step: "db_AssignUserVehicle uid vid now d = Inr (x, d') \<Longrightarrow> db_step d d'"
| UnassignUserVehicle_step: "db_UnassignUserVehicle uid vid d = Inr (x, d') \<Longrightarrow> db_step d d'"
| RevokeToken_step: "db_RevokeToken jti u expiresAt now d = Inr (x, d') \<Longrightarrow> db_step d d'"
| CreateRefreshToken_step: "db_CreateRefreshToken hash uid expiresAt now d = Inr (x, d') \<Longrightarrow> db_step d d'"
| MarkRefreshTokenUsed_step: "db_MarkRefreshTokenUsed i now d = Inr (x, d') \<Longrightarrow> db_step d d'"
| DeleteRefreshTokensForUser_step: "db_DeleteRefreshTokensForUser uid d = Inr (x, d') \<Longrightarrow> db_step d d'"
| DeleteExpiredRefreshTokens_step: "db_DeleteExpiredRefreshTokens before d = Inr (x, d') \<Longrightarrow> db_step d d'"
| UpdateAPIKeyLastUsed_step: "db_UpdateAPIKeyLastUsed i now d = Inr (x, d') \<Longrightarrow> db_step d d'"
| CreateAPIKey_step: "db_CreateAPIKey name hash now d = Inr (x, d') \<Longrightarrow> db_step d d'"
| DeactivateAPIKey_step: "db_DeactivateAPIKey i now d = Inr (x, d') \<Longrightarrow> db_step d d'"
| UpsertRider_step: "db_UpsertRider i installation platform app_id app_version now d = Inr (x, d') \<Longrightarrow> db_step d d'"
| TouchRider_step: "db_TouchRider i now d = Inr (x, d') \<Longrightarrow> db_step d d'"
| ApplyRideOutcome_step: "db_ApplyRideOutcome i delta corroborated rejected now d = Inr (x, d') \<Longrightarrow> db_step d d'"
| SetRiderTier_step: "db_SetRiderTier i tier d = Inr (x, d') \<Longrightarrow> db_step d d'"
| InsertRide_step: "db_InsertRide p now d = Inr (x, d') \<Longrightarrow> db_step d d'"
| UpdateRideProgress_step: "db_UpdateRideProgress i g now d = Inr (x, d') \<Longrightarrow> db_step d d'"
| EndRide_step: "db_EndRide i reason g now d = Inr (x, d') \<Longrightarrow> db_step d d'"
| EndAllActiveRides_step: "db_EndAllActiveRides reason now d = Inr (x, d') \<Longrightarrow> db_step d d'"
| InsertRidePoints_step: "db_InsertRidePoints ps now d = Inr (x, d') \<Longrightarrow> db_step d d'"
| DeleteRidePointsBefore_step: "db_DeleteRidePointsBefore before d = Inr (x, d') \<Longrightarrow> db_step d d'"
| InsertLocationPoint_step: "db_InsertLocationPoint q now d = Inr (x, d') \<Longrightarrow> db_step d d'"
| DeleteLocationPointsBefore_step: "db_DeleteLocationPointsBefore before batch d = Inr (x, d') \<Longrightarrow> db_step d d'"
| UpsertGTFSFeedCache_step: "db_UpsertGTFSFeedCache source body sha256 now d = Inr (x, d') \<Longrightarrow> db_step d d'"

inductive db_reachable :: "Database \<Rightarrow> bool" where
  reach_empty: "db_reachable empty_db"
| reach_step: "db_reachable d \<Longrightarrow> db_step d d' \<Longrightarrow> db_reachable d'"

lemma keepsD: "keeps P s \<Longrightarrow> s d = Inr (x, d') \<Longrightarrow> P d \<Longrightarrow> P d'"
  by (auto simp: keeps_def)

lemma step_keeps_ok: "db_step d d' \<Longrightarrow> db_ok d \<Longrightarrow> db_ok d'"
  by (induction rule: db_step.induct) (erule (1) keepsD [rotated], rule keeps_intros)+

lemma reachable_ok: "db_reachable d \<Longrightarrow> db_ok d"
  by (induction rule: db_reachable.induct) (auto intro: empty_db_ok step_keeps_ok)

lemma unique_eq: "unique f rows \<Longrightarrow> r \<in> set rows \<Longrightarrow> r' \<in> set rows \<Longrightarrow> f r = f r' \<Longrightarrow> r = r'"
  by (auto simp: unique_def distinct_map dest: inj_onD)

lemma unique_filterD:
  "unique f (filter q rows) \<Longrightarrow> r \<in> set rows \<Longrightarrow> r' \<in> set rows \<Longrightarrow> q r \<and> q r' \<and> f r = f r' \<Longrightarrow> r = r'"
  by (rule unique_eq [of f "filter q rows"]) auto

lemma refersD: "refers f rows g rows' \<Longrightarrow> r \<in> set rows \<Longrightarrow> \<exists>r' \<in> set rows'. g r' = f r"
  by (auto simp: refers_def image_subset_iff image_iff) metis

text \<open>
  C12: in every database reachable from the empty one by the statements of the
  server, in any order and with any arguments, two active rides never belong to
  one rider and two active trips never to one driver, a ride is active exactly
  when it has not ended, every ride, point, trip and refresh token refers to a
  row that exists, no two users share an e-mail address, no two refresh tokens
  a hash, and every reputation score lies within its bounds.
\<close>

theorem reachable_databases_consistent:
  assumes "db_reachable d"
  shows "(\<forall>r \<in> set (db_rides d). \<forall>r' \<in> set (db_rides d). rd_Status r = ''active'' \<and> rd_Status r' = ''active''
            \<and> rd_RiderID r = rd_RiderID r' \<longrightarrow> r = r')
    \<and> (\<forall>t \<in> set (db_trips d). \<forall>t' \<in> set (db_trips d). t_Status t = ''active'' \<and> t_Status t' = ''active''
            \<and> t_UserID t = t_UserID t' \<longrightarrow> t = t')
    \<and> (\<forall>r \<in> set (db_rides d). (rd_Status r = ''active'') = (rd_EndedAt r = None)
            \<and> (\<exists>rider \<in> set (db_riders d). rr_ID rider = rd_RiderID r))
    \<and> (\<forall>p \<in> set (db_ride_points d). \<exists>r \<in> set (db_rides d). rd_ID r = rp_RideID p)
    \<and> (\<forall>t \<in> set (db_trips d). (\<exists>u \<in> set (db_users d). u_ID u = t_UserID t)
            \<and> (\<exists>v \<in> set (db_vehicles d). v_ID v = t_VehicleID t))
    \<and> (\<forall>k \<in> set (db_refresh_tokens d). \<exists>u \<in> set (db_users d). u_ID u = rt_UserID k)
    \<and> distinct (map u_Email (db_users d)) \<and> distinct (map rt_TokenHash (db_refresh_tokens d))
    \<and> (\<forall>r \<in> set (db_riders d). - 10 \<le> rr_Score r \<and> rr_Score r \<le> 10)"
proof -
  have ok: "db_ok d" by (rule reachable_ok) fact
  then have "rides_ok (db_rides d)" "trips_ok (db_serial d) (db_trips d)"
    "users_ok (db_serial d) (db_users d)" "refresh_ok (db_serial d) (db_refresh_tokens d)" "riders_ok (db_riders d)"
    and refs: "refs_ok d"
    by (simp_all add: db_ok_def tables_ok_def)
  moreover from this have "unique rd_RiderID (filter (\<lambda>r. rd_Status r = ''active'') (db_rides d))"
    and "unique t_UserID (filter (\<lambda>t. t_Status t = ''active'') (db_trips d))"
    by (simp_all add: rides_ok_def trips_ok_def)
  note active = unique_filterD [OF this(1)] unique_filterD [OF this(2)]
  moreover have "\<forall>r \<in> set (db_rides d). (rd_Status r = ''active'') = (rd_EndedAt r = None)"
    using \<open>rides_ok (db_rides d)\<close> by (simp add: rides_ok_def)
  moreover have "distinct (map u_Email (db_users d))" "distinct (map rt_TokenHash (db_refresh_tokens d))"
    "\<forall>r \<in> set (db_riders d). - 10 \<le> rr_Score r \<and> rr_Score r \<le> 10"
    using calculation by (simp_all add: users_ok_def refresh_ok_def riders_ok_def unique_def)
  ultimately show ?thesis
    using refs by (intro conjI ballI impI) (auto simp: refs_ok_def intro: active dest: refersD)
qed

theorem reachable_databases_consistent_witness:
  "\<exists>d x y d1. db_UpsertRider ''r1'' ''phone'' ''ios'' ''app'' ''1'' 7 empty_db = Inr (x, d1)
      \<and> db_InsertRide \<lparr>ir_ID = ''a'', ir_RiderID = ''r1'', ir_TripID = ''t'', ir_StartDate = ''20250101'', ir_RouteID = ''5'',
           ir_VehicleID = [], ir_BoardingStopID = [], ir_DestinationStopID = []\<rparr> 8 d1 = Inr (y, d)
      \<and> db_reachable d \<and> length (db_rides d) = 1
      \<and> (\<exists>r \<in> set (db_rides d). rd_Status r = ''active'' \<and> (\<exists>rider \<in> set (db_riders d). rr_ID rider = rd_RiderID r))"
proof -
  let ?p = "\<lparr>ir_ID = ''a'', ir_RiderID = ''r1'', ir_TripID = ''t'', ir_StartDate = ''20250101'', ir_RouteID = ''5'',
           ir_VehicleID = [], ir_BoardingStopID = [], ir_DestinationStopID = []\<rparr>"
  obtain x d1 where upsert: "db_UpsertRider ''r1'' ''phone'' ''ios'' ''app'' ''1'' 7 empty_db = Inr (x, d1)"
    and d1: "db_rides d1 = []" "map rr_ID (db_riders d1) = [''r1'']"
    by (auto simp: db_UpsertRider_def empty_db_def Let_def)
  obtain y d where insert: "db_InsertRide ?p 8 d1 = Inr (y, d)"
    and d: "length (db_rides d) = 1" "map rd_Status (db_rides d) = [''active'']"
    using d1 by (auto simp: db_InsertRide_def Let_def)
  have reach: "db_reachable d"
    using upsert insert by (meson reach_empty reach_step UpsertRider_step InsertRide_step)
  show ?thesis
    using upsert insert reach d reachable_databases_consistent [OF reach]
    by (intro exI conjI) (assumption | auto simp: length_Suc_conv)+
qed

end
