(* ===== verification/Web.thy ===== *)
theory Web
  imports Calendar Integrity
begin

text \<open>
  What the HTTP handlers share: the claims of a token, the outcome of decoding a JSON body, decimal
  numbers (\<open>strconv\<close>, \<open>fmt\<close>), the address of the caller (\<open>src/proxy.go\<close>), the paging parameters
  (\<open>src/handlers.go\<close>, \<open>src/location_history_handlers.go\<close>) and the sentinel errors of the store. A handler
  is a \<open>call\<close> that ends in an \<open>answer\<close>; the bodies of requests are given as the result of decoding
  them, so the size limit and the JSON decoder are part of the request.
\<close>

named_theorems handler_simps "unfolding of the steps of a handler"

section \<open>Requests\<close>

datatype json = JStr string | JNum f64 | JBool bool | JNull | JList "json list" | JObj "(string \<times> json) list"

type_synonym MapClaims = "string \<rightharpoonup> json"

text \<open>\<open>s, _ := claims[k].(string)\<close>.\<close>

definition str_claim :: "MapClaims \<Rightarrow> string \<Rightarrow> string" where
  "str_claim claims k = (case claims k of Some (JStr s) \<Rightarrow> s | _ \<Rightarrow> [])"

text \<open>
  What \<open>Decode(&req)\<close> made of a body and, where that worked, what a second \<open>Decode\<close> found behind it.
\<close>

datatype rest = NoMore | Extra | Garbage string

datatype 'a body = BodyTooLarge | BadJSON string | Decoded 'a rest

definition trailing_message :: string where
  "trailing_message = ''invalid JSON: request body must contain a single JSON object and no trailing data''"

text \<open>A body that must be one JSON value and nothing else; \<open>large\<close> answers a body over the limit.\<close>

definition strict_body :: "'b answer \<Rightarrow> 'a body \<Rightarrow> 'b answer + 'a" where
  "strict_body large b =
     (case b of
        BodyTooLarge \<Rightarrow> Inl large
      | BadJSON msg \<Rightarrow> Inl (HErr 400 (''invalid JSON: '' @ msg))
      | Decoded x NoMore \<Rightarrow> Inr x
      | Decoded x Extra \<Rightarrow> Inl (HErr 400 trailing_message)
      | Decoded x (Garbage msg) \<Rightarrow> Inl (HErr 400 (''invalid JSON: '' @ msg)))"

definition ascii_lower :: "char \<Rightarrow> char" where
  "ascii_lower c = (let n = (of_char c :: nat) in if 65 \<le> n \<and> n \<le> 90 then char_of (n + 32) else c)"

text \<open>The media type \<open>mime.ParseMediaType\<close> read from the Content-Type, if it could: always ASCII.\<close>

definition is_json :: "string option \<Rightarrow> bool" where
  "is_json media = (case media of None \<Rightarrow> False | Some m \<Rightarrow> List.map ascii_lower m = ''application/json'')"

definition content_type_message :: string where
  "content_type_message = ''Content-Type must be application/json''"

section \<open>Decimal numbers\<close>

text \<open>\<open>fmt.Sprintf("%d", n)\<close> and \<open>strconv.ParseInt(s, 10, 64)\<close>.\<close>

definition fmt_d :: "int \<Rightarrow> string" where
  "fmt_d n = (if n < 0 then CHR ''-'' # decimal (nat (- n)) else decimal (nat n))"

definition parse_int64 :: "string \<Rightarrow> int option" where
  "parse_int64 s =
     (let ds = (if s \<noteq> [] \<and> (hd s = CHR ''+'' \<or> hd s = CHR ''-'') then tl s else s)
      in if ds = [] then None
         else case read_digits 0 ds of
                None \<Rightarrow> None
              | Some v \<Rightarrow>
                  (if hd s = CHR ''-'' then if v \<le> 2 ^ 63 then Some (- v) else None
                   else if v < 2 ^ 63 then Some v else None))"

lemma char_of_digit: "n < 10 \<Longrightarrow> is_digit (char_of (48 + n))" "n < 10 \<Longrightarrow> digit_val (char_of (48 + n)) = n" for n :: nat
  by (simp_all add: is_digit_def digit_val_def)

lemma decimal_read: "read_digits 0 (decimal n) = Some (int n)"
proof (induction n rule: decimal.induct)
  case (1 n)
  show ?case
  proof (cases "n < 10")
    case True
    then show ?thesis
      using char_of_digit [of n] by (subst decimal.simps) simp
  next
    case False
    have "int (n div 10) * 10 + int (n mod 10) = int n"
      by (metis div_mult_mod_eq of_nat_add of_nat_mult of_nat_numeral)
    then show ?thesis
      using False 1 char_of_digit [of "n mod 10"] by (subst decimal.simps) (simp add: read_digits_snoc)
  qed
qed

lemma decimal_nonempty: "decimal n \<noteq> []"
  by (subst decimal.simps) simp

lemma decimal_digits: "c \<in> set (decimal n) \<Longrightarrow> is_digit c"
proof (induction n rule: decimal.induct)
  case (1 n)
  then show ?case
    using char_of_digit(1) [of n] char_of_digit(1) [of "n mod 10"]
    by (subst (asm) (2) decimal.simps) (auto split: if_splits)
qed

lemma decimal_hd: "hd (decimal n) \<noteq> CHR ''-''" "hd (decimal n) \<noteq> CHR ''+''"
  using decimal_digits [of "hd (decimal n)" n] decimal_nonempty [of n] by (auto simp: is_digit_def)

lemma parse_fmt: "min_int64 \<le> n \<Longrightarrow> n \<le> max_int64 \<Longrightarrow> parse_int64 (fmt_d n) = Some n"
  using decimal_read [of "nat n"] decimal_read [of "nat (- n)"] decimal_hd [of "nat n"]
    decimal_nonempty [of "nat n"] decimal_nonempty [of "nat (- n)"]
  by (auto simp: parse_int64_def fmt_d_def int64_defs)

definition parseOptionalInt :: "string \<Rightarrow> int \<Rightarrow> int option" where  \<comment> \<open>\<open>None\<close> is the error; \<open>int\<close> has 64 bits\<close>
  "parseOptionalInt s defaultVal = (if s = [] then Some defaultVal else parse_int64 s)"

definition parseOptionalInt64 :: "string \<Rightarrow> int \<Rightarrow> int option" where
  "parseOptionalInt64 s defaultVal = (if s = [] then Some defaultVal else parse_int64 s)"

section \<open>Paging\<close>

definition defaultListLimit :: int where "defaultListLimit = 50"
definition maxListLimit :: int where "maxListLimit = 200"
definition maxListOffset :: int where "maxListOffset = 2 ^ 31 - 1"
definition maxFieldLength :: nat where "maxFieldLength = 255"

definition parseListPageParams :: "string \<Rightarrow> string \<Rightarrow> 'a answer + int \<times> int" where
  "parseListPageParams limit offset =
     (case parseOptionalInt limit defaultListLimit of
        None \<Rightarrow> Inl (HErr 400 ''limit must be between 1 and 200'')
      | Some l \<Rightarrow>
          (if l < 1 \<or> l > maxListLimit then Inl (HErr 400 ''limit must be between 1 and 200'')
           else case parseOptionalInt offset 0 of
                  None \<Rightarrow> Inl (HErr 400 ''offset must be between 0 and 2147483647'')
                | Some f \<Rightarrow>
                    (if f < 0 \<or> f > maxListOffset then Inl (HErr 400 ''offset must be between 0 and 2147483647'')
                     else Inr (l, f))))"

definition parseLimit :: "string \<Rightarrow> int \<Rightarrow> int \<Rightarrow> string + int" where
  "parseLimit limit defaultLimit maxLimit =
     (case parseOptionalInt limit defaultLimit of
        None \<Rightarrow> Inl (''limit must be between 1 and '' @ fmt_d maxLimit)
      | Some l \<Rightarrow> if l < 1 \<or> l > maxLimit then Inl (''limit must be between 1 and '' @ fmt_d maxLimit) else Inr l)"

definition parsePage :: "string \<Rightarrow> string \<Rightarrow> int \<Rightarrow> int \<Rightarrow> string + int \<times> int" where
  "parsePage limit offset defaultLimit maxLimit =
     (case parseLimit limit defaultLimit maxLimit of
        Inl e \<Rightarrow> Inl e
      | Inr l \<Rightarrow>
          (case parseOptionalInt offset 0 of
             None \<Rightarrow> Inl ''offset must be a non-negative integer''
           | Some f \<Rightarrow> if f < 0 \<or> f > maxListOffset then Inl ''offset must be a non-negative integer'' else Inr (l, f)))"

definition validateListQuery :: "string \<Rightarrow> string option" where  \<comment> \<open>the error, if any\<close>
  "validateListQuery q = (if length q > maxFieldLength then Some ''q must be at most 255 characters'' else None)"

section \<open>Identifiers\<close>

definition maxVehicleIDLength :: nat where "maxVehicleIDLength = 50"

text \<open>\<open>^[a-zA-Z0-9._-]+$\<close> and \<open>^[0-9]{8}$\<close>.\<close>

definition vehicleIDPattern :: "string \<Rightarrow> bool" where
  "vehicleIDPattern s \<longleftrightarrow>
     s \<noteq> [] \<and> list_all (\<lambda>c. is_digit c \<or> (let n = (of_char c :: nat) in 65 \<le> n \<and> n \<le> 90 \<or> 97 \<le> n \<and> n \<le> 122)
                        \<or> c \<in> set ''._-'') s"

definition serviceDatePattern :: "string \<Rightarrow> bool" where
  "serviceDatePattern s \<longleftrightarrow> length s = 8 \<and> list_all is_digit s"

definition validateVehicleID :: "string \<Rightarrow> string option" where  \<comment> \<open>the error, if any\<close>
  "validateVehicleID i =
     (if i = [] then Some ''vehicle id is required''
      else if length i > maxVehicleIDLength then Some ''vehicle id must be at most 50 characters''
      else if \<not> vehicleIDPattern i
      then Some ''vehicle id must contain only alphanumeric characters, dots, hyphens, and underscores''
      else None)"

section \<open>The caller's address\<close>

text \<open>\<open>strings.Split(s, sep)\<close> for a one-byte separator.\<close>

fun split_on :: "char \<Rightarrow> string \<Rightarrow> string list" where
  "split_on sep [] = [[]]"
| "split_on sep (c # cs) =
     (if c = sep then [] # split_on sep cs
      else case split_on sep cs of [] \<Rightarrow> [[c]] | p # ps \<Rightarrow> (c # p) # ps)"

text \<open>\<open>bytealg.LastIndexByteString\<close> and \<open>IndexByteString\<close>.\<close>

fun index_of :: "char \<Rightarrow> string \<Rightarrow> nat option" where
  "index_of c [] = None"
| "index_of c (x # xs) = (if x = c then Some 0 else map_option Suc (index_of c xs))"

definition last_index_of :: "char \<Rightarrow> string \<Rightarrow> nat option" where
  "last_index_of c s = map_option (\<lambda>i. length s - 1 - i) (index_of c (rev s))"

text \<open>The host half of \<open>net.SplitHostPort\<close>; \<open>None\<close> is its error.\<close>

definition split_host :: "string \<Rightarrow> string option" where
  "split_host hostport =
     (case last_index_of (CHR '':'') hostport of
        None \<Rightarrow> None
      | Some i \<Rightarrow>
          (if hd hostport = CHR ''['' then
             (case index_of (CHR '']'') hostport of
                None \<Rightarrow> None
              | Some e \<Rightarrow>
                  (if e + 1 \<noteq> i then None
                   else if CHR ''['' \<in> set (drop 1 hostport) \<or> CHR '']'' \<in> set (drop (e + 1) hostport) then None
                   else Some (drop 1 (take e hostport))))
           else if CHR '':'' \<in> set (take i hostport) then None
           else if CHR ''['' \<in> set hostport \<or> CHR '']'' \<in> set hostport then None
           else Some (take i hostport)))"

record http_request =
  hr_ForwardedFor :: string
  hr_ForwardedProto :: string
  hr_RemoteAddr :: string
  hr_TLS :: bool
  hr_Authorization :: string
  hr_SessionCookie :: "string option"
  hr_APIKey :: string
  hr_MediaType :: "string option"

definition clientIP :: "http_request \<Rightarrow> bool \<Rightarrow> string" where
  "clientIP r trustProxy =
     (let direct = (case split_host (hr_RemoteAddr r) of None \<Rightarrow> hr_RemoteAddr r | Some host \<Rightarrow> host);
          ip = trim_space (last (split_on (CHR '','') (hr_ForwardedFor r)))
      in if trustProxy \<and> hr_ForwardedFor r \<noteq> [] \<and> ip \<noteq> [] then ip else direct)"

definition requestIsSecure :: "http_request \<Rightarrow> bool \<Rightarrow> bool" where
  "requestIsSecure r trustProxy \<longleftrightarrow> hr_TLS r \<or> (trustProxy \<and> hr_ForwardedProto r = ''https'')"

lemma split_on_nonempty [simp]: "split_on sep s \<noteq> []"
  by (cases s) (auto split: list.splits)

lemma split_on_last_hop: "sep \<notin> set hop \<Longrightarrow> last (split_on sep (front @ sep # hop)) = hop"
proof (induction front)
  case Nil
  have "split_on sep hop = [hop]"
    using Nil by (induction hop) auto
  then show ?case by simp
next
  case (Cons c cs)
  obtain p ps where "split_on sep (cs @ sep # hop) = p # ps"
    using split_on_nonempty neq_Nil_conv by meson
  moreover have "ps \<noteq> []"
  proof -
    have "1 < length (split_on sep (xs @ sep # ys))" for xs ys
      by (induction xs) (auto split: list.splits)
    then show ?thesis
      using calculation by (metis length_Cons length_greater_0_conv less_numeral_extra(4) list.size(3) One_nat_def)
  qed
  ultimately show ?case
    using Cons by auto
qed

section \<open>The errors of the store\<close>

datatype StoreError =
    ErrUserNotFound
  | ErrDuplicateEmail
  | ErrRefreshTokenNotFound
  | ErrAPIKeyNotFound
  | ErrNotAssigned
  | ErrActiveTripExists
  | ErrTripNotFound
  | ErrRiderNotFound
  | ErrRideNotFound
  | ErrActiveRideExists
  | ErrAssignmentExists
  | ErrAssignmentNotFound
  | ErrUserNotFoundFK
  | ErrVehicleNotFoundFK
  | ErrNoCachedGTFSFeed
  | Wrapped DbError       \<comment> \<open>\<open>fmt.Errorf("...: %w", err)\<close>\<close>
  | Internal string       \<comment> \<open>an error of another kind, with its message\<close>

text \<open>\<open>errors.Is(err, pgx.ErrNoRows)\<close> turned into a sentinel error, anything else wrapped.\<close>

definition no_rows_as :: "StoreError \<Rightarrow> DbError \<Rightarrow> StoreError" where
  "no_rows_as e err = (if err = NoRows then e else Wrapped err)"

text \<open>A handler's use of a call: go on with whatever it returned.\<close>

definition serve :: "'a call \<Rightarrow> ('a \<Rightarrow> 'b call) \<Rightarrow> 'b call" where
  "serve m k st = (case m st of (r, st') \<Rightarrow> k r st')"

lemma serve_cases:
  assumes "serve m k st = (r, st')"
  obtains x st1 where "m st = (x, st1)" "k x st1 = (r, st')"
  using assms by (auto simp: serve_def split: prod.splits)

lemma call_keeps_serve [keeps_intros]:
  assumes "call_keeps P m" "\<And>r. call_keeps P (k r)"
  shows "call_keeps P (serve m k)"
proof -
  have "P (snd (snd (serve m k (net, d))))" if "P d" for net d
  proof (cases "m (net, d)")
    case (fields r net' d')
    then show ?thesis
      using assms that unfolding call_keeps_def serve_def by (metis case_prod_conv snd_conv)
  qed
  then show ?thesis
    by (simp add: call_keeps_def)
qed

lemma call_keeps_sum [keeps_intros]:
  "(\<And>e. r = Inl e \<Longrightarrow> call_keeps P (f e)) \<Longrightarrow> (\<And>x. r = Inr x \<Longrightarrow> call_keeps P (g x))
     \<Longrightarrow> call_keeps P (case r of Inl e \<Rightarrow> f e | Inr x \<Rightarrow> g x)"
  by (cases r) simp_all

lemma call_keeps_option [keeps_intros]:
  "(r = None \<Longrightarrow> call_keeps P m) \<Longrightarrow> (\<And>x. r = Some x \<Longrightarrow> call_keeps P (g x))
     \<Longrightarrow> call_keeps P (case r of None \<Rightarrow> m | Some x \<Rightarrow> g x)"
  by (cases r) simp_all

end
