(* ===== verification/Tokens.thy ===== *)
theory Tokens
  imports Web
begin

text \<open>
  The credentials the server stores: refresh tokens (\<open>src/store_refresh_tokens.go\<close>), the list of
  revoked access tokens (\<open>src/store_revocation.go\<close>) and the users they belong to
  (\<open>src/user_store.go\<close>, \<open>src/store_users.go\<close>). A store method is a \<open>call\<close>: a list of round trips that
  may each fail, and the database. bcrypt is a parameter: what it made of the password, if anything.
\<close>

section \<open>What a call did to the database\<close>

text \<open>
  A body of a transaction that returns before the commit ends in \<open>Inl\<close>, with the answer it returned;
  the deferred rollback undoes it. \<open>returning\<close> makes that answer the method's own.
\<close>

definition returning :: "(('e + 'a) + 'a) call \<Rightarrow> ('e + 'a) call" where
  "returning m st = (case m st of (Inl r, st') \<Rightarrow> (r, st') | (Inr x, st') \<Rightarrow> (Inr x, st'))"

lemma call_keeps_returning [keeps_intros]: "call_keeps P m \<Longrightarrow> call_keeps P (returning m)"
  unfolding call_keeps_def returning_def by (auto split: prod.splits sum.splits) (metis snd_conv)+

lemma exec_Inr: "exec q (net, d) = (Inr x, net', d') \<Longrightarrow> q d = Inr (x, d')"
  by (auto simp: exec_def split: prod.splits commit.splits sum.splits)

lemma exec_cases:
  assumes "exec q (net, d) = (r, net', d')"
  obtains x where "q d = Inr (x, d')" "r = Inr x \<or> r = Inl Unreachable"
  | e where "r = Inl e" "d' = d" "q d = Inl e \<or> e = Unreachable"
  using assms by (auto simp: exec_def split: prod.splits commit.splits sum.splits)

lemma exec_query: "(\<And>x d'. q d = Inr (x, d') \<Longrightarrow> d' = d) \<Longrightarrow> snd (snd (exec q (net, d))) = d"
  by (auto simp: exec_def split: prod.splits commit.splits sum.splits)

lemma and_then_Inr:
  assumes "and_then m fail k st = (Inr y, st')"
  obtains x st1 where "m st = (Inr x, st1)" "k x st1 = (Inr y, st')"
  using assms by (auto simp: and_then_def split: prod.splits sum.splits)

lemma and_then_run:
  "m st = (Inr x, st1) \<Longrightarrow> and_then m fail k st = k x st1"
  "m st = (Inl e, st1) \<Longrightarrow> and_then m fail k st = (Inl (fail e), st1)"
  by (simp_all add: and_then_def)

lemma and_then_cases:
  assumes "and_then m fail k st = (r, st')"
  obtains x st1 where "m st = (Inr x, st1)" "k x st1 = (r, st')"
  | e where "m st = (Inl e, st')" "r = Inl (fail e)"
  using assms by (auto simp: and_then_def split: prod.splits sum.splits)

text \<open>A transaction leaves the database as it was, or as its body left it.\<close>

lemma in_tx_cases:
  assumes "in_tx fail body (net, d) = (r, net', d')"
  obtains e where "r = Inl e" "d' = d"
  | x net1 net2 where "body (net1, d) = (Inr x, net2, d')" "r = Inr x \<or> r = Inl (fail Unreachable)"
proof (cases "fst (begin_tx (net, d))")
  case (Inl e)
  then show thesis
    using assms that(1) by (auto simp: in_tx_def begin_tx_def exec_def split: prod.splits commit.splits)
next
  case (Inr u)
  then obtain net1 where begun: "begin_tx (net, d) = (Inr u, net1, d)"
    by (auto simp: begin_tx_def exec_def split: prod.splits commit.splits)
  obtain b net2 d2 where body: "body (net1, d) = (b, net2, d2)"
    by (metis prod_cases3)
  show thesis
  proof (cases b)
    case (Inl e)
    then show thesis
      using assms begun body that(1) by (auto simp: in_tx_def)
  next
    case (Inr x)
    show thesis
    proof (cases "fst (next_trip net2)")
      case Failed
      then show thesis
        using assms begun body Inr that(1) by (auto simp: in_tx_def split: prod.splits)
    qed (use assms begun body Inr that(2) in \<open>auto simp: in_tx_def split: prod.splits\<close>)
  qed
qed

lemma in_tx_Inl:
  assumes "in_tx fail body (net, d) = (Inl e, st')"
  obtains "e = fail Unreachable" | net1 st2 where "body (net1, d) = (Inl e, st2)"
  using assms by (auto simp: in_tx_def begin_tx_def exec_def split: prod.splits commit.splits sum.splits)

lemma in_tx_Inr:
  assumes "in_tx fail body (net, d) = (Inr x, net', d')"
  obtains net1 net2 where "body (net1, d) = (Inr x, net2, d')"
  using assms by (cases rule: in_tx_cases) auto

lemma returning_cases:
  assumes "returning m st = (r, st')"
  obtains "m st = (Inl r, st')" | x where "m st = (Inr x, st')" "r = Inr x"
  using assms by (auto simp: returning_def split: prod.splits sum.splits)

section \<open>Refresh tokens\<close>

record RefreshToken =
  rf_ID :: int
  rf_UserID :: int
  rf_ExpiresAt :: gotime
  rf_UsedAt :: "gotime option"
  rf_CreatedAt :: gotime

definition Store_CreateRefreshToken :: "string \<Rightarrow> int \<Rightarrow> gotime \<Rightarrow> gotime \<Rightarrow> (StoreError + unit) call" where
  "Store_CreateRefreshToken tokenHash userID expiresAt now =
     and_then (exec (db_CreateRefreshToken tokenHash userID expiresAt now)) Wrapped (\<lambda>_. answer (Inr ()))"

definition Store_GetRefreshToken :: "string \<Rightarrow> (StoreError + RefreshToken) call" where
  "Store_GetRefreshToken tokenHash =
     and_then (exec (db_GetRefreshTokenByHash tokenHash)) (no_rows_as ErrRefreshTokenNotFound) (\<lambda>row.
       answer (Inr \<lparr>rf_ID = rt_ID row, rf_UserID = rt_UserID row, rf_ExpiresAt = rt_ExpiresAt row,
                   rf_UsedAt = rt_UsedAt row, rf_CreatedAt = rt_CreatedAt row\<rparr>))"

definition rotate_body :: "int \<Rightarrow> string \<Rightarrow> int \<Rightarrow> gotime \<Rightarrow> gotime \<Rightarrow> ((StoreError + bool) + bool) call" where
  "rotate_body usedID newHash userID expiresAt now =
     and_then (exec (db_LockUser userID)) (\<lambda>e. if e = NoRows then Inr False else Inl (Wrapped e)) (\<lambda>_.
     and_then (exec (db_MarkRefreshTokenUsed usedID now)) (\<lambda>e. Inl (Wrapped e)) (\<lambda>rows.
       if rows = 0 then answer (Inl (Inr False))
       else and_then (exec (db_CreateRefreshToken newHash userID expiresAt now)) (\<lambda>e. Inl (Wrapped e)) (\<lambda>_.
              answer (Inr True))))"

definition Store_RotateRefreshToken :: "int \<Rightarrow> string \<Rightarrow> int \<Rightarrow> gotime \<Rightarrow> gotime \<Rightarrow> (StoreError + bool) call" where
  "Store_RotateRefreshToken usedID newHash userID expiresAt now =
     returning (in_tx (\<lambda>e. Inl (Wrapped e)) (rotate_body usedID newHash userID expiresAt now))"

definition Store_DeleteRefreshTokensForUser :: "int \<Rightarrow> (StoreError + unit) call" where
  "Store_DeleteRefreshTokensForUser userID =
     returning (in_tx (\<lambda>e. Inl (Wrapped e))
       (and_then (exec (db_LockUser userID)) (\<lambda>e. if e = NoRows then Inr () else Inl (Wrapped e)) (\<lambda>_.
        and_then (exec (db_DeleteRefreshTokensForUser userID)) (\<lambda>e. Inl (Wrapped e)) (\<lambda>_.
          answer (Inr ())))))"

text \<open>\<open>hash\<close> is what \<open>bcrypt.GenerateFromPassword\<close> made of the password, \<open>None\<close> where it failed.\<close>

definition Store_SetUserPasswordAndRevokeSessions :: "int \<Rightarrow> string option \<Rightarrow> gotime \<Rightarrow> (StoreError + unit) call" where
  "Store_SetUserPasswordAndRevokeSessions i hash now =
     (case hash of
        None \<Rightarrow> answer (Inl (Internal ''hash password''))
      | Some h \<Rightarrow>
          in_tx Wrapped
            (and_then (exec (db_LockUser i)) (no_rows_as ErrUserNotFound) (\<lambda>_.
             and_then (exec (db_UpdateUserPassword i h now)) Wrapped (\<lambda>_.
             and_then (exec (db_DeleteRefreshTokensForUser i)) Wrapped (\<lambda>_.
               answer (Inr ()))))))"

definition Store_SetUserActiveAndRevokeSessions :: "int \<Rightarrow> bool \<Rightarrow> gotime \<Rightarrow> (StoreError + unit) call" where
  "Store_SetUserActiveAndRevokeSessions i active now =
     in_tx Wrapped
       (and_then (exec (db_LockUser i)) (no_rows_as ErrUserNotFound) (\<lambda>_.
        and_then (exec (db_SetUserActive i active now)) Wrapped (\<lambda>_.
          if active then answer (Inr ())
          else and_then (exec (db_DeleteRefreshTokensForUser i)) Wrapped (\<lambda>_. answer (Inr ())))))"

definition Store_PruneExpiredRefreshTokens :: "gotime \<Rightarrow> (StoreError + int) call" where
  "Store_PruneExpiredRefreshTokens before =
     and_then (exec (db_DeleteExpiredRefreshTokens before)) Wrapped (\<lambda>rows. answer (Inr rows))"

section \<open>Revoked access tokens\<close>

definition Store_RevokeToken :: "string \<Rightarrow> int \<Rightarrow> gotime \<Rightarrow> gotime \<Rightarrow> (StoreError + unit) call" where
  "Store_RevokeToken jti userID expiresAt now =
     and_then (exec (db_RevokeToken jti (Some userID) expiresAt now)) Wrapped (\<lambda>_. answer (Inr ()))"

definition Store_IsTokenRevoked :: "string \<Rightarrow> (StoreError + bool) call" where
  "Store_IsTokenRevoked jti = and_then (exec (db_IsTokenRevoked jti)) Wrapped (\<lambda>revoked. answer (Inr revoked))"

section \<open>Users\<close>

record UserResponse =
  us_ID :: int
  us_Name :: string
  us_Email :: string
  us_Role :: string
  us_Active :: bool
  us_CreatedAt :: gotime
  us_UpdatedAt :: gotime

definition user_response :: "UserRow \<Rightarrow> UserResponse" where
  "user_response row =
     \<lparr>us_ID = u_ID row, us_Name = u_Name row, us_Email = u_Email row, us_Role = u_Role row,
      us_Active = u_Active row, us_CreatedAt = u_CreatedAt row, us_UpdatedAt = u_UpdatedAt row\<rparr>"

definition isDuplicateEmail :: "DbError \<Rightarrow> bool" where
  "isDuplicateEmail e \<longleftrightarrow> e = UniqueViolation ''users_email_key''"

definition Store_GetUser :: "int \<Rightarrow> (StoreError + UserResponse) call" where
  "Store_GetUser i =
     and_then (exec (db_GetUserByID i)) (no_rows_as ErrUserNotFound) (\<lambda>row. answer (Inr (user_response row)))"

definition Store_GetUserByEmail :: "string \<Rightarrow> (StoreError + UserRow) call" where
  "Store_GetUserByEmail email =
     and_then (exec (\<lambda>d. read_one (filter (\<lambda>u. u_Email u = email) (db_users d)) d))
       (no_rows_as ErrUserNotFound) (\<lambda>row. answer (Inr row))"

definition Store_ListUsers :: "(StoreError + UserResponse list) call" where
  "Store_ListUsers = and_then (exec db_ListUsers) Wrapped (\<lambda>rows. answer (Inr (map user_response rows)))"

definition Store_CreateUser ::
  "string \<Rightarrow> string \<Rightarrow> string option \<Rightarrow> string \<Rightarrow> gotime \<Rightarrow> (StoreError + UserResponse) call" where
  "Store_CreateUser name email hash role now =
     (case hash of
        None \<Rightarrow> answer (Inl (Internal ''hash password''))
      | Some h \<Rightarrow>
          and_then (exec (db_CreateUser name email h role now))
            (\<lambda>e. if isDuplicateEmail e then ErrDuplicateEmail else Wrapped e)
            (\<lambda>row. answer (Inr (user_response row))))"

definition Store_UpdateUser ::
  "int \<Rightarrow> string \<Rightarrow> string \<Rightarrow> string \<Rightarrow> gotime \<Rightarrow> (StoreError + UserResponse) call" where
  "Store_UpdateUser i name email role now =
     and_then (exec (db_UpdateUser name email role i now))
       (\<lambda>e. if e = NoRows then ErrUserNotFound else if isDuplicateEmail e then ErrDuplicateEmail else Wrapped e)
       (\<lambda>row. answer (Inr (user_response row)))"

definition Store_DeleteUser :: "int \<Rightarrow> (StoreError + unit) call" where
  "Store_DeleteUser i =
     and_then (exec (db_DeleteUser i)) Wrapped (\<lambda>rows.
       answer (if rows = 0 then Inl ErrUserNotFound else Inr ()))"

definition Store_CountUsersByRole :: "string \<Rightarrow> (StoreError + int) call" where
  "Store_CountUsersByRole role = and_then (exec (db_CountUsersByRole role)) Wrapped (\<lambda>n. answer (Inr n))"

definition Store_CountActiveUsersByRole :: "string \<Rightarrow> (StoreError + int) call" where
  "Store_CountActiveUsersByRole role = and_then (exec (db_CountActiveUsersByRole role)) Wrapped (\<lambda>n. answer (Inr n))"

lemmas token_store_defs = Store_CreateRefreshToken_def Store_GetRefreshToken_def Store_RotateRefreshToken_def
  rotate_body_def Store_DeleteRefreshTokensForUser_def Store_SetUserPasswordAndRevokeSessions_def
  Store_SetUserActiveAndRevokeSessions_def Store_PruneExpiredRefreshTokens_def Store_RevokeToken_def
  Store_IsTokenRevoked_def Store_GetUser_def Store_GetUserByEmail_def Store_ListUsers_def Store_CreateUser_def
  Store_UpdateUser_def Store_DeleteUser_def Store_CountUsersByRole_def Store_CountActiveUsersByRole_def

section \<open>What no statement ever does\<close>

lemmas stmt_defs = db_UpsertVehicle_def db_CreateVehicle_def db_UpsertAdminVehicle_def db_UpdateVehicleInfo_def
  db_SetVehicleActive_def db_CreateUser_def db_UpdateUser_def db_SetUserActive_def db_UpdateUserPassword_def
  db_DeleteUser_def db_StartTrip_def db_EndTrip_def db_AssignUserVehicle_def db_UnassignUserVehicle_def
  db_RevokeToken_def db_CreateRefreshToken_def db_MarkRefreshTokenUsed_def db_DeleteRefreshTokensForUser_def
  db_DeleteExpiredRefreshTokens_def db_UpdateAPIKeyLastUsed_def db_CreateAPIKey_def db_DeactivateAPIKey_def
  db_UpsertRider_def db_TouchRider_def db_ApplyRideOutcome_def db_SetRiderTier_def db_InsertRide_def
  db_UpdateRideProgress_def db_EndRide_def db_EndAllActiveRides_def db_DeleteRidePointsBefore_def
  db_InsertLocationPoint_def db_DeleteLocationPointsBefore_def db_UpsertGTFSFeedCache_def db_InsertRidePoint_def

text \<open>
  A refresh token comes from a fresh row, keeps its hash and owner, and once used stays used; a
  revocation stays on the list.
\<close>

definition same_token :: "RefreshTokenRow \<Rightarrow> RefreshTokenRow \<Rightarrow> bool" where
  "same_token r r' \<longleftrightarrow> rt_ID r' = rt_ID r \<and> rt_TokenHash r' = rt_TokenHash r \<and> rt_UserID r' = rt_UserID r
     \<and> (rt_UsedAt r \<noteq> None \<longrightarrow> rt_UsedAt r' = rt_UsedAt r)"

definition known_token :: "Database \<Rightarrow> RefreshTokenRow \<Rightarrow> bool" where
  "known_token d r' \<longleftrightarrow> db_serial d \<le> rt_ID r' \<or> (\<exists>r \<in> set (db_refresh_tokens d). same_token r r')"

definition token_history :: "Database \<Rightarrow> Database \<Rightarrow> bool" where
  "token_history d d' \<longleftrightarrow> db_serial d \<le> db_serial d' \<and> (\<forall>r' \<in> set (db_refresh_tokens d'). known_token d r')
     \<and> rv_Jti ` set (db_revoked_tokens d) \<subseteq> rv_Jti ` set (db_revoked_tokens d')"

lemma same_token_refl [simp]: "same_token r r"
  by (simp add: same_token_def)

lemma same_token_trans: "same_token r r' \<Longrightarrow> same_token r' r'' \<Longrightarrow> same_token r r''"
  by (auto simp: same_token_def)

lemma known_tokenI [simp]: "r \<in> set (db_refresh_tokens d) \<Longrightarrow> known_token d r"
  unfolding known_token_def using same_token_refl by blast

lemma known_token_new [simp]: "db_serial d \<le> rt_ID r \<Longrightarrow> known_token d r"
  by (simp add: known_token_def)

lemma known_token_used [simp]:
  "r \<in> set (db_refresh_tokens d) \<Longrightarrow> rt_UsedAt r = None \<Longrightarrow> known_token d (r\<lparr>rt_UsedAt := x\<rparr>)"
  by (auto simp: known_token_def same_token_def intro!: bexI [of _ r])

lemma token_history_refl [simp]: "token_history d d"
  by (simp add: token_history_def)

lemma token_history_trans:
  assumes "token_history d d'" "token_history d' d''"
  shows "token_history d d''"
  unfolding token_history_def
proof (intro conjI ballI)
  fix r'' assume r'': "r'' \<in> set (db_refresh_tokens d'')"
  show "known_token d r''"
  proof (cases "db_serial d' \<le> rt_ID r''")
    case True
    then show ?thesis
      using assms(1) by (simp add: token_history_def known_token_def)
  next
    case False
    then obtain r' where r': "r' \<in> set (db_refresh_tokens d')" "same_token r' r''"
      using assms(2) r'' by (auto simp: token_history_def known_token_def)
    moreover from this have "rt_ID r'' = rt_ID r'"
      by (simp add: same_token_def)
    ultimately show ?thesis
      using assms(1) same_token_trans unfolding token_history_def known_token_def by metis
  qed
qed (use assms in \<open>unfold token_history_def, linarith, blast\<close>)

lemma token_history_same:
  "db_serial d \<le> db_serial d' \<Longrightarrow> db_refresh_tokens d' = db_refresh_tokens d
     \<Longrightarrow> db_revoked_tokens d' = db_revoked_tokens d \<Longrightarrow> token_history d d'"
  by (simp add: token_history_def)

lemma points_keep_tokens: "db_InsertRidePoints ps now d = Inr (x, d') \<Longrightarrow> token_history d d'"
proof (induction ps arbitrary: d)
  case (Cons p ps)
  then obtain d1 where "db_InsertRidePoint p now d = Inr ((), d1)" "db_InsertRidePoints ps now d1 = Inr (x, d')"
    by (auto split: sum.splits)
  moreover from this(1) have "token_history d d1"
    by (auto simp: db_InsertRidePoint_def intro!: token_history_same split: if_splits)
  ultimately show ?case
    using Cons.IH token_history_trans by blast
qed simp

lemma step_token_history: "db_step d d' \<Longrightarrow> token_history d d'"
proof (induction rule: db_step.induct)
  case DeleteUser_step
  then show ?case
    by (auto simp: stmt_defs token_history_def delete_rows_def image_update_rows split: if_splits)
next
  case RevokeToken_step
  then show ?case
    by (auto simp: stmt_defs token_history_def split: if_splits)
next
  case CreateRefreshToken_step
  then show ?case
    by (auto simp: stmt_defs token_history_def  split: if_splits)
next
  case MarkRefreshTokenUsed_step
  then show ?case
    by (auto simp: stmt_defs token_history_def update_rows_def Let_def)
next
  case DeleteRefreshTokensForUser_step
  then show ?case
    by (auto simp: stmt_defs token_history_def delete_rows_def)
next
  case DeleteExpiredRefreshTokens_step
  then show ?case
    by (auto simp: stmt_defs token_history_def delete_rows_def)
next
  case InsertRidePoints_step
  then show ?case
    by (rule points_keep_tokens)
qed (auto simp: stmt_defs Let_def intro!: token_history_same dest!: read_oneE split: if_splits sum.splits)


section \<open>Rotation\<close>

lemma lock_user_Inr: "db_LockUser i d = Inr (x, d') \<Longrightarrow> d' = d \<and> i \<in> u_ID ` set (db_users d)"
  by (auto simp: db_LockUser_def read_one_def one_row_def filter_eq_Cons_iff map_eq_Cons_conv split: list.splits)

definition unused :: "int \<Rightarrow> Database \<Rightarrow> bool" where
  "unused i d \<longleftrightarrow> (\<exists>r \<in> set (db_refresh_tokens d). rt_ID r = i \<and> rt_UsedAt r = None)"

lemma count_rows_zero: "count_rows p rows = 0 \<longleftrightarrow> (\<forall>r \<in> set rows. \<not> p r)"
  by (simp add: count_rows_def filter_empty_conv)

lemma rotate_body_Inr:
  assumes "rotate_body i h uid expiresAt now (net, d) = (Inr b, net', d')"
  shows "b \<and> unused i d \<and> uid \<in> u_ID ` set (db_users d)
     \<and> (\<exists>d1 n. db_MarkRefreshTokenUsed i now d = Inr (n, d1) \<and> db_CreateRefreshToken h uid expiresAt now d1 = Inr ((), d'))"
  using assms unfolding rotate_body_def
  by (auto simp: answer_def unused_def count_rows_zero db_MarkRefreshTokenUsed_def Let_def
      elim!: and_then_Inr dest!: exec_Inr lock_user_Inr split: if_splits)

text \<open>What a rotation leaves behind: the old token used, its replacement next to the other tokens.\<close>

definition rotated :: "int \<Rightarrow> string \<Rightarrow> int \<Rightarrow> gotime \<Rightarrow> gotime \<Rightarrow> Database \<Rightarrow> Database" where
  "rotated i h uid expiresAt now d =
     d\<lparr>db_refresh_tokens :=
         update_rows (\<lambda>r. rt_ID r = i \<and> rt_UsedAt r = None) (\<lambda>r. r\<lparr>rt_UsedAt := Some now\<rparr>) (db_refresh_tokens d)
         @ [\<lparr>rt_ID = db_serial d, rt_TokenHash = h, rt_UserID = uid, rt_ExpiresAt = expiresAt,
             rt_UsedAt = None, rt_CreatedAt = now\<rparr>],
       db_serial := db_serial d + 1\<rparr>"

lemma rotate_commits:
  assumes "rotate_body i h uid expiresAt now (net, d) = (Inr b, net', d')"
  shows "b \<and> unused i d \<and> d' = rotated i h uid expiresAt now d"
  using rotate_body_Inr [OF assms]
  by (auto simp: rotated_def db_MarkRefreshTokenUsed_def db_CreateRefreshToken_def Let_def split: if_splits)

lemma rotate_body_early:
  assumes "rotate_body i h uid expiresAt now (net, d) = (Inl (Inr b), net', d')"
  shows "\<not> b"
  using assms unfolding rotate_body_def by (auto simp: answer_def elim!: and_then_cases split: if_splits)

lemma rotation_atomic:
  assumes "Store_RotateRefreshToken i h uid expiresAt now (net, d) = (r, net', d')"
  shows "d' = d \<and> r \<noteq> Inr True
       \<or> unused i d \<and> d' = rotated i h uid expiresAt now d \<and> (r = Inr True \<or> r = Inl (Wrapped Unreachable))"
proof -
  obtain m where tx: "in_tx (\<lambda>e. Inl (Wrapped e)) (rotate_body i h uid expiresAt now) (net, d) = (m, net', d')"
    and r: "r = (case m of Inl r' \<Rightarrow> r' | Inr x \<Rightarrow> Inr x)"
    using assms unfolding Store_RotateRefreshToken_def returning_def
    by (cases "in_tx (\<lambda>e. Inl (Wrapped e)) (rotate_body i h uid expiresAt now) (net, d)") (auto split: sum.splits)
  show ?thesis
    using tx
  proof (cases rule: in_tx_cases)
    case (1 e)
    have "e \<noteq> Inr True"
      using tx unfolding 1 by (cases rule: in_tx_Inl) (auto dest: rotate_body_early)
    then show ?thesis
      using 1 r by simp
  next
    case (2 x net1 net2)
    then show ?thesis
      using rotate_commits [OF 2(1)] r by auto
  qed
qed

text \<open>
  A rotation of a refresh token is all or nothing, whichever round trips to the database fail: either
  the database is as it was and the caller is not told that the token was rotated, or an unused token
  of this id existed, it is now used, its replacement is stored, and the caller is told so or gets an
  error because the answer to the commit was lost.
\<close>

theorem rotation_all_or_nothing:
  assumes "Store_RotateRefreshToken i h uid expiresAt now (net, d) = (r, net', d')"
  shows "d' = d \<and> r \<noteq> Inr True
       \<or> unused i d \<and> d' = rotated i h uid expiresAt now d \<and> (r = Inr True \<or> r = Inl (Wrapped Unreachable))"
  using assms by (rule rotation_atomic)


theorem rotation_all_or_nothing_witness:
  "\<exists>d0 d u r net' d'. db_CreateUser ''Ann'' ''a@b'' ''hash'' ''driver'' 5 empty_db = Inr (u, d0)
     \<and> db_CreateRefreshToken ''old'' (u_ID u) 100 6 d0 = Inr ((), d)
     \<and> Store_RotateRefreshToken 2 ''new'' (u_ID u) 200 7 ([Committed, Committed, Committed, Committed, Lost], d) = (r, net', d')
     \<and> d' = rotated 2 ''new'' (u_ID u) 200 7 d \<and> r = Inl (Wrapped Unreachable)"
proof -
  obtain u d0 where u: "db_CreateUser ''Ann'' ''a@b'' ''hash'' ''driver'' 5 empty_db = Inr (u, d0)"
    and d0: "u_ID u = 1" "db_users d0 = [u]" "db_serial d0 = 2" "db_refresh_tokens d0 = []"
    by (auto simp: db_CreateUser_def empty_db_def user_role_ok_def Let_def)
  obtain d where d: "db_CreateRefreshToken ''old'' (u_ID u) 100 6 d0 = Inr ((), d)"
    and rows: "db_users d = [u]" "db_serial d = 3"
      "db_refresh_tokens d = [\<lparr>rt_ID = 2, rt_TokenHash = ''old'', rt_UserID = 1, rt_ExpiresAt = 100, rt_UsedAt = None, rt_CreatedAt = 6\<rparr>]"
    using d0 by (auto simp: db_CreateRefreshToken_def)
  obtain r net' d' where run: "Store_RotateRefreshToken 2 ''new'' (u_ID u) 200 7
      ([Committed, Committed, Committed, Committed, Lost], d) = (r, net', d')"
    by (metis prod_cases3)
  moreover have "r = Inl (Wrapped Unreachable) \<and> db_serial d' = 4"
    using run d0(1) rows
    by (auto simp: Store_RotateRefreshToken_def returning_def in_tx_def begin_tx_def exec_def next_trip_def rotate_body_def
        and_then_def answer_def db_LockUser_def read_one_def one_row_def db_MarkRefreshTokenUsed_def count_rows_def
        update_rows_def db_CreateRefreshToken_def)
  moreover from this have "d' \<noteq> d"
    using rows(2) by auto
  ultimately show ?thesis
    using u d rotation_all_or_nothing [OF run] by blast
qed

section \<open>A refresh token is good for one rotation\<close>

text \<open>
  \<open>rotations i d n d'\<close>: from \<open>d\<close>, any statements run in any order, and \<open>n\<close> rotations of the token with id \<open>i\<close>
  answered that they rotated it, ends in \<open>d'\<close>.
\<close>

inductive rotations :: "int \<Rightarrow> Database \<Rightarrow> nat \<Rightarrow> Database \<Rightarrow> bool" where
  rotations_start: "rotations i d 0 d"
| rotations_statement: "rotations i d n d' \<Longrightarrow> db_step d' d'' \<Longrightarrow> rotations i d n d''"
| rotations_rotate: "rotations i d n d' \<Longrightarrow>
    Store_RotateRefreshToken i h uid expiresAt now (net, d') = (Inr True, net', d'') \<Longrightarrow> rotations i d (Suc n) d''"

definition spent :: "int \<Rightarrow> Database \<Rightarrow> bool" where
  "spent i d \<longleftrightarrow> i < db_serial d \<and> (\<forall>r \<in> set (db_refresh_tokens d). rt_ID r = i \<longrightarrow> rt_UsedAt r \<noteq> None)"

lemma spent_stays: "token_history d d' \<Longrightarrow> spent i d \<Longrightarrow> spent i d'"
proof -
  assume history: "token_history d d'" and spent: "spent i d"
  have "rt_UsedAt r' \<noteq> None" if r': "r' \<in> set (db_refresh_tokens d')" "rt_ID r' = i" for r'
  proof -
    have "known_token d r'"
      using history r'(1) by (simp add: token_history_def)
    then obtain r where "r \<in> set (db_refresh_tokens d)" "same_token r r'"
      using spent r'(2) by (auto simp: known_token_def spent_def)
    then show ?thesis
      using spent r'(2) by (auto simp: spent_def same_token_def)
  qed
  then show ?thesis
    using history spent by (simp add: spent_def token_history_def)
qed

lemma rotated_steps: "rotated i h uid expiresAt now d = d' \<Longrightarrow> token_history d d'"
  by (auto simp: rotated_def token_history_def set_update_rows simp del: image_iff split: if_splits)

lemma rotated_True: "Store_RotateRefreshToken i h uid expiresAt now (net, d) = (Inr True, net', d')
    \<Longrightarrow> unused i d \<and> d' = rotated i h uid expiresAt now d"
  using rotation_atomic [of i h uid expiresAt now net d "Inr True" net' d'] by auto

lemma rotated_spent: "i < db_serial d \<Longrightarrow> spent i (rotated i h uid expiresAt now d)"
  by (simp add: spent_def rotated_def ball_Un ball_update_rows)

lemma rotations_invariant:
  "rotations i d n d' \<Longrightarrow> i < db_serial d
     \<Longrightarrow> i < db_serial d' \<and> (n = 0 \<or> n = 1 \<and> spent i d')"
proof (induction rule: rotations.induct)
  case (rotations_statement i d n d' d'')
  then show ?case
    using step_token_history [OF rotations_statement(2)] spent_stays by (auto simp: token_history_def)
next
  case (rotations_rotate i d n d' h uid expiresAt now net net' d'')
  have r: "unused i d'" "d'' = rotated i h uid expiresAt now d'"
    using rotated_True [OF rotations_rotate(2)] by auto
  then have "\<not> spent i d'"
    by (auto simp: unused_def spent_def)
  then show ?case
    using rotations_rotate r rotated_spent by (auto simp: rotated_def)
qed auto

text \<open>
  C17: a refresh token can be exchanged once. Whatever statements run before, between and after (other
  logins, refreshes, logouts, deletions of users and tokens), of all the rotations that present the row of
  one stored token at most one is told that it succeeded, and after that the row, if it still exists, is marked used.
\<close>

theorem refresh_token_single_use:
  assumes "db_reachable d" "r \<in> set (db_refresh_tokens d)" "rotations (rt_ID r) d n d'"
  shows "n \<le> 1 \<and> (n = 1 \<longrightarrow> \<not> unused (rt_ID r) d')"
proof -
  have "rt_ID r < db_serial d"
    using reachable_ok [OF assms(1)] assms(2) by (simp add: ok_defs refresh_ok_def)
  then show ?thesis
    using rotations_invariant [OF assms(3)] by (auto simp: spent_def unused_def)
qed

theorem refresh_token_single_use_witness:
  "\<exists>d0 d u r net' d'. db_CreateUser ''Ann'' ''a@b'' ''hash'' ''driver'' 5 empty_db = Inr (u, d0)
     \<and> db_CreateRefreshToken ''old'' (u_ID u) 100 6 d0 = Inr ((), d)
     \<and> Store_RotateRefreshToken 2 ''new'' (u_ID u) 200 7 ([], d) = (Inr True, net', d')
     \<and> r \<in> set (db_refresh_tokens d) \<and> rt_ID r = 2 \<and> rotations 2 d 1 d' \<and> \<not> unused 2 d'"
proof -
  obtain u d0 where u: "db_CreateUser ''Ann'' ''a@b'' ''hash'' ''driver'' 5 empty_db = Inr (u, d0)"
    and d0: "u_ID u = 1" "db_users d0 = [u]" "db_serial d0 = 2" "db_refresh_tokens d0 = []"
    by (auto simp: db_CreateUser_def empty_db_def user_role_ok_def Let_def)
  obtain d where d: "db_CreateRefreshToken ''old'' (u_ID u) 100 6 d0 = Inr ((), d)"
    and rows: "db_users d = [u]" "db_serial d = 3"
      "db_refresh_tokens d = [\<lparr>rt_ID = 2, rt_TokenHash = ''old'', rt_UserID = 1, rt_ExpiresAt = 100, rt_UsedAt = None, rt_CreatedAt = 6\<rparr>]"
    using d0 by (auto simp: db_CreateRefreshToken_def)
  have reach: "db_reachable d"
    using u d by (meson reach_empty reach_step CreateUser_step CreateRefreshToken_step)
  obtain net' d' where run: "Store_RotateRefreshToken 2 ''new'' (u_ID u) 200 7 ([], d) = (Inr True, net', d')"
    using d0(1) rows
    by (auto simp: Store_RotateRefreshToken_def returning_def in_tx_def begin_tx_def exec_def next_trip_def rotate_body_def
        and_then_def answer_def db_LockUser_def read_one_def one_row_def db_MarkRefreshTokenUsed_def count_rows_def
        update_rows_def db_CreateRefreshToken_def)
  have "rotations 2 d (Suc 0) d'"
    by (rule rotations_rotate [OF rotations_start run])
  then show ?thesis
    using u d run rows refresh_token_single_use [OF reach, of "hd (db_refresh_tokens d)" 1 d'] by auto
qed

section \<open>Ending a user's sessions\<close>

lemma spent_rotations: "rotations i d n d' \<Longrightarrow> spent i d \<Longrightarrow> n = 0 \<and> spent i d'"
proof (induction rule: rotations.induct)
  case (rotations_statement i d n d' d'')
  then show ?case
    using step_token_history spent_stays by blast
next
  case (rotations_rotate i d n d' h uid expiresAt now net net' d'')
  then show ?case
    using rotated_True [OF rotations_rotate(2)] by (auto simp: unused_def spent_def)
qed auto

definition no_tokens :: "int \<Rightarrow> Database \<Rightarrow> bool" where
  "no_tokens uid d \<longleftrightarrow> (\<forall>r \<in> set (db_refresh_tokens d). rt_UserID r \<noteq> uid)"

lemma delete_leaves_none: "db_DeleteRefreshTokensForUser uid d = Inr (x, d') \<Longrightarrow>
    no_tokens uid d' \<and> db_refresh_tokens d' = delete_rows (\<lambda>r. rt_UserID r = uid) (db_refresh_tokens d)
    \<and> db_users d' = db_users d \<and> db_serial d' = db_serial d"
  by (auto simp: db_DeleteRefreshTokensForUser_def no_tokens_def delete_rows_def)

lemma lock_user_missing: "exec (db_LockUser i) (net, d) = (Inl NoRows, st') \<Longrightarrow> i \<notin> u_ID ` set (db_users d)"
  by (auto simp: exec_def db_LockUser_def read_one_def one_row_def filter_empty_conv
      split: prod.splits commit.splits list.splits sum.splits)

text \<open>What each of the three revocations leaves: the tokens but the user's, no serial number spent.\<close>

definition sessions_ended :: "int \<Rightarrow> Database \<Rightarrow> Database \<Rightarrow> bool" where
  "sessions_ended uid d d' \<longleftrightarrow> no_tokens uid d' \<and> db_serial d' = db_serial d
     \<and> set (db_refresh_tokens d') \<subseteq> set (db_refresh_tokens d)"

lemma delete_ends: "db_DeleteRefreshTokensForUser uid d = Inr (x, d') \<Longrightarrow> sessions_ended uid d d'"
  using delete_leaves_none [of uid d x d'] by (auto simp: sessions_ended_def delete_rows_def)

lemma Delete_ends_sessions:
  assumes ok: "db_ok d" and run: "Store_DeleteRefreshTokensForUser uid (net, d) = (Inr (), net', d')"
  shows "sessions_ended uid d d'"
proof -
  have none: "no_tokens uid d" if "uid \<notin> u_ID ` set (db_users d)"
    using ok that by (auto simp: ok_defs refers_def no_tokens_def)
  show ?thesis
    using run unfolding Store_DeleteRefreshTokensForUser_def
  proof (cases rule: returning_cases)
    case 1
    note tx = 1
    then show ?thesis
    proof (cases rule: in_tx_cases)
      case (1 e)
      from tx have "uid \<notin> u_ID ` set (db_users d)"
      proof (cases rule: in_tx_Inl)
        case (2 net1 st2)
        then show ?thesis
        proof (cases rule: and_then_cases)
          case (1 x st1)
          then show ?thesis
            by (elim and_then_cases) (auto simp: answer_def)
        next
          case (2 e')
          then show ?thesis
            using lock_user_missing by (cases "e' = NoRows") auto
        qed
      qed simp
      then show ?thesis
        using none 1 by (simp add: sessions_ended_def)
    next
      case (2 x net1 net2)
      then show ?thesis
        by (auto simp: answer_def elim!: and_then_Inr dest!: exec_Inr lock_user_Inr delete_ends)
    qed
  next
    case (2 x)
    from 2(1) show ?thesis
      by (cases rule: in_tx_cases) (auto simp: answer_def elim!: and_then_Inr dest!: exec_Inr lock_user_Inr delete_ends)
  qed
qed

lemma sessions_ended_mono:
  "db_refresh_tokens d1 = db_refresh_tokens d \<Longrightarrow> db_serial d1 = db_serial d \<Longrightarrow> sessions_ended uid d1 d'
     \<Longrightarrow> sessions_ended uid d d'"
  by (simp add: sessions_ended_def)

lemma Password_ends_sessions:
  assumes "Store_SetUserPasswordAndRevokeSessions uid hash now (net, d) = (Inr (), net', d')"
  shows "sessions_ended uid d d'"
proof -
  obtain h where "hash = Some h"
    using assms by (cases hash) (auto simp: Store_SetUserPasswordAndRevokeSessions_def answer_def)
  with assms obtain net1 net2 n d1 where
      "db_UpdateUserPassword uid h now d = Inr (n, d1)" "db_DeleteRefreshTokensForUser uid d1 = Inr ((), d')"
    unfolding Store_SetUserPasswordAndRevokeSessions_def
    by (auto simp: answer_def elim!: in_tx_Inr and_then_Inr dest!: exec_Inr lock_user_Inr)
  then show ?thesis
    using sessions_ended_mono [of d1 d] delete_ends [of uid d1] by (auto simp: db_UpdateUserPassword_def split: if_splits)
qed

lemma Deactivation_ends_sessions:
  assumes "Store_SetUserActiveAndRevokeSessions uid False now (net, d) = (Inr (), net', d')"
  shows "sessions_ended uid d d'"
proof -
  obtain n d1 where
      "db_SetUserActive uid False now d = Inr (n, d1)" "db_DeleteRefreshTokensForUser uid d1 = Inr ((), d')"
    using assms unfolding Store_SetUserActiveAndRevokeSessions_def
    by (auto simp: answer_def elim!: in_tx_Inr and_then_Inr dest!: exec_Inr lock_user_Inr)
  then show ?thesis
    using sessions_ended_mono [of d1 d] delete_ends [of uid d1] by (auto simp: db_SetUserActive_def)
qed

text \<open>
  Once a logout, a change of the password or the deactivation of an account has reported success, no
  refresh token the user held can be exchanged again, whatever statements run afterwards, also when the
  account is activated again.
\<close>

theorem ended_sessions_stay_ended:
  assumes "db_reachable d" "r \<in> set (db_refresh_tokens d)"
    and "Store_DeleteRefreshTokensForUser (rt_UserID r) (net, d) = (Inr (), net', d')
       \<or> Store_SetUserPasswordAndRevokeSessions (rt_UserID r) hash now (net, d) = (Inr (), net', d')
       \<or> Store_SetUserActiveAndRevokeSessions (rt_UserID r) False now (net, d) = (Inr (), net', d')"
    and "rotations (rt_ID r) d' n d''"
  shows "n = 0"
proof -
  have ok: "db_ok d" by (rule reachable_ok) fact
  then have ended: "sessions_ended (rt_UserID r) d d'"
    using assms(3) Delete_ends_sessions Password_ends_sessions Deactivation_ends_sessions by blast
  have "rt_ID r < db_serial d" and uniq: "unique rt_ID (db_refresh_tokens d)"
    using ok assms(2) by (auto simp: ok_defs refresh_ok_def)
  then have "spent (rt_ID r) d'"
    using ended assms(2) unique_eq [OF uniq] unfolding spent_def sessions_ended_def no_tokens_def by fastforce
  then show ?thesis
    using spent_rotations assms(4) by blast
qed

theorem ended_sessions_stay_ended_witness:
  "\<exists>d0 d u r net' d'. db_CreateUser ''Ann'' ''a@b'' ''hash'' ''driver'' 5 empty_db = Inr (u, d0)
     \<and> db_CreateRefreshToken ''old'' (u_ID u) 100 6 d0 = Inr ((), d)
     \<and> r \<in> set (db_refresh_tokens d)
     \<and> Store_SetUserPasswordAndRevokeSessions (u_ID u) (Some ''hash2'') 9 ([], d) = (Inr (), net', d')
     \<and> (\<forall>n d''. \<not> rotations (rt_ID r) d' (Suc n) d'')"
proof -
  obtain u d0 where u: "db_CreateUser ''Ann'' ''a@b'' ''hash'' ''driver'' 5 empty_db = Inr (u, d0)"
    and d0: "u_ID u = 1" "db_users d0 = [u]" "db_serial d0 = 2" "db_refresh_tokens d0 = []"
    by (auto simp: db_CreateUser_def empty_db_def user_role_ok_def Let_def)
  obtain d where d: "db_CreateRefreshToken ''old'' (u_ID u) 100 6 d0 = Inr ((), d)"
    and rows: "db_users d = [u]"
      "db_refresh_tokens d = [\<lparr>rt_ID = 2, rt_TokenHash = ''old'', rt_UserID = 1, rt_ExpiresAt = 100, rt_UsedAt = None, rt_CreatedAt = 6\<rparr>]"
    using d0 by (auto simp: db_CreateRefreshToken_def)
  have reach: "db_reachable d"
    using u d by (meson reach_empty reach_step CreateUser_step CreateRefreshToken_step)
  obtain net' d' where run: "Store_SetUserPasswordAndRevokeSessions (u_ID u) (Some ''hash2'') 9 ([], d) = (Inr (), net', d')"
    using d0(1) rows
    by (auto simp: Store_SetUserPasswordAndRevokeSessions_def in_tx_def begin_tx_def exec_def next_trip_def
        and_then_def answer_def db_LockUser_def read_one_def one_row_def db_UpdateUserPassword_def
        db_DeleteRefreshTokensForUser_def)
  let ?r = "hd (db_refresh_tokens d)"
  have "?r \<in> set (db_refresh_tokens d)" "rt_UserID ?r = u_ID u"
    using rows d0(1) by simp_all
  then show ?thesis
    using u d run ended_sessions_stay_ended [OF reach, of ?r] by (metis nat.simps(3))
qed

end
