(* ===== verification/Auth.thy ===== *)
theory Auth
  imports Tokens RateLimit
begin

text \<open>
  Who may call the server: access tokens and the middleware in front of the handlers
  (\<open>src/auth.go\<close>, \<open>src/admin_session.go\<close>, \<open>src/rider_auth.go\<close>, \<open>userIDFromClaims\<close> of
  \<open>src/trip_handlers.go\<close>), signing in, refreshing and signing out (\<open>src/auth_refresh.go\<close>).

  The JWT library, bcrypt, SHA-256 and the source of random bytes are parameters: \<open>JWT\<close> and \<open>Crypto\<close>
  below hold the functions the code calls, random bytes are arguments (\<open>None\<close> where \<open>rand.Read\<close>
  failed). Logging is left out. A middleware either refuses (\<open>Inl\<close>, with the answer it wrote) or
  calls the next handler with the claims it stored in the request's context (\<open>Inr\<close>).
\<close>

section \<open>Roles and tokens\<close>

definition roleDriver :: string where "roleDriver = ''driver''"
definition roleAdmin :: string where "roleAdmin = ''admin''"
definition roleRider :: string where "roleRider = ''rider''"

definition staffRoles :: "string list" where "staffRoles = [roleDriver, roleAdmin]"

definition validUserRole :: "string \<Rightarrow> bool" where
  "validUserRole role \<longleftrightarrow> role \<in> set staffRoles"

definition validUserRoleFilter :: "string \<Rightarrow> bool" where
  "validUserRoleFilter role \<longleftrightarrow> role = [] \<or> validUserRole role"

text \<open>The parts of the JWT library the code uses.\<close>

datatype signing_method = HMAC string | OtherMethod string

record parse_options =
  po_Methods :: "string list"
  po_Issuer :: string
  po_ExpirationRequired :: bool

datatype token_claims = AsMap MapClaims | OtherClaims

record token =
  to_Valid :: bool
  to_Claims :: token_claims

record JWT =
  jw_Parse :: "(signing_method \<Rightarrow> string option) \<Rightarrow> parse_options \<Rightarrow> gotime \<Rightarrow> string \<Rightarrow> token option"
  jw_Sign :: "MapClaims \<Rightarrow> string \<Rightarrow> string option"          \<comment> \<open>with HS256\<close>
  jw_Subject :: "MapClaims \<Rightarrow> string option"
  jw_Expiration :: "MapClaims \<Rightarrow> gotime option option"     \<comment> \<open>\<open>None\<close> is the error, \<open>Some None\<close> no claim\<close>

datatype comparison_result = Match | Mismatch | BadHash

record Crypto =
  cr_Compare :: "string \<Rightarrow> string \<Rightarrow> comparison_result"       \<comment> \<open>\<open>bcrypt.CompareHashAndPassword\<close>\<close>
  cr_SHA256 :: "string \<Rightarrow> string"

definition issuer :: string where "issuer = ''vehicle-positions-api''"

definition sessionLifetime :: duration where "sessionLifetime = 24 * hour"
definition defaultAccessTokenTTL :: duration where "defaultAccessTokenTTL = 24 * hour"
definition defaultRefreshTokenTTL :: duration where "defaultRefreshTokenTTL = 7 * 24 * hour"

record tokenTTLs =
  tt_access :: duration
  tt_refresh :: duration

definition validateTokenTTLs :: "tokenTTLs \<Rightarrow> bool" where  \<comment> \<open>whether there is no error\<close>
  "validateTokenTTLs ttls \<longleftrightarrow> \<not> tt_access ttls \<le> 0 \<and> \<not> tt_refresh ttls \<le> tt_access ttls"

definition hex_digit :: "nat \<Rightarrow> char" where
  "hex_digit n = (if n < 10 then char_of (48 + n) else char_of (87 + n))"

definition hex_encode :: "string \<Rightarrow> string" where  \<comment> \<open>\<open>hex.EncodeToString\<close>\<close>
  "hex_encode bs = concat (map (\<lambda>b. [hex_digit (of_char b div 16), hex_digit (of_char b mod 16)]) bs)"

definition newJTI :: "string option \<Rightarrow> string option" where  \<comment> \<open>of 16 random bytes\<close>
  "newJTI rnd = map_option hex_encode rnd"

definition hashAPIKey :: "Crypto \<Rightarrow> string \<Rightarrow> string" where
  "hashAPIKey C raw = hex_encode (cr_SHA256 C raw)"

definition generateAPIKey :: "string option \<Rightarrow> string option" where  \<comment> \<open>of 32 random bytes\<close>
  "generateAPIKey rnd = map_option hex_encode rnd"

definition hashRefreshToken :: "Crypto \<Rightarrow> string \<Rightarrow> string" where
  "hashRefreshToken C token = hashAPIKey C token"

definition newRefreshTokenValue :: "string option \<Rightarrow> string option" where
  "newRefreshTokenValue rnd = generateAPIKey rnd"

text \<open>A number in a claim.\<close>

definition jnum :: "int \<Rightarrow> json" where
  "jnum n = JNum (Num (real_of_int n))"

definition session_claims :: "int \<Rightarrow> string \<Rightarrow> string \<Rightarrow> string \<Rightarrow> duration \<Rightarrow> gotime \<Rightarrow> MapClaims" where
  "session_claims uid email role jti ttl now =
     [''sub'' \<mapsto> JStr (fmt_d uid), ''email'' \<mapsto> JStr email, ''role'' \<mapsto> JStr role, ''jti'' \<mapsto> JStr jti,
      ''exp'' \<mapsto> jnum (unix_of (time_add now ttl)), ''iat'' \<mapsto> jnum (unix_of now), ''iss'' \<mapsto> JStr issuer]"

definition generateJWT ::
  "JWT \<Rightarrow> int \<Rightarrow> string \<Rightarrow> string \<Rightarrow> string \<Rightarrow> duration \<Rightarrow> string option \<Rightarrow> gotime \<Rightarrow> string option" where
  "generateJWT J uid email role secret ttl rnd now =
     (case newJTI rnd of
        None \<Rightarrow> None
      | Some jti \<Rightarrow> jw_Sign J (session_claims uid email role jti ttl now) secret)"

definition generateRiderJWT :: "JWT \<Rightarrow> string \<Rightarrow> string \<Rightarrow> duration \<Rightarrow> gotime \<Rightarrow> string option" where
  "generateRiderJWT J riderID secret ttl now =
     jw_Sign J [''sub'' \<mapsto> JStr riderID, ''role'' \<mapsto> JStr roleRider, ''exp'' \<mapsto> jnum (unix_of (time_add now ttl)),
                ''iat'' \<mapsto> jnum (unix_of now), ''iss'' \<mapsto> JStr issuer] secret"

definition session_options :: parse_options where
  "session_options = \<lparr>po_Methods = [''HS256''], po_Issuer = issuer, po_ExpirationRequired = True\<rparr>"

definition session_key :: "string \<Rightarrow> signing_method \<Rightarrow> string option" where
  "session_key secret m = (case m of HMAC _ \<Rightarrow> Some secret | OtherMethod _ \<Rightarrow> None)"

definition parseSessionToken :: "JWT \<Rightarrow> string \<Rightarrow> gotime \<Rightarrow> string \<Rightarrow> MapClaims option" where
  "parseSessionToken J secret now tokenString =
     (case jw_Parse J (session_key secret) session_options now tokenString of
        None \<Rightarrow> None
      | Some t \<Rightarrow>
          (if \<not> to_Valid t then None
           else case to_Claims t of AsMap claims \<Rightarrow> Some claims | OtherClaims \<Rightarrow> None))"

section \<open>Middleware\<close>

type_synonym checker = "string \<Rightarrow> (StoreError + bool) call"

definition checkRevoked :: "MapClaims \<Rightarrow> checker \<Rightarrow> (StoreError + bool) call" where
  "checkRevoked claims checker =
     (let jti = str_claim claims ''jti'' in if jti = [] then answer (Inr False) else checker jti)"

definition missing_header :: "'a answer" where
  "missing_header = HErr 401 ''missing or invalid authorization header''"

text \<open>The token a request presents, \<open>None\<close> where the header or the cookie is missing or malformed.\<close>

definition presented_token :: "bool \<Rightarrow> http_request \<Rightarrow> string option" where
  "presented_token allowCookie r =
     (if hr_Authorization r = [] \<and> allowCookie then
        (case hr_SessionCookie r of None \<Rightarrow> None | Some v \<Rightarrow> if v = [] then None else Some v)
      else if has_prefix ''Bearer '' (hr_Authorization r) then Some (drop 7 (hr_Authorization r))
      else None)"

definition requireRoles ::
  "JWT \<Rightarrow> string \<Rightarrow> checker \<Rightarrow> bool \<Rightarrow> string list \<Rightarrow> gotime \<Rightarrow> http_request \<Rightarrow> ('a answer + MapClaims) call" where
  "requireRoles J secret checker allowCookie roles now r =
     (case presented_token allowCookie r of
        None \<Rightarrow> answer (Inl missing_header)
      | Some tokenString \<Rightarrow>
          (case parseSessionToken J secret now tokenString of
             None \<Rightarrow> answer (Inl (HErr 401 ''invalid token''))
           | Some claims \<Rightarrow>
               (if str_claim claims ''role'' \<notin> set roles then answer (Inl (HErr 403 ''forbidden''))
                else serve (checkRevoked claims checker) (\<lambda>res.
                  case res of
                    Inl e \<Rightarrow> answer (Inl (HErr 500 ''internal server error''))
                  | Inr revoked \<Rightarrow>
                      (if revoked then answer (Inl (HErr 401 ''invalid token'')) else answer (Inr claims))))))"

definition requireAuth ::
  "JWT \<Rightarrow> string \<Rightarrow> checker \<Rightarrow> gotime \<Rightarrow> http_request \<Rightarrow> ('a answer + MapClaims) call" where
  "requireAuth J secret checker now r = requireRoles J secret checker True staffRoles now r"

definition requireRider ::
  "JWT \<Rightarrow> string \<Rightarrow> checker \<Rightarrow> gotime \<Rightarrow> http_request \<Rightarrow> ('a answer + MapClaims) call" where
  "requireRider J secret checker now r = requireRoles J secret checker False [roleRider] now r"

text \<open>The claims in the context of a request, if a middleware stored any.\<close>

definition requireAdmin :: "MapClaims option \<Rightarrow> 'a answer option" where  \<comment> \<open>\<open>None\<close>: the next handler runs\<close>
  "requireAdmin ctx =
     (case ctx of
        None \<Rightarrow> Some (HErr 401 ''unauthorized'')
      | Some claims \<Rightarrow>
          (case claims ''role'' of
             Some (JStr role) \<Rightarrow> if role \<noteq> roleAdmin then Some (HErr 403 ''admin access required'') else None
           | _ \<Rightarrow> Some (HErr 403 ''admin access required'')))"

definition riderIDFromContext :: "MapClaims option \<Rightarrow> string option" where
  "riderIDFromContext ctx =
     (case ctx of
        None \<Rightarrow> None
      | Some claims \<Rightarrow>
          (if str_claim claims ''role'' \<noteq> roleRider then None
           else if str_claim claims ''sub'' = [] then None
           else Some (str_claim claims ''sub'')))"

definition userIDFromClaims :: "MapClaims option \<Rightarrow> 'a answer + int" where
  "userIDFromClaims ctx =
     (case ctx of
        None \<Rightarrow> Inl (HErr 500 ''internal server error'')
      | Some claims \<Rightarrow>
          (if str_claim claims ''sub'' = [] then Inl (HErr 401 ''invalid token: missing subject'')
           else case parse_int64 (str_claim claims ''sub'') of
                  None \<Rightarrow> Inl (HErr 401 ''invalid token: invalid subject'')
                | Some i \<Rightarrow> Inr i))"

definition adminClaimsFromCookie ::
  "JWT \<Rightarrow> string \<Rightarrow> checker \<Rightarrow> gotime \<Rightarrow> http_request \<Rightarrow> MapClaims option call" where
  "adminClaimsFromCookie J secret checker now r =
     (case hr_SessionCookie r of
        None \<Rightarrow> answer None
      | Some v \<Rightarrow>
          (if v = [] then answer None
           else case parseSessionToken J secret now v of
                  None \<Rightarrow> answer None
                | Some claims \<Rightarrow>
                    serve (checkRevoked claims checker) (\<lambda>res.
                      case res of
                        Inl e \<Rightarrow> answer None
                      | Inr revoked \<Rightarrow>
                          (if revoked then answer None
                           else if str_claim claims ''role'' \<noteq> roleAdmin then answer None
                           else answer (Some claims)))))"

text \<open>The guard of an admin page redirects (303) to the sign-in page.\<close>

definition requireAdminPage ::
  "JWT \<Rightarrow> string \<Rightarrow> checker \<Rightarrow> gotime \<Rightarrow> http_request \<Rightarrow> (string answer + MapClaims) call" where
  "requireAdminPage J secret checker now r =
     serve (adminClaimsFromCookie J secret checker now r) (\<lambda>res.
       case res of None \<Rightarrow> answer (Inl (HOk 303 ''/admin/login'')) | Some claims \<Rightarrow> answer (Inr claims))"

section \<open>Signing out\<close>

type_synonym revoker = "string \<Rightarrow> int \<Rightarrow> gotime \<Rightarrow> (StoreError + unit) call"
type_synonym deleter = "int \<Rightarrow> (StoreError + unit) call"

definition handleLogout :: "JWT \<Rightarrow> revoker \<Rightarrow> deleter \<Rightarrow> MapClaims option \<Rightarrow> unit answer call" where
  "handleLogout J revoke delete ctx =
     (case ctx of
        None \<Rightarrow> answer (HErr 401 ''unauthorized'')
      | Some claims \<Rightarrow>
          (case jw_Subject J claims of
             None \<Rightarrow> answer (HErr 401 ''invalid token'')
           | Some sub \<Rightarrow>
               (case parse_int64 sub of
                  None \<Rightarrow> answer (HErr 401 ''invalid token'')
                | Some userID \<Rightarrow>
                    serve (delete userID) (\<lambda>deleted.
                      case deleted of
                        Inl e \<Rightarrow> answer (HErr 500 ''internal server error'')
                      | Inr _ \<Rightarrow>
                          (let jti = str_claim claims ''jti'' in
                           if jti = [] then answer (HOk 204 ())
                           else case jw_Expiration J claims of
                                  Some (Some expiresAt) \<Rightarrow>
                                    serve (revoke jti userID expiresAt) (\<lambda>revoked.
                                      case revoked of
                                        Inl e \<Rightarrow> answer (HErr 500 ''internal server error'')
                                      | Inr _ \<Rightarrow> answer (HOk 204 ()))
                                | _ \<Rightarrow> answer (HErr 401 ''invalid token''))))))"

definition revokeSessionCookie ::
  "JWT \<Rightarrow> string \<Rightarrow> revoker \<Rightarrow> gotime \<Rightarrow> http_request \<Rightarrow> unit call" where
  "revokeSessionCookie J secret revoke now r =
     (case hr_SessionCookie r of
        None \<Rightarrow> answer ()
      | Some v \<Rightarrow>
          (if v = [] then answer ()
           else case parseSessionToken J secret now v of
                  None \<Rightarrow> answer ()
                | Some claims \<Rightarrow>
                    (let jti = str_claim claims ''jti'' in
                     if jti = [] then answer ()
                     else case jw_Subject J claims of
                            None \<Rightarrow> answer ()
                          | Some sub \<Rightarrow>
                              (case parse_int64 sub of
                                 None \<Rightarrow> answer ()
                               | Some userID \<Rightarrow>
                                   (case jw_Expiration J claims of
                                      Some (Some expiresAt) \<Rightarrow> serve (revoke jti userID expiresAt) (\<lambda>_. answer ())
                                    | _ \<Rightarrow> answer ())))))"

section \<open>Signing in\<close>

record LoginRequest =
  lq_Email :: string
  lq_Password :: string

record LoginResponse =
  ls_Token :: string
  ls_AccessToken :: string
  ls_RefreshToken :: string
  ls_ExpiresIn :: int

definition whole_seconds :: "duration \<Rightarrow> int" where  \<comment> \<open>\<open>int(d.Seconds())\<close>\<close>
  "whole_seconds d = (if 0 \<le> d then d div nano else - ((- d) div nano))"

definition newLoginResponse :: "string \<Rightarrow> string \<Rightarrow> duration \<Rightarrow> LoginResponse" where
  "newLoginResponse accessToken refreshToken accessTTL =
     \<lparr>ls_Token = accessToken, ls_AccessToken = accessToken, ls_RefreshToken = refreshToken,
      ls_ExpiresIn = whole_seconds accessTTL\<rparr>"

definition issueRefreshToken :: "Crypto \<Rightarrow> int \<Rightarrow> duration \<Rightarrow> string option \<Rightarrow> gotime \<Rightarrow> (StoreError + string) call" where
  "issueRefreshToken C userID ttl rnd now =
     (case newRefreshTokenValue rnd of
        None \<Rightarrow> answer (Inl (Internal ''generate api key''))
      | Some tok \<Rightarrow>
          serve (Store_CreateRefreshToken (hashRefreshToken C tok) userID (time_add now ttl) now) (\<lambda>res.
            case res of Inl e \<Rightarrow> answer (Inl e) | Inr _ \<Rightarrow> answer (Inr tok)))"

text \<open>The random bytes one request draws: for the identifier of the access token and for the refresh token.\<close>

record randomness =
  rd_JTI :: "string option"
  rd_Refresh :: "string option"

definition bad_credentials :: "'a answer" where
  "bad_credentials = HErr 401 ''invalid email or password''"

definition server_error :: "'a answer" where
  "server_error = HErr 500 ''internal server error''"

definition grant_session ::
  "JWT \<Rightarrow> Crypto \<Rightarrow> string \<Rightarrow> tokenTTLs \<Rightarrow> randomness \<Rightarrow> gotime \<Rightarrow> UserRow \<Rightarrow> LoginResponse answer call" where
  "grant_session J C secret ttls rnd now user =
     (case generateJWT J (u_ID user) (u_Email user) (u_Role user) secret (tt_access ttls) (rd_JTI rnd) now of
        None \<Rightarrow> answer server_error
      | Some accessToken \<Rightarrow>
          serve (issueRefreshToken C (u_ID user) (tt_refresh ttls) (rd_Refresh rnd) now) (\<lambda>res.
            case res of
              Inl e \<Rightarrow> answer server_error
            | Inr refreshToken \<Rightarrow> answer (HOk 200 (newLoginResponse accessToken refreshToken (tt_access ttls)))))"

text \<open>The limiter may be absent; a request that gets past it returns with it.\<close>

definition handleLogin ::
  "JWT \<Rightarrow> Crypto \<Rightarrow> string \<Rightarrow> tokenTTLs \<Rightarrow> bool \<Rightarrow> randomness \<Rightarrow> gotime \<Rightarrow> http_request \<Rightarrow> LoginRequest body
     \<Rightarrow> LoginRateLimiter option \<Rightarrow> net \<times> Database
     \<Rightarrow> LoginResponse answer \<times> LoginRateLimiter option \<times> net \<times> Database" where
  "handleLogin J C secret ttls trustProxy rnd now r body limiter st =
     (case body of
        Decoded req _ \<Rightarrow>
          (if lq_Email req = [] \<or> lq_Password req = [] then (HErr 400 ''email and password are required'', limiter, st)
           else
             let ip = clientIP r trustProxy;
                 (limiter', allowed) = (case limiter of
                                          None \<Rightarrow> (None, True)
                                        | Some l \<Rightarrow> (case Login_Allow ip (lq_Email req) now l of (l', ok) \<Rightarrow> (Some l', ok)))
             in if \<not> allowed then (HErr 429 ''too many attempts'', limiter', st)
                else
                  (case Store_GetUserByEmail (lq_Email req) st of
                     (Inl e, st') \<Rightarrow> ((if e = ErrUserNotFound then bad_credentials else server_error), limiter', st')
                   | (Inr user, st') \<Rightarrow>
                       (case cr_Compare C (u_PasswordHash user) (lq_Password req) of
                          Mismatch \<Rightarrow> (bad_credentials, limiter', st')
                        | BadHash \<Rightarrow> (server_error, limiter', st')
                        | Match \<Rightarrow>
                            (if \<not> u_Active user then (bad_credentials, limiter', st')
                             else
                               let limiter'' = map_option (RecordSuccess ip (lq_Email req)) limiter'
                               in case grant_session J C secret ttls rnd now user st' of
                                    (ans, st'') \<Rightarrow> (ans, limiter'', st'')))))
      | _ \<Rightarrow> (HErr 400 ''invalid request body'', limiter, st))"

section \<open>Refreshing\<close>

definition invalid_refresh :: "'a answer" where
  "invalid_refresh = HErr 401 ''invalid or expired refresh token''"

definition revoke_family :: "int \<Rightarrow> 'a answer call" where
  "revoke_family userID =
     serve (Store_DeleteRefreshTokensForUser userID) (\<lambda>res.
       case res of Inl e \<Rightarrow> answer server_error | Inr _ \<Rightarrow> answer invalid_refresh)"

definition exchange ::
  "JWT \<Rightarrow> Crypto \<Rightarrow> string \<Rightarrow> tokenTTLs \<Rightarrow> randomness \<Rightarrow> gotime \<Rightarrow> RefreshToken \<Rightarrow> LoginResponse answer call" where
  "exchange J C secret ttls rnd now stored =
     serve (Store_GetUser (rf_UserID stored)) (\<lambda>res.
       case res of
         Inl e \<Rightarrow> answer (if e = ErrUserNotFound then invalid_refresh else server_error)
       | Inr user \<Rightarrow>
           (if \<not> us_Active user then answer invalid_refresh
            else case newRefreshTokenValue (rd_Refresh rnd) of
                   None \<Rightarrow> answer server_error
                 | Some newRefresh \<Rightarrow>
                     serve (Store_RotateRefreshToken (rf_ID stored) (hashRefreshToken C newRefresh) (rf_UserID stored)
                              (time_add now (tt_refresh ttls)) now) (\<lambda>rotated.
                       case rotated of
                         Inl e \<Rightarrow> answer server_error
                       | Inr ok \<Rightarrow>
                           (if \<not> ok then revoke_family (rf_UserID stored)
                            else case generateJWT J (us_ID user) (us_Email user) (us_Role user) secret
                                        (tt_access ttls) (rd_JTI rnd) now of
                                   None \<Rightarrow> answer server_error
                                 | Some accessToken \<Rightarrow>
                                     answer (HOk 200 (newLoginResponse accessToken newRefresh (tt_access ttls)))))))"

text \<open>\<open>body\<close> carries the \<open>refresh_token\<close> field; a body over the limit is a decoding error here.\<close>

definition handleRefreshToken ::
  "JWT \<Rightarrow> Crypto \<Rightarrow> string \<Rightarrow> tokenTTLs \<Rightarrow> bool \<Rightarrow> randomness \<Rightarrow> gotime \<Rightarrow> http_request \<Rightarrow> string body
     \<Rightarrow> RefreshRateLimiter option \<Rightarrow> net \<times> Database
     \<Rightarrow> LoginResponse answer \<times> RefreshRateLimiter option \<times> net \<times> Database" where
  "handleRefreshToken J C secret ttls trustProxy rnd now r body limiter st =
     (if \<not> is_json (hr_MediaType r) then (HErr 415 content_type_message, limiter, st)
      else
        case strict_body (HErr 400 ''invalid JSON: http: request body too large'') body of
          Inl bad \<Rightarrow> (bad, limiter, st)
        | Inr tok \<Rightarrow>
            (if tok = [] then (HErr 400 ''refresh_token is required'', limiter, st)
             else
               let ip = clientIP r trustProxy;
                   (limiter', allowed) = (case limiter of
                                            None \<Rightarrow> (None, True)
                                          | Some l \<Rightarrow> (case Refresh_Allow ip now l of (l', ok) \<Rightarrow> (Some l', ok)))
               in if \<not> allowed then (HErr 429 ''too many attempts'', limiter', st)
                  else
                    (case serve (Store_GetRefreshToken (hashRefreshToken C tok)) (\<lambda>res.
                            case res of
                              Inl e \<Rightarrow> answer (if e = ErrRefreshTokenNotFound then invalid_refresh else server_error)
                            | Inr stored \<Rightarrow>
                                (if rf_UsedAt stored \<noteq> None then revoke_family (rf_UserID stored)
                                 else if \<not> now < rf_ExpiresAt stored then answer invalid_refresh
                                 else exchange J C secret ttls rnd now stored)) st of
                       (ans, st') \<Rightarrow> (ans, limiter', st'))))"

section \<open>Middleware admits valid tokens that are not revoked\<close>

lemma IsTokenRevoked_run:
  "Store_IsTokenRevoked jti (net, d) =
     (if fst (next_trip net) = Committed then Inr (jti \<in> rv_Jti ` set (db_revoked_tokens d)) else Inl (Wrapped Unreachable),
      snd (next_trip net), d)"
  by (auto simp: Store_IsTokenRevoked_def and_then_def exec_def db_IsTokenRevoked_def answer_def list_ex_key
      split: prod.splits commit.splits)

definition not_revoked :: "MapClaims \<Rightarrow> net \<times> Database \<Rightarrow> bool" where
  "not_revoked claims st \<longleftrightarrow> str_claim claims ''jti'' = []
     \<or> fst (next_trip (fst st)) = Committed \<and> str_claim claims ''jti'' \<notin> rv_Jti ` set (db_revoked_tokens (snd st))"

lemma checkRevoked_False:
  "fst (checkRevoked claims Store_IsTokenRevoked st) = Inr False \<longleftrightarrow> not_revoked claims st"
  by (cases st) (auto simp: checkRevoked_def answer_def not_revoked_def IsTokenRevoked_run Let_def)

lemma requireRoles_Inr:
  "fst (requireRoles J secret Store_IsTokenRevoked allowCookie roles now r st) = Inr claims \<longleftrightarrow>
     (\<exists>tok. presented_token allowCookie r = Some tok \<and> parseSessionToken J secret now tok = Some claims
        \<and> str_claim claims ''role'' \<in> set roles \<and> not_revoked claims st)"
  by (auto simp: requireRoles_def answer_def serve_def simp flip: checkRevoked_False
      split: option.splits prod.splits sum.splits if_splits)

lemma checkRevoked_reads: "snd (snd (checkRevoked claims Store_IsTokenRevoked (net, d))) = d"
  by (simp add: checkRevoked_def answer_def IsTokenRevoked_run Let_def)

text \<open>
  C15: a request reaches the handlers behind \<open>requireRoles\<close> exactly when the token it presents (in the
  header, or in the cookie where there is no header and cookies are accepted) validates, its role is one
  of the roles admitted, and, unless it is a token without an identifier, the database answered that its
  identifier is not on the list of revoked tokens; it fails closed where the database does not answer. A request
  that is turned away gets 403 exactly when its token is valid and its role is not admitted, and 401 or 500
  otherwise, and the database is only read.
\<close>

theorem requireRoles_admits_iff:
  "(fst (requireRoles J secret Store_IsTokenRevoked allowCookie roles now r (net, d)) = Inr claims \<longleftrightarrow>
     (\<exists>tok. presented_token allowCookie r = Some tok \<and> parseSessionToken J secret now tok = Some claims
        \<and> str_claim claims ''role'' \<in> set roles \<and> not_revoked claims (net, d)))
   \<and> (case fst (requireRoles J secret Store_IsTokenRevoked allowCookie roles now r (net, d)) of
        Inl a \<Rightarrow> status_of a \<in> {401, 403, 500}
          \<and> (status_of a = 403) = (\<exists>tok cs. presented_token allowCookie r = Some tok
               \<and> parseSessionToken J secret now tok = Some cs \<and> str_claim cs ''role'' \<notin> set roles)
      | Inr _ \<Rightarrow> True)
   \<and> snd (snd (requireRoles J secret Store_IsTokenRevoked allowCookie roles now r (net, d))) = d"
proof -
  have "snd (snd (requireRoles J secret Store_IsTokenRevoked allowCookie roles now r (net, d))) = d"
    using checkRevoked_reads [of _ net d]
    by (auto simp: requireRoles_def answer_def serve_def split: option.splits prod.splits sum.splits) (metis snd_conv)+
  moreover have "case fst (requireRoles J secret Store_IsTokenRevoked allowCookie roles now r (net, d)) of
      Inl a \<Rightarrow> status_of a \<in> {401, 403, 500}
        \<and> (status_of a = 403) = (\<exists>tok cs. presented_token allowCookie r = Some tok
             \<and> parseSessionToken J secret now tok = Some cs \<and> str_claim cs ''role'' \<notin> set roles)
    | Inr _ \<Rightarrow> True"
    by (auto simp: requireRoles_def answer_def serve_def missing_header_def split: option.splits prod.splits sum.splits)
  ultimately show ?thesis
    by (simp only: requireRoles_Inr)
qed

lemma checkRevoked_True:
  "fst (checkRevoked claims Store_IsTokenRevoked st) = Inr True \<Longrightarrow> \<not> not_revoked claims st"
  using checkRevoked_False [of claims st] by auto

lemma adminClaims_iff:
  "fst (adminClaimsFromCookie J secret Store_IsTokenRevoked now r st) = Some claims \<longleftrightarrow>
     (\<exists>v. hr_SessionCookie r = Some v \<and> v \<noteq> [] \<and> parseSessionToken J secret now v = Some claims
        \<and> str_claim claims ''role'' = roleAdmin \<and> not_revoked claims st)"
  by (auto simp: adminClaimsFromCookie_def answer_def serve_def simp flip: checkRevoked_False
      split: option.splits prod.splits sum.splits if_splits)

text \<open>
  The two ways into the server agree. For a request without an Authorization header, the guard of
  the admin pages finds a session exactly when the middleware of the API, asked for the role admin, admits
  the same request, and then with the same claims.
\<close>

lemma cookie_path_agrees:
  "hr_Authorization r = [] \<Longrightarrow>
     fst (adminClaimsFromCookie J secret Store_IsTokenRevoked now r st) = Some claims \<longleftrightarrow>
     fst (requireRoles J secret Store_IsTokenRevoked True [roleAdmin] now r st) = Inr claims"
  unfolding adminClaims_iff requireRoles_Inr presented_token_def by (auto split: option.splits)

section \<open>Signing out is final\<close>

text \<open>What the middleware and the sign-out handler promise each other through the list of revocations.\<close>

locale revocation_list =
  fixes revoke :: "string \<Rightarrow> int \<Rightarrow> gotime \<Rightarrow> gotime \<Rightarrow> (StoreError + unit) call"
    and is_revoked :: checker
    and listed :: "string \<Rightarrow> Database \<Rightarrow> bool"
  assumes revoke_records: "revoke jti uid expiresAt now (net, d) = (Inr (), net', d') \<Longrightarrow> listed jti d'"
    and listed_stays: "db_step d d' \<Longrightarrow> listed jti d \<Longrightarrow> listed jti d'"
    and is_revoked_answers: "is_revoked jti (net, d) = (Inr b, net', d') \<Longrightarrow> b = listed jti d"
begin

lemma listed_forever: "db_step\<^sup>*\<^sup>* d d' \<Longrightarrow> listed jti d \<Longrightarrow> listed jti d'"
  by (induction rule: rtranclp_induct) (auto intro: listed_stays)

lemma listed_not_passed:
  "listed (str_claim claims ''jti'') d \<Longrightarrow> str_claim claims ''jti'' \<noteq> []
     \<Longrightarrow> fst (checkRevoked claims is_revoked (net, d)) \<noteq> Inr False"
  using is_revoked_answers by (cases "is_revoked (str_claim claims ''jti'') (net, d)") (auto simp: checkRevoked_def Let_def)

lemma listed_refused:
  assumes "listed (str_claim claims ''jti'') d" "str_claim claims ''jti'' \<noteq> []"
  shows "fst (requireRoles J secret is_revoked allowCookie roles now r (net, d)) \<noteq> Inr claims"
    and "fst (adminClaimsFromCookie J secret is_revoked now r (net, d)) \<noteq> Some claims"
  using listed_not_passed [OF assms, of net]
  by (auto simp: requireRoles_def adminClaimsFromCookie_def answer_def serve_def
      split: option.splits prod.splits sum.splits if_splits)

lemma logout_lists:
  assumes "handleLogout J (\<lambda>jti uid e. revoke jti uid e now) delete (Some claims) (net, d) = (HOk 204 (), net', d')"
    and "str_claim claims ''jti'' \<noteq> []"
  shows "listed (str_claim claims ''jti'') d'"
  using assms revoke_records
  by (auto simp: handleLogout_def answer_def serve_def Let_def split: option.splits prod.splits sum.splits if_splits)

end

interpretation stored_revocations: revocation_list Store_RevokeToken Store_IsTokenRevoked
  "\<lambda>jti d. jti \<in> rv_Jti ` set (db_revoked_tokens d)"
proof
  show "jti \<in> rv_Jti ` set (db_revoked_tokens d')"
    if "Store_RevokeToken jti uid expiresAt now (net, d) = (Inr (), net', d')" for jti uid expiresAt now net d net' d'
    using that unfolding Store_RevokeToken_def
    by (auto simp: answer_def db_RevokeToken_def list_ex_key elim!: and_then_Inr dest!: exec_Inr split: if_splits)
  show "jti \<in> rv_Jti ` set (db_revoked_tokens d')"
    if "db_step d d'" "jti \<in> rv_Jti ` set (db_revoked_tokens d)" for jti d d'
    using step_token_history [OF that(1)] that(2) by (auto simp: token_history_def)
  show "b = (jti \<in> rv_Jti ` set (db_revoked_tokens d))"
    if "Store_IsTokenRevoked jti (net, d) = (Inr b, net', d')" for jti net d b net' d'
    using that by (auto simp: IsTokenRevoked_run split: if_splits)
qed

text \<open>
  C16: once signing out has been answered with 204, the token (if it has an identifier) is refused by the
  middleware of the API, whatever roles it asks for, and by the admin pages, for ever after: no statement
  run since takes it off the list, and a database that does not answer refuses it as well.
\<close>

theorem logged_out_token_refused:
  assumes "handleLogout J (\<lambda>jti uid e. Store_RevokeToken jti uid e now) Store_DeleteRefreshTokensForUser (Some claims)
       (net, d) = (HOk 204 (), net', d')"
    and "str_claim claims ''jti'' \<noteq> []" and "db_step\<^sup>*\<^sup>* d' d''"
  shows "fst (requireRoles J secret Store_IsTokenRevoked allowCookie roles later r (net'', d'')) \<noteq> Inr claims
     \<and> fst (adminClaimsFromCookie J secret Store_IsTokenRevoked later r (net'', d'')) \<noteq> Some claims"
  using stored_revocations.listed_forever [OF assms(3) stored_revocations.logout_lists [OF assms(1,2)]]
    stored_revocations.listed_refused assms(2) by blast

text \<open>Claims of a signed-in user, and a library that reads them.\<close>

definition sample_claims :: MapClaims where
  "sample_claims = session_claims 1 ''a@b'' ''driver'' ''00ff'' hour 0"

definition sample_JWT :: JWT where
  "sample_JWT =
     \<lparr>jw_Parse = (\<lambda>key po now tok.
        if tok = ''t'' \<and> key (HMAC ''HS256'') = Some ''k'' \<and> po_Issuer po = issuer \<and> now < time_unix (unix_of hour)
        then Some \<lparr>to_Valid = True, to_Claims = AsMap sample_claims\<rparr> else None),
      jw_Sign = (\<lambda>claims key. if claims = sample_claims \<and> key = ''k'' then Some ''t'' else None),
      jw_Subject = (\<lambda>claims. Some (str_claim claims ''sub'')),
      jw_Expiration = (\<lambda>claims. case claims ''exp'' of
         Some (JNum (Num x)) \<Rightarrow> Some (Some (time_unix \<lfloor>x\<rfloor>)) | Some _ \<Rightarrow> None | None \<Rightarrow> Some None)\<rparr>"

lemma char_of_49: "char_of (49 :: nat) = CHR ''1''"
  by code_simp

lemma sample_claims_simps [simp]:
  "str_claim sample_claims ''jti'' = ''00ff''" "str_claim sample_claims ''sub'' = ''1''"
  "str_claim sample_claims ''role'' = ''driver''" "sample_claims ''exp'' = Some (jnum (unix_of hour))"
  "sample_claims ''iss'' = Some (JStr issuer)"
  by (simp_all add: sample_claims_def session_claims_def str_claim_def fmt_d_def decimal.simps time_add_def char_of_49)

theorem logged_out_token_refused_witness:
  "\<exists>u d net' d'. db_CreateUser ''Ann'' ''a@b'' ''hash'' ''driver'' 5 empty_db = Inr (u, d)
     \<and> handleLogout sample_JWT (\<lambda>jti uid e. Store_RevokeToken jti uid e 7) Store_DeleteRefreshTokensForUser
         (Some sample_claims) ([], d) = (HOk 204 (), net', d')
     \<and> (\<forall>r. fst (requireRoles sample_JWT ''k'' Store_IsTokenRevoked True staffRoles 8 r ([], d')) \<noteq> Inr sample_claims)"
proof -
  obtain u d where u: "db_CreateUser ''Ann'' ''a@b'' ''hash'' ''driver'' 5 empty_db = Inr (u, d)"
    and d: "u_ID u = 1" "db_users d = [u]" "db_refresh_tokens d = []" "db_revoked_tokens d = []"
    by (auto simp: db_CreateUser_def empty_db_def user_role_ok_def Let_def)
  obtain net' d' where run: "handleLogout sample_JWT (\<lambda>jti uid e. Store_RevokeToken jti uid e 7) Store_DeleteRefreshTokensForUser
      (Some sample_claims) ([], d) = (HOk 204 (), net', d')"
    using d
    by (auto simp: handleLogout_def sample_JWT_def parse_int64_def is_digit_def digit_val_def jnum_def serve_def answer_def
        Store_DeleteRefreshTokensForUser_def returning_def in_tx_def begin_tx_def exec_def next_trip_def and_then_def
        db_LockUser_def read_one_def one_row_def db_DeleteRefreshTokensForUser_def Store_RevokeToken_def db_RevokeToken_def)
  then show ?thesis
    using u logged_out_token_refused [OF run] by fastforce
qed

section \<open>A token the server issued\<close>

text \<open>
  The documented behaviour of the JWT library that sessions rest on: a token it signed with HS256 is parsed
  back to its claims under the same key while it has not expired, for a caller that accepts HS256 and expects
  the issuer it names; a numeric \<open>exp\<close> claim is read as seconds; and an expired token is an error.
\<close>

definition jwt_contract :: "JWT \<Rightarrow> bool" where
  "jwt_contract J \<longleftrightarrow>
     (\<forall>claims key tok keyfunc po now e.
        jw_Sign J claims key = Some tok \<longrightarrow> keyfunc (HMAC ''HS256'') = Some key \<longrightarrow> ''HS256'' \<in> set (po_Methods po)
        \<longrightarrow> claims ''iss'' = Some (JStr (po_Issuer po)) \<longrightarrow> jw_Expiration J claims = Some (Some e) \<longrightarrow> now < e
        \<longrightarrow> jw_Parse J keyfunc po now tok = Some \<lparr>to_Valid = True, to_Claims = AsMap claims\<rparr>)
     \<and> (\<forall>claims n. claims ''exp'' = Some (jnum n) \<longrightarrow> jw_Expiration J claims = Some (Some (time_unix n)))
     \<and> (\<forall>keyfunc po now tok t claims.
        jw_Parse J keyfunc po now tok = Some t \<longrightarrow> to_Claims t = AsMap claims \<longrightarrow> po_ExpirationRequired po
        \<longrightarrow> (\<exists>e. jw_Expiration J claims = Some (Some e) \<and> now < e))"

lemma session_claims_simps [simp]:
  "str_claim (session_claims uid email role jti ttl now) ''role'' = role"
  "str_claim (session_claims uid email role jti ttl now) ''jti'' = jti"
  "str_claim (session_claims uid email role jti ttl now) ''sub'' = fmt_d uid"
  "session_claims uid email role jti ttl now ''iss'' = Some (JStr issuer)"
  "session_claims uid email role jti ttl now ''exp'' = Some (jnum (unix_of (time_add now ttl)))"
  by (simp_all add: session_claims_def str_claim_def)

lemma parse_issued:
  assumes "jwt_contract J" "jw_Sign J (session_claims uid email role jti ttl now0) secret = Some tok"
  shows "now < time_unix (unix_of (time_add now0 ttl))
      \<Longrightarrow> parseSessionToken J secret now tok = Some (session_claims uid email role jti ttl now0)"
  using assms unfolding jwt_contract_def parseSessionToken_def
  by (fastforce simp: session_key_def session_options_def)

lemma parse_unexpired:
  assumes "jwt_contract J" "parseSessionToken J secret now tok = Some claims"
  shows "\<exists>e. jw_Expiration J claims = Some (Some e) \<and> now < e"
proof -
  obtain t where "jw_Parse J (session_key secret) session_options now tok = Some t" "to_Claims t = AsMap claims"
    using assms(2) unfolding parseSessionToken_def by (auto split: option.splits if_splits token_claims.splits)
  then show ?thesis
    using assms(1) unfolding jwt_contract_def by (metis parse_options.select_convs(3) session_options_def)
qed

lemma fmt_d_nonempty [simp]: "fmt_d n \<noteq> []"
  using decimal_nonempty by (simp add: fmt_d_def)

text \<open>
  The access token of a session does what it was issued for. Until the second in which it expires, a
  request that carries it as a bearer token passes the middleware for the role it was issued for, while its
  identifier is not on the list of revocations and the database answers, and the handlers behind it read
  the id of the account it was issued to out of its claims; from that second on no role admits it.
\<close>

theorem issued_token_admitted:
  assumes "jwt_contract J" and issued: "generateJWT J uid email role secret ttl (Some bytes) now0 = Some tok"
    and bearer: "hr_Authorization r = ''Bearer '' @ tok" and uid: "min_int64 \<le> uid" "uid \<le> max_int64"
    and claims: "claims = session_claims uid email role (hex_encode bytes) ttl now0"
  shows "(now < time_unix (unix_of (time_add now0 ttl)) \<and> role \<in> set roles \<and> not_revoked claims st
        \<longrightarrow> fst (requireRoles J secret Store_IsTokenRevoked allowCookie roles now r st) = Inr claims)
     \<and> userIDFromClaims (Some claims) = Inr uid
     \<and> (time_unix (unix_of (time_add now0 ttl)) \<le> now
        \<longrightarrow> fst (requireRoles J secret Store_IsTokenRevoked allowCookie roles now r st) \<noteq> Inr claims)"
proof -
  have sign: "jw_Sign J claims secret = Some tok"
    using issued claims by (simp add: generateJWT_def newJTI_def)
  have token: "presented_token allowCookie r = Some tok"
    using bearer by (simp add: presented_token_def)
  have exp: "jw_Expiration J claims = Some (Some (time_unix (unix_of (time_add now0 ttl))))"
    using assms(1) claims unfolding jwt_contract_def by (metis session_claims_simps(5))
  have "userIDFromClaims (Some claims) = Inr uid"
    using uid claims by (simp add: userIDFromClaims_def parse_fmt)
  moreover have "fst (requireRoles J secret Store_IsTokenRevoked allowCookie roles now r st) = Inr claims"
    if "now < time_unix (unix_of (time_add now0 ttl))" "role \<in> set roles" "not_revoked claims st"
    using that token claims parse_issued [OF assms(1)] sign by (simp add: requireRoles_Inr)
  moreover have "fst (requireRoles J secret Store_IsTokenRevoked allowCookie roles now r st) \<noteq> Inr claims"
    if "time_unix (unix_of (time_add now0 ttl)) \<le> now"
    using that exp parse_unexpired [OF assms(1), of secret now _ claims] by (fastforce simp: requireRoles_Inr)
  ultimately show ?thesis
    by blast
qed

lemma sample_contract: "jwt_contract sample_JWT"
  unfolding jwt_contract_def sample_JWT_def by (auto simp: jnum_def split: if_splits)

lemma sample_bytes: "hex_encode [CHR 0x00, CHR 0xFF] = ''00ff''"
  by code_simp

lemma sample_issued: "generateJWT sample_JWT 1 ''a@b'' ''driver'' ''k'' hour (Some [CHR 0x00, CHR 0xFF]) 0 = Some ''t''"
  using sample_bytes by (simp add: generateJWT_def newJTI_def sample_JWT_def sample_claims_def)

definition sample_request :: http_request where
  "sample_request = \<lparr>hr_ForwardedFor = [], hr_ForwardedProto = [], hr_RemoteAddr = ''10.0.0.1:80'', hr_TLS = False,
     hr_Authorization = ''Bearer t'', hr_SessionCookie = None, hr_APIKey = [], hr_MediaType = None\<rparr>"

theorem issued_token_admitted_witness:
  "fst (requireRoles sample_JWT ''k'' Store_IsTokenRevoked True staffRoles 0 sample_request ([], empty_db)) = Inr sample_claims
     \<and> userIDFromClaims (Some sample_claims) = Inr 1"
proof -
  have "hr_Authorization sample_request = ''Bearer '' @ ''t''"
    by (simp add: sample_request_def)
  note issued_token_admitted [OF sample_contract sample_issued this, where now = 0 and roles = staffRoles
      and st = "([], empty_db)" and allowCookie = True and claims = sample_claims]
  moreover have "not_revoked sample_claims ([], empty_db)"
    by (simp add: not_revoked_def next_trip_def empty_db_def)
  moreover have "0 < time_unix (unix_of (time_add 0 hour))"
    by (simp add: time_unix_def unix_of_def wrap64_def time_add_def time_units unix_to_internal_def)
  ultimately show ?thesis
    using sample_bytes by (simp add: sample_claims_def staffRoles_def roleDriver_def int64_defs)
qed

section \<open>Sessions are granted to whom they belong\<close>

lemma GetUserByEmail_Inr:
  "Store_GetUserByEmail email (net, d) = (Inr u, net', d') \<Longrightarrow> d' = d \<and> u \<in> set (db_users d) \<and> u_Email u = email"
  by (auto simp: Store_GetUserByEmail_def answer_def read_one_def one_row_def filter_eq_Cons_iff
      elim!: and_then_Inr dest!: exec_Inr split: list.splits)

lemma GetUserByEmail_same: "Store_GetUserByEmail email (net, d) = (x, net', d') \<Longrightarrow> d' = d"
  by (auto simp: Store_GetUserByEmail_def answer_def read_one_def elim!: and_then_cases exec_cases split: sum.splits)

text \<open>The row a session leaves in the table of refresh tokens.\<close>

definition session_row :: "Crypto \<Rightarrow> string \<Rightarrow> int \<Rightarrow> duration \<Rightarrow> gotime \<Rightarrow> Database \<Rightarrow> RefreshTokenRow" where
  "session_row C tok uid ttl now d =
     \<lparr>rt_ID = db_serial d, rt_TokenHash = hashRefreshToken C tok, rt_UserID = uid, rt_ExpiresAt = time_add now ttl,
      rt_UsedAt = None, rt_CreatedAt = now\<rparr>"

lemma grant_session_OK:
  assumes "grant_session J C secret ttls rnd now u (net, d) = (HOk n resp, net', d')"
  shows "n = 200 \<and> generateJWT J (u_ID u) (u_Email u) (u_Role u) secret (tt_access ttls) (rd_JTI rnd) now = Some (ls_AccessToken resp)
     \<and> ls_Token resp = ls_AccessToken resp
     \<and> d' = d\<lparr>db_refresh_tokens := db_refresh_tokens d @ [session_row C (ls_RefreshToken resp) (u_ID u) (tt_refresh ttls) now d],
              db_serial := db_serial d + 1\<rparr>"
  using assms
  by (auto simp: grant_session_def issueRefreshToken_def Store_CreateRefreshToken_def serve_def answer_def server_error_def
      newLoginResponse_def session_row_def db_CreateRefreshToken_def
      elim!: and_then_cases dest!: exec_Inr split: option.splits prod.splits sum.splits if_splits)

text \<open>
  Signing in answers 200 only to somebody who named the e-mail address of an active account and
  its password, and whom the limiter let through; the access token is then the one generated for that
  account with its stored role, and the refresh token is stored, by its hash alone, for that account
  with the configured lifetime, next to the tokens it already has.
\<close>

theorem login_grants_owner:
  assumes "handleLogin J C secret ttls trustProxy rnd now r body limiter (net, d) = (HOk n resp, limiter', net', d')"
  shows "\<exists>req rest u. body = Decoded req rest \<and> u \<in> set (db_users d) \<and> u_Email u = lq_Email req \<and> u_Active u
     \<and> cr_Compare C (u_PasswordHash u) (lq_Password req) = Match
     \<and> (\<forall>l. limiter = Some l \<longrightarrow> snd (Login_Allow (clientIP r trustProxy) (lq_Email req) now l))
     \<and> generateJWT J (u_ID u) (u_Email u) (u_Role u) secret (tt_access ttls) (rd_JTI rnd) now = Some (ls_AccessToken resp)
     \<and> d' = d\<lparr>db_refresh_tokens := db_refresh_tokens d @ [session_row C (ls_RefreshToken resp) (u_ID u) (tt_refresh ttls) now d],
              db_serial := db_serial d + 1\<rparr>"
proof (cases body)
  case (Decoded req rest)
  then obtain u net1 st2 where
      user: "Store_GetUserByEmail (lq_Email req) (net, d) = (Inr u, net1, st2)"
    and grant: "grant_session J C secret ttls rnd now u (net1, st2) = (HOk n resp, net', d')"
    and "u_Active u" "cr_Compare C (u_PasswordHash u) (lq_Password req) = Match"
    and "\<forall>l. limiter = Some l \<longrightarrow> snd (Login_Allow (clientIP r trustProxy) (lq_Email req) now l)"
    using assms by (auto simp: handleLogin_def Let_def bad_credentials_def server_error_def
        split: if_splits option.splits prod.splits sum.splits comparison_result.splits)
  moreover have "st2 = d" "u \<in> set (db_users d)" "u_Email u = lq_Email req"
    using GetUserByEmail_Inr [OF user] by auto
  ultimately show ?thesis
    using Decoded grant_session_OK [of J C secret ttls rnd now u net1 d n resp net' d'] by blast
qed (use assms in \<open>auto simp: handleLogin_def\<close>)

text \<open>A password library for the witnesses: a hash is the password with a prefix.\<close>

definition sample_Crypto :: Crypto where
  "sample_Crypto = \<lparr>cr_Compare = (\<lambda>hash pw. if hash = ''h:'' @ pw then Match else Mismatch), cr_SHA256 = (\<lambda>s. s)\<rparr>"

definition sample_ttls :: tokenTTLs where
  "sample_ttls = \<lparr>tt_access = hour, tt_refresh = 24 * hour\<rparr>"

definition sample_randomness :: randomness where
  "sample_randomness = \<lparr>rd_JTI = Some [CHR 0x00, CHR 0xFF], rd_Refresh = Some ''r''\<rparr>"

lemma hex_r: "hex_encode ''r'' = ''72''" "hex_encode ''72'' = ''3732''"
  by code_simp+

theorem login_grants_owner_witness:
  "\<exists>u d resp net' d'. db_CreateUser ''Ann'' ''a@b'' ''h:pw'' ''driver'' 5 empty_db = Inr (u, d)
     \<and> handleLogin sample_JWT sample_Crypto ''k'' sample_ttls False sample_randomness 0 sample_request
         (Decoded \<lparr>lq_Email = ''a@b'', lq_Password = ''pw''\<rparr> NoMore) None ([], d) = (HOk 200 resp, None, net', d')
     \<and> db_refresh_tokens d' = [session_row sample_Crypto ''72'' 1 (24 * hour) 0 d]"
proof -
  obtain u d where u: "db_CreateUser ''Ann'' ''a@b'' ''h:pw'' ''driver'' 5 empty_db = Inr (u, d)"
    and d: "u_ID u = 1" "u_Email u = ''a@b''" "u_PasswordHash u = ''h:pw''" "u_Role u = ''driver''" "u_Active u"
      "db_users d = [u]" "db_refresh_tokens d = []"
    by (auto simp: db_CreateUser_def empty_db_def user_role_ok_def Let_def)
  obtain resp net' d' where run: "handleLogin sample_JWT sample_Crypto ''k'' sample_ttls False sample_randomness 0 sample_request
      (Decoded \<lparr>lq_Email = ''a@b'', lq_Password = ''pw''\<rparr> NoMore) None ([], d) = (HOk 200 resp, None, net', d')"
    and refresh: "ls_RefreshToken resp = ''72''"
    using d hex_r sample_issued
    by (auto simp: handleLogin_def Store_GetUserByEmail_def and_then_def exec_def next_trip_def answer_def read_one_def
        one_row_def sample_Crypto_def grant_session_def sample_randomness_def sample_ttls_def issueRefreshToken_def serve_def
        newRefreshTokenValue_def generateAPIKey_def Store_CreateRefreshToken_def db_CreateRefreshToken_def
        hashRefreshToken_def hashAPIKey_def newLoginResponse_def)
  from login_grants_owner [OF run] refresh d have "db_refresh_tokens d' = [session_row sample_Crypto ''72'' 1 (24 * hour) 0 d]"
    by (auto simp: sample_ttls_def)
  then show ?thesis
    using u run by blast
qed

section \<open>Refreshing hands out one new session for one unused token\<close>

lemma GetRefreshToken_Inr:
  "Store_GetRefreshToken h (net, d) = (Inr t, net', d') \<Longrightarrow> d' = d \<and> (\<exists>row \<in> set (db_refresh_tokens d).
     rt_TokenHash row = h \<and> t = \<lparr>rf_ID = rt_ID row, rf_UserID = rt_UserID row, rf_ExpiresAt = rt_ExpiresAt row,
                   rf_UsedAt = rt_UsedAt row, rf_CreatedAt = rt_CreatedAt row\<rparr>)"
  by (auto simp: Store_GetRefreshToken_def answer_def db_GetRefreshTokenByHash_def read_one_def one_row_def
      filter_eq_Cons_iff elim!: and_then_Inr dest!: exec_Inr split: list.splits)

lemma GetUser_Inr:
  "Store_GetUser i (net, d) = (Inr u, net', d') \<Longrightarrow>
     d' = d \<and> (\<exists>row \<in> set (db_users d). u_ID row = i \<and> u = user_response row)"
  by (auto simp: Store_GetUser_def answer_def db_GetUserByID_def read_one_def one_row_def filter_eq_Cons_iff
      elim!: and_then_Inr dest!: exec_Inr split: list.splits)

lemma revoke_family_refuses [simp]: "revoke_family uid st \<noteq> (HOk n x, st')"
  by (auto simp: revoke_family_def answer_def server_error_def invalid_refresh_def elim!: serve_cases split: sum.splits)

lemma revoke_family_cases:
  assumes "revoke_family uid (net, d) = (ans, net', d')"
  shows "ans = server_error \<or> ans = invalid_refresh \<and> Store_DeleteRefreshTokensForUser uid (net, d) = (Inr (), net', d')"
  using assms by (auto simp: revoke_family_def answer_def elim!: serve_cases split: sum.splits)

lemma exchange_OK:
  assumes "exchange J C secret ttls rnd now t (net, d) = (HOk n resp, net', d')"
  shows "(\<exists>u \<in> set (db_users d). u_ID u = rf_UserID t \<and> u_Active u
       \<and> generateJWT J (u_ID u) (u_Email u) (u_Role u) secret (tt_access ttls) (rd_JTI rnd) now = Some (ls_AccessToken resp))
     \<and> unused (rf_ID t) d
     \<and> d' = rotated (rf_ID t) (hashRefreshToken C (ls_RefreshToken resp)) (rf_UserID t) (time_add now (tt_refresh ttls)) now d"
proof -
  obtain user net1 st1 rt net2 st2 where
      user: "Store_GetUser (rf_UserID t) (net, d) = (Inr user, net1, st1)" and active: "us_Active user"
    and rot: "Store_RotateRefreshToken (rf_ID t) (hashRefreshToken C rt) (rf_UserID t) (time_add now (tt_refresh ttls)) now
        (net1, st1) = (Inr True, net2, st2)"
    and access: "generateJWT J (us_ID user) (us_Email user) (us_Role user) secret (tt_access ttls) (rd_JTI rnd) now = Some (ls_AccessToken resp)"
    and "ls_RefreshToken resp = rt" "d' = st2"
    using assms unfolding exchange_def
    by (auto simp: answer_def server_error_def invalid_refresh_def newLoginResponse_def
        elim!: serve_cases split: sum.splits option.splits if_splits)
  moreover from GetUser_Inr [OF user] have "st1 = d" by simp
  ultimately show ?thesis
    using GetUser_Inr [OF user] rotated_True [of "rf_ID t" _ "rf_UserID t" _ now net1 d net2 st2] by (auto simp: user_response_def)
qed

text \<open>
  Refreshing answers 200 only to a request that presents a stored token which has never been used and
  has not expired, of an account that is still active; exactly that token is then used up, and the answer
  carries an access token for that account and the one new refresh token stored in its place.
\<close>

theorem refresh_exchanges_unused:
  assumes "handleRefreshToken J C secret ttls trustProxy rnd now r body limiter (net, d) = (HOk n resp, limiter', net', d')"
  shows "\<exists>tok row u. body = Decoded tok NoMore \<and> row \<in> set (db_refresh_tokens d) \<and> rt_TokenHash row = hashRefreshToken C tok
     \<and> rt_UsedAt row = None \<and> now < rt_ExpiresAt row
     \<and> u \<in> set (db_users d) \<and> u_ID u = rt_UserID row \<and> u_Active u
     \<and> generateJWT J (u_ID u) (u_Email u) (u_Role u) secret (tt_access ttls) (rd_JTI rnd) now = Some (ls_AccessToken resp)
     \<and> d' = rotated (rt_ID row) (hashRefreshToken C (ls_RefreshToken resp)) (rt_UserID row) (time_add now (tt_refresh ttls)) now d"
proof -
  obtain tok t net1 st1 where body: "body = Decoded tok NoMore"
    and get: "Store_GetRefreshToken (hashRefreshToken C tok) (net, d) = (Inr t, net1, st1)"
    and t: "rf_UsedAt t = None" "now < rf_ExpiresAt t"
    and run: "exchange J C secret ttls rnd now t (net1, st1) = (HOk n resp, net', d')"
    using assms unfolding handleRefreshToken_def strict_body_def Let_def
    by (auto simp: answer_def server_error_def invalid_refresh_def
        elim!: serve_cases split: if_splits option.splits prod.splits sum.splits body.splits rest.splits)
  have st1: "st1 = d"
    using GetRefreshToken_Inr [OF get] by simp
  obtain row where "row \<in> set (db_refresh_tokens d)" "rt_TokenHash row = hashRefreshToken C tok"
    "rf_ID t = rt_ID row" "rf_UserID t = rt_UserID row" "rf_ExpiresAt t = rt_ExpiresAt row" "rf_UsedAt t = rt_UsedAt row"
    using GetRefreshToken_Inr [OF get] by auto
  then show ?thesis
    using body t exchange_OK [OF run [unfolded st1]] by auto
qed

lemma GetRefreshToken_finds:
  assumes "db_ok d" "row \<in> set (db_refresh_tokens d)" "rt_TokenHash row = h"
  shows "Store_GetRefreshToken h (net, d) =
     (if fst (next_trip net) = Committed
      then Inr \<lparr>rf_ID = rt_ID row, rf_UserID = rt_UserID row, rf_ExpiresAt = rt_ExpiresAt row,
                rf_UsedAt = rt_UsedAt row, rf_CreatedAt = rt_CreatedAt row\<rparr>
      else Inl (Wrapped Unreachable), snd (next_trip net), d)"
proof -
  have "unique rt_TokenHash (db_refresh_tokens d)"
    using assms(1) by (simp add: ok_defs refresh_ok_def)
  then obtain rs where "filter (\<lambda>r. rt_TokenHash r = h) (db_refresh_tokens d) = row # rs"
    using assms(2,3) unique_eq [of rt_TokenHash "db_refresh_tokens d"]
    by (cases "filter (\<lambda>r. rt_TokenHash r = h) (db_refresh_tokens d)") (auto simp: filter_empty_conv filter_eq_Cons_iff)
  then show ?thesis
    by (auto simp: Store_GetRefreshToken_def and_then_def exec_def db_GetRefreshTokenByHash_def read_one_def one_row_def
        answer_def no_rows_as_def split: prod.splits commit.splits)
qed

text \<open>
  C18: a refresh token presented a second time costs its owner every session. The caller is told what any
  caller with a bad token is told, and by then no refresh token of the account is left; where the
  database fails on the way, the answer is a server error instead, so that the caller tries again.
\<close>

theorem replay_ends_all_sessions:
  assumes "db_reachable d" "row \<in> set (db_refresh_tokens d)" "rt_TokenHash row = hashRefreshToken C tok"
    and "rt_UsedAt row \<noteq> None" "is_json (hr_MediaType r)" "tok \<noteq> []"
    and "limiter = None \<or> snd (Refresh_Allow (clientIP r trustProxy) now (the limiter))"
    and run: "handleRefreshToken J C secret ttls trustProxy rnd now r (Decoded tok NoMore) limiter (net, d) = (ans, limiter', net', d')"
  shows "ans = invalid_refresh \<and> sessions_ended (rt_UserID row) d d' \<or> ans = server_error"
proof -
  have ok: "db_ok d" by (rule reachable_ok) fact
  have "ans = server_error \<or> (\<exists>net1. revoke_family (rt_UserID row) (net1, d) = (ans, net', d'))"
    using run assms(4-7) GetRefreshToken_finds [OF ok assms(2,3), of net]
    by (auto simp: handleRefreshToken_def strict_body_def answer_def
        elim!: serve_cases split: option.splits prod.splits if_splits)
  then show ?thesis
    using Delete_ends_sessions [OF ok, of "rt_UserID row"] revoke_family_cases by blast
qed

text \<open>A driver with one refresh token, and a request that may refresh.\<close>

definition sample_user :: UserRow where
  "sample_user = \<lparr>u_ID = 1, u_Name = ''Ann'', u_Email = ''a@b'', u_PasswordHash = ''h:pw'', u_Role = ''driver'',
     u_Active = True, u_CreatedAt = 5, u_UpdatedAt = 5\<rparr>"

definition sample_refresh_row :: RefreshTokenRow where
  "sample_refresh_row = \<lparr>rt_ID = 2, rt_TokenHash = ''72'', rt_UserID = 1, rt_ExpiresAt = 100, rt_UsedAt = None, rt_CreatedAt = 6\<rparr>"

definition sample_db :: Database where
  "sample_db = empty_db\<lparr>db_users := [sample_user], db_refresh_tokens := [sample_refresh_row], db_serial := 3\<rparr>"

lemma sample_db_fields [simp]:
  "db_users sample_db = [sample_user]" "db_refresh_tokens sample_db = [sample_refresh_row]" "db_serial sample_db = 3"
  by (simp_all add: sample_db_def)

lemma sample_db_reachable: "db_reachable sample_db"
proof -
  have "db_CreateUser ''Ann'' ''a@b'' ''h:pw'' ''driver'' 5 empty_db
      = Inr (sample_user, empty_db\<lparr>db_users := [sample_user], db_serial := 2\<rparr>)"
    by (simp add: db_CreateUser_def empty_db_def user_role_ok_def sample_user_def Let_def)
  moreover have "db_CreateRefreshToken ''72'' 1 100 6 (empty_db\<lparr>db_users := [sample_user], db_serial := 2\<rparr>)
      = Inr ((), sample_db)"
    by (simp add: db_CreateRefreshToken_def sample_db_def empty_db_def sample_user_def sample_refresh_row_def)
  ultimately show ?thesis
    by (meson reach_empty reach_step CreateUser_step CreateRefreshToken_step)
qed

definition json_request :: http_request where
  "json_request = sample_request\<lparr>hr_MediaType := Some ''application/json''\<rparr>"

lemma json_request_ok: "is_json (hr_MediaType json_request)"
  unfolding json_request_def is_json_def by simp code_simp

lemma sample_hash: "hashRefreshToken sample_Crypto ''r'' = ''72''" "hashRefreshToken sample_Crypto ''72'' = ''3732''"
  using hex_r by (simp_all add: hashRefreshToken_def hashAPIKey_def sample_Crypto_def)

lemmas run_calls = serve_def and_then_def exec_def next_trip_def answer_def read_one_def one_row_def returning_def in_tx_def
  begin_tx_def

theorem refresh_exchanges_unused_witness:
  "\<exists>resp net' d'. handleRefreshToken sample_JWT sample_Crypto ''k'' sample_ttls False sample_randomness 0 json_request
       (Decoded ''r'' NoMore) None ([], sample_db) = (HOk 200 resp, None, net', d')
     \<and> d' = rotated 2 ''3732'' 1 (24 * hour) 0 sample_db"
proof -
  obtain resp net' d' where run: "handleRefreshToken sample_JWT sample_Crypto ''k'' sample_ttls False sample_randomness 0
      json_request (Decoded ''r'' NoMore) None ([], sample_db) = (HOk 200 resp, None, net', d')"
    and refresh: "ls_RefreshToken resp = ''72''"
    using json_request_ok sample_hash hex_r sample_issued
    by (auto simp: handleRefreshToken_def strict_body_def run_calls Store_GetRefreshToken_def db_GetRefreshTokenByHash_def
        sample_refresh_row_def exchange_def Store_GetUser_def db_GetUserByID_def sample_user_def user_response_def
        newRefreshTokenValue_def generateAPIKey_def sample_randomness_def sample_ttls_def Store_RotateRefreshToken_def
        rotate_body_def db_LockUser_def db_MarkRefreshTokenUsed_def count_rows_def update_rows_def db_CreateRefreshToken_def
        newLoginResponse_def)
  from refresh_exchanges_unused [OF run] refresh sample_hash have "d' = rotated 2 ''3732'' 1 (24 * hour) 0 sample_db"
    by (auto simp: sample_refresh_row_def sample_ttls_def time_add_def)
  then show ?thesis
    using run by blast
qed

definition spent_db :: Database where
  "spent_db = rotated 2 ''3732'' 1 200 7 sample_db"

lemma spent_db_reachable: "db_reachable spent_db"
proof -
  obtain n d1 where mark: "db_MarkRefreshTokenUsed 2 7 sample_db = Inr (n, d1)"
    and create: "db_CreateRefreshToken ''3732'' 1 200 7 d1 = Inr ((), spent_db)"
    by (simp add: db_MarkRefreshTokenUsed_def db_CreateRefreshToken_def spent_db_def rotated_def update_rows_def
        sample_refresh_row_def sample_user_def Let_def)
  show ?thesis
    by (rule reach_step [OF reach_step [OF sample_db_reachable MarkRefreshTokenUsed_step [OF mark]]
          CreateRefreshToken_step [OF create]])
qed

theorem replay_ends_all_sessions_witness:
  "\<exists>ans limiter' net' d'. handleRefreshToken sample_JWT sample_Crypto ''k'' sample_ttls False sample_randomness 8 json_request
       (Decoded ''r'' NoMore) None ([], spent_db) = (ans, limiter', net', d')
     \<and> (ans = invalid_refresh \<and> sessions_ended 1 spent_db d' \<or> ans = server_error)"
proof -
  obtain ans limiter' net' d' where run: "handleRefreshToken sample_JWT sample_Crypto ''k'' sample_ttls False sample_randomness 8
      json_request (Decoded ''r'' NoMore) None ([], spent_db) = (ans, limiter', net', d')"
    by (metis prod_cases4)
  let ?row = "sample_refresh_row\<lparr>rt_UsedAt := Some 7\<rparr>"
  have row: "?row \<in> set (db_refresh_tokens spent_db)"
    by (simp add: spent_db_def rotated_def update_rows_def sample_refresh_row_def)
  have "rt_TokenHash ?row = hashRefreshToken sample_Crypto ''r''" "rt_UsedAt ?row \<noteq> None" "rt_UserID ?row = 1" "''r'' \<noteq> []"
    using sample_hash by (simp_all add: sample_refresh_row_def)
  from replay_ends_all_sessions [OF spent_db_reachable row this(1,2) json_request_ok this(4) _ run] this(3)
  show ?thesis
    using run by auto
qed

end
