(* ===== verification/ApiKeys.thy ===== *)
theory ApiKeys
  imports Auth
begin

text \<open>
  The keys of the feed: \<open>src/api_key.go\<close>, \<open>src/store_api_keys.go\<close>, the middleware of
  \<open>src/api_key_auth.go\<close> with its memory of recently validated keys, and the admin handlers of
  \<open>src/api_key_handlers.go\<close>. A lookup that times out is a round trip that fails.
\<close>

section \<open>The store\<close>

record APIKey =
  ky_ID :: int
  ky_Name :: string
  ky_KeyHash :: string
  ky_Active :: bool
  ky_LastUsedAt :: "gotime option"
  ky_CreatedAt :: gotime
  ky_UpdatedAt :: gotime

definition toAPIKey :: "ApiKeyRow \<Rightarrow> APIKey" where
  "toAPIKey row =
     \<lparr>ky_ID = ak_ID row, ky_Name = ak_Name row, ky_KeyHash = ak_KeyHash row, ky_Active = ak_Active row,
      ky_LastUsedAt = ak_LastUsedAt row, ky_CreatedAt = ak_CreatedAt row, ky_UpdatedAt = ak_UpdatedAt row\<rparr>"

definition Store_GetAPIKeyByHash :: "string \<Rightarrow> (StoreError + APIKey) call" where
  "Store_GetAPIKeyByHash keyHash =
     and_then (exec (db_GetAPIKeyByHash keyHash)) (no_rows_as ErrAPIKeyNotFound) (\<lambda>row. answer (Inr (toAPIKey row)))"

definition Store_UpdateAPIKeyLastUsed :: "int \<Rightarrow> gotime \<Rightarrow> (StoreError + unit) call" where
  "Store_UpdateAPIKeyLastUsed i now = and_then (exec (db_UpdateAPIKeyLastUsed i now)) Wrapped (\<lambda>_. answer (Inr ()))"

definition Store_CreateAPIKey :: "string \<Rightarrow> string \<Rightarrow> gotime \<Rightarrow> (StoreError + APIKey) call" where
  "Store_CreateAPIKey name keyHash now =
     and_then (exec (db_CreateAPIKey name keyHash now)) Wrapped (\<lambda>row. answer (Inr (toAPIKey row)))"

definition Store_ListAPIKeys :: "(StoreError + APIKey list) call" where
  "Store_ListAPIKeys = and_then (exec db_ListAPIKeys) Wrapped (\<lambda>rows. answer (Inr (map toAPIKey rows)))"

definition Store_DeactivateAPIKey :: "int \<Rightarrow> gotime \<Rightarrow> (StoreError + unit) call" where
  "Store_DeactivateAPIKey i now =
     and_then (exec (db_DeactivateAPIKey i now)) Wrapped (\<lambda>rows.
       answer (if rows = 0 then Inl ErrAPIKeyNotFound else Inr ()))"

section \<open>The middleware\<close>

definition apiKeyGrace :: duration where "apiKeyGrace = 15 * minute"

record validatedAPIKeys =
  va_at :: "string \<rightharpoonup> gotime"
  va_grace :: duration

definition newValidatedAPIKeys :: "duration \<Rightarrow> validatedAPIKeys" where
  "newValidatedAPIKeys grace = \<lparr>va_at = Map.empty, va_grace = grace\<rparr>"

definition record_key :: "string \<Rightarrow> gotime \<Rightarrow> validatedAPIKeys \<Rightarrow> validatedAPIKeys" where
  "record_key hash now v = v\<lparr>va_at := (va_at v)(hash \<mapsto> now)\<rparr>"

definition forget :: "string \<Rightarrow> validatedAPIKeys \<Rightarrow> validatedAPIKeys" where
  "forget hash v = v\<lparr>va_at := (va_at v)(hash := None)\<rparr>"

definition recent :: "string \<Rightarrow> gotime \<Rightarrow> validatedAPIKeys \<Rightarrow> bool" where
  "recent hash now v \<longleftrightarrow> (case va_at v hash of None \<Rightarrow> False | Some t \<Rightarrow> time_sub now t < va_grace v)"

text \<open>\<open>None\<close> in the answer: the feed is served.\<close>

definition requireAPIKeyWith ::
  "Crypto \<Rightarrow> gotime \<Rightarrow> http_request \<Rightarrow> validatedAPIKeys \<Rightarrow> net \<times> Database
     \<Rightarrow> unit answer option \<times> validatedAPIKeys \<times> net \<times> Database" where
  "requireAPIKeyWith C now r v st =
     (if hr_APIKey r = [] then (Some (HErr 401 ''missing API key''), v, st)
      else
        let hash = hashAPIKey C (hr_APIKey r) in
        case Store_GetAPIKeyByHash hash st of
          (Inl e, st') \<Rightarrow>
            (if e = ErrAPIKeyNotFound then (Some (HErr 401 ''invalid API key''), forget hash v, st')
             else if recent hash now v then (None, v, st')
             else (Some (HErr 500 ''internal server error''), v, st'))
        | (Inr key, st') \<Rightarrow>
            (if \<not> ky_Active key then (Some (HErr 401 ''inactive API key''), forget hash v, st')
             else (None, record_key hash now v, snd (Store_UpdateAPIKeyLastUsed (ky_ID key) now st'))))"

section \<open>The admin handlers\<close>

definition validate_key_name :: "string \<Rightarrow> string option" where  \<comment> \<open>the error, if any\<close>
  "validate_key_name name =
     (if name = [] then Some ''name is required''
      else if length name > maxFieldLength then Some ''name must be at most 255 characters''
      else None)"

definition handleListAPIKeys :: "APIKey list answer call" where
  "handleListAPIKeys =
     serve Store_ListAPIKeys (\<lambda>res. answer (case res of Inl e \<Rightarrow> server_error | Inr keys \<Rightarrow> HOk 200 keys))"

definition too_large :: "'a answer" where
  "too_large = HErr 413 ''request body too large''"

text \<open>The response carries the raw key, next to the row.\<close>

definition handleCreateAPIKey ::
  "Crypto \<Rightarrow> string option \<Rightarrow> gotime \<Rightarrow> http_request \<Rightarrow> string body \<Rightarrow> (APIKey \<times> string) answer call" where
  "handleCreateAPIKey C rnd now r body =
     (if \<not> is_json (hr_MediaType r) then answer (HErr 415 content_type_message)
      else case strict_body too_large body of
             Inl bad \<Rightarrow> answer bad
           | Inr name \<Rightarrow>
               (case validate_key_name name of
                  Some msg \<Rightarrow> answer (HErr 400 msg)
                | None \<Rightarrow>
                    (case generateAPIKey rnd of
                       None \<Rightarrow> answer server_error
                     | Some rawKey \<Rightarrow>
                         serve (Store_CreateAPIKey name (hashAPIKey C rawKey) now) (\<lambda>res.
                           answer (case res of Inl e \<Rightarrow> server_error | Inr key \<Rightarrow> HOk 201 (key, rawKey))))))"

text \<open>\<open>i\<close> is the path's \<open>id\<close>.\<close>

definition handleDeactivateAPIKey :: "string \<Rightarrow> gotime \<Rightarrow> unit answer call" where
  "handleDeactivateAPIKey i now =
     (case parse_int64 i of
        None \<Rightarrow> answer (HErr 400 ''invalid api key id'')
      | Some n \<Rightarrow>
          (if n \<le> 0 then answer (HErr 400 ''invalid api key id'')
           else serve (Store_DeactivateAPIKey n now) (\<lambda>res.
             answer (case res of
                       Inl e \<Rightarrow> if e = ErrAPIKeyNotFound then HErr 404 ''api key not found'' else server_error
                     | Inr _ \<Rightarrow> HOk 204 ()))))"

section \<open>Which requests the feed is served to\<close>

text \<open>
  One request to the feed, with what the network does to it and the database it finds, which may be
  any other than the last request left: keys are created and revoked, and the server shares it.
\<close>

record key_request =
  kq_now :: gotime
  kq_http :: http_request
  kq_net :: net
  kq_db :: Database

definition kq_hash :: "Crypto \<Rightarrow> key_request \<Rightarrow> string" where
  "kq_hash C q = hashAPIKey C (hr_APIKey (kq_http q))"

datatype verdict = Confirmed | Refuted | Unknown

definition key_verdict :: "Crypto \<Rightarrow> key_request \<Rightarrow> verdict" where
  "key_verdict C q =
     (if fst (next_trip (kq_net q)) \<noteq> Committed then Unknown
      else case filter (\<lambda>k. ak_KeyHash k = kq_hash C q) (db_api_keys (kq_db q)) of
             [] \<Rightarrow> Refuted
           | k # _ \<Rightarrow> if ak_Active k then Confirmed else Refuted)"

definition feed_request :: "Crypto \<Rightarrow> key_request \<Rightarrow> validatedAPIKeys \<Rightarrow> bool \<times> validatedAPIKeys" where
  "feed_request C q v =
     (case requireAPIKeyWith C (kq_now q) (kq_http q) v (kq_net q, kq_db q) of (ans, v', _) \<Rightarrow> (ans = None, v'))"

definition after_requests :: "Crypto \<Rightarrow> key_request list \<Rightarrow> validatedAPIKeys" where
  "after_requests C qs = fold (\<lambda>q v. snd (feed_request C q v)) qs (newValidatedAPIKeys apiKeyGrace)"

lemma GetAPIKey_verdict:
  "fst (Store_GetAPIKeyByHash (kq_hash C q) (kq_net q, kq_db q)) =
     (if fst (next_trip (kq_net q)) \<noteq> Committed then Inl (Wrapped Unreachable)
      else case filter (\<lambda>k. ak_KeyHash k = kq_hash C q) (db_api_keys (kq_db q)) of
             [] \<Rightarrow> Inl ErrAPIKeyNotFound | k # _ \<Rightarrow> Inr (toAPIKey k))"
  by (auto simp: Store_GetAPIKeyByHash_def run_calls db_GetAPIKeyByHash_def no_rows_as_def next_trip_def
      split: prod.splits commit.splits sum.splits list.splits)

lemma feed_request_verdict:
  "feed_request C q v =
     (if hr_APIKey (kq_http q) = [] then (False, v)
      else case key_verdict C q of
             Confirmed \<Rightarrow> (True, record_key (kq_hash C q) (kq_now q) v)
           | Refuted \<Rightarrow> (False, forget (kq_hash C q) v)
           | Unknown \<Rightarrow> (recent (kq_hash C q) (kq_now q) v, v))"
proof (cases "Store_GetAPIKeyByHash (kq_hash C q) (kq_net q, kq_db q)")
  case (fields res net' d')
  then show ?thesis
    using GetAPIKey_verdict [of C q]
    by (auto simp: feed_request_def requireAPIKeyWith_def key_verdict_def kq_hash_def toAPIKey_def Let_def
        split: list.splits if_splits)
qed

definition confirms :: "Crypto \<Rightarrow> string \<Rightarrow> key_request \<Rightarrow> bool" where
  "confirms C h q \<longleftrightarrow> hr_APIKey (kq_http q) \<noteq> [] \<and> kq_hash C q = h \<and> key_verdict C q = Confirmed"

definition refutes :: "Crypto \<Rightarrow> string \<Rightarrow> key_request \<Rightarrow> bool" where
  "refutes C h q \<longleftrightarrow> hr_APIKey (kq_http q) \<noteq> [] \<and> kq_hash C q = h \<and> key_verdict C q = Refuted"

lemma after_requests_snoc: "after_requests C (qs @ [q]) = snd (feed_request C q (after_requests C qs))"
  by (simp add: after_requests_def)

lemma after_requests_memory:
  "va_grace (after_requests C qs) = apiKeyGrace \<and>
   (va_at (after_requests C qs) h = Some t \<longrightarrow>
     (\<exists>qs1 q qs2. qs = qs1 @ q # qs2 \<and> confirms C h q \<and> kq_now q = t \<and> \<not> list_ex (refutes C h) qs2))"
proof (induction qs arbitrary: t rule: rev_induct)
  case Nil
  then show ?case
    by (simp add: after_requests_def newValidatedAPIKeys_def)
next
  case (snoc q qs)
  show ?case
  proof (cases "confirms C h q")
    case True
    then have "after_requests C (qs @ [q]) = record_key h (kq_now q) (after_requests C qs)"
      by (simp add: after_requests_snoc feed_request_verdict confirms_def)
    moreover have "\<exists>qs1 q' qs2. qs @ [q] = qs1 @ q' # qs2 \<and> confirms C h q' \<and> kq_now q' = kq_now q \<and> \<not> list_ex (refutes C h) qs2"
      using True by (intro exI [of _ qs] exI [of _ q] exI [of _ "[]"]) simp
    ultimately show ?thesis
      using snoc by (auto simp: record_key_def)
  next
    case False
    have "va_at (after_requests C (qs @ [q])) h = Some t
        \<Longrightarrow> va_at (after_requests C qs) h = Some t \<and> \<not> refutes C h q"
      using False by (auto simp: after_requests_snoc feed_request_verdict confirms_def refutes_def record_key_def
          forget_def split: if_splits verdict.splits)
    moreover have "va_grace (after_requests C (qs @ [q])) = apiKeyGrace"
      using snoc by (auto simp: after_requests_snoc feed_request_verdict record_key_def forget_def split: verdict.splits)
    moreover have "\<exists>qs1 q' qs2'. qs @ [q] = qs1 @ q' # qs2' \<and> confirms C h q' \<and> kq_now q' = t \<and> \<not> list_ex (refutes C h) qs2'"
      if mem: "va_at (after_requests C qs) h = Some t" and kept: "\<not> refutes C h q"
    proof -
      obtain qs1 q' qs2 where "qs = qs1 @ q' # qs2" "confirms C h q'" "kq_now q' = t" "\<not> list_ex (refutes C h) qs2"
        using snoc [of t] mem by auto
      then show ?thesis
        using kept by (intro exI [of _ qs1] exI [of _ q'] exI [of _ "qs2 @ [q]"]) simp
    qed
    ultimately show ?thesis
      by blast
  qed
qed

text \<open>
  C34: the feed is served to a request only if the database confirmed, for this very request, that its
  key is stored and active, or if the database could not be asked and had confirmed the same key, less
  than a quarter of an hour before, for an earlier request, since when no request has learnt from the
  database that the key is unknown or revoked. Without a key, and whenever the database answers
  otherwise, it is refused.
\<close>

theorem feed_served_to_confirmed_keys:
  assumes "fst (feed_request C q (after_requests C qs))"
  shows "confirms C (kq_hash C q) q
     \<or> key_verdict C q = Unknown \<and> (\<exists>qs1 q0 qs2. qs = qs1 @ q0 # qs2 \<and> confirms C (kq_hash C q) q0
          \<and> time_sub (kq_now q) (kq_now q0) < apiKeyGrace \<and> \<not> list_ex (refutes C (kq_hash C q)) qs2)"
proof (cases "key_verdict C q")
  case Unknown
  then have "recent (kq_hash C q) (kq_now q) (after_requests C qs)"
    using assms by (auto simp: feed_request_verdict split: if_splits)
  then obtain t where "va_at (after_requests C qs) (kq_hash C q) = Some t" "time_sub (kq_now q) t < apiKeyGrace"
    using after_requests_memory [of C qs "kq_hash C q"] by (auto simp: recent_def split: option.splits)
  then show ?thesis
    using Unknown after_requests_memory [of C qs "kq_hash C q" t] by blast
qed (use assms in \<open>auto simp: feed_request_verdict confirms_def split: if_splits\<close>)

definition sample_feed :: "net \<Rightarrow> gotime \<Rightarrow> key_request" where
  "sample_feed net t =
     \<lparr>kq_now = t, kq_http = sample_request\<lparr>hr_APIKey := ''r''\<rparr>, kq_net = net,
      kq_db = empty_db\<lparr>db_api_keys := [\<lparr>ak_ID = 1, ak_Name = ''OBA'', ak_KeyHash = ''72'', ak_Active = True,
        ak_LastUsedAt = None, ak_CreatedAt = 0, ak_UpdatedAt = 0\<rparr>]\<rparr>\<rparr>"

theorem feed_served_to_confirmed_keys_witness:
  "fst (feed_request sample_Crypto (sample_feed [Failed] 9) (after_requests sample_Crypto [sample_feed [] 8]))
     \<and> (confirms sample_Crypto ''72'' (sample_feed [Failed] 9)
        \<or> key_verdict sample_Crypto (sample_feed [Failed] 9) = Unknown)"
proof -
  have hash: "kq_hash sample_Crypto (sample_feed net t) = ''72''" for net t
    using hex_r by (simp add: kq_hash_def sample_feed_def hashAPIKey_def sample_Crypto_def)
  have served: "fst (feed_request sample_Crypto (sample_feed [Failed] 9) (after_requests sample_Crypto [sample_feed [] 8]))"
    using hash by (simp add: feed_request_verdict after_requests_def key_verdict_def sample_feed_def next_trip_def
        record_key_def recent_def newValidatedAPIKeys_def apiKeyGrace_def time_units time_sub_def int64_defs)
  from feed_served_to_confirmed_keys [OF this] show ?thesis
    using hash served by auto
qed

end
