(* ===== verification/RiderStore.thy ===== *)
theory RiderStore
  imports Tokens Session
begin

text \<open>
  The riders and rides the server stores (\<open>src/rider_store.go\<close>). Ids made with \<open>uuid.NewString\<close> are
  arguments. \<open>FinishRide\<close> and \<open>RecordRidePoints\<close> are transactions; what they do to the rows is
  stated below for every way the round trips may fail.
\<close>

section \<open>Riders and rides\<close>

record Rider =
  ra_ID :: string
  ra_InstallationID :: string
  ra_Platform :: string
  ra_AppID :: string
  ra_AppVersion :: string
  ra_Attested :: bool
  ra_Score :: int
  ra_Tier :: string
  ra_RidesTotal :: int
  ra_RidesCorroborated :: int
  ra_RidesRejected :: int
  ra_CreatedAt :: gotime
  ra_LastSeenAt :: gotime

record Ride =
  ri_ID :: string
  ri_RiderID :: string
  ri_TripID :: string
  ri_StartDate :: string
  ri_RouteID :: string
  ri_VehicleID :: string
  ri_BoardingStopID :: string
  ri_DestinationStopID :: string
  ri_Status :: string
  ri_State :: string
  ri_Corroborated :: bool
  ri_EndReason :: string
  ri_PointsTotal :: int
  ri_PointsMatched :: int
  ri_PointsCorroborated :: int
  ri_PointsContradicted :: int
  ri_StartedAt :: gotime
  ri_EndedAt :: "gotime option"

record RideProgress =
  pr_State :: string
  pr_Corroborated :: bool
  pr_PointsTotal :: int
  pr_PointsMatched :: int
  pr_PointsCorroborated :: int
  pr_PointsContradicted :: int

record RidePointRecord =
  pp_Latitude :: f64
  pp_Longitude :: f64
  pp_Accuracy :: "f64 option"
  pp_Speed :: "f64 option"
  pp_Bearing :: "f64 option"
  pp_Timestamp :: int
  pp_Outcome :: string
  pp_Corroboration :: string
  pp_AlongShape :: f64
  pp_DistanceToShape :: f64
  pp_ScheduleDeviationSeconds :: "int option"

record RideOutcome =
  ro_EndReason :: string
  ro_Progress :: RideProgress
  ro_ScoreDelta :: int
  ro_Rejected :: bool
  ro_Corroborated :: bool

definition riderFromRow :: "RiderRow \<Rightarrow> Rider" where
  "riderFromRow row =
     \<lparr>ra_ID = rr_ID row, ra_InstallationID = rr_InstallationID row, ra_Platform = rr_Platform row,
      ra_AppID = rr_AppID row, ra_AppVersion = rr_AppVersion row, ra_Attested = rr_Attested row,
      ra_Score = rr_Score row, ra_Tier = rr_Tier row, ra_RidesTotal = rr_RidesTotal row,
      ra_RidesCorroborated = rr_RidesCorroborated row, ra_RidesRejected = rr_RidesRejected row,
      ra_CreatedAt = rr_CreatedAt row, ra_LastSeenAt = rr_LastSeenAt row\<rparr>"

definition rideFromRow :: "RideRow \<Rightarrow> Ride" where
  "rideFromRow row =
     \<lparr>ri_ID = rd_ID row, ri_RiderID = rd_RiderID row, ri_TripID = rd_TripID row, ri_StartDate = rd_StartDate row,
      ri_RouteID = rd_RouteID row, ri_VehicleID = rd_VehicleID row, ri_BoardingStopID = rd_BoardingStopID row,
      ri_DestinationStopID = rd_DestinationStopID row, ri_Status = rd_Status row, ri_State = rd_State row,
      ri_Corroborated = rd_Corroborated row, ri_EndReason = rd_EndReason row, ri_PointsTotal = rd_PointsTotal row,
      ri_PointsMatched = rd_PointsMatched row, ri_PointsCorroborated = rd_PointsCorroborated row,
      ri_PointsContradicted = rd_PointsContradicted row, ri_StartedAt = rd_StartedAt row, ri_EndedAt = rd_EndedAt row\<rparr>"

definition optionalInt4 :: "int option \<Rightarrow> int option" where
  "optionalInt4 v = map_option wrap32 v"

definition boolCount :: "bool \<Rightarrow> int" where
  "boolCount v = (if v then 1 else 0)"

text \<open>The counters travel as \<open>int32\<close>.\<close>

definition progress_params :: "RideProgress \<Rightarrow> RideProgressParams" where
  "progress_params p =
     \<lparr>pg_State = pr_State p, pg_Corroborated = pr_Corroborated p, pg_PointsTotal = wrap32 (pr_PointsTotal p),
      pg_PointsMatched = wrap32 (pr_PointsMatched p), pg_PointsCorroborated = wrap32 (pr_PointsCorroborated p),
      pg_PointsContradicted = wrap32 (pr_PointsContradicted p)\<rparr>"

definition point_params :: "string \<Rightarrow> RidePointRecord \<Rightarrow> InsertRidePointParams" where
  "point_params rideID p =
     \<lparr>ip_RideID = rideID, ip_Latitude = pp_Latitude p, ip_Longitude = pp_Longitude p, ip_Accuracy = pp_Accuracy p,
      ip_Speed = pp_Speed p, ip_Bearing = pp_Bearing p, ip_Timestamp = pp_Timestamp p, ip_Outcome = pp_Outcome p,
      ip_Corroboration = pp_Corroboration p, ip_AlongShape = Some (pp_AlongShape p),
      ip_DistanceToShape = Some (pp_DistanceToShape p),
      ip_ScheduleDeviationSeconds = optionalInt4 (pp_ScheduleDeviationSeconds p)\<rparr>"

section \<open>The store\<close>

definition Store_RegisterRider ::
  "string \<Rightarrow> string \<Rightarrow> string \<Rightarrow> string \<Rightarrow> string \<Rightarrow> gotime \<Rightarrow> (StoreError + Rider \<times> bool) call" where
  "Store_RegisterRider uuid installationID platform appID appVersion now =
     and_then (exec (db_UpsertRider uuid installationID platform appID appVersion now)) Wrapped (\<lambda>(row, created).
       answer (Inr (riderFromRow row, created)))"

definition Store_GetRider :: "string \<Rightarrow> (StoreError + Rider) call" where
  "Store_GetRider i =
     and_then (exec (db_GetRider i)) (no_rows_as ErrRiderNotFound) (\<lambda>row. answer (Inr (riderFromRow row)))"

text \<open>The ride is returned as the database made it.\<close>

definition Store_StartRide :: "Ride \<Rightarrow> gotime \<Rightarrow> (StoreError + Ride) call" where
  "Store_StartRide ride now =
     and_then
       (exec (db_InsertRide
          \<lparr>ir_ID = ri_ID ride, ir_RiderID = ri_RiderID ride, ir_TripID = ri_TripID ride, ir_StartDate = ri_StartDate ride,
           ir_RouteID = ri_RouteID ride, ir_VehicleID = ri_VehicleID ride, ir_BoardingStopID = ri_BoardingStopID ride,
           ir_DestinationStopID = ri_DestinationStopID ride\<rparr> now))
       (\<lambda>e. if e = UniqueViolation ''idx_rides_one_active_per_rider'' then ErrActiveRideExists else Wrapped e)
       (\<lambda>row. answer (Inr (rideFromRow row)))"

definition record_body ::
  "string \<Rightarrow> string \<Rightarrow> RidePointRecord list \<Rightarrow> RideProgress \<Rightarrow> gotime \<Rightarrow> (StoreError + unit) call" where
  "record_body rideID riderID points progress now =
     and_then (if points = [] then answer (Inr ()) else exec (db_InsertRidePoints (map (point_params rideID) points) now))
       Wrapped (\<lambda>_.
     and_then (exec (db_UpdateRideProgress rideID (progress_params progress) now)) Wrapped (\<lambda>updated.
       if updated = 0 then answer (Inl ErrRideNotFound)
       else and_then (exec (db_TouchRider riderID now)) Wrapped (\<lambda>_. answer (Inr ()))))"

definition Store_RecordRidePoints ::
  "string \<Rightarrow> string \<Rightarrow> RidePointRecord list \<Rightarrow> RideProgress \<Rightarrow> gotime \<Rightarrow> (StoreError + unit) call" where
  "Store_RecordRidePoints rideID riderID points progress now =
     in_tx Wrapped (record_body rideID riderID points progress now)"

definition finish_body :: "string \<Rightarrow> RideOutcome \<Rightarrow> gotime \<Rightarrow> (StoreError + Rider) call" where
  "finish_body rideID outcome now =
     and_then (exec (db_EndRide rideID (ro_EndReason outcome) (progress_params (ro_Progress outcome)) now))
       (no_rows_as ErrRideNotFound) (\<lambda>riderID.
     and_then (exec (db_ApplyRideOutcome riderID (wrap32 (ro_ScoreDelta outcome)) (boolCount (ro_Corroborated outcome))
                      (boolCount (ro_Rejected outcome)) now))
       (no_rows_as ErrRiderNotFound) (\<lambda>row.
       let tier = Tier_String (TierFor (rr_Score row)) in
       and_then (exec (db_SetRiderTier (rr_ID row) tier)) Wrapped (\<lambda>_.
         answer (Inr (riderFromRow (row\<lparr>rr_Tier := tier\<rparr>))))))"

definition Store_FinishRide :: "string \<Rightarrow> RideOutcome \<Rightarrow> gotime \<Rightarrow> (StoreError + Rider) call" where
  "Store_FinishRide rideID outcome now = in_tx Wrapped (finish_body rideID outcome now)"

definition Store_EndAllActiveRides :: "string \<Rightarrow> gotime \<Rightarrow> (StoreError + int) call" where
  "Store_EndAllActiveRides reason now =
     and_then (exec (db_EndAllActiveRides reason now)) Wrapped (\<lambda>n. answer (Inr n))"

definition Store_ListRides :: "string \<Rightarrow> nat \<Rightarrow> nat \<Rightarrow> (StoreError + Ride list) call" where
  "Store_ListRides status n offset =
     and_then (exec (db_ListRides status n offset)) Wrapped (\<lambda>rows. answer (Inr (map rideFromRow rows)))"

definition Store_CountRidersByTier :: "(StoreError + (string \<times> int) list) call" where
  "Store_CountRidersByTier = and_then (exec db_CountRidersByTier) Wrapped (\<lambda>rows. answer (Inr rows))"

definition Store_DeleteRidePointsBefore :: "gotime \<Rightarrow> (StoreError + int) call" where
  "Store_DeleteRidePointsBefore before =
     and_then (exec (db_DeleteRidePointsBefore before)) Wrapped (\<lambda>n. answer (Inr n))"

lemmas rider_store_defs = Store_RegisterRider_def Store_GetRider_def Store_StartRide_def Store_RecordRidePoints_def
  record_body_def Store_FinishRide_def finish_body_def Store_EndAllActiveRides_def Store_ListRides_def
  Store_CountRidersByTier_def Store_DeleteRidePointsBefore_def

section \<open>What becomes of a ride\<close>

text \<open>
  A ride is never deleted; its row keeps its rider and trip, and once it has ended it stays as it ended.
\<close>

definition same_ride :: "RideRow \<Rightarrow> RideRow \<Rightarrow> bool" where
  "same_ride r r' \<longleftrightarrow> rd_ID r' = rd_ID r \<and> rd_RiderID r' = rd_RiderID r \<and> rd_TripID r' = rd_TripID r
     \<and> rd_StartDate r' = rd_StartDate r \<and> (rd_Status r \<noteq> ''active'' \<longrightarrow> r' = r)"

definition ride_history :: "Database \<Rightarrow> Database \<Rightarrow> bool" where
  "ride_history d d' \<longleftrightarrow> list_all2 same_ride (db_rides d) (take (length (db_rides d)) (db_rides d'))"

lemma same_ride_refl [simp]: "same_ride r r"
  by (simp add: same_ride_def)

lemma same_ride_trans: "same_ride r r' \<Longrightarrow> same_ride r' r'' \<Longrightarrow> same_ride r r''"
  by (auto simp: same_ride_def)

lemma ride_history_same [simp]: "db_rides d' = db_rides d \<Longrightarrow> ride_history d d'"
  by (simp add: ride_history_def list_all2_same)

lemma ride_history_snoc: "db_rides d' = db_rides d @ rs \<Longrightarrow> ride_history d d'"
  by (simp add: ride_history_def list_all2_same)

lemma ride_history_update:
  "db_rides d' = update_rows p g (db_rides d) \<Longrightarrow> (\<And>r. p r \<Longrightarrow> same_ride r (g r)) \<Longrightarrow> ride_history d d'"
  by (simp add: ride_history_def update_rows_def list_all2_map2 list_all2_same)

lemma ride_history_trans:
  assumes "ride_history d d'" "ride_history d' d''"
  shows "ride_history d d''"
proof -
  have len: "length (db_rides d) \<le> length (db_rides d')"
    using list_all2_lengthD [OF assms(1) [unfolded ride_history_def]] by simp
  have "list_all2 same_ride (take (length (db_rides d)) (db_rides d'))
      (take (length (db_rides d)) (take (length (db_rides d')) (db_rides d'')))"
    using assms(2) unfolding ride_history_def by (rule list_all2_takeI)
  then have "list_all2 same_ride (take (length (db_rides d)) (db_rides d')) (take (length (db_rides d)) (db_rides d''))"
    using len by (simp add: min_absorb1)
  then show ?thesis
    using assms(1) unfolding ride_history_def by (metis (no_types) list_all2_trans same_ride_trans)
qed

lemma points_keep_rides: "db_InsertRidePoints ps now d = Inr (x, d') \<Longrightarrow>
    db_rides d' = db_rides d \<and> db_riders d' = db_riders d \<and> db_serial d \<le> db_serial d'"
proof (induction ps arbitrary: d)
  case (Cons p ps)
  then obtain d1 where "db_InsertRidePoint p now d = Inr ((), d1)" "db_InsertRidePoints ps now d1 = Inr (x, d')"
    by (auto split: sum.splits)
  moreover from this(1) have "db_rides d1 = db_rides d \<and> db_riders d1 = db_riders d \<and> db_serial d \<le> db_serial d1"
    by (auto simp: db_InsertRidePoint_def split: if_splits)
  ultimately show ?case
    using Cons.IH [of d1] by auto
qed simp

lemma step_ride_history: "db_step d d' \<Longrightarrow> ride_history d d'"
proof (induction rule: db_step.induct)
  case InsertRide_step
  then show ?case
    by (auto simp: db_InsertRide_def Let_def intro: ride_history_snoc split: if_splits)
next
  case UpdateRideProgress_step
  then show ?case
    by (auto simp: db_UpdateRideProgress_def active_ride_def same_ride_def set_progress_def
        intro!: ride_history_update split: if_splits)
next
  case EndRide_step
  then show ?case
    by (auto simp: db_EndRide_def active_ride_def same_ride_def set_progress_def
        intro!: ride_history_update split: if_splits sum.splits)
next
  case EndAllActiveRides_step
  then show ?case
    by (auto simp: db_EndAllActiveRides_def same_ride_def intro!: ride_history_update)
next
  case InsertRidePoints_step
  then show ?case
    using points_keep_rides by (intro ride_history_same) blast
qed (auto simp: stmt_defs Let_def dest!: read_oneE split: if_splits sum.splits)

section \<open>Filing a ride\<close>

definition rescored :: "RideOutcome \<Rightarrow> gotime \<Rightarrow> RiderRow \<Rightarrow> RiderRow" where
  "rescored o1 now x =
     (let score = Clamp (rr_Score x + wrap32 (ro_ScoreDelta o1)) in
      x\<lparr>rr_Score := score, rr_Tier := Tier_String (TierFor score), rr_RidesTotal := rr_RidesTotal x + 1,
        rr_RidesCorroborated := rr_RidesCorroborated x + boolCount (ro_Corroborated o1),
        rr_RidesRejected := rr_RidesRejected x + boolCount (ro_Rejected o1), rr_LastSeenAt := now\<rparr>)"

definition ended_row :: "RideOutcome \<Rightarrow> gotime \<Rightarrow> RideRow \<Rightarrow> RideRow" where
  "ended_row o1 now r =
     (set_progress (progress_params (ro_Progress o1)) now r)
       \<lparr>rd_Status := ''ended'', rd_EndedAt := Some now, rd_EndReason := ro_EndReason o1\<rparr>"

text \<open>The ride was active; it has ended with this outcome, and its rider, and no other, is rescored.\<close>

definition ride_filed :: "string \<Rightarrow> RideOutcome \<Rightarrow> gotime \<Rightarrow> Database \<Rightarrow> Database \<Rightarrow> RiderRow \<Rightarrow> bool" where
  "ride_filed i o1 now d d' x \<longleftrightarrow>
     (\<exists>r. active_ride i r \<and> r \<in> set (db_rides d) \<and> x \<in> set (db_riders d) \<and> rr_ID x = rd_RiderID r
        \<and> d' = d\<lparr>db_rides := update_rows (active_ride i) (ended_row o1 now) (db_rides d),
                 db_riders := update_rows (\<lambda>y. rr_ID y = rd_RiderID r) (rescored o1 now) (db_riders d)\<rparr>)"

lemma score_clamp: "min 10 (max (- 10) n) = Clamp n"
  by (simp add: Clamp_def minScore_def maxScore_def)

lemma update_rows_twice:
  "(\<And>r. p r \<Longrightarrow> q (f r)) \<Longrightarrow> (\<And>r. \<not> p r \<Longrightarrow> \<not> q r) \<Longrightarrow> update_rows q g (update_rows p f rows) = update_rows p (g \<circ> f) rows"
  by (auto simp: update_rows_def)

lemma filter_update_rows:
  "(\<And>r. q (f r) = q r) \<Longrightarrow> filter q (update_rows p f rows) = update_rows p f (filter q rows)"
  by (induction rows) (auto simp: update_rows_def)

lemma unique_filter_eq:
  "unique k rows \<Longrightarrow> x \<in> set rows \<Longrightarrow> filter (\<lambda>r. k r = k x) rows = [x]"
proof (induction rows)
  case (Cons r rows)
  have "filter (\<lambda>r. k r = k x) rows = []" if "r = x"
    using Cons.prems(1) that unfolding unique_def filter_empty_conv by (metis distinct.simps(2) image_eqI list.map(2) list.set_map)
  moreover have "k r \<noteq> k x" if "x \<in> set rows"
    using Cons.prems(1) that by (force simp: unique_def)
  ultimately show ?case
    using Cons by (auto simp: unique_def)
qed simp

lemma update_rows_cong: "rows = rows' \<Longrightarrow> (\<And>r. r \<in> set rows' \<Longrightarrow> p r = q r) \<Longrightarrow> (\<And>r. r \<in> set rows' \<Longrightarrow> q r \<Longrightarrow> f r = g r)
    \<Longrightarrow> update_rows p f rows = update_rows q g rows'"
  by (auto simp: update_rows_def)

lemma rescored_alt:
  "r\<lparr>rr_Score := min 10 (max (- 10) (rr_Score r + wrap32 (ro_ScoreDelta o1))), rr_RidesTotal := rr_RidesTotal r + 1,
     rr_RidesCorroborated := rr_RidesCorroborated r + boolCount (ro_Corroborated o1),
     rr_RidesRejected := rr_RidesRejected r + boolCount (ro_Rejected o1), rr_LastSeenAt := now,
     rr_Tier := Tier_String (TierFor (min 10 (max (- 10) (rr_Score r + wrap32 (ro_ScoreDelta o1)))))\<rparr> = rescored o1 now r"
  by (cases r) (simp add: rescored_def score_clamp Let_def)

text \<open>What the two statements of a filing do to a rider, where ids are unique.\<close>

lemma outcome_and_tier:
  assumes uniq: "unique rr_ID (db_riders d)"
    and outcome: "db_ApplyRideOutcome i (wrap32 (ro_ScoreDelta o1)) (boolCount (ro_Corroborated o1)) (boolCount (ro_Rejected o1)) now d
      = Inr (row, d1)"
    and tier: "db_SetRiderTier (rr_ID row) (Tier_String (TierFor (rr_Score row))) d1 = Inr (u, d2)"
  shows "\<exists>x \<in> set (db_riders d). rr_ID x = i \<and> row\<lparr>rr_Tier := Tier_String (TierFor (rr_Score row))\<rparr> = rescored o1 now x
     \<and> d2 = d\<lparr>db_riders := update_rows (\<lambda>y. rr_ID y = i) (rescored o1 now) (db_riders d)\<rparr>"
proof -
  let ?g = "\<lambda>r. r\<lparr>rr_Score := min 10 (max (- 10) (rr_Score r + wrap32 (ro_ScoreDelta o1))), rr_RidesTotal := rr_RidesTotal r + 1,
        rr_RidesCorroborated := rr_RidesCorroborated r + boolCount (ro_Corroborated o1),
        rr_RidesRejected := rr_RidesRejected r + boolCount (ro_Rejected o1), rr_LastSeenAt := now\<rparr>"
  let ?up = "update_rows (\<lambda>r. rr_ID r = i) ?g (db_riders d)"
  have up: "filter (\<lambda>r. rr_ID r = i) ?up = update_rows (\<lambda>r. rr_ID r = i) ?g (filter (\<lambda>r. rr_ID r = i) (db_riders d))"
    by (rule filter_update_rows) simp
  have d1: "d1 = d\<lparr>db_riders := ?up\<rparr>" and row: "one_row (filter (\<lambda>r. rr_ID r = i) ?up) = Inr row"
    using outcome unfolding db_ApplyRideOutcome_def Let_def by (auto simp: read_one_def split: sum.splits)
  have "filter (\<lambda>r. rr_ID r = i) (db_riders d) \<noteq> []"
    using row unfolding up by (auto simp: one_row_def update_rows_def)
  then obtain x where "x \<in> set (filter (\<lambda>r. rr_ID r = i) (db_riders d))"
    using last_in_set by blast
  then have x: "x \<in> set (db_riders d)" "rr_ID x = i"
    by auto
  have "filter (\<lambda>r. rr_ID r = i) (db_riders d) = [x]"
    using unique_filter_eq [OF uniq x(1)] x(2) by simp
  then have row_x: "row = ?g x"
    using row x(2) unfolding up by (simp add: one_row_def update_rows_def)
  have d2: "d2 = d\<lparr>db_riders := update_rows (\<lambda>r. rr_ID r = i) (\<lambda>r. r\<lparr>rr_Tier := Tier_String (TierFor (rr_Score row))\<rparr>) ?up\<rparr>"
    using tier x(2) unfolding d1 row_x by (simp add: db_SetRiderTier_def split: if_splits)
  have "update_rows (\<lambda>r. rr_ID r = i) (\<lambda>r. r\<lparr>rr_Tier := Tier_String (TierFor (rr_Score row))\<rparr>) ?up
      = update_rows (\<lambda>y. rr_ID y = i) (rescored o1 now) (db_riders d)"
  proof (subst update_rows_twice)
    show "update_rows (\<lambda>r. rr_ID r = i) ((\<lambda>r. r\<lparr>rr_Tier := Tier_String (TierFor (rr_Score row))\<rparr>) \<circ> ?g) (db_riders d)
        = update_rows (\<lambda>y. rr_ID y = i) (rescored o1 now) (db_riders d)"
    proof (rule update_rows_cong [OF refl refl])
      fix r assume "r \<in> set (db_riders d)" "rr_ID r = i"
      then have "r = x"
        using unique_eq [OF uniq] x by blast
      then show "((\<lambda>r. r\<lparr>rr_Tier := Tier_String (TierFor (rr_Score row))\<rparr>) \<circ> ?g) r = rescored o1 now r"
        using rescored_alt [of x o1 now] by (simp add: row_x)
    qed
  qed simp_all
  then show ?thesis
    using x d2 rescored_alt [of x o1 now] by (intro bexI [of _ x]) (simp_all add: row_x)
qed

lemma finish_body_Inr:
  assumes ok: "db_ok d" and run: "finish_body i o1 now (net, d) = (Inr rider, net', d')"
  shows "\<exists>x. ride_filed i o1 now d d' x \<and> rider = riderFromRow (rescored o1 now x)"
proof -
  obtain riderID d1 row d2 u where
      ended: "db_EndRide i (ro_EndReason o1) (progress_params (ro_Progress o1)) now d = Inr (riderID, d1)"
    and outcome: "db_ApplyRideOutcome riderID (wrap32 (ro_ScoreDelta o1)) (boolCount (ro_Corroborated o1))
        (boolCount (ro_Rejected o1)) now d1 = Inr (row, d2)"
    and tier: "db_SetRiderTier (rr_ID row) (Tier_String (TierFor (rr_Score row))) d2 = Inr (u, d')"
    and rider: "rider = riderFromRow (row\<lparr>rr_Tier := Tier_String (TierFor (rr_Score row))\<rparr>)"
    using run unfolding finish_body_def Let_def by (auto simp: answer_def elim!: and_then_Inr dest!: exec_Inr)
  obtain r where r: "active_ride i r" "r \<in> set (db_rides d)" "riderID = rd_RiderID r"
    and d1: "d1 = d\<lparr>db_rides := update_rows (active_ride i) (ended_row o1 now) (db_rides d)\<rparr>"
    using ended by (auto simp: db_EndRide_def one_row_def ended_row_def [abs_def] filter_eq_Cons_iff split: if_splits sum.splits list.splits)
  have "unique rr_ID (db_riders d1)"
    using ok d1 by (simp add: ok_defs riders_ok_def)
  from outcome_and_tier [OF this outcome tier] r d1 rider show ?thesis
    by (auto simp: ride_filed_def)
qed

lemma finish_atomic:
  assumes "db_ok d" "Store_FinishRide i o1 now (net, d) = (res, net', d')"
  shows "d' = d \<and> (\<exists>e. res = Inl e)
     \<or> (\<exists>x. ride_filed i o1 now d d' x \<and> (res = Inr (riderFromRow (rescored o1 now x)) \<or> res = Inl (Wrapped Unreachable)))"
  using assms(2) unfolding Store_FinishRide_def
  by (cases rule: in_tx_cases) (use assms(1) finish_body_Inr in blast)+

text \<open>
  Filing a ride is all or nothing, whichever round trips fail: either the database is as it was and
  the caller gets an error, or the ride was active and is now ended with the outcome's reason, state and
  counters, its rider's score has moved by the outcome's delta within the bounds, the rider's tier is the one the
  engine gives to that score, the rider's counters count the ride, no other row has changed, and the
  caller gets that rider or an error because the answer to the commit was lost.
\<close>

theorem finish_all_or_nothing:
  assumes "db_reachable d" "Store_FinishRide i o1 now (net, d) = (res, net', d')"
  shows "d' = d \<and> (\<exists>e. res = Inl e)
     \<or> (\<exists>x. ride_filed i o1 now d d' x \<and> (res = Inr (riderFromRow (rescored o1 now x)) \<or> res = Inl (Wrapped Unreachable)))"
  using reachable_ok [OF assms(1)] assms(2) by (rule finish_atomic)

text \<open>A rider with one active ride.\<close>

definition sample_rider :: RiderRow where
  "sample_rider = \<lparr>rr_ID = ''r1'', rr_InstallationID = ''phone'', rr_Platform = ''ios'', rr_AppID = ''app'', rr_AppVersion = ''1'',
     rr_Attested = False, rr_Score = 0, rr_Tier = ''new'', rr_RidesTotal = 0, rr_RidesCorroborated = 0, rr_RidesRejected = 0,
     rr_CreatedAt = 7, rr_LastSeenAt = 7\<rparr>"

definition sample_ride :: RideRow where
  "sample_ride = \<lparr>rd_ID = ''a'', rd_RiderID = ''r1'', rd_TripID = ''t'', rd_StartDate = ''20250101'', rd_RouteID = ''5'',
     rd_VehicleID = [], rd_BoardingStopID = [], rd_DestinationStopID = [], rd_Status = ''active'', rd_State = ''pending'',
     rd_Corroborated = False, rd_EndReason = [], rd_PointsTotal = 0, rd_PointsMatched = 0, rd_PointsCorroborated = 0,
     rd_PointsContradicted = 0, rd_StartedAt = 8, rd_EndedAt = None, rd_UpdatedAt = 8\<rparr>"

definition ride_db :: Database where
  "ride_db = empty_db\<lparr>db_riders := [sample_rider], db_rides := [sample_ride]\<rparr>"

lemma ride_db_fields [simp]: "db_riders ride_db = [sample_rider]" "db_rides ride_db = [sample_ride]"
  by (simp_all add: ride_db_def)

lemma ride_db_reachable: "db_reachable ride_db"
proof -
  have rider: "db_UpsertRider ''r1'' ''phone'' ''ios'' ''app'' ''1'' 7 empty_db
      = Inr ((sample_rider, True), empty_db\<lparr>db_riders := [sample_rider]\<rparr>)"
    by (simp add: db_UpsertRider_def empty_db_def sample_rider_def Let_def)
  have ride: "db_InsertRide \<lparr>ir_ID = ''a'', ir_RiderID = ''r1'', ir_TripID = ''t'', ir_StartDate = ''20250101'', ir_RouteID = ''5'',
      ir_VehicleID = [], ir_BoardingStopID = [], ir_DestinationStopID = []\<rparr> 8 (empty_db\<lparr>db_riders := [sample_rider]\<rparr>)
      = Inr (sample_ride, ride_db)"
    by (simp add: db_InsertRide_def ride_db_def empty_db_def sample_rider_def sample_ride_def Let_def)
  show ?thesis
    by (rule db_reachable.reach_step [OF db_reachable.reach_step [OF db_reachable.reach_empty
          UpsertRider_step [OF rider]] InsertRide_step [OF ride]])
qed

definition sample_outcome :: RideOutcome where
  "sample_outcome = \<lparr>ro_EndReason = ''client'', ro_Progress = \<lparr>pr_State = ''verified'', pr_Corroborated = True, pr_PointsTotal = 3,
     pr_PointsMatched = 3, pr_PointsCorroborated = 3, pr_PointsContradicted = 0\<rparr>, ro_ScoreDelta = 1, ro_Rejected = False,
     ro_Corroborated = True\<rparr>"

lemma sample_finish:
  obtains net' d' where "Store_FinishRide ''a'' sample_outcome 9 ([], ride_db)
      = (Inr (riderFromRow (rescored sample_outcome 9 sample_rider)), net', d')"
  by (simp add: Store_FinishRide_def in_tx_def begin_tx_def exec_def next_trip_def finish_body_def and_then_def answer_def
      db_EndRide_def one_row_def active_ride_def sample_ride_def sample_outcome_def progress_params_def ride_state_ok_def
      wrap32_def db_ApplyRideOutcome_def read_one_def update_rows_def sample_rider_def boolCount_def db_SetRiderTier_def
      tier_ok_def TierFor_def blockedAtOrBelow_def trustedAtOrAbove_def rescored_def Clamp_def minScore_def maxScore_def Let_def)

theorem finish_all_or_nothing_witness:
  "\<exists>net' d'. Store_FinishRide ''a'' sample_outcome 9 ([], ride_db)
      = (Inr (riderFromRow (rescored sample_outcome 9 sample_rider)), net', d')
     \<and> (\<exists>x. ride_filed ''a'' sample_outcome 9 ride_db d' x)"
proof -
  obtain net' d' where run: "Store_FinishRide ''a'' sample_outcome 9 ([], ride_db)
      = (Inr (riderFromRow (rescored sample_outcome 9 sample_rider)), net', d')"
    by (rule sample_finish)
  then show ?thesis
    using finish_all_or_nothing [OF ride_db_reachable run] by blast
qed

section \<open>A ride counts once\<close>

text \<open>\<open>filings i d n d'\<close>: any statements, and \<open>n\<close> filings of the ride \<open>i\<close> that reported success, lead from \<open>d\<close> to \<open>d'\<close>.\<close>

inductive filings :: "string \<Rightarrow> Database \<Rightarrow> nat \<Rightarrow> Database \<Rightarrow> bool" where
  filings_start: "filings i d 0 d"
| filings_statement: "filings i d n d' \<Longrightarrow> db_step d' d'' \<Longrightarrow> filings i d n d''"
| filings_finish: "filings i d n d' \<Longrightarrow> Store_FinishRide i o1 now (net, d') = (Inr rider, net', d'') \<Longrightarrow> filings i d (Suc n) d''"

definition over :: "string \<Rightarrow> Database \<Rightarrow> bool" where
  "over i d \<longleftrightarrow> (\<exists>r \<in> set (db_rides d). rd_ID r = i) \<and> (\<forall>r \<in> set (db_rides d). \<not> active_ride i r)"

lemma finish_body_rides:
  assumes "finish_body i o1 now (net, d) = (Inr rider, net', d')"
  shows "(\<exists>r \<in> set (db_rides d). active_ride i r) \<and> db_rides d' = update_rows (active_ride i) (ended_row o1 now) (db_rides d)"
  using assms unfolding finish_body_def Let_def
  by (auto simp: answer_def db_EndRide_def db_ApplyRideOutcome_def db_SetRiderTier_def one_row_def ended_row_def [abs_def]
      filter_eq_Cons_iff Let_def elim!: and_then_Inr dest!: exec_Inr read_oneE split: if_splits sum.splits list.splits)

lemma finish_rides:
  assumes "Store_FinishRide i o1 now (net, d) = (Inr rider, net', d')"
  shows "(\<exists>r \<in> set (db_rides d). active_ride i r) \<and> db_rides d' = update_rows (active_ride i) (ended_row o1 now) (db_rides d)"
  using assms finish_body_rides unfolding Store_FinishRide_def by (blast elim: in_tx_Inr)

lemma ended_not_active [simp]: "\<not> active_ride i (ended_row o1 now r)" "rd_ID (ended_row o1 now r) = rd_ID r"
  by (simp_all add: active_ride_def ended_row_def set_progress_def)

lemma finish_over:
  assumes "Store_FinishRide i o1 now (net, d) = (Inr rider, net', d')"
  shows "over i d' \<and> \<not> over i d"
proof -
  obtain r where r: "r \<in> set (db_rides d)" "active_ride i r"
    and rides: "db_rides d' = update_rows (active_ride i) (ended_row o1 now) (db_rides d)"
    using finish_rides [OF assms] by blast
  have "ended_row o1 now r \<in> set (db_rides d')" "rd_ID (ended_row o1 now r) = i"
    using r unfolding rides set_update_rows by (auto simp: active_ride_def intro!: image_eqI [of _ _ r])
  moreover have "\<forall>r' \<in> set (db_rides d'). \<not> active_ride i r'"
    unfolding rides ball_update_rows by simp
  ultimately show ?thesis
    using r unfolding over_def by blast
qed

lemma step_rides_end:
  assumes step: "db_step d d'" and ok: "db_ok d'" and over: "over i d"
  shows "over i d'"
proof -
  let ?n = "length (db_rides d)"
  have hist: "list_all2 same_ride (db_rides d) (take ?n (db_rides d'))"
    using step_ride_history [OF step] by (simp add: ride_history_def)
  obtain r where r: "r \<in> set (db_rides d)" "rd_ID r = i" "\<not> active_ride i r"
    using over by (auto simp: over_def)
  then obtain r' where r': "r' \<in> set (take ?n (db_rides d'))" "same_ride r r'"
    using hist by (metis in_set_conv_nth list_all2_conv_all_nth)
  then have "r' = r" and mem: "r' \<in> set (db_rides d')"
    using r in_set_takeD by (auto simp: same_ride_def active_ride_def)
  have uniq: "unique rd_ID (db_rides d')"
    using ok by (simp add: ok_defs rides_ok_def)
  have "\<not> active_ride i x" if "x \<in> set (db_rides d')" for x
  proof
    assume active: "active_ride i x"
    then have "x = r'"
      using unique_eq [OF uniq that mem] r(2) \<open>r' = r\<close> by (simp add: active_ride_def)
    then show False
      using active r(3) \<open>r' = r\<close> by simp
  qed
  then show ?thesis
    using r(2) mem \<open>r' = r\<close> unfolding over_def by blast
qed

inductive_cases filingsE: "filings i d n d'"

lemma filings_reachable: "filings i d n d' \<Longrightarrow> db_ok d \<Longrightarrow> db_ok d'"
proof (induction rule: filings.induct)
  case (filings_finish i d n d' o1 now net rider net' d'')
  have "call_keeps db_ok (Store_FinishRide i o1 now)"
    unfolding Store_FinishRide_def finish_body_def Let_def by (intro keeps_intros)
  then show ?case
    using filings_finish unfolding call_keeps_def by (metis snd_conv)
qed (auto intro: step_keeps_ok)

lemma filings_once: "filings i d n d' \<Longrightarrow> db_ok d \<Longrightarrow> (over i d \<longrightarrow> n = 0 \<and> over i d') \<and> (n = 0 \<or> n = 1 \<and> over i d')"
proof (induction rule: filings.induct)
  case (filings_statement i d n d' d'')
  have "db_ok d''"
    using filings_reachable filings_statement step_keeps_ok by blast
  then show ?case
    using filings_statement step_rides_end by blast
next
  case (filings_finish i d n d' o1 now net rider net' d'')
  then show ?case
    using finish_over [OF filings_finish(2)] by auto
qed auto

text \<open>
  A ride counts once for its rider. Whatever statements the server runs around it, and however often
  the ride is filed (by the client, by the engine, by the reaper trying again), at most one filing succeeds,
  and none does for a ride that has ended already.
\<close>

theorem ride_filed_once:
  assumes "db_reachable d" "r \<in> set (db_rides d)" "filings (rd_ID r) d n d'"
  shows "n \<le> 1 \<and> (rd_Status r \<noteq> ''active'' \<longrightarrow> n = 0)"
proof -
  have ok: "db_ok d" by (rule reachable_ok) fact
  then have uniq: "unique rd_ID (db_rides d)"
    by (simp add: ok_defs rides_ok_def)
  have "over (rd_ID r) d" if "rd_Status r \<noteq> ''active''"
    using that assms(2) unique_eq [OF uniq] unfolding over_def active_ride_def by metis
  then show ?thesis
    using filings_once [OF assms(3) ok] by auto
qed

theorem ride_filed_once_witness:
  "\<exists>d'. filings ''a'' ride_db 1 d' \<and> sample_ride \<in> set (db_rides ride_db) \<and> (\<forall>d''. \<not> filings ''a'' ride_db 2 d'')"
proof -
  obtain net' d' where run: "Store_FinishRide ''a'' sample_outcome 9 ([], ride_db)
      = (Inr (riderFromRow (rescored sample_outcome 9 sample_rider)), net', d')"
    by (rule sample_finish)
  then have "filings ''a'' ride_db (Suc 0) d'"
    by (rule filings_finish [OF filings_start])
  moreover have "\<not> filings ''a'' ride_db 2 d''" for d''
    using ride_filed_once [OF ride_db_reachable, of sample_ride 2 d''] by (auto simp: sample_ride_def)
  ultimately show ?thesis
    by auto
qed

section \<open>The tier follows the score\<close>

text \<open>
  Databases the server reaches when riders are written by the methods of the rider store alone: their
  calls, whatever round trips fail, and any statement that leaves the riders as they are.
\<close>

inductive rider_reachable :: "Database \<Rightarrow> bool" where
  riders_empty: "rider_reachable empty_db"
| riders_other: "rider_reachable d \<Longrightarrow> db_step d d' \<Longrightarrow> db_riders d' = db_riders d \<Longrightarrow> rider_reachable d'"
| riders_register: "rider_reachable d \<Longrightarrow> Store_RegisterRider uuid inst platform app version now (net, d) = (res, net', d')
    \<Longrightarrow> rider_reachable d'"
| riders_record: "rider_reachable d \<Longrightarrow> Store_RecordRidePoints i riderID points progress now (net, d) = (res2, net', d')
    \<Longrightarrow> rider_reachable d'"
| riders_finish: "rider_reachable d \<Longrightarrow> Store_FinishRide i o1 now (net, d) = (res3, net', d') \<Longrightarrow> rider_reachable d'"

definition tiers_ok :: "Database \<Rightarrow> bool" where
  "tiers_ok d \<longleftrightarrow> (\<forall>r \<in> set (db_riders d). rr_Tier r = Tier_String (TierFor (rr_Score r)))"

lemma rescored_tier [simp]: "rr_Tier (rescored o1 now x) = Tier_String (TierFor (rr_Score (rescored o1 now x)))"
  by (simp add: rescored_def Let_def)

lemma finish_tiers: "ride_filed i o1 now d d' x \<Longrightarrow> tiers_ok d \<Longrightarrow> tiers_ok d'"
  by (auto simp: ride_filed_def tiers_ok_def set_update_rows)

lemma tier_of_new [simp]: "Tier_String (TierFor 0) = ''new''"
  by (simp add: TierFor_def blockedAtOrBelow_def trustedAtOrAbove_def)

lemma keeps_tiers:
  "keeps tiers_ok (db_UpsertRider uuid inst platform app version now)"
  "keeps tiers_ok (db_TouchRider i now)"
  "keeps tiers_ok (db_UpdateRideProgress i g now)"
  "keeps tiers_ok (db_InsertRidePoints ps now)"
  by (rule keepsI; auto simp: tiers_ok_def db_UpsertRider_def db_TouchRider_def db_UpdateRideProgress_def Let_def
      set_update_rows points_keep_rides split: if_splits sum.splits)+

lemma rider_reachable_ok: "rider_reachable d \<Longrightarrow> db_ok d \<and> tiers_ok d"
proof (induction rule: rider_reachable.induct)
  case riders_empty
  then show ?case
    by (simp add: empty_db_ok tiers_ok_def) (simp add: empty_db_def)
next
  case (riders_other d d')
  then show ?case
    using step_keeps_ok by (auto simp: tiers_ok_def)
next
  case (riders_register d uuid inst platform app version now net res net' d')
  have "call_keeps db_ok (Store_RegisterRider uuid inst platform app version now)"
    "call_keeps tiers_ok (Store_RegisterRider uuid inst platform app version now)"
    unfolding Store_RegisterRider_def split_def by (intro keeps_intros keeps_tiers)+
  then show ?case
    using riders_register unfolding call_keeps_def by (metis snd_conv)
next
  case (riders_record d i riderID points progress now net res2 net' d')
  have "call_keeps db_ok (Store_RecordRidePoints i riderID points progress now)"
    "call_keeps tiers_ok (Store_RecordRidePoints i riderID points progress now)"
    unfolding Store_RecordRidePoints_def record_body_def by (intro keeps_intros keeps_tiers)+
  then show ?case
    using riders_record unfolding call_keeps_def by (metis snd_conv)
next
  case (riders_finish d i o1 now net res3 net' d')
  have "call_keeps db_ok (Store_FinishRide i o1 now)"
    unfolding Store_FinishRide_def finish_body_def Let_def by (intro keeps_intros)
  then have "db_ok d'"
    using riders_finish unfolding call_keeps_def by (metis snd_conv)
  then show ?case
    using finish_atomic [of d i o1 now net res3 net' d'] riders_finish finish_tiers by auto
qed

text \<open>
  In every database the server reaches, each rider's stored tier is the one the engine assigns to
  the stored score, whatever sequence of registrations, reports and filings led there and however their
  round trips to the database failed.
\<close>

theorem tier_follows_score:
  assumes "rider_reachable d" "r \<in> set (db_riders d)"
  shows "rr_Tier r = Tier_String (TierFor (rr_Score r)) \<and> - 10 \<le> rr_Score r \<and> rr_Score r \<le> 10"
  using rider_reachable_ok [OF assms(1)] assms(2) by (simp add: tiers_ok_def ok_defs riders_ok_def)

theorem tier_follows_score_witness:
  "\<exists>res net' d'. Store_RegisterRider ''r1'' ''phone'' ''ios'' ''app'' ''1'' 7 ([], empty_db) = (res, net', d')
     \<and> sample_rider \<in> set (db_riders d') \<and> rr_Tier sample_rider = Tier_String (TierFor (rr_Score sample_rider))"
proof -
  obtain res net' d' where run: "Store_RegisterRider ''r1'' ''phone'' ''ios'' ''app'' ''1'' 7 ([], empty_db) = (res, net', d')"
    by (metis prod_cases3)
  then have mem: "sample_rider \<in> set (db_riders d')"
    by (auto simp: Store_RegisterRider_def and_then_def exec_def next_trip_def answer_def db_UpsertRider_def empty_db_def
        sample_rider_def Let_def)
  then show ?thesis
    using run tier_follows_score [OF riders_register [OF riders_empty run] mem] by blast
qed

end
