(* ===== verification/RiderService.thy ===== *)
theory RiderService
  imports RiderStore Aggregator Trusted RateLimit Auth
begin

text \<open>
  The rider API (\<open>src/rider_handlers.go\<close>): registration, the life of a ride, position reports, the status of
  a trip, and the loops behind them (\<open>src/rider_wiring.go\<close>). The service owns the registry of live rides
  (\<open>Aggregator\<close>) and three rate limiters; the rides themselves are in the database. A handler takes the service,
  the network and the database, and returns them with its answer. It runs to its end with one reading of
  the server's clock and one of the database's; how handlers interleave is the subject of \<open>RideProtocol\<close>.
\<close>

section \<open>Requests and answers\<close>

definition riderReportIntervalSeconds :: int where "riderReportIntervalSeconds = 5"
definition riderMaxBatchSize :: nat where "riderMaxBatchSize = 12"
definition riderMaxFieldLen :: nat where "riderMaxFieldLen = 100"
definition riderBatchInterval :: duration where "riderBatchInterval = 2 * nano"
definition riderBatchBurst :: nat where "riderBatchBurst = 2"
definition riderRideInterval :: duration where "riderRideInterval = 10 * nano"
definition riderRideBurst :: nat where "riderRideBurst = 3"

definition riderPlatforms :: "string set" where
  "riderPlatforms = {''ios'', ''android'', ''other''}"

record riderRegisterRequest =
  gq_InstallationID :: string
  gq_Platform :: string
  gq_AppID :: string
  gq_AppVersion :: string
  gq_Attestation :: "string option"

record riderRegisterResponse =
  gr_RiderID :: string
  gr_Token :: string
  gr_ReportIntervalSeconds :: int
  gr_MaxBatchSize :: nat

record startRideRequest =
  sq_TripID :: string
  sq_StartDate :: string
  sq_RouteID :: string
  sq_VehicleID :: string
  sq_BoardingStopID :: string
  sq_DestinationStopID :: string

record rideDestination =
  ds_StopID :: string
  ds_Latitude :: f64
  ds_Longitude :: f64

record startRideResponse =
  sr_RideID :: string
  sr_State :: string
  sr_ReportIntervalSeconds :: int
  sr_MaxBatchSize :: nat
  sr_Destination :: "rideDestination option"

record rideSummaryJSON =
  sj_Points :: nat
  sj_Matched :: nat
  sj_Corroborated :: nat
  sj_DurationSeconds :: int

record positionUpload =
  up_Latitude :: f64
  up_Longitude :: f64
  up_Accuracy :: "f64 option"
  up_Speed :: "f64 option"
  up_Bearing :: "f64 option"
  up_Timestamp :: int

record positionsResponse =
  po_State :: string
  po_Published :: bool
  po_Corroboration :: string
  po_Accepted :: nat
  po_Ignored :: nat
  po_OffRouteStreak :: nat
  po_Ended :: bool
  po_EndReason :: string

record tripStatusResponse =
  ts_TripID :: string
  ts_StartDate :: string
  ts_Trusted :: bool
  ts_RiderReported :: bool
  ts_Riders :: nat

definition tooLong :: "string \<Rightarrow> bool" where
  "tooLong v \<longleftrightarrow> length v > riderMaxFieldLen"

definition decodeRiderJSON :: "http_request \<Rightarrow> 'a body \<Rightarrow> 'b answer + 'a" where
  "decodeRiderJSON r b =
     (if \<not> is_json (hr_MediaType r) then Inl (HErr 415 content_type_message)
      else case b of
             body.BodyTooLarge \<Rightarrow> Inl (HErr 413 ''request body too large'')
           | BadJSON msg \<Rightarrow> Inl (HErr 400 (''invalid JSON: '' @ msg))
           | Decoded x rest \<Rightarrow> if rest = NoMore then Inr x else Inl (HErr 400 trailing_message))"

definition orMissing :: "f64 option \<Rightarrow> f64" where
  "orMissing v = (case v of None \<Rightarrow> Num (- 1) | Some x \<Rightarrow> x)"

definition reported :: "f64 \<Rightarrow> f64 option" where
  "reported v = (if v = Num (- 1) then None else Some v)"

definition validate_position :: "positionUpload \<Rightarrow> string option" where  \<comment> \<open>the error, if any\<close>
  "validate_position p =
     (if up_Timestamp p \<le> 0 then Some ''each position needs a timestamp''
      else if flt (up_Latitude p) (Num (- 90)) \<or> fgt (up_Latitude p) (Num 90)
              \<or> flt (up_Longitude p) (Num (- 180)) \<or> fgt (up_Longitude p) (Num 180)
      then Some ''latitude and longitude must be valid coordinates''
      else None)"

definition position_point :: "positionUpload \<Rightarrow> Point" where
  "position_point p =
     \<lparr>pt_Pos = \<lparr>Lat = up_Latitude p, Lon = up_Longitude p\<rparr>, pt_Accuracy = orMissing (up_Accuracy p),
      pt_Speed = orMissing (up_Speed p), pt_Bearing = orMissing (up_Bearing p),
      pt_Timestamp = time_unix (up_Timestamp p)\<rparr>"

text \<open>The points of a report, or the error of the first that is not usable.\<close>

fun read_positions :: "positionUpload list \<Rightarrow> string + Point list" where
  "read_positions [] = Inr []"
| "read_positions (p # ps) =
     (case validate_position p of
        Some msg \<Rightarrow> Inl msg
      | None \<Rightarrow> (case read_positions ps of Inl msg \<Rightarrow> Inl msg | Inr pts \<Rightarrow> Inr (position_point p # pts)))"

definition scheduleDeviationSeconds :: "Verdict \<Rightarrow> int option" where
  "scheduleDeviationSeconds v =
     (if vd_Outcome v \<noteq> Matched \<and> vd_Outcome v \<noteq> OffSchedule then None
      else Some (whole_seconds (vd_ScheduleDeviation v)))"

definition ridePointRecord :: "AppliedPoint \<Rightarrow> RidePointRecord" where
  "ridePointRecord p =
     \<lparr>pp_Latitude = Lat (pt_Pos (apl_Point p)), pp_Longitude = Lon (pt_Pos (apl_Point p)),
      pp_Accuracy = reported (pt_Accuracy (apl_Point p)), pp_Speed = reported (pt_Speed (apl_Point p)),
      pp_Bearing = reported (pt_Bearing (apl_Point p)), pp_Timestamp = unix_of (pt_Timestamp (apl_Point p)),
      pp_Outcome = Outcome_String (vd_Outcome (apl_Verdict p)),
      pp_Corroboration = Corroboration_String (vd_Corroboration (apl_Verdict p)),
      pp_AlongShape = vd_AlongShape (apl_Verdict p), pp_DistanceToShape = vd_DistanceToShape (apl_Verdict p),
      pp_ScheduleDeviationSeconds = scheduleDeviationSeconds (apl_Verdict p)\<rparr>"

definition ridePointRecords :: "AppliedPoint list \<Rightarrow> RidePointRecord list" where
  "ridePointRecords points = map ridePointRecord points"

definition progressOf :: "RideSummary \<Rightarrow> RideProgress" where
  "progressOf summary =
     \<lparr>pr_State = State_String (rs_State summary), pr_Corroborated = rs_Corroborated summary,
      pr_PointsTotal = int (c_Total (rs_Counts summary)), pr_PointsMatched = int (c_Matched (rs_Counts summary)),
      pr_PointsCorroborated = int (c_Corroborated (rs_Counts summary)),
      pr_PointsContradicted = int (c_Contradicted (rs_Counts summary))\<rparr>"

text \<open>An end reason is a string in the code; none is the empty one.\<close>

definition reason_string :: "EndReason option \<Rightarrow> string" where
  "reason_string r = (case r of None \<Rightarrow> [] | Some x \<Rightarrow> EndReason_String x)"

definition rideOutcomeOf :: "RideSummary \<Rightarrow> EndReason option \<Rightarrow> RideOutcome" where
  "rideOutcomeOf summary reason =
     (let summary = summary\<lparr>rs_EndReason := reason\<rparr> in
      \<lparr>ro_EndReason = reason_string reason, ro_Progress = progressOf summary, ro_ScoreDelta = ScoreDelta summary,
       ro_Rejected = (rs_State summary = Rejected), ro_Corroborated = rs_Corroborated summary\<rparr>)"

definition destinationOf :: "TripInfo \<Rightarrow> string \<Rightarrow> rideDestination option" where
  "destinationOf trip i =
     (if i = [] then None
      else map_option (\<lambda>st. \<lparr>ds_StopID = si_StopID st, ds_Latitude = Lat (si_Pos st), ds_Longitude = Lon (si_Pos st)\<rparr>)
             (find (\<lambda>st. si_StopID st = i) (ti_StopTimes trip)))"

section \<open>The service\<close>

text \<open>
  What the handlers read: the current index, the trusted sources (with the order in which the tracker's map
  is visited), the token bucket, the uuid parser, the JWT library. \<open>riderService\<close> is what they change.
\<close>

record 'b riderDeps =
  cf_index :: "Index option"
  cf_timezone :: string
  cf_trusted :: "(string list \<times> trustedSources) option"
  cf_new :: "duration \<Rightarrow> nat \<Rightarrow> 'b"
  cf_draw :: "'b \<Rightarrow> gotime \<Rightarrow> 'b \<times> bool"
  cf_uuid_Parse :: "string \<Rightarrow> bool"
  cf_uuid_Validate :: "string \<Rightarrow> bool"
  cf_JWT :: JWT
  cf_secret :: string
  cf_ttl :: duration
  cf_trustProxy :: bool

record 'b riderService =
  sv_agg :: Aggregator
  sv_reg :: RegistrationRateLimiter
  sv_batch :: "'b VehicleRateLimiter"
  sv_ride :: "'b VehicleRateLimiter"

definition newRiderService :: "Aggregator \<Rightarrow> 'b riderService" where
  "newRiderService agg =
     \<lparr>sv_agg = agg, sv_reg = NewRegistrationRateLimiter,
      sv_batch = NewKeyedRateLimiter riderBatchInterval riderBatchBurst True,
      sv_ride = NewKeyedRateLimiter riderRideInterval riderRideBurst True\<rparr>"

type_synonym ('b, 'a) handler = "'b riderService \<Rightarrow> net \<times> Database \<Rightarrow> 'a answer \<times> 'b riderService \<times> net \<times> Database"

definition trusted_lookup :: "'b riderDeps \<Rightarrow> gotime \<Rightarrow> (TripKey \<Rightarrow> TrustedVehicle option) option" where
  "trusted_lookup cf now = map_option (\<lambda>(ks, t) k. sources_Lookup ks t k now) (cf_trusted cf)"

definition coveredFunc :: "'b riderDeps \<Rightarrow> gotime \<Rightarrow> (TripKey \<Rightarrow> bool) option" where
  "coveredFunc cf now = map_option (\<lambda>(ks, t) k. sources_Covers ks t k now) (cf_trusted cf)"

section \<open>Filing a ride that is over\<close>

datatype finish_error = errRideNotActive | StoreFailed StoreError

definition finishRide ::
  "string \<Rightarrow> EndReason \<Rightarrow> gotime \<Rightarrow> gotime \<Rightarrow> Aggregator \<Rightarrow> net \<times> Database
     \<Rightarrow> (finish_error + Rider) \<times> Aggregator \<times> net \<times> Database" where
  "finishRide rideID reason now dbnow a st =
     (case agg_End rideID reason now a of
        (a1, None) \<Rightarrow> (Inl errRideNotActive, a1, st)
      | (a1, Some snap) \<Rightarrow>
          (case Store_FinishRide rideID (rideOutcomeOf (sn_Summary snap) (rs_EndReason (sn_Summary snap))) dbnow st of
             (Inl e, st') \<Rightarrow>
               (if e = ErrRideNotFound then (Inl errRideNotActive, fst (Remove rideID a1), st')
                else (Inl (StoreFailed e), a1, st'))
           | (Inr updated, st') \<Rightarrow>
               (Inr updated, agg_SetTier (ra_ID updated) (ParseTier (ra_Tier updated)) (fst (Remove rideID a1)), st')))"

section \<open>Registration\<close>

definition validate_registration :: "'b riderDeps \<Rightarrow> riderRegisterRequest \<Rightarrow> string option" where
  "validate_registration cf req =
     (if \<not> cf_uuid_Parse cf (gq_InstallationID req) then Some ''installation_id must be a UUID''
      else if gq_Platform req \<notin> riderPlatforms then Some ''platform must be one of ios, android, other''
      else if tooLong (gq_AppID req) \<or> tooLong (gq_AppVersion req)
      then Some ''app_id and app_version must be at most 100 characters''
      else case gq_Attestation req of
             None \<Rightarrow> None
           | Some a \<Rightarrow> if trim_space a \<noteq> ''null'' then Some ''attestation not supported'' else None)"

text \<open>\<open>uuid\<close> is the id \<open>RegisterRider\<close> proposes for a new rider.\<close>

definition handleRegister ::
  "'b riderDeps \<Rightarrow> string \<Rightarrow> gotime \<Rightarrow> gotime \<Rightarrow> http_request \<Rightarrow> riderRegisterRequest body
     \<Rightarrow> ('b, riderRegisterResponse) handler" where
  "handleRegister cf uuid now dbnow r body sv st =
     (let (reg, allowed) = Registration_Allow (clientIP r (cf_trustProxy cf)) now (sv_reg sv); sv' = sv\<lparr>sv_reg := reg\<rparr>
      in if \<not> allowed then (HErr 429 ''too many registrations, try again later'', sv', st)
         else case decodeRiderJSON r body of
                Inl bad \<Rightarrow> (bad, sv', st)
              | Inr req \<Rightarrow>
                  (case validate_registration cf req of
                     Some msg \<Rightarrow> (HErr 400 msg, sv', st)
                   | None \<Rightarrow>
                       (case Store_RegisterRider uuid (gq_InstallationID req) (gq_Platform req) (gq_AppID req)
                               (gq_AppVersion req) dbnow st of
                          (Inl e, st') \<Rightarrow> (server_error, sv', st')
                        | (Inr (rd, created), st') \<Rightarrow>
                            (case generateRiderJWT (cf_JWT cf) (ra_ID rd) (cf_secret cf) (cf_ttl cf) now of
                               None \<Rightarrow> (server_error, sv', st')
                             | Some token \<Rightarrow>
                                 (HOk (if created then 201 else 200)
                                    \<lparr>gr_RiderID = ra_ID rd, gr_Token = token,
                                     gr_ReportIntervalSeconds = riderReportIntervalSeconds,
                                     gr_MaxBatchSize = riderMaxBatchSize\<rparr>, sv', st')))))"

section \<open>Starting a ride\<close>

definition ride_limited :: "'b riderDeps \<Rightarrow> string \<Rightarrow> gotime \<Rightarrow> 'b riderService \<Rightarrow> 'b riderService \<times> bool" where
  "ride_limited cf riderID now sv =
     (let (l, allowed) = Vehicle_Allow (cf_new cf) (cf_draw cf) riderID now (sv_ride sv) in (sv\<lparr>sv_ride := l\<rparr>, allowed))"

text \<open>The checks of the request itself; the message of the first that fails.\<close>

definition validate_start :: "startRideRequest \<Rightarrow> string option" where
  "validate_start req =
     (if sq_TripID req = [] \<or> tooLong (sq_TripID req) then Some ''trip_id is required''
      else if tooLong (sq_RouteID req) \<or> tooLong (sq_BoardingStopID req) \<or> tooLong (sq_DestinationStopID req)
      then Some ''identifiers must be at most 100 characters''
      else case (if sq_VehicleID req \<noteq> [] then validateVehicleID (sq_VehicleID req) else None) of
             Some msg \<Rightarrow> Some msg
           | None \<Rightarrow>
               (if sq_StartDate req \<noteq> [] \<and> \<not> serviceDatePattern (sq_StartDate req)
                then Some ''start_date must be YYYYMMDD'' else None))"

text \<open>The checks against the schedule: the trip and the service date it is ridden on.\<close>

definition resolve_trip :: "'b riderDeps \<Rightarrow> gotime \<Rightarrow> startRideRequest \<Rightarrow> 'a answer + TripInfo \<times> string" where
  "resolve_trip cf now req =
     (case cf_index cf of
        None \<Rightarrow> Inl (HErr 503 ''schedule data unavailable'')
      | Some index \<Rightarrow>
          (case Trip index (sq_TripID req) of
             None \<Rightarrow> Inl (HErr 404 ''unknown trip'')
           | Some trip \<Rightarrow>
               (let startDate = (if sq_StartDate req = [] then ServiceDateFor index (Some trip) now else sq_StartDate req)
                in if \<not> ActiveOn index (Some trip) startDate then Inl (HErr 422 ''trip not active on start_date'')
                   else if sq_RouteID req \<noteq> [] \<and> sq_RouteID req \<noteq> ti_RouteID trip
                   then Inl (HErr 422 ''route_id does not match the trip'')
                   else Inr (trip, startDate))))"

text \<open>End the ride the rider has open, if any; \<open>Inl\<close> is the failure that answers 500.\<close>

definition supersede ::
  "string \<Rightarrow> gotime \<Rightarrow> gotime \<Rightarrow> Aggregator \<Rightarrow> net \<times> Database
     \<Rightarrow> (StoreError + Rider option) \<times> Aggregator \<times> net \<times> Database" where
  "supersede riderID now dbnow a st =
     (case ActiveRideForRider a riderID of
        None \<Rightarrow> (Inr None, a, st)
      | Some oldID \<Rightarrow>
          (case finishRide oldID EndSuperseded now dbnow a st of
             (Inr rd, a', st') \<Rightarrow> (Inr (Some rd), a', st')
           | (Inl errRideNotActive, a', st') \<Rightarrow> (Inr None, a', st')
           | (Inl (StoreFailed e), a', st') \<Rightarrow> (Inl e, a', st')))"

definition load_rider :: "string \<Rightarrow> Rider option \<Rightarrow> ('a answer + Rider) call" where
  "load_rider riderID superseded =
     (case superseded of
        Some rd \<Rightarrow> answer (Inr rd)
      | None \<Rightarrow>
          serve (Store_GetRider riderID) (\<lambda>res.
            answer (case res of
                      Inl e \<Rightarrow> Inl (if e = ErrRiderNotFound then HErr 401 ''unknown rider'' else server_error)
                    | Inr rd \<Rightarrow> Inr rd)))"

definition requested_ride :: "string \<Rightarrow> string \<Rightarrow> startRideRequest \<Rightarrow> TripInfo \<Rightarrow> string \<Rightarrow> Ride" where
  "requested_ride uuid riderID req trip startDate =
     \<lparr>ri_ID = uuid, ri_RiderID = riderID, ri_TripID = sq_TripID req, ri_StartDate = startDate,
      ri_RouteID = (if sq_RouteID req = [] then ti_RouteID trip else sq_RouteID req),
      ri_VehicleID = sq_VehicleID req, ri_BoardingStopID = sq_BoardingStopID req,
      ri_DestinationStopID = sq_DestinationStopID req, ri_Status = [], ri_State = [], ri_Corroborated = False,
      ri_EndReason = [], ri_PointsTotal = 0, ri_PointsMatched = 0, ri_PointsCorroborated = 0,
      ri_PointsContradicted = 0, ri_StartedAt = 0, ri_EndedAt = None\<rparr>"

definition ride_session :: "Ride \<Rightarrow> string \<Rightarrow> TripInfo \<Rightarrow> Tier \<Rightarrow> Session" where
  "ride_session ride riderID trip tier =
     NewSession (ri_ID ride) riderID (TripKey (ri_TripID ride) (ri_StartDate ride)) (Some trip) tier (ri_StartedAt ride)"

definition ride_started :: "Ride \<Rightarrow> TripInfo \<Rightarrow> startRideResponse" where
  "ride_started ride trip =
     \<lparr>sr_RideID = ri_ID ride, sr_State = ri_State ride, sr_ReportIntervalSeconds = riderReportIntervalSeconds,
      sr_MaxBatchSize = riderMaxBatchSize, sr_Destination = destinationOf trip (ri_DestinationStopID ride)\<rparr>"

text \<open>From the rider's lock on.\<close>

definition open_ride ::
  "string \<Rightarrow> string \<Rightarrow> startRideRequest \<Rightarrow> TripInfo \<Rightarrow> string \<Rightarrow> gotime \<Rightarrow> gotime \<Rightarrow> Aggregator \<Rightarrow> net \<times> Database
     \<Rightarrow> startRideResponse answer \<times> Aggregator \<times> net \<times> Database" where
  "open_ride uuid riderID req trip startDate now dbnow a st =
     (case supersede riderID now dbnow a st of
        (Inl e, a1, st1) \<Rightarrow> (server_error, a1, st1)
      | (Inr superseded, a1, st1) \<Rightarrow>
          (case load_rider riderID superseded st1 of
             (Inl bad, st2) \<Rightarrow> (bad, a1, st2)
           | (Inr rd, st2) \<Rightarrow>
               (case Store_StartRide (requested_ride uuid riderID req trip startDate) dbnow st2 of
                  (Inl e, st3) \<Rightarrow>
                    ((if e = ErrActiveRideExists then HErr 409 ''rider already has an active ride'' else server_error),
                     a1, st3)
                | (Inr ride, st3) \<Rightarrow>
                    (HOk 201 (ride_started ride trip),
                     agg_Add (ride_session ride riderID trip (ParseTier (ra_Tier rd))) a1, st3))))"

definition handleStartRide ::
  "'b riderDeps \<Rightarrow> string \<Rightarrow> gotime \<Rightarrow> gotime \<Rightarrow> MapClaims option \<Rightarrow> http_request \<Rightarrow> startRideRequest body
     \<Rightarrow> ('b, startRideResponse) handler" where
  "handleStartRide cf uuid now dbnow ctx r body sv st =
     (case riderIDFromContext ctx of
        None \<Rightarrow> (HErr 401 ''invalid token'', sv, st)
      | Some riderID \<Rightarrow>
          (case ride_limited cf riderID now sv of
             (sv', False) \<Rightarrow> (HErr 429 ''too many ride changes, slow down'', sv', st)
           | (sv', True) \<Rightarrow>
               (case decodeRiderJSON r body of
                  Inl bad \<Rightarrow> (bad, sv', st)
                | Inr req \<Rightarrow>
                    (case validate_start req of
                       Some msg \<Rightarrow> (HErr 400 msg, sv', st)
                     | None \<Rightarrow>
                         (case resolve_trip cf now req of
                            Inl bad \<Rightarrow> (bad, sv', st)
                          | Inr (trip, startDate) \<Rightarrow>
                              (case open_ride uuid riderID req trip startDate now dbnow (sv_agg sv') st of
                                 (ans, a, st') \<Rightarrow> (ans, sv'\<lparr>sv_agg := a\<rparr>, st')))))))"

section \<open>Ending a ride\<close>

definition resolveRide :: "'b riderDeps \<Rightarrow> Aggregator \<Rightarrow> string \<Rightarrow> string \<Rightarrow> 'a answer + RideSnapshot" where
  "resolveRide cf a rideID riderID =
     (case Snapshot a rideID of
        None \<Rightarrow>
          (if \<not> cf_uuid_Validate cf rideID then Inl (HErr 404 ''ride not found'') else Inl (HErr 409 ''ride ended''))
      | Some snap \<Rightarrow>
          (if sn_Ended snap then Inl (HErr 409 ''ride ended'')
           else if sn_RiderID snap \<noteq> riderID then Inl (HErr 404 ''ride not found'')
           else Inr snap))"

definition ride_summary :: "RideSnapshot \<Rightarrow> gotime \<Rightarrow> rideSummaryJSON" where
  "ride_summary snap now =
     \<lparr>sj_Points = c_Total (rs_Counts (sn_Summary snap)), sj_Matched = c_Matched (rs_Counts (sn_Summary snap)),
      sj_Corroborated = c_Corroborated (rs_Counts (sn_Summary snap)),
      sj_DurationSeconds = whole_seconds (max (time_sub now (sn_StartedAt snap)) 0)\<rparr>"

definition handleEndRide ::
  "'b riderDeps \<Rightarrow> gotime \<Rightarrow> gotime \<Rightarrow> MapClaims option \<Rightarrow> http_request \<Rightarrow> string \<Rightarrow> string body
     \<Rightarrow> ('b, rideSummaryJSON) handler" where
  "handleEndRide cf now dbnow ctx r i body sv st =
     (case riderIDFromContext ctx of
        None \<Rightarrow> (HErr 401 ''invalid token'', sv, st)
      | Some riderID \<Rightarrow>
          (case ride_limited cf riderID now sv of
             (sv', False) \<Rightarrow> (HErr 429 ''too many ride changes, slow down'', sv', st)
           | (sv', True) \<Rightarrow>
               (case decodeRiderJSON r body of
                  Inl bad \<Rightarrow> (bad, sv', st)
                | Inr reason_name \<Rightarrow>
                    (case ParseClientEndReason reason_name of
                       None \<Rightarrow> (HErr 400 ''unknown end reason'', sv', st)
                     | Some reason \<Rightarrow>
                         (case resolveRide cf (sv_agg sv') i riderID of
                            Inl bad \<Rightarrow> (bad, sv', st)
                          | Inr snap \<Rightarrow>
                              (case finishRide (sn_ID snap) reason now dbnow (sv_agg sv') st of
                                 (Inl errRideNotActive, a, st') \<Rightarrow> (HErr 409 ''ride ended'', sv'\<lparr>sv_agg := a\<rparr>, st')
                               | (Inl (StoreFailed e), a, st') \<Rightarrow> (server_error, sv'\<lparr>sv_agg := a\<rparr>, st')
                               | (Inr _, a, st') \<Rightarrow> (HOk 200 (ride_summary snap now), sv'\<lparr>sv_agg := a\<rparr>, st')))))))"

section \<open>Position reports\<close>

text \<open>The report of a batch that is acceptable: its points.\<close>

definition read_report :: "http_request \<Rightarrow> positionUpload list body \<Rightarrow> 'a answer + Point list" where
  "read_report r body =
     (case decodeRiderJSON r body of
        Inl bad \<Rightarrow> Inl bad
      | Inr positions \<Rightarrow>
          (if positions = [] then Inl (HErr 400 ''positions must contain at least one position'')
           else if length positions > riderMaxBatchSize then Inl (HErr 400 ''too many positions in one report'')
           else case read_positions positions of Inl msg \<Rightarrow> Inl (HErr 400 msg) | Inr pts \<Rightarrow> Inr pts))"

definition report_outcome :: "BatchResult \<Rightarrow> positionsResponse" where
  "report_outcome res =
     \<lparr>po_State = State_String (rs_State (br_Summary res)), po_Published = br_Published res,
      po_Corroboration = Corroboration_String (br_Corroboration res), po_Accepted = br_Accepted res,
      po_Ignored = br_Ignored res, po_OffRouteStreak = br_OffRouteStreak res,
      po_Ended = RideSummary_Ended (br_Summary res), po_EndReason = reason_string (rs_EndReason (br_Summary res))\<rparr>"

text \<open>The error of storing the batch, if it was stored and failed.\<close>

definition store_batch :: "RideSnapshot \<Rightarrow> string \<Rightarrow> BatchResult \<Rightarrow> gotime \<Rightarrow> StoreError option call" where
  "store_batch snap riderID res dbnow =
     (if sn_Tier snap \<noteq> TierBlocked \<and> br_Points res \<noteq> [] then
        serve (Store_RecordRidePoints (sn_ID snap) riderID (ridePointRecords (br_Points res)) (progressOf (br_Summary res)) dbnow)
          (\<lambda>stored. answer (case stored of Inl e \<Rightarrow> Some e | Inr _ \<Rightarrow> None))
      else answer None)"

text \<open>File the ride, whatever comes of it: the error is only logged.\<close>

definition try_finish ::
  "string \<Rightarrow> EndReason \<Rightarrow> gotime \<Rightarrow> gotime \<Rightarrow> Aggregator \<times> net \<times> Database \<Rightarrow> Aggregator \<times> net \<times> Database" where
  "try_finish rideID reason now dbnow st = (case st of (a, st) \<Rightarrow> snd (finishRide rideID reason now dbnow a st))"

text \<open>\<open>meanwhile\<close> is what other callers do to the registry while \<open>ApplyBatch\<close> has its lock released.\<close>

definition handlePositions ::
  "'b riderDeps \<Rightarrow> (Aggregator \<Rightarrow> Aggregator) \<Rightarrow> gotime \<Rightarrow> gotime \<Rightarrow> MapClaims option \<Rightarrow> http_request \<Rightarrow> string
     \<Rightarrow> positionUpload list body \<Rightarrow> ('b, positionsResponse) handler" where
  "handlePositions cf meanwhile now dbnow ctx r i body sv st =
     (case riderIDFromContext ctx of
        None \<Rightarrow> (HErr 401 ''invalid token'', sv, st)
      | Some riderID \<Rightarrow>
          (let (l, allowed) = Vehicle_Allow (cf_new cf) (cf_draw cf) riderID now (sv_batch sv); sv' = sv\<lparr>sv_batch := l\<rparr>
           in if \<not> allowed then (HErr 429 ''too many position reports, slow down'', sv', st)
              else case resolveRide cf (sv_agg sv') i riderID of
                Inl bad \<Rightarrow> (bad, sv', st)
              | Inr snap \<Rightarrow>
                  (case read_report r body of
                     Inl bad \<Rightarrow> (bad, sv', st)
                   | Inr points \<Rightarrow>
                       (case ApplyBatch meanwhile (sn_ID snap) points (trusted_lookup cf now) now (sv_agg sv') of
                          (a1, None) \<Rightarrow> (HErr 409 ''ride ended'', sv'\<lparr>sv_agg := a1\<rparr>, st)
                        | (a1, Some res) \<Rightarrow>
                            (let (storeErr, st1) = store_batch snap riderID res dbnow st;
                                 (a2, st2) = (case rs_EndReason (br_Summary res) of
                                                None \<Rightarrow> (a1, st1)
                                              | Some reason \<Rightarrow> try_finish (sn_ID snap) reason now dbnow (a1, st1))
                             in case storeErr of
                                  None \<Rightarrow> (HOk 200 (report_outcome res), sv'\<lparr>sv_agg := a2\<rparr>, st2)
                                | Some e \<Rightarrow>
                                    (if e = ErrRideNotFound then
                                       (case try_finish (sn_ID snap) EndIdle now dbnow (a2, st2) of
                                          (a3, st3) \<Rightarrow> (HErr 409 ''ride ended'', sv'\<lparr>sv_agg := a3\<rparr>, st3))
                                     else (server_error, sv'\<lparr>sv_agg := a2\<rparr>, st2)))))))"

section \<open>Status\<close>

text \<open>\<open>ks\<close> and \<open>kks\<close> are the orders in which Go visits the registry's maps.\<close>

definition handleTripStatus ::
  "'b riderDeps \<Rightarrow> string list \<Rightarrow> gotime \<Rightarrow> string \<Rightarrow> string \<Rightarrow> Aggregator \<Rightarrow> tripStatusResponse answer" where
  "handleTripStatus cf ks now start_date tripID a =
     (case cf_index cf of
        None \<Rightarrow> HErr 503 ''schedule data unavailable''
      | Some index \<Rightarrow>
          (if start_date \<noteq> [] \<and> \<not> serviceDatePattern start_date then HErr 400 ''start_date must be YYYYMMDD''
           else if Trip index tripID = None then HErr 404 ''unknown trip''
           else
             let startDate = (if start_date = [] then ServiceDate (ix_tz index) now else start_date);
                 key = TripKey tripID startDate; covered = coveredFunc cf now;
                 (riderReported, riders) = TripStatus ks key now covered a
             in HOk 200 \<lparr>ts_TripID = tripID, ts_StartDate = startDate, ts_Trusted = is_covered covered key,
                         ts_RiderReported = riderReported, ts_Riders = riders\<rparr>))"

definition service_Estimates :: "'b riderDeps \<Rightarrow> string list \<Rightarrow> TripKey list \<Rightarrow> gotime \<Rightarrow> Aggregator \<Rightarrow> TripEstimate list" where
  "service_Estimates cf ks kks now a = Estimates ks kks now (coveredFunc cf now) a"

record riderGTFSStatus =
  gt_Source :: string
  gt_LoadedAt :: string
  gt_Trips :: nat
  gt_Shapes :: nat
  gt_Timezone :: string

record riderFeedStatus =
  fd_URL :: string
  fd_LastSuccess :: string
  fd_LastError :: "FetchError option"
  fd_Entities :: nat

record riderTierCounts =
  tc_Total :: int
  tc_Trusted :: int
  tc_Blocked :: int

record riderRideCounts =
  nc_Active :: nat
  nc_Publishable :: nat

record riderStatusResponse =
  rs_Enabled :: bool
  rs_GTFS :: "riderGTFSStatus option"
  rs_TrustedFeeds :: "riderFeedStatus list"
  rs_Riders :: "riderTierCounts option"
  rs_Rides :: "riderRideCounts option"

text \<open>\<open>t.UTC().Format(time.RFC3339)\<close>.\<close>

definition rfc3339 :: "gotime \<Rightarrow> string" where
  "rfc3339 t =
     (let utc = (\<lambda>_. 0); (y, m, d) = Date_of utc t; s = clock_of utc t
      in year_digits y @ ''-'' @ pad_digits 2 m @ ''-'' @ pad_digits 2 d @ ''T'' @ pad_digits 2 (s div 3600) @ '':''
         @ pad_digits 2 (s div 60 mod 60) @ '':'' @ pad_digits 2 (s mod 60) @ ''Z'')"

definition adminRiderTime :: "gotime \<Rightarrow> string" where
  "adminRiderTime t = (if is_zero_time t then [] else rfc3339 t)"

definition riderFeedStatuses :: "FeedHealth list \<Rightarrow> riderFeedStatus list" where
  "riderFeedStatuses health =
     map (\<lambda>h. \<lparr>fd_URL = fh_URL h, fd_LastSuccess = adminRiderTime (fh_LastSuccess h), fd_LastError = fh_LastError h,
               fd_Entities = fh_Entities h\<rparr>) health"

definition riders_in :: "(string \<times> int) list \<Rightarrow> string \<Rightarrow> int" where  \<comment> \<open>\<open>byTier[tier]\<close>\<close>
  "riders_in rows tier = (case map_of (rev rows) tier of None \<Rightarrow> 0 | Some n \<Rightarrow> n)"

definition RiderStatus ::
  "'b riderDeps \<Rightarrow> string list \<Rightarrow> TripKey list \<Rightarrow> gotime \<Rightarrow> Aggregator \<Rightarrow> (StoreError + riderStatusResponse) call" where
  "RiderStatus cf ks kks now a =
     serve Store_CountRidersByTier (\<lambda>res.
       answer (case res of
         Inl e \<Rightarrow> Inl e
       | Inr byTier \<Rightarrow>
           Inr \<lparr>rs_Enabled = True,
                rs_GTFS = map_option (\<lambda>index.
                  \<lparr>gt_Source = is_Source (ix_stats index), gt_LoadedAt = adminRiderTime (is_LoadedAt (ix_stats index)),
                   gt_Trips = is_Trips (ix_stats index), gt_Shapes = is_Shapes (ix_stats index),
                   gt_Timezone = cf_timezone cf\<rparr>) (cf_index cf),
                rs_TrustedFeeds = (case cf_trusted cf of
                                     None \<Rightarrow> []
                                   | Some (_, t) \<Rightarrow> if sources_Configured t then riderFeedStatuses (sources_Health t) else []),
                rs_Riders = Some \<lparr>tc_Total = sum_list (map (riders_in byTier) (remdups (map fst byTier))),
                                 tc_Trusted = riders_in byTier (Tier_String TierTrusted),
                                 tc_Blocked = riders_in byTier (Tier_String TierBlocked)\<rparr>,
                rs_Rides = Some \<lparr>nc_Active = ActiveCount ks a,
                                nc_Publishable = PublishableCount ks kks now (coveredFunc cf now) a\<rparr>\<rparr>))"

text \<open>What stands in for the service where rider mode is off.\<close>

definition riderOff_Estimates :: "TripEstimate list" where
  "riderOff_Estimates = []"

definition riderOff_RiderStatus :: riderStatusResponse where
  "riderOff_RiderStatus =
     \<lparr>rs_Enabled = False, rs_GTFS = None, rs_TrustedFeeds = [], rs_Riders = None, rs_Rides = None\<rparr>"

definition handleRiderAdminStatus :: "(StoreError + riderStatusResponse) call \<Rightarrow> riderStatusResponse answer call" where
  "handleRiderAdminStatus status =
     serve status (\<lambda>res. answer (case res of Inl e \<Rightarrow> server_error | Inr s \<Rightarrow> HOk 200 s))"

section \<open>The admin's list of rides\<close>

definition defaultRiderRideListLimit :: int where "defaultRiderRideListLimit = 50"
definition maxRiderRideListLimit :: int where "maxRiderRideListLimit = 200"

record adminRideEntry =
  ae_ID :: string
  ae_RiderID :: string
  ae_TripID :: string
  ae_StartDate :: string
  ae_RouteID :: string
  ae_State :: string
  ae_Corroborated :: bool
  ae_Status :: string
  ae_EndReason :: string
  ae_PointsTotal :: int
  ae_PointsMatched :: int
  ae_PointsCorroborated :: int
  ae_StartedAt :: string
  ae_EndedAt :: "string option"

definition adminRideEntryOf :: "Ride \<Rightarrow> adminRideEntry" where
  "adminRideEntryOf ride =
     \<lparr>ae_ID = ri_ID ride, ae_RiderID = ri_RiderID ride, ae_TripID = ri_TripID ride, ae_StartDate = ri_StartDate ride,
      ae_RouteID = ri_RouteID ride, ae_State = ri_State ride, ae_Corroborated = ri_Corroborated ride,
      ae_Status = ri_Status ride, ae_EndReason = ri_EndReason ride, ae_PointsTotal = ri_PointsTotal ride,
      ae_PointsMatched = ri_PointsMatched ride, ae_PointsCorroborated = ri_PointsCorroborated ride,
      ae_StartedAt = adminRiderTime (ri_StartedAt ride), ae_EndedAt = map_option adminRiderTime (ri_EndedAt ride)\<rparr>"

record adminRidesResponse =
  ar_Count :: nat
  ar_HasMore :: bool
  ar_Rides :: "adminRideEntry list"

definition handleRiderAdminRides :: "string \<Rightarrow> string \<Rightarrow> string \<Rightarrow> adminRidesResponse answer call" where
  "handleRiderAdminRides status limit offset =
     (let status = (if status = [] then ''active'' else status)
      in if status \<noteq> ''active'' \<and> status \<noteq> ''ended'' then answer (HErr 400 ''status must be \"active\" or \"ended\"'')
         else case parsePage limit offset defaultRiderRideListLimit maxRiderRideListLimit of
                Inl msg \<Rightarrow> answer (HErr 400 msg)
              | Inr (n, from_row) \<Rightarrow>
                  serve (Store_ListRides status (nat (n + 1)) (nat from_row)) (\<lambda>res.
                    answer (case res of
                      Inl e \<Rightarrow> server_error
                    | Inr rides \<Rightarrow>
                        (let shown = (if length rides > nat n then take (nat n) rides else rides)
                         in HOk 200 \<lparr>ar_Count = length shown, ar_HasMore = length rides > nat n,
                                    ar_Rides = map adminRideEntryOf shown\<rparr>))))"

section \<open>The loops behind the API\<close>

text \<open>Starting up ends every ride a previous process left active, and starts with an empty registry.\<close>

definition newRiderRuntime ::
  "Thresholds \<Rightarrow> location \<Rightarrow> gotime \<Rightarrow> net \<times> Database \<Rightarrow> (StoreError + 'b riderService) \<times> net \<times> Database" where
  "newRiderRuntime th tz dbnow st =
     (case Store_EndAllActiveRides ''server_restart'' dbnow st of
        (Inl e, st') \<Rightarrow> (Inl e, st')
      | (Inr ended, st') \<Rightarrow> (Inr (newRiderService (NewAggregator th tz)), st'))"

text \<open>One tick of the reaper.\<close>

definition reap_tick :: "string list \<Rightarrow> gotime \<Rightarrow> gotime \<Rightarrow> Aggregator \<times> net \<times> Database \<Rightarrow> Aggregator \<times> net \<times> Database" where
  "reap_tick ks now dbnow st =
     (case st of (a, st) \<Rightarrow>
        (case Reap ks now a of
           (a1, reaped) \<Rightarrow> fold (\<lambda>i. try_finish i EndIdle now dbnow) reaped (a1, st)))"

definition retention_tick :: "duration \<Rightarrow> gotime \<Rightarrow> (StoreError + int) call" where
  "retention_tick pointRetention now = Store_DeleteRidePointsBefore (time_add now (- pointRetention))"

end
