(* ===== verification/RideProtocol.thy ===== *)
theory RideProtocol
  imports RiderService
begin

text \<open>
  How the registry of live rides and the table of rides stay in agreement. The handlers of the rider API, the
  reaper and the rest of the server share both; \<open>protocol\<close> is the relation of their atomic steps, in any
  interleaving and with any fault of the network. It is shown that each handler run is a path of it, and that
  along every path a live session is backed by the active row of its own ride.
\<close>

section \<open>Sessions and rows\<close>

definition row_of :: "Session \<Rightarrow> RideRow \<Rightarrow> bool" where
  "row_of s r \<longleftrightarrow> rd_ID r = s_id s \<and> rd_RiderID r = s_riderID s \<and> TripKey (rd_TripID r) (rd_StartDate r) = s_key s"

text \<open>The session's ride is in the table; its row is still active.\<close>

definition has_row :: "(RideRow \<Rightarrow> bool) \<Rightarrow> Database \<Rightarrow> bool" where
  "has_row q d \<longleftrightarrow> (\<exists>r \<in> set (db_rides d). q r)"

definition stored :: "Session \<Rightarrow> Database \<Rightarrow> bool" where
  "stored s = has_row (row_of s)"

definition live :: "Session \<Rightarrow> Database \<Rightarrow> bool" where
  "live s = has_row (\<lambda>r. row_of s r \<and> rd_Status r = ''active'')"

lemma live_stored: "live s d \<Longrightarrow> stored s d"
  by (auto simp: live_def stored_def has_row_def)

lemma row_of_identity: "identity s' = identity s \<Longrightarrow> row_of s' = row_of s"
  by (auto simp: row_of_def fun_eq_iff identity_def)

lemma stored_identity: "identity s' = identity s \<Longrightarrow> stored s' = stored s \<and> live s' = live s"
  unfolding stored_def live_def by (drule row_of_identity) simp

lemma has_row_same: "db_rides d' = db_rides d \<Longrightarrow> has_row q d \<Longrightarrow> has_row q d'"
  by (simp add: has_row_def)

lemma has_row_update:
  assumes "has_row q d" "db_rides d' = update_rows p g (db_rides d)" "\<And>r. q r \<Longrightarrow> p r \<Longrightarrow> q (g r)"
  shows "has_row q d'"
proof -
  obtain r where "r \<in> set (db_rides d)" "q r"
    using assms(1) by (auto simp: has_row_def)
  then have "(if p r then g r else r) \<in> set (db_rides d')" "q (if p r then g r else r)"
    using assms(2,3) by (auto simp: set_update_rows)
  then show ?thesis
    by (auto simp: has_row_def)
qed

lemma keeps_has_row:
  "keeps (has_row q) (db_InsertRide p now)"
  "(\<And>r. q r \<Longrightarrow> q (set_progress g now r)) \<Longrightarrow> keeps (has_row q) (db_UpdateRideProgress i g now)"
  "(\<And>r o1. q r \<Longrightarrow> active_ride i r
      \<Longrightarrow> q ((set_progress g now r)\<lparr>rd_Status := ''ended'', rd_EndedAt := Some now, rd_EndReason := reason\<rparr>))
     \<Longrightarrow> keeps (has_row q) (db_EndRide i reason g now)"
  "keeps (has_row q) (db_TouchRider i now)"
  "keeps (has_row q) (db_ApplyRideOutcome i delta corroborated rejected now)"
  "keeps (has_row q) (db_SetRiderTier i tier)"
  "keeps (has_row q) (db_InsertRidePoints ps now)"
proof -
  show "keeps (has_row q) (db_InsertRide p now)"
    by (rule keepsI) (auto simp: db_InsertRide_def Let_def has_row_def split: if_splits)
  show "keeps (has_row q) (db_UpdateRideProgress i g now)" if "\<And>r. q r \<Longrightarrow> q (set_progress g now r)"
    by (rule keepsI) (auto simp: db_UpdateRideProgress_def intro: has_row_update that split: if_splits)
  show "keeps (has_row q) (db_EndRide i reason g now)"
    if "\<And>r o1. q r \<Longrightarrow> active_ride i r
      \<Longrightarrow> q ((set_progress g now r)\<lparr>rd_Status := ''ended'', rd_EndedAt := Some now, rd_EndReason := reason\<rparr>)"
    by (rule keepsI) (auto simp: db_EndRide_def intro: has_row_update that split: if_splits sum.splits)
  show "keeps (has_row q) (db_TouchRider i now)"
    by (rule keepsI) (auto simp: db_TouchRider_def intro: has_row_same)
  show "keeps (has_row q) (db_ApplyRideOutcome i delta corroborated rejected now)"
    by (rule keepsI) (auto simp: db_ApplyRideOutcome_def Let_def dest!: read_oneE intro: has_row_same split: if_splits sum.splits)
  show "keeps (has_row q) (db_SetRiderTier i tier)"
    by (rule keepsI) (auto simp: db_SetRiderTier_def intro: has_row_same split: if_splits)
  show "keeps (has_row q) (db_InsertRidePoints ps now)"
    by (rule keepsI) (auto dest: points_keep_rides intro: has_row_same)
qed

lemma row_of_progress [simp]:
  "row_of s (set_progress p now r) = row_of s r" "rd_Status (set_progress p now r) = rd_Status r"
  "row_of s (r\<lparr>rd_Status := x, rd_EndedAt := y, rd_EndReason := z\<rparr>) = row_of s r"
  by (simp_all add: row_of_def set_progress_def)

lemma keeps_stored [keeps_intros]:
  "keeps (stored s) (db_InsertRide p now)" "keeps (stored s) (db_UpdateRideProgress i g now)"
  "keeps (stored s) (db_EndRide i reason g now)" "keeps (stored s) (db_TouchRider i now)"
  "keeps (stored s) (db_ApplyRideOutcome i delta corroborated rejected now)" "keeps (stored s) (db_SetRiderTier i tier)"
  "keeps (stored s) (db_InsertRidePoints ps now)"
  unfolding stored_def by (rule keeps_has_row; simp)+

lemma keeps_live [keeps_intros]:
  "keeps (live s) (db_InsertRide p now)" "keeps (live s) (db_UpdateRideProgress i g now)"
  "i \<noteq> s_id s \<Longrightarrow> keeps (live s) (db_EndRide i reason g now)" "keeps (live s) (db_TouchRider i now)"
  "keeps (live s) (db_ApplyRideOutcome i delta corroborated rejected now)" "keeps (live s) (db_SetRiderTier i tier)"
  "keeps (live s) (db_InsertRidePoints ps now)"
  unfolding live_def by (rule keeps_has_row; simp add: active_ride_def; simp add: row_of_def)+

lemma store_keeps:
  "call_keeps (stored s) (Store_StartRide ride now)" "call_keeps (stored s) (Store_FinishRide i o1 now)"
  "call_keeps (stored s) (Store_RecordRidePoints i riderID points progress now)"
  "call_keeps (live s) (Store_StartRide ride now)" "i \<noteq> s_id s \<Longrightarrow> call_keeps (live s) (Store_FinishRide i o1 now)"
  "call_keeps (live s) (Store_RecordRidePoints i riderID points progress now)"
  "call_keeps db_ok (Store_StartRide ride now)" "call_keeps db_ok (Store_FinishRide i o1 now)"
  "call_keeps db_ok (Store_RecordRidePoints i riderID points progress now)"
  unfolding rider_store_defs Let_def by (intro keeps_intros; assumption?)+

section \<open>The steps\<close>

text \<open>
  A world: the registry, the database, the sessions whose ride is inserted and which are still to be
  registered, and the ids of the rides that some caller has ordered to end. Each rule is one atomic step:
  one critical section of the registry's lock or one call of the store.
\<close>

type_synonym world = "Aggregator \<times> Database \<times> Session set \<times> string set"

inductive protocol :: "world \<Rightarrow> world \<Rightarrow> bool" where
  p_insert: "Store_StartRide ride dbnow (net, d) = (Inr row, net', d')
    \<Longrightarrow> protocol (a, d, P, E) (a, d', insert (ride_session row (ri_RiderID ride) trip tier) P, E)"
| p_insert_failed: "Store_StartRide ride dbnow (net, d) = (Inl e, net', d') \<Longrightarrow> protocol (a, d, P, E) (a, d', P, E)"
| p_add: "s \<in> P \<Longrightarrow> protocol (a, d, P, E) (agg_Add s a, d, P - {s}, E)"
| p_end: "agg_End i reason now a = (a', Some snap) \<Longrightarrow> protocol (a, d, P, E) (a', d, P, insert i E)"
| p_file: "i \<in> E \<Longrightarrow> Store_FinishRide i o1 dbnow (net, d) = (res, net', d') \<Longrightarrow> protocol (a, d, P, E) (a, d', P, E)"
| p_remove: "i \<in> E \<Longrightarrow> protocol (a, d, P, E) (fst (Remove i a), d, P, E)"
| p_tier: "protocol (a, d, P, E) (agg_SetTier r tier a, d, P, E)"
| p_batch: "protocol (a, d, P, E) (fst (apply_batch_locked key trusted i pts now a), d, P, E)"
| p_reap: "range_order ks (ag_sessions a) \<Longrightarrow> Reap ks now a = (a', reaped) \<Longrightarrow> protocol (a, d, P, E) (a', d, P, E \<union> set reaped)"
| p_record: "Store_RecordRidePoints i riderID points progress dbnow (net, d) = (res, net', d')
    \<Longrightarrow> protocol (a, d, P, E) (a, d', P, E)"
| p_other: "db_step d d' \<Longrightarrow> db_rides d' = db_rides d \<Longrightarrow> protocol (a, d, P, E) (a, d', P, E)"

text \<open>
  What holds in every world: a registered session is stored; it is live unless it was ordered to end, and then
  it has ended; a session still to be registered is live, and its id is new to the registry.
\<close>

definition session_backed :: "Database \<Rightarrow> string set \<Rightarrow> Session \<Rightarrow> bool" where
  "session_backed d E s \<longleftrightarrow> stored s d \<and> (if s_id s \<in> E then s_ended s else live s d)"

definition pending_ok :: "Aggregator \<Rightarrow> Database \<Rightarrow> string set \<Rightarrow> Session \<Rightarrow> bool" where
  "pending_ok a d E s \<longleftrightarrow> live s d \<and> reachable s \<and> s_id s \<notin> E \<and> ag_sessions a (s_id s) = None"

definition known_id :: "string \<Rightarrow> Database \<Rightarrow> bool" where
  "known_id i = has_row (\<lambda>r. rd_ID r = i)"

fun world_ok :: "world \<Rightarrow> bool" where
  "world_ok (a, d, P, E) \<longleftrightarrow>
     db_ok d \<and> agg_ok a \<and> (\<forall>s \<in> ran (ag_sessions a). session_backed d E s)
     \<and> (\<forall>s \<in> P. pending_ok a d E s) \<and> inj_on s_id P \<and> (\<forall>i \<in> E. known_id i d)"

lemma stored_known: "stored s d \<Longrightarrow> known_id (s_id s) d"
  by (auto simp: stored_def known_id_def has_row_def row_of_def)

lemma session_in: "agg_ok a \<Longrightarrow> s \<in> ran (ag_sessions a) \<longleftrightarrow> ag_sessions a (s_id s) = Some s"
  by (auto simp: agg_ok_def ran_def)

text \<open>Steps that change sessions in place, keeping which they are and never undoing an end.\<close>

definition in_place :: "Aggregator \<Rightarrow> Aggregator \<Rightarrow> bool" where
  "in_place a a' \<longleftrightarrow>
     (\<forall>i. case ag_sessions a' i of
            None \<Rightarrow> ag_sessions a i = None
          | Some s' \<Rightarrow> \<exists>s. ag_sessions a i = Some s \<and> identity s' = identity s \<and> (s_ended s \<longrightarrow> s_ended s'))"

lemma in_place_world:
  assumes ok: "world_ok (a, d, P, E)" and step: "agg_step a a'" and place: "in_place a a'"
    and more: "\<And>i. i \<in> E' \<Longrightarrow> i \<in> E \<or> (\<exists>s. ag_sessions a' i = Some s \<and> s_ended s)" and "E \<subseteq> E'"
  shows "world_ok (a', d, P, E')"
proof -
  have aok: "agg_ok a" "agg_ok a'"
    using ok agg_ok_step [OF step] by auto
  have old: "\<exists>s. ag_sessions a i = Some s \<and> identity s' = identity s \<and> (s_ended s \<longrightarrow> s_ended s')"
    if "ag_sessions a' i = Some s'" for i s'
    using place [unfolded in_place_def, rule_format, of i] that by simp
  have none: "ag_sessions a' i = None \<longleftrightarrow> ag_sessions a i = None" for i
    using place [unfolded in_place_def, rule_format, of i] by (auto split: option.splits)
  have backed: "session_backed d E' s'" if "s' \<in> ran (ag_sessions a')" for s'
  proof -
    have mem: "ag_sessions a' (s_id s') = Some s'"
      using that session_in aok by blast
    obtain s where s: "ag_sessions a (s_id s') = Some s" "identity s' = identity s" "s_ended s \<longrightarrow> s_ended s'"
      using old [OF mem] by blast
    then have b: "session_backed d E s"
      using ok by (auto intro: ranI)
    have same: "s_id s' = s_id s" "stored s' d = stored s d" "live s' d = live s d"
      using identity_fields(1) [OF s(2)] stored_identity [OF s(2)] by (simp_all only:)
    have ended: "s_ended s'" if "s_id s \<in> E'"
      using that more [of "s_id s"] mem b s(3) same(1) unfolding session_backed_def by (metis option.inject)
    show ?thesis
    proof (cases "s_id s \<in> E'")
      case True
      then show ?thesis
        using b ended unfolding session_backed_def same by simp
    next
      case False
      then show ?thesis
        using b subsetD [OF \<open>E \<subseteq> E'\<close>, of "s_id s"] unfolding session_backed_def same by (auto split: if_splits)
    qed
  qed
  have "pending_ok a' d E' s" if "s \<in> P" for s
  proof -
    have p: "pending_ok a d E s"
      using ok that by simp
    then have "ag_sessions a' (s_id s) = None"
      by (simp add: pending_ok_def none)
    then show ?thesis
      using p more [of "s_id s"] by (auto simp: pending_ok_def)
  qed
  moreover have "known_id i d" if new: "i \<in> E'" for i
  proof (cases "i \<in> E")
    case False
    then obtain s where "ag_sessions a' i = Some s"
      using more [OF new] by blast
    then show ?thesis
      using backed [of s] aok stored_known [of s d] unfolding agg_ok_def session_backed_def by (metis ranI)
  qed (use ok in auto)
  ultimately show ?thesis
    using ok aok backed by simp
qed

text \<open>Steps of the database alone.\<close>

lemma db_world:
  assumes ok: "world_ok (a, d, P, E)" and "db_ok d'"
    and stored: "\<And>s. stored s d \<Longrightarrow> stored s d'" and live: "\<And>s. live s d \<Longrightarrow> s_id s \<notin> E \<Longrightarrow> live s d'"
    and known: "\<And>i. known_id i d \<Longrightarrow> known_id i d'"
  shows "world_ok (a, d', P, E)"
  using assms by (auto simp: session_backed_def pending_ok_def split: if_splits)


lemma known_keeps [keeps_intros]:
  "call_keeps (known_id j) (Store_StartRide ride now)" "call_keeps (known_id j) (Store_FinishRide i o1 now)"
  "call_keeps (known_id j) (Store_RecordRidePoints i riderID points progress now)"
  unfolding rider_store_defs Let_def known_id_def
  by (intro keeps_intros keeps_has_row; simp add: set_progress_def)+

section \<open>Every step keeps the agreement\<close>

lemma in_place_upd:
  "ag_sessions a i = Some s \<Longrightarrow> identity s' = identity s \<Longrightarrow> (s_ended s \<longrightarrow> s_ended s')
     \<Longrightarrow> in_place a (a\<lparr>ag_sessions := (ag_sessions a)(i \<mapsto> s')\<rparr>)"
  by (auto simp: in_place_def split: option.splits)

lemma in_place_End:
  assumes "agg_End i reason now a = (a', Some snap)"
  shows "in_place a a' \<and> agg_step a a' \<and> (\<exists>s. ag_sessions a' i = Some s \<and> s_ended s)"
proof -
  obtain s where s: "ag_sessions a i = Some s"
    and a': "a' = a\<lparr>ag_sessions := (ag_sessions a)(i \<mapsto> End reason now s)\<rparr>"
    using assms by (auto simp: agg_End_def Let_def split: option.splits)
  moreover have "s_ended (End reason now s)"
    by (simp add: End_def)
  moreover have "agg_step a a'"
    using agg_end [of a i reason now] assms by simp
  ultimately show ?thesis
    using in_place_upd [OF s identity_End] by auto
qed

lemma in_place_refl [simp]: "in_place a a"
  by (auto simp: in_place_def split: option.splits)

lemma in_place_SetTier: "in_place a (agg_SetTier r tier a)"
proof (cases "activeForRiderLocked a r")
  case (Some s)
  then obtain i where "ag_byRider a r = Some i" "ag_sessions a i = Some s"
    by (auto simp: activeForRiderLocked_def split: option.splits if_splits)
  then show ?thesis
    using Some in_place_upd [OF _ identity_SetTier] by (simp add: agg_SetTier_def) (simp add: SetTier_def in_place_upd)
qed (simp add: agg_SetTier_def)

lemma in_place_batch: "in_place a (fst (apply_batch_locked key trusted i pts now a))"
proof (cases "\<exists>s. ag_sessions a i = Some s \<and> \<not> s_ended s \<and> s_key s = key")
  case True
  then obtain s where s: "ag_sessions a i = Some s" "\<not> s_ended s" "s_key s = key" by blast
  define judge where
    "judge = (\<lambda>s' p. Verify (verify_input (ag_th a) (ag_tz a) trusted (trusted_along trusted s) now s' p))"
  obtain s' ps' ign' where r: "apply_points judge pts (s, [], 0) = (s', ps', ign')"
    by (cases "apply_points judge pts (s, [], 0)") auto
  then show ?thesis
    using apply_points_result [OF r] s
    by (simp add: apply_batch_locked_def judge_def Let_def in_place_upd)
next
  case False
  then show ?thesis
    by (auto simp: apply_batch_locked_def split: option.splits)
qed

lemma reaped_session_fields: "identity (reaped_session now s) = identity s" "s_ended s \<Longrightarrow> s_ended (reaped_session now s)"
  by (auto simp: reaped_session_def split: option.splits)

lemma in_place_Reap:
  assumes "range_order ks (ag_sessions a)" "Reap ks now a = (a', reaped)"
  shows "in_place a a' \<and> agg_step a a' \<and> (\<forall>i \<in> set reaped. \<exists>s. ag_sessions a' i = Some s \<and> s_ended s)"
  using assms agg_reap [of a ks now] Reap_all [OF assms(1), of now]
  by (auto simp: in_place_def reaped_session_fields split: option.splits)

lemma started_live:
  assumes "Store_StartRide ride dbnow (net, d) = (Inr row, net', d')"
  shows "live (ride_session row (ri_RiderID ride) trip tier) d' \<and> ri_ID row = ri_ID ride \<and> \<not> known_id (ri_ID ride) d"
  using assms
  by (auto simp: Store_StartRide_def answer_def db_InsertRide_def Let_def live_def has_row_def row_of_def known_id_def
      ride_session_def NewSession_def rideFromRow_def list_ex_iff elim!: and_then_Inr dest!: exec_Inr split: if_splits)

lemma protocol_keeps_ok: "protocol w w' \<Longrightarrow> world_ok w \<Longrightarrow> world_ok w'"
proof (induction rule: protocol.induct)
  case (p_insert ride dbnow net d row net' d' a P E trip tier)
  let ?s = "ride_session row (ri_RiderID ride) trip tier"
  have w: "world_ok (a, d', P, E)"
    using call_keepsD [OF store_keeps(7) p_insert(1)] call_keepsD [OF store_keeps(1) p_insert(1)]
      call_keepsD [OF store_keeps(4) p_insert(1)] call_keepsD [OF known_keeps(1) p_insert(1)] p_insert(2)
    by (intro db_world [OF p_insert(2)]) auto
  note new = started_live [OF p_insert(1), of trip tier]
  have sid: "s_id ?s = ri_ID ride"
    using new by (simp add: ride_session_def NewSession_def)
  have unknown: "\<not> known_id (ri_ID ride) d"
    using new by simp
  have "ri_ID ride \<notin> E"
    using unknown p_insert(2) by auto
  moreover have "ag_sessions a (ri_ID ride) = None"
  proof (rule ccontr)
    assume "ag_sessions a (ri_ID ride) \<noteq> None"
    then obtain s where "s \<in> ran (ag_sessions a)" "s_id s = ri_ID ride"
      using p_insert(2) by (auto simp: agg_ok_def intro: ranI)
    then have "known_id (ri_ID ride) d"
      using p_insert(2) stored_known [of s d] by (auto simp: session_backed_def)
    then show False
      using unknown by simp
  qed
  moreover have others: "s_id s \<noteq> ri_ID ride" if "s \<in> P" for s
    using that p_insert(2) unknown stored_known [OF live_stored, of s d] by (auto simp: pending_ok_def)
  ultimately have "pending_ok a d' E ?s"
    using new sid unfolding pending_ok_def by (metis reach_new ride_session_def)
  moreover have "inj_on s_id (insert ?s P)"
    unfolding inj_on_insert sid using w others by force
  ultimately show ?case
    using w by simp
next
  case (p_insert_failed ride dbnow net d e net' d' a P E)
  then show ?case
    using call_keepsD [OF store_keeps(7) p_insert_failed(1)] call_keepsD [OF store_keeps(1) p_insert_failed(1)]
      call_keepsD [OF store_keeps(4) p_insert_failed(1)] call_keepsD [OF known_keeps(1) p_insert_failed(1)]
    by (intro db_world [OF p_insert_failed(2)]) auto
next
  case (p_add s P a d E)
  then have s: "pending_ok a d E s" and inj: "inj_on s_id P" and aok: "agg_ok a"
    by auto
  have step: "agg_step a (agg_Add s a)"
    using s by (intro agg_add) (auto simp: pending_ok_def)
  then have "agg_ok (agg_Add s a)"
    using agg_ok_step aok by blast
  moreover have "ran (ag_sessions (agg_Add s a)) \<subseteq> insert s (ran (ag_sessions a))"
    by (auto simp: agg_Add_def ran_def split: if_splits)
  moreover have "pending_ok (agg_Add s a) d E s'" if "s' \<in> P - {s}" for s'
    using that p_add inj by (auto simp: pending_ok_def agg_Add_def inj_on_def)
  ultimately show ?case
    using p_add s live_stored [of s d] by (auto simp: pending_ok_def session_backed_def intro: inj_on_diff)
next
  case (p_end i reason now a a' snap d P E)
  then show ?case
    using in_place_End [OF p_end(1)] by (intro in_place_world [OF p_end(2)]) auto
next
  case (p_file i E o1 dbnow net d res net' d' a P)
  have keep: "live s d'" if "live s d" "s_id s \<notin> E" for s
    using call_keepsD [OF store_keeps(5) p_file(2)] that p_file(1) by metis
  show ?case
    using call_keepsD [OF store_keeps(8) p_file(2)] call_keepsD [OF store_keeps(2) p_file(2)]
      call_keepsD [OF known_keeps(2) p_file(2)] p_file(3) keep
    by (intro db_world [OF p_file(3)]) auto
next
  case (p_remove i E a d P)
  have sub: "ag_sessions (fst (Remove i a)) = (ag_sessions a)(i := None)"
    by (auto simp: Remove_def removeLocked_def split: option.splits)
  have "ran (ag_sessions (fst (Remove i a))) \<subseteq> ran (ag_sessions a)"
    unfolding sub by (auto simp: ran_def split: if_splits)
  moreover have "agg_ok (fst (Remove i a))"
    using p_remove agg_ok_step [OF agg_remove] by auto
  moreover have "pending_ok (fst (Remove i a)) d E s" if "s \<in> P" for s
    using that p_remove by (auto simp: pending_ok_def sub)
  ultimately show ?case
    using p_remove by auto
next
  case (p_tier a d P E r tier)
  then show ?case
    by (intro in_place_world [OF p_tier] agg_tier in_place_SetTier) auto
next
  case (p_batch a d P E key trusted i pts now)
  then show ?case
    by (intro in_place_world [OF p_batch] agg_batch in_place_batch) auto
next
  case (p_reap ks a now a' reaped d P E)
  then show ?case
    using in_place_Reap [OF p_reap(1,2)] by (intro in_place_world [OF p_reap(3)]) auto
next
  case (p_record i riderID points progress dbnow net d res net' d' a P E)
  then show ?case
    using call_keepsD [OF store_keeps(9) p_record(1)] call_keepsD [OF store_keeps(3) p_record(1)]
      call_keepsD [OF store_keeps(6) p_record(1)] call_keepsD [OF known_keeps(3) p_record(1)]
    by (intro db_world [OF p_record(2)]) auto
next
  case (p_other d d' a P E)
  have "has_row q d' = has_row q d" for q
    using p_other(2) by (simp add: has_row_def)
  then show ?case
    using step_keeps_ok [OF p_other(1)] p_other(3)
    by (intro db_world [OF p_other(3)]) (auto simp: stored_def live_def known_id_def)
qed


section \<open>Handlers are paths of the protocol\<close>

text \<open>What a caller may have done to the registry and the database, running alone.\<close>

definition runs_to :: "Aggregator \<Rightarrow> Database \<Rightarrow> Aggregator \<Rightarrow> Database \<Rightarrow> bool" where
  "runs_to a d a' d' \<longleftrightarrow> (\<forall>E. \<exists>E'. protocol\<^sup>*\<^sup>* (a, d, {}, E) (a', d', {}, E'))"

lemma runs_refl [simp]: "runs_to a d a d"
  by (auto simp: runs_to_def)

lemma runs_trans: "runs_to a d a1 d1 \<Longrightarrow> runs_to a1 d1 a' d' \<Longrightarrow> runs_to a d a' d'"
  unfolding runs_to_def by (meson rtranclp_trans)

lemma runs_step: "(\<And>E. \<exists>E'. protocol (a, d, {}, E) (a', d', {}, E')) \<Longrightarrow> runs_to a d a' d'"
  unfolding runs_to_def by (meson r_into_rtranclp)

lemma runs_finish:
  assumes run: "finishRide i reason now dbnow a (net, d) = (res, a', net', d')"
  shows "runs_to a d a' d'"
proof (cases "snd (agg_End i reason now a)")
  case None
  then show ?thesis
    using run by (auto simp: finishRide_def agg_End_def Let_def split: option.splits)
next
  case (Some snap)
  then obtain a1 where e: "agg_End i reason now a = (a1, Some snap)"
    by (metis prod.collapse)
  let ?o = "rideOutcomeOf (sn_Summary snap) (rs_EndReason (sn_Summary snap))"
  obtain r1 net1 d1 where f: "Store_FinishRide i ?o dbnow (net, d) = (r1, net1, d1)"
    by (metis prod_cases3)
  have "\<exists>E'. protocol\<^sup>*\<^sup>* (a, d, {}, E) (a', d', {}, E')" for E
  proof -
    have "protocol\<^sup>*\<^sup>* (a, d, {}, E) (a1, d1, {}, insert i E)"
      using p_end [OF e, where d = d and P = "{}" and E = E]
        p_file [OF insertI1 [of i E] f, where a = a1 and P = "{}"] by (meson r_into_rtranclp rtranclp.rtrancl_into_rtrancl)
    moreover have "protocol (a1, d1, {}, insert i E) (fst (Remove i a1), d1, {}, insert i E)"
      by (rule p_remove) simp
    ultimately show ?thesis
      using run e f p_tier [where a = "fst (Remove i a1)" and d = d1 and P = "{}" and E = "insert i E"]
      by (auto simp: finishRide_def split: sum.splits if_splits dest: rtranclp.rtrancl_into_rtrancl)
        (meson rtranclp.rtrancl_into_rtrancl)+
  qed
  then show ?thesis
    by (simp add: runs_to_def)
qed

lemma runs_try_finish: "try_finish i reason now dbnow (a, net, d) = (a', net', d') \<Longrightarrow> runs_to a d a' d'"
  by (cases "finishRide i reason now dbnow a (net, d)") (auto simp: try_finish_def dest: runs_finish)

lemma runs_fold_finish:
  "fold (\<lambda>i. try_finish i reason now dbnow) js (a, net, d) = (a', net', d') \<Longrightarrow> runs_to a d a' d'"
proof (induction js arbitrary: a net d)
  case (Cons i js)
  obtain a1 net1 d1 where f: "try_finish i reason now dbnow (a, net, d) = (a1, net1, d1)"
    by (metis prod_cases3)
  then show ?case
    using Cons runs_try_finish [OF f] by (auto intro: runs_trans)
qed simp

lemma runs_reap:
  assumes "range_order ks (ag_sessions a)" "reap_tick ks now dbnow (a, net, d) = (a', net', d')"
  shows "runs_to a d a' d'"
proof -
  obtain a1 reaped where r: "Reap ks now a = (a1, reaped)"
    by (cases "Reap ks now a")
  then have "runs_to a d a1 d"
    using p_reap [OF assms(1)] by (intro runs_step) blast
  then show ?thesis
    using assms(2) r by (auto simp: reap_tick_def dest: runs_fold_finish intro: runs_trans)
qed

lemma runs_query: "(\<And>d x d'. q d = Inr (x, d') \<Longrightarrow> d' = d) \<Longrightarrow> exec q (net, d) = (r, net', d') \<Longrightarrow> d' = d"
  by (erule exec_cases) auto

lemma load_rider_same: "load_rider riderID superseded (net, d) = (r, net', d') \<Longrightarrow> d' = d"
  by (auto simp: load_rider_def Store_GetRider_def db_GetRider_def answer_def
      elim!: serve_cases and_then_cases exec_cases dest!: read_oneE split: option.splits)

lemma runs_supersede: "supersede riderID now dbnow a (net, d) = (r, a', net', d') \<Longrightarrow> runs_to a d a' d'"
  by (auto simp: supersede_def dest: runs_finish split: option.splits prod.splits sum.splits finish_error.splits)

lemma runs_open:
  assumes run: "open_ride uuid riderID req trip startDate now dbnow a (net, d) = (ans, a', net', d')"
  shows "runs_to a d a' d'"
proof -
  obtain r1 a1 net1 d1 where s: "supersede riderID now dbnow a (net, d) = (r1, a1, net1, d1)"
    by (metis prod_cases4)
  note first = runs_supersede [OF s]
  show ?thesis
  proof (cases r1)
    case (Inl e)
    then show ?thesis
      using run s first by (simp add: open_ride_def)
  next
    case (Inr superseded)
    obtain r2 net2 d2 where l: "load_rider riderID superseded (net1, d1) = (r2 :: startRideResponse answer + Rider, net2, d2)"
      by (metis prod_cases3)
    then have d2: "d2 = d1" by (rule load_rider_same)
    show ?thesis
    proof (cases r2)
      case bad: (Inl e)
      then show ?thesis
        using run s l first Inr d2 by (simp add: open_ride_def)
    next
      case rd: (Inr rd)
      let ?ride = "requested_ride uuid riderID req trip startDate"
      obtain r3 net3 d3 where st: "Store_StartRide ?ride dbnow (net2, d1) = (r3, net3, d3)"
        by (metis prod_cases3)
      show ?thesis
      proof (cases r3)
        case bad: (Inl e)
        have "runs_to a1 d1 a1 d3"
          using st bad by (intro runs_step) (blast intro: p_insert_failed)
        then show ?thesis
          using run s l first Inr rd st bad d2 by (auto simp: open_ride_def split: if_splits intro: runs_trans)
      next
        case row: (Inr row)
        let ?s = "ride_session row riderID trip (ParseTier (ra_Tier rd))"
        have rid: "ri_RiderID ?ride = riderID"
          by (simp add: requested_ride_def)
        have "runs_to a1 d1 (agg_Add ?s a1) d3"
          unfolding runs_to_def
        proof
          fix E
          have "protocol (a1, d1, {}, E) (a1, d3, {?s}, E)"
            using p_insert [OF st [unfolded row], where a = a1 and P = "{}" and E = E and trip = trip
                and tier = "ParseTier (ra_Tier rd)"] unfolding rid .
          moreover have "protocol (a1, d3, {?s}, E) (agg_Add ?s a1, d3, {}, E)"
            using p_add [of ?s "{?s}" a1 d3 E] by simp
          ultimately show "\<exists>E'. protocol\<^sup>*\<^sup>* (a1, d1, {}, E) (agg_Add ?s a1, d3, {}, E')"
            by (meson r_into_rtranclp rtranclp.rtrancl_into_rtrancl)
        qed
        then show ?thesis
          using run s l first Inr rd st row d2 by (auto simp: open_ride_def intro: runs_trans)
      qed
    qed
  qed
qed


lemma runs_batch:
  "ApplyBatch (\<lambda>x. x) i points lookup now a = (a', res) \<Longrightarrow> runs_to a d a' d"
  by (auto simp: ApplyBatch_def Let_def split: option.splits
      dest!: arg_cong [where f = fst] intro!: runs_step p_batch)

lemma runs_store_batch:
  assumes "store_batch snap riderID res dbnow (net, d) = (r, net', d')"
  shows "runs_to a d a d'"
proof (cases "sn_Tier snap \<noteq> TierBlocked \<and> br_Points res \<noteq> []")
  case True
  then obtain r1 where "Store_RecordRidePoints (sn_ID snap) riderID (ridePointRecords (br_Points res))
      (progressOf (br_Summary res)) dbnow (net, d) = (r1, net', d')"
    using assms by (auto simp: store_batch_def answer_def elim!: serve_cases)
  then show ?thesis
    by (intro runs_step) (blast intro: p_record)
next
  case False
  then show ?thesis
    using assms by (auto simp: store_batch_def answer_def)
qed

lemma runs_positions:
  assumes run: "handlePositions cf (\<lambda>x. x) now dbnow ctx r i body sv (net, d) = (ans, sv', net', d')"
  shows "runs_to (sv_agg sv) d (sv_agg sv') d'"
proof (cases "riderIDFromContext ctx")
  case None
  then show ?thesis
    using run by (simp add: handlePositions_def)
next
  case rider: (Some riderID)
  obtain l allowed where lim: "Vehicle_Allow (cf_new cf) (cf_draw cf) riderID now (sv_batch sv) = (l, allowed)"
    by (metis prod.exhaust)
  show ?thesis
  proof (cases "allowed \<and> (\<exists>snap points. resolveRide cf (sv_agg sv) i riderID = (Inr snap :: positionsResponse answer + RideSnapshot)
      \<and> read_report r body = (Inr points :: positionsResponse answer + Point list))")
    case False
    then show ?thesis
      using run rider lim by (auto simp: handlePositions_def Let_def split: sum.splits if_splits)
  next
    case True
    then obtain snap points where ok: "allowed"
        "resolveRide cf (sv_agg sv) i riderID = (Inr snap :: positionsResponse answer + RideSnapshot)"
        "read_report r body = (Inr points :: positionsResponse answer + Point list)"
      by blast
    obtain a1 res where b: "ApplyBatch (\<lambda>x. x) (sn_ID snap) points (trusted_lookup cf now) now (sv_agg sv) = (a1, res)"
      by (metis prod.exhaust)
    note first = runs_batch [OF b, of d]
    show ?thesis
    proof (cases res)
      case None
      then show ?thesis
        using run rider lim ok b first by (auto simp: handlePositions_def Let_def)
    next
      case res: (Some res)
      obtain e1 net1 d1 where s: "store_batch snap riderID res dbnow (net, d) = (e1, net1, d1)"
        by (metis prod_cases3)
      obtain a2 net2 d2 where f: "(case rs_EndReason (br_Summary res) of None \<Rightarrow> (a1, net1, d1)
          | Some reason \<Rightarrow> try_finish (sn_ID snap) reason now dbnow (a1, net1, d1)) = (a2, net2, d2)"
        by (metis prod_cases3)
      obtain a3 net3 d3 where g: "try_finish (sn_ID snap) EndIdle now dbnow (a2, net2, d2) = (a3, net3, d3)"
        by (metis prod_cases3)
      have two: "runs_to (sv_agg sv) d a2 d2"
        using first runs_store_batch [OF s, of a1] f
        by (auto dest!: runs_try_finish intro: runs_trans split: option.splits)
      have three: "runs_to (sv_agg sv) d a3 d3"
        using two runs_try_finish [OF g] by (rule runs_trans)
      have "(sv_agg sv', d') = (a2, d2) \<or> (sv_agg sv', d') = (a3, d3)"
        using run rider lim ok b res s f g
        by (auto simp: handlePositions_def Let_def split: option.splits if_splits)
      then show ?thesis
        using two three by auto
    qed
  qed
qed

lemma runs_start:
  assumes "handleStartRide cf uuid now dbnow ctx r body sv (net, d) = (ans, sv', net', d')"
  shows "runs_to (sv_agg sv) d (sv_agg sv') d'"
  using assms
  by (auto simp: handleStartRide_def ride_limited_def Let_def dest: runs_open
      split: option.splits prod.splits bool.splits sum.splits)

lemma runs_end:
  assumes "handleEndRide cf now dbnow ctx r i body sv (net, d) = (ans, sv', net', d')"
  shows "runs_to (sv_agg sv) d (sv_agg sv') d'"
  using assms
  by (auto simp: handleEndRide_def ride_limited_def Let_def dest: runs_finish
      split: option.splits prod.splits bool.splits sum.splits finish_error.splits)

lemma runs_register:
  assumes "handleRegister cf uuid now dbnow r body sv (net, d) = (ans, sv', net', d')"
  shows "runs_to (sv_agg sv) d (sv_agg sv') d'"
proof -
  have "runs_to a d a d1"
    if call: "Store_RegisterRider uuid i1 platform app version dbnow (net, d) = (r1, net1, d1)"
    for a i1 platform app version r1 net1 d1
  proof -
    have "d1 = d \<or> db_step d d1 \<and> db_rides d1 = db_rides d"
      using call by (auto simp: Store_RegisterRider_def answer_def split_def elim!: and_then_cases exec_cases
          intro: UpsertRider_step simp: db_UpsertRider_def Let_def split: if_splits sum.splits)
    then show ?thesis
      by (auto intro: runs_step p_other)
  qed
  then show ?thesis
    using assms
    by (auto simp: handleRegister_def Let_def split: option.splits prod.splits sum.splits if_splits)
qed


text \<open>
  The callers of the rider API that change the registry or the table, each running alone: the four handlers,
  the reaper's tick, and whatever else the server does to tables other than the rides.
\<close>

inductive rider_call :: "'b riderDeps \<Rightarrow> Aggregator \<times> Database \<Rightarrow> Aggregator \<times> Database \<Rightarrow> bool" for cf where
  call_register: "handleRegister cf uuid now dbnow r reg_body sv (net, d) = (ans1, sv', net', d')
    \<Longrightarrow> rider_call cf (sv_agg sv, d) (sv_agg sv', d')"
| call_start: "handleStartRide cf uuid now dbnow ctx r start_body sv (net, d) = (ans2, sv', net', d')
    \<Longrightarrow> rider_call cf (sv_agg sv, d) (sv_agg sv', d')"
| call_end: "handleEndRide cf now dbnow ctx r i end_body sv (net, d) = (ans3, sv', net', d')
    \<Longrightarrow> rider_call cf (sv_agg sv, d) (sv_agg sv', d')"
| call_positions: "handlePositions cf (\<lambda>a. a) now dbnow ctx r i pos_body sv (net, d) = (ans4, sv', net', d')
    \<Longrightarrow> rider_call cf (sv_agg sv, d) (sv_agg sv', d')"
| call_reap: "range_order ks (ag_sessions a) \<Longrightarrow> reap_tick ks now dbnow (a, net, d) = (a', net', d')
    \<Longrightarrow> rider_call cf (a, d) (a', d')"
| call_other: "db_step d d' \<Longrightarrow> db_rides d' = db_rides d \<Longrightarrow> rider_call cf (a, d) (a, d')"

lemma rider_call_runs: "rider_call cf (a, d) (a', d') \<Longrightarrow> runs_to a d a' d'"
  by (cases rule: rider_call.cases, assumption)
    (auto dest: runs_register runs_start runs_end runs_positions runs_reap intro: runs_step p_other)

lemma rider_calls_run: "(rider_call cf)\<^sup>*\<^sup>* (a, d) (a', d') \<Longrightarrow> runs_to a d a' d'"
  by (induction rule: rtranclp_induct2) (auto dest: rider_call_runs intro: runs_trans)

text \<open>
  C4: every call of the rider API is a path of the protocol, so whatever is shown of the protocol in any
  interleaving holds of the handlers too: running registrations, ride starts, ends, position reports and
  the reaper in any order, with any faults of the network, takes the registry and the table of rides only
  through steps of the protocol, and at the end no session is waiting to be registered.
\<close>

theorem handlers_follow_protocol:
  assumes "(rider_call cf)\<^sup>*\<^sup>* (a, d) (a', d')"
  shows "\<exists>E'. protocol\<^sup>*\<^sup>* (a, d, {}, E) (a', d', {}, E')"
  using rider_calls_run [OF assms] by (simp add: runs_to_def)

section \<open>Every live session is backed by its ride\<close>

lemma startup_ok:
  assumes "db_reachable d" "newRiderRuntime th tz dbnow (net, d) = (Inr sv, net', d')"
  shows "world_ok (sv_agg sv, d', {}, {})"
proof -
  have "call_keeps db_ok (Store_EndAllActiveRides ''server_restart'' dbnow)"
    unfolding Store_EndAllActiveRides_def by (intro keeps_intros)
  moreover obtain res where "Store_EndAllActiveRides ''server_restart'' dbnow (net, d) = (res, net', d')"
    and "sv_agg sv = NewAggregator th tz"
    using assms(2) by (auto simp: newRiderRuntime_def newRiderService_def split: prod.splits sum.splits)
  ultimately show ?thesis
    using reachable_ok [OF assms(1)] call_keepsD agg_new agg_ok_reachable
    by (fastforce simp: NewAggregator_def)
qed

lemma protocol_reachable_ok: "protocol\<^sup>*\<^sup>* w w' \<Longrightarrow> world_ok w \<Longrightarrow> world_ok w'"
  by (induction rule: rtranclp_induct) (auto dest: protocol_keeps_ok)

lemma one_active_row:
  assumes "db_ok d" "live s d" "live t d" "s_riderID s = s_riderID t"
  shows "s_id s = s_id t"
proof -
  have uniq: "unique rd_RiderID (filter (\<lambda>r. rd_Status r = ''active'') (db_rides d))"
    using assms(1) by (simp add: ok_defs rides_ok_def)
  obtain r r' where rows: "r \<in> set (db_rides d)" "rd_ID r = s_id s" "rd_RiderID r = s_riderID s" "rd_Status r = ''active''"
    "r' \<in> set (db_rides d)" "rd_ID r' = s_id t" "rd_RiderID r' = s_riderID t" "rd_Status r' = ''active''"
    using assms(2,3) by (auto simp: live_def has_row_def row_of_def)
  then have "r = r'"
    using assms(4) by (intro unique_filterD [OF uniq]) auto
  then show ?thesis
    using rows by simp
qed

text \<open>
  C1: from start-up on, in any interleaving of the handlers, the reaper and the rest of the server, and
  whichever round trips to the database fail or lose their answer: a session in the registry belongs to a ride in
  the table with the same id, rider, trip and service date; that ride is still active in the table unless the
  session has ended, so no session goes on publishing for a ride the database has closed; and no rider
  ever has two sessions that have not ended.
\<close>

theorem live_sessions_backed:
  assumes "db_reachable d" "newRiderRuntime th tz dbnow (net, d) = (Inr sv, net', d')"
    and "protocol\<^sup>*\<^sup>* (sv_agg sv, d', {}, {}) (a, d'', P, E)"
  shows "(\<forall>i s. ag_sessions a i = Some s \<longrightarrow>
            (\<exists>r \<in> set (db_rides d''). rd_ID r = i \<and> rd_RiderID r = s_riderID s
               \<and> TripKey (rd_TripID r) (rd_StartDate r) = s_key s \<and> (rd_Status r = ''active'' \<or> s_ended s)))
    \<and> (\<forall>i j s t. ag_sessions a i = Some s \<and> ag_sessions a j = Some t \<and> s_riderID s = s_riderID t
         \<and> \<not> s_ended s \<and> \<not> s_ended t \<longrightarrow> i = j)"
proof -
  have ok: "world_ok (a, d'', P, E)"
    using protocol_reachable_ok [OF assms(3) startup_ok [OF assms(1,2)]] .
  then have aok: "agg_ok a" and dok: "db_ok d''"
    by auto
  have backed: "s_id s = i \<and> session_backed d'' E s" if "ag_sessions a i = Some s" for i s
    using ok that by (auto simp: agg_ok_def intro: ranI)
  have row: "\<exists>r \<in> set (db_rides d''). rd_ID r = i \<and> rd_RiderID r = s_riderID s
      \<and> TripKey (rd_TripID r) (rd_StartDate r) = s_key s \<and> (rd_Status r = ''active'' \<or> s_ended s)"
    if "ag_sessions a i = Some s" for i s
    using backed [OF that] unfolding session_backed_def stored_def live_def has_row_def row_of_def by (metis (full_types))
  have one: "i = j" if "ag_sessions a i = Some s" "ag_sessions a j = Some t" "s_riderID s = s_riderID t"
    "\<not> s_ended s" "\<not> s_ended t" for i j s t
    using backed [OF that(1)] backed [OF that(2)] that(3-) one_active_row [OF dok, of s t]
    unfolding session_backed_def by (auto split: if_splits)
  show ?thesis
    using row one by blast
qed


text \<open>A rider, a ride they start, and a session of theirs.\<close>

definition rider_db :: Database where
  "rider_db = empty_db\<lparr>db_riders := [sample_rider]\<rparr>"

lemma rider_db_reachable: "db_reachable rider_db"
proof -
  have "db_UpsertRider ''r1'' ''phone'' ''ios'' ''app'' ''1'' 7 empty_db = Inr ((sample_rider, True), rider_db)"
    by (simp add: db_UpsertRider_def empty_db_def sample_rider_def rider_db_def Let_def)
  then show ?thesis
    by (rule db_reachable.reach_step [OF db_reachable.reach_empty UpsertRider_step])
qed

definition second_ride :: Ride where
  "second_ride = requested_ride ''b'' ''r1'' \<lparr>sq_TripID = ''t'', sq_StartDate = ''20250101'', sq_RouteID = ''5'',
     sq_VehicleID = [], sq_BoardingStopID = [], sq_DestinationStopID = []\<rparr> demo_trip ''20250101''"

lemma second_ride_starts:
  obtains row net' d' where "Store_StartRide second_ride 9 ([], rider_db) = (Inr row, net', d')"
    "ri_ID row = ''b''" "\<exists>r \<in> set (db_rides d'). rd_ID r = ''b'' \<and> rd_Status r = ''active''"
  by (simp add: Store_StartRide_def second_ride_def requested_ride_def and_then_def exec_def next_trip_def answer_def
      db_InsertRide_def rider_db_def empty_db_def sample_rider_def rideFromRow_def Let_def)

theorem live_sessions_backed_witness:
  "\<exists>sv d a d' s. newRiderRuntime DefaultThresholds (\<lambda>_. 0) 9 ([], rider_db) = (Inr (sv :: unit riderService), [], d)
     \<and> protocol\<^sup>*\<^sup>* (sv_agg sv, d, {}, {}) (a, d', {}, {}) \<and> ag_sessions a ''b'' = Some s \<and> \<not> s_ended s
     \<and> (\<exists>r \<in> set (db_rides d'). rd_ID r = ''b'' \<and> rd_RiderID r = s_riderID s)"
proof -
  obtain sv :: "unit riderService" where up: "newRiderRuntime DefaultThresholds (\<lambda>_. 0) 9 ([], rider_db) = (Inr sv, [], rider_db)"
    by (simp add: newRiderRuntime_def Store_EndAllActiveRides_def and_then_def exec_def next_trip_def answer_def
        db_EndAllActiveRides_def rider_db_def empty_db_def update_rows_def)
  obtain row net' d' where start: "Store_StartRide second_ride 9 ([], rider_db) = (Inr row, net', d')" "ri_ID row = ''b''"
    by (rule second_ride_starts)
  let ?s = "ride_session row (ri_RiderID second_ride) demo_trip TierNew"
  have path: "protocol\<^sup>*\<^sup>* (sv_agg sv, rider_db, {}, {}) (agg_Add ?s (sv_agg sv), d', {}, {})"
    using p_insert [OF start(1), where a = "sv_agg sv" and P = "{}" and E = "{}" and trip = demo_trip and tier = TierNew]
      p_add [of ?s "{?s}" "sv_agg sv" d' "{}"] by simp
  have s: "ag_sessions (agg_Add ?s (sv_agg sv)) ''b'' = Some ?s" "\<not> s_ended ?s"
    using start(2) by (simp_all add: agg_Add_def ride_session_def NewSession_def)
  then show ?thesis
    using live_sessions_backed [OF rider_db_reachable up path] up path by blast
qed

definition open_config :: "unit riderDeps" where
  "open_config = \<lparr>cf_index = None, cf_timezone = ''UTC'', cf_trusted = None, cf_new = (\<lambda>_ _. ()), cf_draw = (\<lambda>b t. (b, True)),
     cf_uuid_Parse = (\<lambda>_. True), cf_uuid_Validate = (\<lambda>_. True), cf_JWT = sample_JWT, cf_secret = ''k'', cf_ttl = hour,
     cf_trustProxy = False\<rparr>"

definition riding :: "unit riderService" where
  "riding = newRiderService (agg_Add (NewSession ''a'' ''r1'' (TripKey ''t'' ''20250101'') None TierNew 8)
     (NewAggregator DefaultThresholds (\<lambda>_. 0)))"

definition a_session :: Session where
  "a_session = NewSession ''a'' ''r1'' (TripKey ''t'' ''20250101'') None TierNew 8"

lemma riding_finishes:
  obtains rd a' net' d' where "finishRide ''a'' EndArrived 9 9 (sv_agg riding) ([], ride_db) = (Inr rd, a', net', d')"
    "ag_sessions a' = Map.empty"
proof -
  let ?a = "(sv_agg riding)\<lparr>ag_sessions := [''a'' \<mapsto> End EndArrived 9 a_session]\<rparr>"
  let ?snap = "snapshot_of (End EndArrived 9 a_session) True"
  let ?o = "rideOutcomeOf (sn_Summary ?snap) (rs_EndReason (sn_Summary ?snap))"
  have e: "agg_End ''a'' EndArrived 9 (sv_agg riding) = (?a, Some ?snap)"
    by (simp add: riding_def newRiderService_def agg_End_def agg_Add_def NewAggregator_def a_session_def NewSession_def Let_def)
  have o: "ro_Progress ?o = \<lparr>pr_State = ''pending'', pr_Corroborated = False, pr_PointsTotal = 0, pr_PointsMatched = 0,
      pr_PointsCorroborated = 0, pr_PointsContradicted = 0\<rparr>" "ro_ScoreDelta ?o = 0" "\<not> ro_Corroborated ?o" "\<not> ro_Rejected ?o"
    by (simp_all add: snapshot_of_def Summary_def rideOutcomeOf_def progressOf_def ScoreDelta_def End_def a_session_def
        NewSession_def Let_def)
  obtain rd net' d' where f: "Store_FinishRide ''a'' ?o 9 ([], ride_db) = (Inr rd, net', d')" "ra_ID rd = ''r1''"
    by (simp add: Store_FinishRide_def in_tx_def begin_tx_def exec_def next_trip_def finish_body_def and_then_def answer_def
      db_EndRide_def one_row_def active_ride_def sample_ride_def o progress_params_def ride_state_ok_def
      wrap32_def db_ApplyRideOutcome_def read_one_def update_rows_def sample_rider_def boolCount_def db_SetRiderTier_def
      tier_ok_def TierFor_def blockedAtOrBelow_def trustedAtOrAbove_def riderFromRow_def Let_def)
  have r: "fst (Remove ''a'' ?a) = ?a\<lparr>ag_sessions := Map.empty, ag_byRider := Map.empty\<rparr>"
    by (simp add: Remove_def removeLocked_def End_def a_session_def NewSession_def riding_def newRiderService_def agg_Add_def
        NewAggregator_def)
  show thesis
    by (rule that [of rd "agg_SetTier ''r1'' (ParseTier (ra_Tier rd)) (fst (Remove ''a'' ?a))" net' d'])
      (simp_all add: finishRide_def e f r agg_SetTier_def activeForRiderLocked_def)
qed

lemma riding_ends:
  obtains ans sv' net' d' where
    "handleEndRide open_config 9 9 (Some [''role'' \<mapsto> JStr ''rider'', ''sub'' \<mapsto> JStr ''r1'']) json_request ''a''
       (Decoded ''arrived'' NoMore) riding ([], ride_db) = (HOk 200 ans, sv', net', d')"
    "ag_sessions (sv_agg sv') = Map.empty"
proof -
  obtain rd a' net' d' where f: "finishRide ''a'' EndArrived 9 9 (sv_agg riding) ([], ride_db) = (Inr rd, a', net', d')"
    "ag_sessions a' = Map.empty"
    by (rule riding_finishes)
  have snap: "Snapshot (sv_agg riding) ''a'' = Some (snapshot_of a_session False)"
    by (simp add: Snapshot_def riding_def newRiderService_def agg_Add_def NewAggregator_def a_session_def NewSession_def)
  have limited: "ride_limited open_config ''r1'' 9 riding
      = (riding\<lparr>sv_ride := (sv_ride riding)\<lparr>vl_limiters := [''r1'' \<mapsto> \<lparr>rl_limiter = (), rl_lastSeen = 9\<rparr>]\<rparr>\<rparr>, True)"
    by (simp add: ride_limited_def open_config_def Vehicle_Allow_def riding_def newRiderService_def NewKeyedRateLimiter_def
        maxTrackedRates_def Let_def)
  have resolved: "resolveRide open_config (sv_agg riding) ''a'' ''r1'' = Inr (snapshot_of a_session False)"
    by (simp add: resolveRide_def snap snapshot_of_def a_session_def NewSession_def)
  show thesis
  proof (rule that)
    show "handleEndRide open_config 9 9 (Some [''role'' \<mapsto> JStr ''rider'', ''sub'' \<mapsto> JStr ''r1'']) json_request ''a''
        (Decoded ''arrived'' NoMore) riding ([], ride_db)
      = (HOk 200 (ride_summary (snapshot_of a_session False) 9), (fst (ride_limited open_config ''r1'' 9 riding))\<lparr>sv_agg := a'\<rparr>,
         net', d')"
      by (simp add: handleEndRide_def riderIDFromContext_def str_claim_def roleRider_def limited decodeRiderJSON_def
          json_request_ok ParseClientEndReason_def clientEndReasons_def resolved f) (simp add: f snapshot_of_def a_session_def
          NewSession_def)
  qed (simp add: f)
qed

theorem handlers_follow_protocol_witness:
  "\<exists>a' d'. rider_call open_config (sv_agg riding, ride_db) (a', d') \<and> ag_sessions a' = Map.empty
     \<and> (\<exists>E'. protocol\<^sup>*\<^sup>* (sv_agg riding, ride_db, {}, {}) (a', d', {}, E'))"
proof -
  obtain ans sv' net' d' where run: "handleEndRide open_config 9 9 (Some [''role'' \<mapsto> JStr ''rider'', ''sub'' \<mapsto> JStr ''r1''])
       json_request ''a'' (Decoded ''arrived'' NoMore) riding ([], ride_db) = (HOk 200 ans, sv', net', d')"
    "ag_sessions (sv_agg sv') = Map.empty"
    by (rule riding_ends)
  have call: "rider_call open_config (sv_agg riding, ride_db) (sv_agg sv', d')"
    by (rule call_end [OF run(1)])
  then show ?thesis
    using run(2) handlers_follow_protocol [OF r_into_rtranclp [where r = "rider_call open_config", OF call]] by blast
qed

end
