(* ===== verification/RiderBehaviour.thy ===== *)
theory RiderBehaviour
  imports RideProtocol
begin

text \<open>
  What a rider gets from the API: a report that is answered 200 is recorded, a blocked rider leaves no
  trace, a new ride supersedes the old one, and what happens to a rider whose ride was inserted while the answer
  of the database was lost.
\<close>

section \<open>Reports\<close>

text \<open>The row of a point that was stored.\<close>

definition shows_point :: "string \<Rightarrow> AppliedPoint \<Rightarrow> RidePointRow \<Rightarrow> bool" where
  "shows_point i x row \<longleftrightarrow>
     rp_RideID row = i \<and> rp_Latitude row = Lat (pt_Pos (apl_Point x)) \<and> rp_Longitude row = Lon (pt_Pos (apl_Point x))
     \<and> rp_Accuracy row = reported (pt_Accuracy (apl_Point x)) \<and> rp_Speed row = reported (pt_Speed (apl_Point x))
     \<and> rp_Bearing row = reported (pt_Bearing (apl_Point x)) \<and> rp_Timestamp row = unix_of (pt_Timestamp (apl_Point x))
     \<and> rp_Outcome row = Outcome_String (vd_Outcome (apl_Verdict x))
     \<and> rp_Corroboration row = Corroboration_String (vd_Corroboration (apl_Verdict x))"

lemma insert_points_rides: "db_InsertRidePoints ps now d = Inr (u, d') \<Longrightarrow> db_rides d' = db_rides d"
  by (induction ps arbitrary: d) (fastforce simp: db_InsertRidePoint_def split: if_splits sum.splits)+

lemma insert_points_rows:
  assumes "db_InsertRidePoints (map (point_params i) (ridePointRecords xs)) now d = Inr (u, d')"
    and "list_ex (active_ride i) (db_rides d)"
  shows "\<exists>rows. db_ride_points d' = db_ride_points d @ rows \<and> list_all2 (shows_point i) xs rows"
  using assms
proof (induction xs arbitrary: d)
  case Nil
  then show ?case by (simp add: ridePointRecords_def)
next
  case (Cons x xs)
  obtain d1 where ins: "db_InsertRidePoint (point_params i (ridePointRecord x)) now d = Inr ((), d1)"
    and rest: "db_InsertRidePoints (map (point_params i) (ridePointRecords xs)) now d1 = Inr (u, d')"
    using Cons.prems(1) by (auto simp: ridePointRecords_def split: sum.splits)
  obtain row where row: "db_ride_points d1 = db_ride_points d @ [row]" "shows_point i x row" "db_rides d1 = db_rides d"
    using ins Cons.prems(2)
    by (auto simp: db_InsertRidePoint_def point_params_def ridePointRecord_def shows_point_def split: if_splits)
  then obtain rows where "db_ride_points d' = db_ride_points d1 @ rows" "list_all2 (shows_point i) xs rows"
    using Cons.IH [OF rest] Cons.prems(2) by auto
  then show ?case
    using row by (intro exI [of _ "row # rows"]) simp
qed

lemma record_body_row:
  assumes "record_body i riderID (ridePointRecords xs) progress now (net, d) = (Inr (), net', d')"
  shows "(\<exists>r \<in> set (db_rides d'). active_ride i r \<and> (\<exists>r0. r = set_progress (progress_params progress) now r0))
    \<and> (\<exists>rows. db_ride_points d' = db_ride_points d @ rows \<and> list_all2 (shows_point i) xs rows)"
proof -
  let ?stored = "\<lambda>d1. xs = [] \<and> d1 = d \<or> db_InsertRidePoints (map (point_params i) (ridePointRecords xs)) now d = Inr ((), d1)"
  have "\<exists>d1 n d2. ?stored d1 \<and> db_UpdateRideProgress i (progress_params progress) now d1 = Inr (n, d2) \<and> n \<noteq> 0
      \<and> db_TouchRider riderID now d2 = Inr ((), d')"
    using assms unfolding record_body_def
    by (cases "xs = []") (auto simp: answer_def ridePointRecords_def elim!: and_then_Inr dest!: exec_Inr split: if_splits, metis)
  then obtain d1 n d2 where ins: "?stored d1" and upd: "db_UpdateRideProgress i (progress_params progress) now d1 = Inr (n, d2)" "n \<noteq> 0"
    and touch: "db_TouchRider riderID now d2 = Inr ((), d')"
    by blast
  have count: "count_rows (active_ride i) (db_rides d1) \<noteq> 0"
    and d2: "d2 = d1\<lparr>db_rides := update_rows (active_ride i) (set_progress (progress_params progress) now) (db_rides d1)\<rparr>"
    using upd by (auto simp: db_UpdateRideProgress_def split: if_splits)
  have d': "db_rides d' = db_rides d2" "db_ride_points d' = db_ride_points d1"
    using touch d2 by (auto simp: db_TouchRider_def)
  obtain r0 where r0: "r0 \<in> set (db_rides d1)" "active_ride i r0"
    using count by (auto simp: count_rows_def filter_empty_conv)
  then have "set_progress (progress_params progress) now r0 \<in> set (db_rides d')"
    unfolding d' d2 by (force simp: set_update_rows intro: image_eqI [of _ _ r0])
  moreover have "active_ride i (set_progress (progress_params progress) now r0)"
    using r0(2) by (simp add: active_ride_def set_progress_def)
  moreover have "\<exists>rows. db_ride_points d' = db_ride_points d @ rows \<and> list_all2 (shows_point i) xs rows"
    using ins
  proof
    assume points: "db_InsertRidePoints (map (point_params i) (ridePointRecords xs)) now d = Inr ((), d1)"
    have "list_ex (active_ride i) (db_rides d)"
      using r0 insert_points_rides [OF points] by (auto simp: list_ex_iff)
    from insert_points_rows [OF points this] show ?thesis
      by (simp add: d')
  qed (simp add: d')
  ultimately show ?thesis
    by blast
qed

lemma ApplyBatch_Some:
  assumes "ApplyBatch (\<lambda>x. x) i points lookup now a = (a', Some res)"
  obtains s s' where "ag_sessions a i = Some s" "\<not> s_ended s" "a' = a\<lparr>ag_sessions := (ag_sessions a)(i \<mapsto> s')\<rparr>"
    "identity s' = identity s" "br_Summary res = Summary s'" "br_Accepted res = length (br_Points res)"
    "fed s (br_Points res) s'" "set (map apl_Point (br_Points res)) \<subseteq> set points"
    "br_Accepted res + br_Ignored res = length points"
proof -
  obtain key trusted where batch: "apply_batch_locked key trusted i (sort_points points) now a = (a', Some res)"
    using assms by (auto simp: ApplyBatch_def Let_def split: option.splits)
  show thesis
    by (rule batch_answered [OF batch]) (rule that)
qed

lemma store_batch_None:
  assumes "store_batch snap riderID res dbnow (net, d) = (None, net', d')"
  shows "(sn_Tier snap = TierBlocked \<or> br_Points res = []) \<and> d' = d
     \<or> sn_Tier snap \<noteq> TierBlocked \<and> br_Points res \<noteq> []
       \<and> (\<exists>r \<in> set (db_rides d'). active_ride (sn_ID snap) r
            \<and> (\<exists>r0. r = set_progress (progress_params (progressOf (br_Summary res))) dbnow r0))
       \<and> (\<exists>rows. db_ride_points d' = db_ride_points d @ rows \<and> list_all2 (shows_point (sn_ID snap)) (br_Points res) rows)"
proof (cases "sn_Tier snap \<noteq> TierBlocked \<and> br_Points res \<noteq> []")
  case True
  then have "Store_RecordRidePoints (sn_ID snap) riderID (ridePointRecords (br_Points res))
      (progressOf (br_Summary res)) dbnow (net, d) = (Inr (), net', d')"
    using assms by (auto simp: store_batch_def answer_def elim!: serve_cases split: sum.splits)
  then obtain net1 net2 where "record_body (sn_ID snap) riderID (ridePointRecords (br_Points res))
      (progressOf (br_Summary res)) dbnow (net1, d) = (Inr (), net2, d')"
    unfolding Store_RecordRidePoints_def by (rule in_tx_Inr)
  then show ?thesis
    using True record_body_row by blast
qed (use assms in \<open>auto simp: store_batch_def answer_def\<close>)

text \<open>The counters a ride's row carries, as \<open>int32\<close>, and the state, are those of the session.\<close>

definition row_shows :: "Session \<Rightarrow> RideRow \<Rightarrow> bool" where
  "row_shows s r \<longleftrightarrow>
     rd_State r = State_String (s_state s) \<and> rd_Corroborated r = s_corroborated s
     \<and> rd_PointsTotal r = wrap32 (int (c_Total (s_counts s))) \<and> rd_PointsMatched r = wrap32 (int (c_Matched (s_counts s)))
     \<and> rd_PointsCorroborated r = wrap32 (int (c_Corroborated (s_counts s)))
     \<and> rd_PointsContradicted r = wrap32 (int (c_Contradicted (s_counts s)))"

lemma progress_shows: "row_shows s (set_progress (progress_params (progressOf (Summary s))) now r0)"
  by (simp add: row_shows_def set_progress_def progress_params_def progressOf_def Summary_def)

text \<open>
  Filing a ride whose session has ended adds no points. Either the active row has ended and shows the
  session, or the table of rides is as it was and the session is still there to be filed, unless there was no
  active row to end.
\<close>

definition filed_ride :: "string \<Rightarrow> Session \<Rightarrow> gotime \<Rightarrow> Database \<Rightarrow> Database \<Rightarrow> bool" where
  "filed_ride i s now d d' \<longleftrightarrow>
     (\<exists>r \<in> set (db_rides d). active_ride i r)
     \<and> db_rides d' = update_rows (active_ride i) (ended_row (rideOutcomeOf (Summary s) (s_endReason s)) now) (db_rides d)"

lemma in_tx_error:
  assumes "in_tx Wrapped body (net, d) = (Inl e, net', d')" "\<And>x. e \<noteq> Wrapped x"
  obtains net1 net2 d2 where "body (net1, d) = (Inl e, net2, d2)" "d' = d"
proof -
  obtain u net1 d1 where begun: "begin_tx (net, d) = (u, net1, d1)"
    by (metis prod_cases3)
  have [simp]: "d1 = d"
    using begun by (auto simp: begin_tx_def exec_def split: prod.splits commit.splits)
  obtain x net2 d2 where body: "body (net1, d) = (x, net2, d2)"
    by (metis prod_cases3)
  obtain f where u: "u = Inr f"
    using assms(1) begun assms(2) [THEN not_sym] by (cases u) (simp_all add: in_tx_def)
  have "x = Inl e \<and> d' = d"
  proof (cases x)
    case (Inl e1)
    then show ?thesis
      using assms(1) begun body by (simp add: in_tx_def u)
  next
    case (Inr y)
    then show ?thesis
      using assms(1) begun body assms(2) [THEN not_sym]
      by (cases "fst (next_trip net2)"; cases "next_trip net2") (simp_all add: in_tx_def u)
  qed
  then show thesis
    using that body by simp
qed

lemma finish_body_error:
  assumes "finish_body i o1 now (net, d) = (Inl ErrRideNotFound, net', d')"
  shows "\<not> (\<exists>r \<in> set (db_rides d). active_ride i r)"
proof -
  have "exec (db_EndRide i (ro_EndReason o1) (progress_params (ro_Progress o1)) now) (net, d) = (Inl NoRows, net1, d1)
      \<Longrightarrow> filter (active_ride i) (db_rides d) = []" for net1 d1
    by (auto simp: exec_def db_EndRide_def one_row_def split: prod.splits commit.splits sum.splits if_splits list.splits)
  then have "filter (active_ride i) (db_rides d) = []"
    using assms unfolding finish_body_def
    by (auto simp: and_then_def no_rows_as_def answer_def Let_def split: sum.splits if_splits prod.splits)
  then show ?thesis
    by (auto simp: filter_empty_conv)
qed

lemma finish_body_points: "finish_body i o1 now (net, d) = (Inr rider, net', d') \<Longrightarrow> db_ride_points d' = db_ride_points d"
  unfolding finish_body_def Let_def
  by (auto simp: answer_def db_EndRide_def db_ApplyRideOutcome_def db_SetRiderTier_def Let_def
      elim!: and_then_Inr dest!: exec_Inr read_oneE split: if_splits sum.splits list.splits)

lemma finish_store_cases:
  assumes "Store_FinishRide i o1 now (net, d) = (r, net', d')"
  shows "db_ride_points d' = db_ride_points d
    \<and> ((\<exists>x \<in> set (db_rides d). active_ride i x) \<and> db_rides d' = update_rows (active_ride i) (ended_row o1 now) (db_rides d)
       \<or> (\<exists>e. r = Inl e \<and> d' = d \<and> (e = ErrRideNotFound \<longrightarrow> \<not> (\<exists>x \<in> set (db_rides d). active_ride i x))))"
  using assms unfolding Store_FinishRide_def
proof (cases rule: in_tx_cases)
  case (1 e)
  then have "e = ErrRideNotFound \<longrightarrow> \<not> (\<exists>x \<in> set (db_rides d). active_ride i x)"
    using assms finish_body_error unfolding Store_FinishRide_def by (blast elim: in_tx_error)
  then show ?thesis
    using 1 by simp
next
  case (2 x net1 net2)
  then show ?thesis
    using finish_body_rides [OF 2(1)] finish_body_points [OF 2(1)] by blast
qed

lemma try_finish_ended:
  assumes "ag_sessions a i = Some s" "s_ended s" "s_endReason s = Some reason"
    and "try_finish i why now dbnow (a, net, d) = (a2, net2, d2)"
  shows "db_ride_points d2 = db_ride_points d
    \<and> (filed_ride i s dbnow d d2
       \<or> db_rides d2 = db_rides d \<and> (ag_sessions a2 i = Some s \<or> \<not> (\<exists>x \<in> set (db_rides d). active_ride i x)))"
proof -
  have e: "agg_End i why now a = (a\<lparr>ag_sessions := (ag_sessions a)(i \<mapsto> s)\<rparr>, Some (snapshot_of s True))"
    using assms(1,2) by (simp add: agg_End_def End_def)
  obtain r net1 d1 where f: "Store_FinishRide i (rideOutcomeOf (Summary s) (s_endReason s)) dbnow (net, d) = (r, net1, d1)"
    by (metis prod_cases3)
  have d1: "d2 = d1" and kept: "\<And>e. r = Inl e \<Longrightarrow> e \<noteq> ErrRideNotFound \<Longrightarrow> ag_sessions a2 i = Some s"
    using assms(4) f by (auto simp: try_finish_def finishRide_def e snapshot_of_def Summary_def split: sum.splits if_splits)
  show ?thesis
    using finish_store_cases [OF f] kept unfolding d1 filed_ride_def by metis
qed

text \<open>The steps of a report that was answered 200.\<close>

lemma accepted_report:
  assumes "agg_reachable (sv_agg sv)" "riderIDFromContext ctx = Some riderID"
    and "handlePositions cf (\<lambda>a. a) now dbnow ctx r i body sv (net, d) = (HOk 200 ans, sv', net', d')"
  obtains s snap points a1 res s' net1 d1 where
    "ag_sessions (sv_agg sv) i = Some s" "s_riderID s = riderID" "\<not> s_ended s" "sn_ID snap = i" "sn_Tier snap = s_tier s"
    "read_report r body = (Inr points :: positionsResponse answer + Point list)"
    "ApplyBatch (\<lambda>x. x) i points (trusted_lookup cf now) now (sv_agg sv) = (a1, Some res)"
    "a1 = (sv_agg sv)\<lparr>ag_sessions := (ag_sessions (sv_agg sv))(i \<mapsto> s')\<rparr>" "identity s' = identity s"
    "br_Summary res = Summary s'" "br_Accepted res = length (br_Points res)"
    "fed s (br_Points res) s'" "set (map apl_Point (br_Points res)) \<subseteq> set points"
    "br_Accepted res + br_Ignored res = length points"
    "store_batch snap riderID res dbnow (net, d) = (None, net1, d1)" "ans = report_outcome res"
    "case rs_EndReason (br_Summary res) of None \<Rightarrow> sv_agg sv' = a1 \<and> d' = d1
     | Some reason \<Rightarrow> try_finish i reason now dbnow (a1, net1, d1) = (sv_agg sv', net', d')"
proof -
  have ok: "agg_ok (sv_agg sv)" by (rule agg_ok_reachable) fact
  obtain l where lim: "Vehicle_Allow (cf_new cf) (cf_draw cf) riderID now (sv_batch sv) = (l, True)"
    using assms(2,3) by (auto simp: handlePositions_def Let_def split: prod.splits if_splits)
  obtain snap points where sp:
      "resolveRide cf (sv_agg sv) i riderID = (Inr snap :: positionsResponse answer + RideSnapshot)"
      "read_report r body = (Inr points :: positionsResponse answer + Point list)"
    using assms(2,3) lim by (auto simp: handlePositions_def Let_def resolveRide_def read_report_def decodeRiderJSON_def
        split: sum.splits option.splits if_splits body.splits)
  then obtain s where s: "ag_sessions (sv_agg sv) i = Some s" "s_riderID s = riderID" "\<not> s_ended s" "snap = snapshot_of s False"
    by (auto simp: resolveRide_def Snapshot_def snapshot_of_def split: option.splits if_splits)
  then have snap: "sn_ID snap = i" "sn_Tier snap = s_tier s"
    using ok by (auto simp: snapshot_of_def agg_ok_def)
  obtain a1 res where b: "ApplyBatch (\<lambda>x. x) i points (trusted_lookup cf now) now (sv_agg sv) = (a1, Some res)"
    using assms(2,3) lim sp snap
    by (cases "ApplyBatch (\<lambda>x. x) i points (trusted_lookup cf now) now (sv_agg sv)")
      (auto simp: handlePositions_def Let_def split: option.splits)
  obtain s2 s' where s2: "ag_sessions (sv_agg sv) i = Some s2"
      "a1 = (sv_agg sv)\<lparr>ag_sessions := (ag_sessions (sv_agg sv))(i \<mapsto> s')\<rparr>" "identity s' = identity s2"
      "br_Summary res = Summary s'" "br_Accepted res = length (br_Points res)" "fed s2 (br_Points res) s'"
      "set (map apl_Point (br_Points res)) \<subseteq> set points" "br_Accepted res + br_Ignored res = length points"
    by (rule ApplyBatch_Some [OF b]) blast
  have "s2 = s"
    using s2(1) s(1) by simp
  note s' = s2(2-) [unfolded \<open>s2 = s\<close>]
  obtain e1 net1 d1 where st: "store_batch snap riderID res dbnow (net, d) = (e1, net1, d1)"
    by (metis prod_cases3)
  have e1: "e1 = None" and ans: "ans = report_outcome res"
    using assms(2,3) lim sp snap b st
    by (auto simp: handlePositions_def Let_def server_error_def split: option.splits prod.splits if_splits)
  have "case rs_EndReason (br_Summary res) of None \<Rightarrow> sv_agg sv' = a1 \<and> d' = d1
     | Some reason \<Rightarrow> try_finish i reason now dbnow (a1, net1, d1) = (sv_agg sv', net', d')"
    using assms(2,3) lim sp snap b st e1 by (auto simp: handlePositions_def Let_def split: option.splits prod.splits)
  then show thesis
    by (rule that [OF s(1-3) snap sp(2) b s' st [unfolded e1] ans])
qed

lemma filed_row:
  assumes "filed_ride i s now d d'"
  shows "\<exists>row \<in> set (db_rides d'). rd_ID row = i \<and> row_shows s row \<and> rd_Status row = ''ended''
    \<and> rd_EndReason row = reason_string (s_endReason s)"
proof -
  let ?o = "rideOutcomeOf (Summary s) (s_endReason s)"
  obtain r where r: "r \<in> set (db_rides d)" "active_ride i r"
    and rides: "db_rides d' = update_rows (active_ride i) (ended_row ?o now) (db_rides d)"
    using assms unfolding filed_ride_def by blast
  have "ended_row ?o now r \<in> set (db_rides d')"
    using r unfolding rides set_update_rows by (auto intro!: image_eqI [of _ _ r])
  moreover have "ro_Progress ?o = progressOf (Summary s)"
    by (simp add: rideOutcomeOf_def progressOf_def Let_def)
  then have "row_shows s (ended_row ?o now r)"
    using progress_shows [of s now r] by (simp add: row_shows_def ended_row_def)
  ultimately show ?thesis
    using r(2) by (auto simp: ended_row_def rideOutcomeOf_def Let_def active_ride_def set_progress_def intro!: bexI [of _ "ended_row ?o now r"])
qed

text \<open>
  C6: a report that is answered 200 came from the rider of a live session of the ride it names. The points it
  says were accepted are points of the report that the session took, each before it had ended, and the
  others were ignored. Nothing another rider is told was accepted is lost: every one of those points is a
  new row of the ride's points, in order, with its position and its verdict; and of the points a blocked rider
  reports none is stored. If the ride goes on, its session is registered as the report left it, and
  either the rider is blocked or no point was accepted, and the database is as it was, or the ride's row
  is active and shows exactly the session's state and counters. If the report ended the ride, the answer says why, and
  either the ride's row is closed with that reason and shows the session, or filing failed: then the row of
  a rider who is not blocked is still active and shows the session, which is still registered for another try,
  and for a blocked rider the rides are as they were.
\<close>

theorem accepted_report_is_recorded:
  assumes "agg_reachable (sv_agg sv)" "riderIDFromContext ctx = Some riderID"
    and "handlePositions cf (\<lambda>a. a) now dbnow ctx r i body sv (net, d) = (HOk 200 ans, sv', net', d')"
  shows "\<exists>s s' points pts rows. ag_sessions (sv_agg sv) i = Some s \<and> s_riderID s = riderID \<and> \<not> s_ended s
    \<and> read_report r body = (Inr points :: positionsResponse answer + Point list)
    \<and> identity s' = identity s \<and> fed s pts s' \<and> set (map apl_Point pts) \<subseteq> set points
    \<and> po_Accepted ans = length pts \<and> po_Accepted ans + po_Ignored ans = length points
    \<and> db_ride_points d' = db_ride_points d @ rows
    \<and> (if s_tier s = TierBlocked then rows = [] else list_all2 (shows_point i) pts rows)
    \<and> po_State ans = State_String (s_state s') \<and> (po_Ended ans \<longleftrightarrow> s_ended s')
    \<and> (\<not> po_Ended ans \<longrightarrow> ag_sessions (sv_agg sv') i = Some s'
         \<and> (if s_tier s = TierBlocked \<or> po_Accepted ans = 0 then d' = d
            else \<exists>row \<in> set (db_rides d'). active_ride i row \<and> row_shows s' row))
    \<and> (po_Ended ans \<longrightarrow> s_endReason s' \<noteq> None \<and> po_EndReason ans = reason_string (s_endReason s')
         \<and> ((\<exists>row \<in> set (db_rides d'). rd_ID row = i \<and> row_shows s' row \<and> rd_Status row = ''ended''
               \<and> rd_EndReason row = po_EndReason ans)
            \<or> (if s_tier s = TierBlocked then db_rides d' = db_rides d
               else ag_sessions (sv_agg sv') i = Some s' \<and> (\<exists>row \<in> set (db_rides d'). active_ride i row \<and> row_shows s' row))))"
proof -
  have ok: "agg_ok (sv_agg sv)" by (rule agg_ok_reachable) fact
  obtain s snap points a1 res s' net1 d1 where s: "ag_sessions (sv_agg sv) i = Some s" "s_riderID s = riderID" "\<not> s_ended s"
    and snap: "sn_ID snap = i" "sn_Tier snap = s_tier s"
    and report: "read_report r body = (Inr points :: positionsResponse answer + Point list)"
    and b: "ApplyBatch (\<lambda>x. x) i points (trusted_lookup cf now) now (sv_agg sv) = (a1, Some res)"
    and s': "a1 = (sv_agg sv)\<lparr>ag_sessions := (ag_sessions (sv_agg sv))(i \<mapsto> s')\<rparr>" "identity s' = identity s"
      "br_Summary res = Summary s'" "br_Accepted res = length (br_Points res)"
    and took: "fed s (br_Points res) s'" "set (map apl_Point (br_Points res)) \<subseteq> set points"
      "br_Accepted res + br_Ignored res = length points"
    and st: "store_batch snap riderID res dbnow (net, d) = (None, net1, d1)" and ans: "ans = report_outcome res"
    and after: "case rs_EndReason (br_Summary res) of None \<Rightarrow> sv_agg sv' = a1 \<and> d' = d1
      | Some reason \<Rightarrow> try_finish i reason now dbnow (a1, net1, d1) = (sv_agg sv', net', d')"
    by (rule accepted_report [OF assms])
  have "agg_ok a1"
    using agg_ok_batch [OF ok] b by (auto simp: ApplyBatch_def Let_def dest!: arg_cong [where f = fst] split: option.splits)
  moreover have a1: "ag_sessions a1 i = Some s'"
    using s'(1) by simp
  ultimately have "session_ok s'"
    unfolding agg_ok_def by (blast intro: session_ok_reachable)
  then have ended: "s_ended s' \<longleftrightarrow> s_endReason s' \<noteq> None"
    by (simp add: session_ok_def)
  have answered: "po_Accepted ans = length (br_Points res)" "po_Ignored ans = br_Ignored res" "po_State ans = State_String (s_state s')"
      "po_Ended ans \<longleftrightarrow> s_ended s'" "po_EndReason ans = reason_string (s_endReason s')"
    using ended s'(3,4) by (simp_all add: ans report_outcome_def RideSummary_Ended_def Summary_def)
  have took_one: "br_Points res \<noteq> []" if "s_ended s'"
    using took(1) s(3) that by (auto elim: fed.cases)
  have kept: "if s_tier s = TierBlocked \<or> br_Points res = [] then d1 = d
      else \<exists>row \<in> set (db_rides d1). active_ride i row \<and> row_shows s' row"
    using store_batch_None [OF st] snap s'(3) progress_shows [of s' dbnow] by auto
  have "\<exists>rows. db_ride_points d1 = db_ride_points d @ rows
      \<and> (if s_tier s = TierBlocked then rows = [] else list_all2 (shows_point i) (br_Points res) rows)"
    using store_batch_None [OF st] snap by auto
  then obtain rows where rows: "db_ride_points d1 = db_ride_points d @ rows"
      "if s_tier s = TierBlocked then rows = [] else list_all2 (shows_point i) (br_Points res) rows"
    by blast
  have filed: "db_ride_points d' = db_ride_points d1 \<and> (filed_ride i s' dbnow d1 d'
       \<or> db_rides d' = db_rides d1 \<and> (ag_sessions (sv_agg sv') i = Some s' \<or> \<not> (\<exists>x \<in> set (db_rides d1). active_ride i x)))"
    if "s_ended s'"
  proof -
    obtain reason where "s_endReason s' = Some reason"
      using \<open>s_ended s'\<close> ended by blast
    then show ?thesis
      using try_finish_ended [OF a1 that _ , of reason reason now dbnow net1 d1] after s'(3) by (simp add: Summary_def)
  qed
  have going: "sv_agg sv' = a1 \<and> d' = d1" if "\<not> s_ended s'"
    using after s'(3) that ended by (simp add: Summary_def)
  have points: "db_ride_points d' = db_ride_points d @ rows"
    using rows(1) filed going by metis
  have goes_on: "ag_sessions (sv_agg sv') i = Some s'
         \<and> (if s_tier s = TierBlocked \<or> po_Accepted ans = 0 then d' = d
            else \<exists>row \<in> set (db_rides d'). active_ride i row \<and> row_shows s' row)" if "\<not> po_Ended ans"
    using that going kept a1 by (simp add: answered)
  have over: "(\<exists>row \<in> set (db_rides d'). rd_ID row = i \<and> row_shows s' row \<and> rd_Status row = ''ended''
               \<and> rd_EndReason row = po_EndReason ans)
            \<or> (if s_tier s = TierBlocked then db_rides d' = db_rides d
               else ag_sessions (sv_agg sv') i = Some s' \<and> (\<exists>row \<in> set (db_rides d'). active_ride i row \<and> row_shows s' row))"
    if "po_Ended ans"
  proof -
    have e: "s_ended s'" using that by (simp add: answered)
    show ?thesis
    proof (cases "filed_ride i s' dbnow d1 d'")
      case True
      then show ?thesis
        using filed_row by (simp add: answered)
    next
      case False
      then show ?thesis
        using filed [OF e] kept took_one [OF e] by auto
    qed
  qed
  show ?thesis
    by (intro exI [of _ s] exI [of _ s'] exI [of _ points] exI [of _ "br_Points res"] exI [of _ rows])
      (use s report s'(2,4) took rows(2) points goes_on over ended in \<open>auto simp: answered\<close>)
qed

text \<open>A rider two points into a ride; the second matches the trip.\<close>

definition begun :: Session where
  "begun = fst (Apply \<lparr>vd_Outcome = Matched, vd_Corroboration = Unavailable, vd_AlongShape = Num 2, vd_DistanceToShape = Num 0,
     vd_ScheduleDeviation = 0, vd_Reason = NoReason\<rparr> (demo_point 2 demo_day)
     (NewSession ''a'' ''r1'' (TripKey ''t1'' ''20250102'') (Some demo_trip) TierNew demo_day))"

lemma begun_fields: "s_id begun = ''a''" "s_riderID begun = ''r1''" "s_key begun = TripKey ''t1'' ''20250102''"
  "s_trip begun = Some demo_trip" "\<not> s_ended begun" "s_endReason begun = None" "s_tier begun = TierNew" "s_state begun = Pending"
  "s_latestMatched begun = Some \<lparr>ap_Point = demo_point 2 demo_day, ap_AlongShape = Num 2\<rparr>" "s_nonMatchedStreak begun = []"
  "LastAcceptedAt begun = demo_day" "s_matchStreak begun = 1"
  by (simp_all add: begun_def Apply_def NewSession_def accept_point_def applyMatched_def tally_corroboration_def Let_def
      no_transition_def verifyStreak_def contradictStreak_def LastAcceptedAt_def demo_point_def)

definition begun_registry :: Aggregator where
  "begun_registry = agg_Add begun (NewAggregator DefaultThresholds (\<lambda>_. 0))"

lemma begun_reachable: "agg_reachable begun_registry"
  unfolding begun_registry_def
  by (rule agg_more [OF agg_new agg_add])
    (auto simp: NewAggregator_def begun_def intro!: reachable_Apply reach_new)

definition begun_db :: Database where
  "begun_db = empty_db\<lparr>db_riders := [sample_rider],
     db_rides := [sample_ride\<lparr>rd_TripID := ''t1'', rd_StartDate := ''20250102''\<rparr>]\<rparr>"

definition second_upload :: positionUpload where
  "second_upload = \<lparr>up_Latitude = Num 0, up_Longitude = Num (5 / 111320), up_Accuracy = Some (Num 5), up_Speed = None,
     up_Bearing = None, up_Timestamp = unix_of (demo_day + second)\<rparr>"

lemma second_point: "position_point second_upload = demo_point 5 (demo_day + second)" "validate_position second_upload = None"
  by (simp_all add: position_point_def second_upload_def demo_point_def orMissing_def validate_position_def time_unix_def
      unix_of_def demo_day_def time_units wrap64_def unix_to_internal_def)

lemma begun_matched:
  assumes "vd_Outcome v = Matched"
  shows "s_endReason (fst (Apply v p begun)) = None" "s_state (fst (Apply v p begun)) = Pending"
proof -
  have "s_contradictions begun = 0"
    by (simp add: begun_def Apply_def NewSession_def accept_point_def applyMatched_def tally_corroboration_def Let_def
      no_transition_def verifyStreak_def contradictStreak_def)
  then show "s_endReason (fst (Apply v p begun)) = None" "s_state (fst (Apply v p begun)) = Pending"
    using assms by (simp_all add: Apply_def begun_fields accept_point_def applyMatched_def tally_corroboration_def Let_def
        no_transition_def verifyStreak_def contradictStreak_def split: Corroboration.splits)
qed

lemma begun_batch:
  obtains a' res where "ApplyBatch (\<lambda>x. x) ''a'' [demo_point 5 (demo_day + second)] None (demo_day + second) begun_registry
      = (a', Some res)" "br_Accepted res = 1" "length (br_Points res) = 1" "rs_EndReason (br_Summary res) = None"
    "rs_State (br_Summary res) = Pending" "0 < unix_of (pt_Timestamp (apl_Point (hd (br_Points res))))"
proof -
  have s: "ag_sessions begun_registry ''a'' = Some begun" "ag_th begun_registry = DefaultThresholds" "ag_tz begun_registry = (\<lambda>_. 0)"
    by (simp_all add: begun_registry_def agg_Add_def NewAggregator_def begun_fields)
  have v: "verify_input DefaultThresholds (\<lambda>_. 0) None (trusted_along None begun) (demo_day + second) begun
      (demo_point 5 (demo_day + second)) = demo_input"
    by (simp add: verify_input_def demo_input_def begun_fields trusted_along_def)
  have later: "0 < unix_of (demo_day + second)"
    by (simp add: unix_of_def demo_day_def time_units wrap64_def unix_to_internal_def)
  have "sort_points [demo_point 5 (demo_day + second)] = [demo_point 5 (demo_day + second)]"
    by (simp add: sort_points_def stable_sort_def)
  then show thesis
    using that v demo_verify(1) later
    by (simp add: ApplyBatch_def liveKey_def s begun_fields apply_batch_locked_def Let_def Summary_def begun_matched demo_point_def)
qed

lemma begun_stores:
  assumes "length (br_Points res) = 1" "rs_State (br_Summary res) = Pending"
    "0 < unix_of (pt_Timestamp (apl_Point (hd (br_Points res))))"
  obtains net' d' where "store_batch (snapshot_of begun False) ''r1'' res 9 ([], begun_db) = (None, net', d')"
proof -
  obtain p where p: "br_Points res = [p]" "0 < unix_of (pt_Timestamp (apl_Point p))"
    using assms by (cases "br_Points res") auto
  show thesis
    using that assms(2) p
    by (simp add: store_batch_def snapshot_of_def begun_fields ridePointRecords_def serve_def Store_RecordRidePoints_def in_tx_def
        begin_tx_def exec_def next_trip_def record_body_def and_then_def answer_def point_params_def ridePointRecord_def
        db_InsertRidePoint_def begun_db_def empty_db_def sample_ride_def active_ride_def db_UpdateRideProgress_def
        ride_state_ok_def progress_params_def progressOf_def count_rows_def db_TouchRider_def)
qed

theorem accepted_report_is_recorded_witness:
  "\<exists>ans sv' net' d'. handlePositions open_config (\<lambda>a. a) (demo_day + second) 9
       (Some [''role'' \<mapsto> JStr ''rider'', ''sub'' \<mapsto> JStr ''r1'']) json_request ''a'' (Decoded [second_upload] NoMore)
       (newRiderService begun_registry) ([], begun_db) = (HOk 200 ans, sv', net', d')
    \<and> po_Accepted ans = 1 \<and> (\<exists>s' row. ag_sessions (sv_agg sv') ''a'' = Some s' \<and> row \<in> set (db_rides d') \<and> row_shows s' row)"
proof -
  let ?sv = "newRiderService begun_registry :: unit riderService"
  let ?ctx = "Some [''role'' \<mapsto> JStr ''rider'', ''sub'' \<mapsto> JStr ''r1'']"
  have rider: "riderIDFromContext ?ctx = Some ''r1''"
    by (simp add: riderIDFromContext_def str_claim_def roleRider_def)
  have lim: "Vehicle_Allow (cf_new open_config) (cf_draw open_config) ''r1'' now (sv_batch ?sv)
      = ((sv_batch ?sv)\<lparr>vl_limiters := [''r1'' \<mapsto> \<lparr>rl_limiter = (), rl_lastSeen = now\<rparr>]\<rparr>, True)" for now
    by (simp add: open_config_def Vehicle_Allow_def newRiderService_def NewKeyedRateLimiter_def maxTrackedRates_def Let_def)
  have agg: "sv_agg ?sv = begun_registry"
    by (simp add: newRiderService_def)
  have resolved: "resolveRide open_config begun_registry ''a'' ''r1'' = Inr (snapshot_of begun False)"
    by (simp add: resolveRide_def Snapshot_def begun_registry_def agg_Add_def NewAggregator_def snapshot_of_def begun_fields)
  have report: "read_report json_request (Decoded [second_upload] NoMore) = Inr [demo_point 5 (demo_day + second)]"
    by (simp add: read_report_def decodeRiderJSON_def json_request_ok riderMaxBatchSize_def second_point)
  obtain a' res where b: "ApplyBatch (\<lambda>x. x) ''a'' [demo_point 5 (demo_day + second)] None (demo_day + second) begun_registry
      = (a', Some res)" "br_Accepted res = 1" "length (br_Points res) = 1" "rs_EndReason (br_Summary res) = None"
    "rs_State (br_Summary res) = Pending" "0 < unix_of (pt_Timestamp (apl_Point (hd (br_Points res))))"
    by (rule begun_batch)
  obtain net' d' where st: "store_batch (snapshot_of begun False) ''r1'' res 9 ([], begun_db) = (None, net', d')"
    by (rule begun_stores [OF b(3,5,6)])
  have sid: "sn_ID (snapshot_of begun False) = ''a''"
    by (simp add: snapshot_of_def begun_fields)
  have none: "trusted_lookup open_config t = None" for t
    by (simp add: trusted_lookup_def open_config_def)
  obtain sv' where run: "handlePositions open_config (\<lambda>a. a) (demo_day + second) 9 ?ctx json_request ''a''
      (Decoded [second_upload] NoMore) ?sv ([], begun_db) = (HOk 200 (report_outcome res), sv', net', d')"
    unfolding handlePositions_def rider option.case lim Let_def case_prod_conv
    by (simp add: agg resolved report sid none b st)
  have out: "po_Accepted (report_outcome res) = 1" "\<not> po_Ended (report_outcome res)"
    using b by (simp_all add: report_outcome_def RideSummary_Ended_def)
  have reach: "agg_reachable (sv_agg ?sv)"
    unfolding agg by (rule begun_reachable)
  have s: "ag_sessions (sv_agg ?sv) ''a'' = Some begun"
    unfolding agg by (simp add: begun_registry_def agg_Add_def begun_fields)
  show ?thesis
    using accepted_report_is_recorded [OF reach rider run] run out s by (auto simp: begun_fields)
qed

section \<open>A start whose answer was lost\<close>

text \<open>
  A rider with an active row and no session for it here: the row of a start whose answer was lost, or of a
  ride another instance holds.
\<close>

definition stranded :: "string \<Rightarrow> Aggregator \<Rightarrow> Database \<Rightarrow> bool" where
  "stranded riderID a d \<longleftrightarrow>
     ActiveRideForRider a riderID = None \<and> (\<exists>r \<in> set (db_rides d). rd_RiderID r = riderID \<and> rd_Status r = ''active'')"

lemma start_beside_active:
  assumes "r \<in> set (db_rides d)" "rd_RiderID r = ri_RiderID ride" "rd_Status r = ''active''"
    and "Store_StartRide ride dbnow (net, d) = (res, net', d')"
  shows "d' = d \<and> (\<exists>e. res = Inl e)
    \<and> (net = [] \<and> ri_ID ride \<noteq> [] \<and> \<not> known_id (ri_ID ride) d \<longrightarrow> res = Inl ErrActiveRideExists)"
proof -
  have active: "list_ex (\<lambda>r. rd_RiderID r = ri_RiderID ride \<and> rd_Status r = ''active'') (db_rides d)"
    using assms(1-3) by (auto simp: list_ex_iff)
  define p where "p = \<lparr>ir_ID = ri_ID ride, ir_RiderID = ri_RiderID ride, ir_TripID = ri_TripID ride,
    ir_StartDate = ri_StartDate ride, ir_RouteID = ri_RouteID ride, ir_VehicleID = ri_VehicleID ride,
    ir_BoardingStopID = ri_BoardingStopID ride, ir_DestinationStopID = ri_DestinationStopID ride\<rparr>"
  have p: "ir_ID p = ri_ID ride" "ir_RiderID p = ri_RiderID ride"
    by (simp_all add: p_def)
  have "\<exists>e. db_InsertRide p dbnow d = Inl e
      \<and> (ri_ID ride \<noteq> [] \<and> \<not> known_id (ri_ID ride) d \<longrightarrow> e = UniqueViolation ''idx_rides_one_active_per_rider'')"
    using active by (auto simp: db_InsertRide_def p known_id_def has_row_def list_ex_iff)
  then obtain e where e: "db_InsertRide p dbnow d = Inl e"
    and which: "ri_ID ride \<noteq> [] \<Longrightarrow> \<not> known_id (ri_ID ride) d \<Longrightarrow> e = UniqueViolation ''idx_rides_one_active_per_rider''"
    by blast
  show ?thesis
    using assms(4) which unfolding Store_StartRide_def p_def [symmetric]
    by (auto simp: exec_def e next_trip_def answer_def and_then_def split: prod.splits commit.splits list.splits if_splits)
qed

text \<open>
  C32: a start whose answer the database lost locks the rider out. While the rider has an active row and
  no live session here, starting a ride never succeeds, changes neither the registry nor the table of rides, and so
  leaves the rider in the same position, however often it is retried; with a network that works and a
  rider that exists the answer is 409. Nothing supersedes the ride that won.
\<close>

theorem lost_start_locks_out:
  assumes "stranded riderID a d"
    and "open_ride uuid riderID req trip startDate now dbnow a (net, d) = (ans, a', net', d')"
  shows "a' = a \<and> d' = d \<and> stranded riderID a' d' \<and> (\<forall>x. ans \<noteq> HOk 201 x)
    \<and> (net = [] \<and> uuid \<noteq> [] \<and> \<not> known_id uuid d \<and> (\<exists>x \<in> set (db_riders d). rr_ID x = riderID)
         \<longrightarrow> ans = HErr 409 ''rider already has an active ride'')"
proof -
  have none: "supersede riderID now dbnow a (net, d) = (Inr None, a, net, d)"
    using assms(1) by (simp add: stranded_def supersede_def)
  obtain l net2 d2 where l: "load_rider riderID None (net, d) = (l :: startRideResponse answer + Rider, net2, d2)"
    by (metis prod_cases3)
  have d2: "d2 = d" by (rule load_rider_same) fact
  have err: "l = Inl bad \<Longrightarrow> \<forall>x. bad \<noteq> HOk 201 x" for bad
    using l by (auto simp: load_rider_def serve_def answer_def server_error_def split: prod.splits sum.splits if_splits)
  have found: "\<exists>rd. l = Inr rd \<and> net2 = []" if "net = []" "\<exists>x \<in> set (db_riders d). rr_ID x = riderID"
    using l that by (auto simp: load_rider_def serve_def answer_def Store_GetRider_def and_then_def exec_def next_trip_def
        db_GetRider_def read_one_def one_row_def filter_empty_conv split: prod.splits sum.splits list.splits)
  let ?ride = "requested_ride uuid riderID req trip startDate"
  obtain r3 net3 d3 where st: "Store_StartRide ?ride dbnow (net2, d) = (r3, net3, d3)"
    by (metis prod_cases3)
  have fields: "ri_RiderID ?ride = riderID" "ri_ID ?ride = uuid"
    by (simp_all add: requested_ride_def)
  obtain r where "r \<in> set (db_rides d)" "rd_RiderID r = riderID" "rd_Status r = ''active''"
    using assms(1) by (auto simp: stranded_def)
  then have refused: "d3 = d \<and> (\<exists>e. r3 = Inl e) \<and> (net2 = [] \<and> uuid \<noteq> [] \<and> \<not> known_id uuid d \<longrightarrow> r3 = Inl ErrActiveRideExists)"
    using start_beside_active [OF _ _ _ st] unfolding fields by blast
  show ?thesis
    using assms none l d2 err found st refused
    by (auto simp: open_ride_def server_error_def split: sum.splits if_splits)
qed

text \<open>The whole story: the first start is inserted and its answer lost; the retry is refused.\<close>

definition start_request :: startRideRequest where
  "start_request = \<lparr>sq_TripID = ''t'', sq_StartDate = ''20250101'', sq_RouteID = [], sq_VehicleID = [],
     sq_BoardingStopID = [], sq_DestinationStopID = []\<rparr>"

theorem lost_start_locks_out_witness:
  "\<exists>d net1 net'. open_ride ''b'' ''r1'' start_request demo_trip ''20250101'' 9 9 (NewAggregator DefaultThresholds (\<lambda>_. 0))
        ([Committed, Lost], rider_db) = (server_error, NewAggregator DefaultThresholds (\<lambda>_. 0), net1, d)
    \<and> stranded ''r1'' (NewAggregator DefaultThresholds (\<lambda>_. 0)) d
    \<and> open_ride ''c'' ''r1'' start_request demo_trip ''20250101'' 20 20 (NewAggregator DefaultThresholds (\<lambda>_. 0)) ([], d)
        = (HErr 409 ''rider already has an active ride'', NewAggregator DefaultThresholds (\<lambda>_. 0), net', d)"
proof -
  let ?a = "NewAggregator DefaultThresholds (\<lambda>_. 0)"
  have none: "supersede ''r1'' 9 9 ?a st = (Inr None, ?a, st)" for st
    by (simp add: supersede_def ActiveRideForRider_def activeForRiderLocked_def NewAggregator_def)
  have rider: "load_rider ''r1'' None (Committed # net, rider_db) = (Inr (riderFromRow sample_rider), net, rider_db)" for net
    by (simp add: load_rider_def serve_def Store_GetRider_def and_then_def exec_def next_trip_def answer_def db_GetRider_def
        read_one_def one_row_def rider_db_def empty_db_def sample_rider_def)
  obtain net1 d where lost: "Store_StartRide (requested_ride ''b'' ''r1'' start_request demo_trip ''20250101'') 9 ([Lost], rider_db)
      = (Inl (Wrapped Unreachable), net1, d)"
    and row: "\<exists>r \<in> set (db_rides d). rd_RiderID r = ''r1'' \<and> rd_Status r = ''active''"
    and ids: "map rd_ID (db_rides d) = [''b'']" and riders: "db_riders d = [sample_rider]"
    by (simp add: Store_StartRide_def requested_ride_def start_request_def and_then_def exec_def next_trip_def answer_def
        db_InsertRide_def rider_db_def empty_db_def sample_rider_def Let_def)
  have first: "open_ride ''b'' ''r1'' start_request demo_trip ''20250101'' 9 9 ?a ([Committed, Lost], rider_db)
      = (server_error, ?a, net1, d)"
    by (simp add: open_ride_def none rider lost)
  have stuck: "stranded ''r1'' ?a d"
    using row by (simp add: stranded_def ActiveRideForRider_def activeForRiderLocked_def NewAggregator_def)
  obtain ans a' net' d' where second: "open_ride ''c'' ''r1'' start_request demo_trip ''20250101'' 20 20 ?a ([], d) = (ans, a', net', d')"
    by (metis prod_cases4)
  have "\<not> known_id ''c'' d"
    using ids by (auto simp: known_id_def has_row_def)
  moreover have "\<exists>x \<in> set (db_riders d). rr_ID x = ''r1''"
    by (simp add: riders sample_rider_def)
  ultimately have "a' = ?a \<and> d' = d \<and> ans = HErr 409 ''rider already has an active ride''"
    using lost_start_locks_out [OF stuck second] by simp
  then show ?thesis
    using first stuck second by blast
qed

end
