(* ===== verification/Feed.thy ===== *)
theory Feed
  imports RideProtocol
begin

text \<open>
  The drivers' reports and the published feed (\<open>src/handlers.go\<close>): a report is validated, attributed to the
  driver of the token, rate-limited, saved and then tracked; the feed merges the tracked vehicles with the
  riders' estimates. The messages of the GTFS-realtime library are records of the fields the code sets;
  their encoding is a parameter, and so is the rounding of a \<open>float64\<close> to \<open>float32\<close>.
\<close>

section \<open>Reports\<close>

definition maxTripFieldLength :: nat where "maxTripFieldLength = 100"
definition maxTimestampSkew :: duration where "maxTimestampSkew = 5 * minute"

text \<open>\<open>now\<close> is the server's clock; the result is the error, if any.\<close>

definition validate_location :: "gotime \<Rightarrow> LocationReport \<Rightarrow> string option" where
  "validate_location now r =
     (if lr_VehicleID r = [] then Some ''vehicle_id is required''
      else if length (lr_VehicleID r) > maxVehicleIDLength then Some ''vehicle_id must be at most 50 characters''
      else if \<not> vehicleIDPattern (lr_VehicleID r)
      then Some ''vehicle_id must contain only alphanumeric characters, dots, hyphens, and underscores''
      else if feq (lr_Latitude r) (Num 0) \<and> feq (lr_Longitude r) (Num 0)
      then Some ''latitude and longitude cannot both be zero (likely GPS error)''
      else if flt (lr_Latitude r) (Num (- 90)) \<or> fgt (lr_Latitude r) (Num 90) then Some ''latitude must be between -90 and 90''
      else if flt (lr_Longitude r) (Num (- 180)) \<or> fgt (lr_Longitude r) (Num 180)
      then Some ''longitude must be between -180 and 180''
      else if lr_Timestamp r \<le> 0 then Some ''timestamp must be positive''
      else if lr_Timestamp r < unix_of now - whole_seconds maxTimestampSkew
              \<or> lr_Timestamp r > unix_of now + whole_seconds maxTimestampSkew
      then Some ''timestamp must be within 5 minutes of server time''
      else if (case lr_Bearing r of None \<Rightarrow> False | Some b \<Rightarrow> flt b (Num 0) \<or> fgt b (Num 360))
      then Some ''bearing must be between 0 and 360 (inclusive)''
      else if (case lr_Speed r of None \<Rightarrow> False | Some v \<Rightarrow> flt v (Num 0)) then Some ''speed must be non-negative''
      else if length (lr_TripID r) > maxTripFieldLength then Some ''trip_id must be at most 100 characters''
      else if length (lr_RouteID r) > maxTripFieldLength then Some ''route_id must be at most 100 characters''
      else if lr_StartDate r \<noteq> [] then
        (if \<not> serviceDatePattern (lr_StartDate r) then Some ''start_date must be YYYYMMDD''
         else if parse_date (lr_StartDate r) = None then Some ''start_date must be a valid YYYYMMDD date''
         else if lr_TripID r = [] \<and> lr_RouteID r = [] then Some ''start_date requires trip_id or route_id''
         else None)
      else None)"

section \<open>Storing a report\<close>

definition location_params :: "LocationReport \<Rightarrow> InsertLocationPointParams" where
  "location_params loc =
     \<lparr>il_VehicleID = lr_VehicleID loc, il_TripID = lr_TripID loc, il_RouteID = lr_RouteID loc,
      il_StartDate = lr_StartDate loc, il_Latitude = lr_Latitude loc, il_Longitude = lr_Longitude loc,
      il_Bearing = lr_Bearing loc, il_Speed = lr_Speed loc, il_Accuracy = lr_Accuracy loc,
      il_Timestamp = lr_Timestamp loc, il_DriverID = lr_DriverID loc\<rparr>"

definition save_body :: "LocationReport \<Rightarrow> gotime \<Rightarrow> (StoreError + unit) call" where
  "save_body loc now =
     and_then (exec (db_UpsertVehicle (lr_VehicleID loc) now)) Wrapped (\<lambda>_.
     and_then (exec (db_InsertLocationPoint (location_params loc) now)) Wrapped (\<lambda>_. answer (Inr ())))"

definition Store_SaveLocation :: "LocationReport \<Rightarrow> gotime \<Rightarrow> (StoreError + unit) call" where
  "Store_SaveLocation loc now = in_tx Wrapped (save_body loc now)"

definition report_of :: "LocationPointRow \<Rightarrow> LocationReport" where
  "report_of row =
     \<lparr>lr_VehicleID = lp_VehicleID row, lr_TripID = lp_TripID row, lr_RouteID = lp_RouteID row,
      lr_StartDate = lp_StartDate row, lr_Latitude = lp_Latitude row, lr_Longitude = lp_Longitude row,
      lr_Bearing = lp_Bearing row, lr_Speed = lp_Speed row, lr_Accuracy = lp_Accuracy row,
      lr_Timestamp = lp_Timestamp row, lr_DriverID = lp_DriverID row\<rparr>"

definition Store_GetRecentLocations :: "gotime \<Rightarrow> (StoreError + LocationReport list) call" where
  "Store_GetRecentLocations since =
     and_then (exec (db_GetRecentLocations since)) Wrapped (\<lambda>rows. answer (Inr (map report_of rows)))"

text \<open>At start-up the tracker is seeded from the database; a failure leaves it empty.\<close>

definition seed_tracker :: "gotime \<Rightarrow> Tracker \<Rightarrow> Tracker call" where
  "seed_tracker now t =
     serve (Store_GetRecentLocations (time_add now (- tk_maxAge t))) (\<lambda>res.
       answer (case res of Inl e \<Rightarrow> t | Inr locs \<Rightarrow> fold (\<lambda>loc. Update loc now) locs t))"

section \<open>Posting a report\<close>

definition trim_ids :: "LocationReport \<Rightarrow> LocationReport" where
  "trim_ids loc = loc\<lparr>lr_TripID := trim_space (lr_TripID loc), lr_RouteID := trim_space (lr_RouteID loc)\<rparr>"

text \<open>\<open>body\<close> decodes to a report without its driver; a body over the limit is a decoding error here.\<close>

definition handlePostLocation ::
  "(duration \<Rightarrow> nat \<Rightarrow> 'b) \<Rightarrow> ('b \<Rightarrow> gotime \<Rightarrow> 'b \<times> bool) \<Rightarrow> gotime \<Rightarrow> gotime \<Rightarrow> MapClaims option \<Rightarrow> http_request
     \<Rightarrow> LocationReport body \<Rightarrow> Tracker \<Rightarrow> 'b VehicleRateLimiter \<Rightarrow> net \<times> Database
     \<Rightarrow> unit answer \<times> Tracker \<times> 'b VehicleRateLimiter \<times> net \<times> Database" where
  "handlePostLocation new draw now dbnow ctx r body tracker rl st =
     (if \<not> is_json (hr_MediaType r) then (HErr 415 content_type_message, tracker, rl, st)
      else case strict_body (HErr 400 ''invalid JSON: http: request body too large'') body of
             Inl bad \<Rightarrow> (bad, tracker, rl, st)
           | Inr decoded \<Rightarrow>
               (let loc = trim_ids decoded in
                case validate_location now loc of
                  Some msg \<Rightarrow> (HErr 400 msg, tracker, rl, st)
                | None \<Rightarrow>
                    (case ctx of
                       None \<Rightarrow> (server_error, tracker, rl, st)
                     | Some claims \<Rightarrow>
                         (let sub = str_claim claims ''sub'' in
                          if sub = [] then (HErr 401 ''invalid token: missing subject'', tracker, rl, st)
                          else
                            let loc = loc\<lparr>lr_DriverID := sub\<rparr>; (rl', allowed) = Vehicle_Allow new draw sub now rl
                            in if \<not> allowed
                               then (HErr 429 ''rate limit exceeded: at most one location report per 5 seconds per driver, on average'',
                                     tracker, rl', st)
                               else case Store_SaveLocation loc dbnow st of
                                      (Inl e, st') \<Rightarrow> (HErr 500 ''failed to save location'', tracker, rl', st')
                                    | (Inr _, st') \<Rightarrow> (HOk 201 (), Update loc now tracker, rl', st')))))"

section \<open>The feed\<close>

record FeedPosition =
  fp_Latitude :: f64
  fp_Longitude :: f64
  fp_Bearing :: "f64 option"
  fp_Speed :: "f64 option"

record FeedTrip =
  ft_TripId :: "string option"
  ft_RouteId :: "string option"
  ft_StartDate :: "string option"

record FeedEntity =
  fe_Id :: string
  fe_VehicleId :: string
  fe_Label :: "string option"
  fe_Trip :: "FeedTrip option"
  fe_Position :: FeedPosition
  fe_Timestamp :: int
  fe_StopId :: "string option"
  fe_CurrentStopSequence :: "int option"
  fe_InTransit :: bool

record FeedMessage =
  fm_Version :: string
  fm_FullDataset :: bool
  fm_Timestamp :: int
  fm_Entity :: "FeedEntity list"

definition nonempty :: "string \<Rightarrow> string option" where
  "nonempty s = (if s \<noteq> [] then Some s else None)"

text \<open>\<open>uint64(n)\<close> and \<open>uint32(n)\<close>.\<close>

definition to_uint64 :: "int \<Rightarrow> int" where "to_uint64 n = n mod 2 ^ 64"
definition to_uint32 :: "int \<Rightarrow> int" where "to_uint32 n = n mod 2 ^ 32"

definition driverEntity :: "(f64 \<Rightarrow> f64) \<Rightarrow> VehicleState \<Rightarrow> FeedEntity" where
  "driverEntity f32 v =
     \<lparr>fe_Id = ve_VehicleID v, fe_VehicleId = ve_VehicleID v, fe_Label = None,
      fe_Trip = (if ve_TripID v \<noteq> [] \<or> ve_RouteID v \<noteq> []
                 then Some \<lparr>ft_TripId = nonempty (ve_TripID v), ft_RouteId = nonempty (ve_RouteID v),
                           ft_StartDate = nonempty (ve_StartDate v)\<rparr>
                 else None),
      fe_Position = \<lparr>fp_Latitude = f32 (ve_Latitude v), fp_Longitude = f32 (ve_Longitude v),
                     fp_Bearing = map_option f32 (ve_Bearing v), fp_Speed = map_option f32 (ve_Speed v)\<rparr>,
      fe_Timestamp = to_uint64 (ve_Timestamp v), fe_StopId = None, fe_CurrentStopSequence = None, fe_InTransit = False\<rparr>"

definition riderEntityID :: "TripKey \<Rightarrow> string" where
  "riderEntityID key = ''rider:'' @ tk_TripID key @ '':'' @ tk_StartDate key"

definition riderEntity :: "(f64 \<Rightarrow> f64) \<Rightarrow> TripEstimate \<Rightarrow> FeedEntity" where
  "riderEntity f32 est =
     \<lparr>fe_Id = riderEntityID (te_Key est), fe_VehicleId = riderEntityID (te_Key est), fe_Label = Some ''Rider-reported'',
      fe_Trip = Some \<lparr>ft_TripId = Some (tk_TripID (te_Key est)), ft_RouteId = nonempty (te_RouteID est),
                     ft_StartDate = Some (tk_StartDate (te_Key est))\<rparr>,
      fe_Position = \<lparr>fp_Latitude = f32 (Lat (te_Pos est)), fp_Longitude = f32 (Lon (te_Pos est)),
                     fp_Bearing = Some (f32 (te_Bearing est)), fp_Speed = map_option f32 (te_Speed est)\<rparr>,
      fe_Timestamp = to_uint64 (unix_of (te_Timestamp est)),
      fe_StopId = nonempty (te_StopID est),
      fe_CurrentStopSequence = (if te_StopID est \<noteq> [] then Some (to_uint32 (te_StopSequence est)) else None),
      fe_InTransit = (te_StopID est \<noteq> [])\<rparr>"

text \<open>One vehicle, one estimate: skipped without a positive time, else appended; the header keeps up.\<close>

definition add_vehicle :: "(f64 \<Rightarrow> f64) \<Rightarrow> VehicleState \<Rightarrow> int \<times> FeedEntity list \<Rightarrow> int \<times> FeedEntity list" where
  "add_vehicle f32 v st =
     (case st of (header, entities) \<Rightarrow>
        if ve_Timestamp v \<le> 0 then (header, entities)
        else (let ts = to_uint64 (ve_Timestamp v)
              in (if ts > header then ts else header, entities @ [driverEntity f32 v])))"

definition add_estimate :: "(f64 \<Rightarrow> f64) \<Rightarrow> TripEstimate \<Rightarrow> int \<times> FeedEntity list \<Rightarrow> int \<times> FeedEntity list" where
  "add_estimate f32 est st =
     (case st of (header, entities) \<Rightarrow>
        let ts = unix_of (te_Timestamp est)
        in if ts \<le> 0 then (header, entities)
           else (if to_uint64 ts > header then to_uint64 ts else header, entities @ [riderEntity f32 est]))"

definition buildFeed :: "(f64 \<Rightarrow> f64) \<Rightarrow> gotime \<Rightarrow> VehicleState list \<Rightarrow> TripEstimate list \<Rightarrow> FeedMessage" where
  "buildFeed f32 now vehicles estimates =
     (let (header, entities) =
            fold (add_estimate f32) estimates (fold (add_vehicle f32) vehicles (to_uint64 (unix_of now), []))
      in \<lparr>fm_Version = ''2.0'', fm_FullDataset = True, fm_Timestamp = header, fm_Entity = entities\<rparr>)"

text \<open>\<open>ks\<close>, \<open>rks\<close> and \<open>kks\<close> are the orders of the maps; \<open>estimates\<close> is the service's, or none where rider mode is off.\<close>

definition handleGetFeed ::
  "(f64 \<Rightarrow> f64) \<Rightarrow> (FeedMessage \<Rightarrow> string option) \<Rightarrow> (FeedMessage \<Rightarrow> string option) \<Rightarrow> string list \<Rightarrow> gotime
     \<Rightarrow> string \<Rightarrow> string \<Rightarrow> Tracker \<Rightarrow> (gotime \<Rightarrow> TripEstimate list) \<Rightarrow> (string \<times> string) answer" where
  "handleGetFeed f32 marshal_json marshal ks now source format tracker estimates =
     (let wantDriver = (source = [] \<or> source = ''all'' \<or> source = ''driver'');
          wantRider = (source = [] \<or> source = ''all'' \<or> source = ''rider'')
      in if \<not> wantDriver \<and> \<not> wantRider then HErr 400 ''invalid source''
         else
           let vehicles = (if wantDriver then ActiveVehicles ks now tracker else []);
               ests = (if wantRider then estimates now else []);
               feed = buildFeed f32 now vehicles ests
           in if format = ''json''
              then (case marshal_json feed of
                      None \<Rightarrow> HErr 500 ''failed to marshal feed'' | Some data \<Rightarrow> HOk 200 (''application/json'', data))
              else (case marshal feed of
                      None \<Rightarrow> HErr 500 ''failed to marshal feed'' | Some data \<Rightarrow> HOk 200 (''application/x-protobuf'', data)))"

section \<open>Health\<close>

definition handleReadiness :: "bool \<Rightarrow> string answer" where  \<comment> \<open>whether the database answered a ping in time\<close>
  "handleReadiness ping = (if \<not> ping then HOk 503 ''degraded'' else HOk 200 ''ok'')"

record adminStatusResponse =
  as_Status :: string
  as_UptimeSeconds :: int
  as_ActiveVehicles :: nat
  as_TotalVehiclesTracked :: nat
  as_LastUpdate :: "gotime option"

definition handleAdminStatus :: "string list \<Rightarrow> gotime \<Rightarrow> gotime \<Rightarrow> Tracker \<Rightarrow> adminStatusResponse answer" where
  "handleAdminStatus ks now startTime tracker =
     (let ts = Tracker.Status ks now tracker
      in HOk 200 \<lparr>as_Status = ''ok'', as_UptimeSeconds = whole_seconds (time_sub now startTime),
                 as_ActiveVehicles = ts_ActiveVehicles ts, as_TotalVehiclesTracked = ts_TotalVehiclesTracked ts,
                 as_LastUpdate = ts_LastUpdate ts\<rparr>)"

end
