(* ===== verification/FeedProps.thy ===== *)
theory FeedProps
  imports Feed
begin

text \<open>
  What the published feed promises its consumers: a header no older than any entity, one entity per id, and
  the reports drivers were told are accepted, also across a restart.
\<close>

section \<open>The entities of the feed\<close>

lemma fold_vehicles:
  "fold (add_vehicle f32) vs (h, es) =
     (fold (\<lambda>v h. if ve_Timestamp v \<le> 0 then h else max h (to_uint64 (ve_Timestamp v))) vs h,
      es @ map (driverEntity f32) (filter (\<lambda>v. \<not> ve_Timestamp v \<le> 0) vs))"
  by (induction vs arbitrary: h es) (auto simp: add_vehicle_def Let_def max_def)

lemma fold_estimates:
  "fold (add_estimate f32) ests (h, es) =
     (fold (\<lambda>e h. if unix_of (te_Timestamp e) \<le> 0 then h else max h (to_uint64 (unix_of (te_Timestamp e)))) ests h,
      es @ map (riderEntity f32) (filter (\<lambda>e. \<not> unix_of (te_Timestamp e) \<le> 0) ests))"
  by (induction ests arbitrary: h es) (auto simp: add_estimate_def Let_def max_def)

lemma fold_max_ge:
  fixes h :: int
  shows "h \<le> fold (\<lambda>x h. if q x then h else max h (f x)) xs h
    \<and> (\<forall>x \<in> set xs. q x \<or> f x \<le> fold (\<lambda>x h. if q x then h else max h (f x)) xs h)"
proof (induction xs arbitrary: h)
  case (Cons x xs)
  show ?case
    using Cons.IH [of "if q x then h else max h (f x)"] by (auto split: if_splits)
qed simp

lemma feed_entities:
  "fm_Entity (buildFeed f32 now vs ests) =
     map (driverEntity f32) (filter (\<lambda>v. \<not> ve_Timestamp v \<le> 0) vs)
     @ map (riderEntity f32) (filter (\<lambda>e. \<not> unix_of (te_Timestamp e) \<le> 0) ests)"
  by (simp add: buildFeed_def fold_vehicles fold_estimates)

lemma entity_times [simp]:
  "fe_Timestamp (driverEntity f32 v) = to_uint64 (ve_Timestamp v)"
  "fe_Timestamp (riderEntity f32 e) = to_uint64 (unix_of (te_Timestamp e))"
  "fe_Id (driverEntity f32 v) = ve_VehicleID v" "fe_VehicleId (driverEntity f32 v) = ve_VehicleID v"
  "fe_Id (riderEntity f32 e) = riderEntityID (te_Key e)" "fe_VehicleId (riderEntity f32 e) = riderEntityID (te_Key e)"
  by (simp_all add: driverEntity_def riderEntity_def)

text \<open>
  The header of the feed is never older than what it heads. Whatever vehicles and estimates go into it,
  and whatever their times and the server's clock are, the header's timestamp is at least that of every entity
  and at least the current time, as the validator rule E012 demands of the feed.
\<close>

theorem feed_header_not_older:
  assumes "e \<in> set (fm_Entity (buildFeed f32 now vehicles estimates))"
  shows "fe_Timestamp e \<le> fm_Timestamp (buildFeed f32 now vehicles estimates)
    \<and> to_uint64 (unix_of now) \<le> fm_Timestamp (buildFeed f32 now vehicles estimates)"
proof -
  define h where "h = fold (\<lambda>v h. if ve_Timestamp v \<le> 0 then h else max h (to_uint64 (ve_Timestamp v))) vehicles (to_uint64 (unix_of now))"
  note vs = fold_max_ge [of "to_uint64 (unix_of now)" "\<lambda>v. ve_Timestamp v \<le> 0" "\<lambda>v. to_uint64 (ve_Timestamp v)" vehicles,
      folded h_def]
  note es = fold_max_ge [of h "\<lambda>e. unix_of (te_Timestamp e) \<le> 0" "\<lambda>e. to_uint64 (unix_of (te_Timestamp e))" estimates]
  have "fm_Timestamp (buildFeed f32 now vehicles estimates)
      = fold (\<lambda>e h. if unix_of (te_Timestamp e) \<le> 0 then h else max h (to_uint64 (unix_of (te_Timestamp e)))) estimates h"
    by (simp add: buildFeed_def fold_vehicles fold_estimates h_def)
  then show ?thesis
    using assms vs es unfolding feed_entities by force
qed

definition late_vehicle :: VehicleState where
  "late_vehicle = \<lparr>ve_VehicleID = ''bus-1'', ve_TripID = ''t1'', ve_RouteID = [], ve_StartDate = [], ve_Latitude = Num 1,
     ve_Longitude = Num 2, ve_Bearing = None, ve_Speed = None, ve_Accuracy = None, ve_Timestamp = 2000000000, ve_UpdatedAt = 0\<rparr>"

theorem feed_header_not_older_witness:
  "2000000000 \<le> fm_Timestamp (buildFeed (\<lambda>x. x) (1000 * nano + unix_to_internal * nano) [late_vehicle] [])"
  using feed_header_not_older [of "driverEntity (\<lambda>x. x) late_vehicle" "\<lambda>x. x" "1000 * nano + unix_to_internal * nano"
      "[late_vehicle]" "[]"]
  by (simp add: feed_entities late_vehicle_def to_uint64_def)

section \<open>Ids\<close>

definition colon_free :: "string \<Rightarrow> bool" where
  "colon_free s \<longleftrightarrow> CHR '':'' \<notin> set s"

lemma split_last_colon:
  assumes "t @ CHR '':'' # d = t' @ CHR '':'' # d'" "colon_free d" "colon_free d'"
  shows "t = t' \<and> d = d'"
proof -
  have "takeWhile (\<lambda>c. c \<noteq> CHR '':'') (rev (t @ CHR '':'' # d)) = rev d" if "colon_free d" for t d
    using that by (auto simp: colon_free_def takeWhile_tail takeWhile_append2)
  then have "rev d = rev d'"
    using assms by metis
  then show ?thesis
    using assms(1) by simp
qed

lemma riderEntityID_inj:
  assumes "riderEntityID k = riderEntityID k'" "colon_free (tk_StartDate k)" "colon_free (tk_StartDate k')"
  shows "k = k'"
  using assms split_last_colon [of "tk_TripID k" "tk_StartDate k" "tk_TripID k'" "tk_StartDate k'"]
  by (simp add: riderEntityID_def TripKey.expand)

lemma digit_not_colon: "is_digit c \<Longrightarrow> c \<noteq> CHR '':''"
  by (auto simp: is_digit_def)

lemma vehicle_id_colon_free: "vehicleIDPattern i \<Longrightarrow> colon_free i"
  by (auto simp: vehicleIDPattern_def colon_free_def list_all_iff Let_def is_digit_def)

lemma vehicle_id_not_rider: "vehicleIDPattern i \<Longrightarrow> i \<noteq> riderEntityID k"
  using vehicle_id_colon_free [of i] by (auto simp: colon_free_def riderEntityID_def)

lemma service_date_colon_free: "serviceDatePattern s \<Longrightarrow> colon_free s"
  using digit_not_colon by (auto simp: serviceDatePattern_def colon_free_def list_all_iff)

lemma pad_digits_colon_free: "0 \<le> n \<Longrightarrow> colon_free (pad_digits k n)"
proof (induction k arbitrary: n)
  case (Suc k)
  have "digit_char (n mod 10) \<noteq> CHR '':''"
    using digit_char [of "n mod 10"] digit_not_colon by auto
  then show ?case
    using Suc by (auto simp: colon_free_def)
qed (simp add: colon_free_def)


lemma decimal_colon_free: "colon_free (decimal n)"
  using decimal_digits [of _ n] digit_not_colon unfolding colon_free_def by blast

lemma format_date_colon_free: "0 \<le> m \<Longrightarrow> 0 \<le> d \<Longrightarrow> colon_free (format_date (y, m, d))"
  using pad_digits_colon_free [of "\<bar>y\<bar>" 4] pad_digits_colon_free [of m 2] pad_digits_colon_free [of d 2]
    decimal_colon_free [of "nat \<bar>y\<bar>"]
  by (cases "y < 0") (auto simp: format_date_def year_digits_def colon_free_def Let_def)

lemma Date_of_colon_free: "colon_free (format_date (Date_of loc t))"
  using civil_valid [of "local_seconds loc t div day_seconds + epoch_day"]
  by (cases "Date_of loc t") (auto simp: Date_of_def valid_date_def intro: format_date_colon_free)

lemma ServiceDateFor_colon_free: "colon_free (ServiceDateFor ix trip now)"
  by (simp add: ServiceDateFor_def ServiceDate_def Date_of_colon_free Let_def split: option.split)

section \<open>Dates in the registry\<close>

text \<open>The trips that have a session, and how the callers of the rider API change them.\<close>

definition trip_keys :: "Aggregator \<Rightarrow> TripKey set" where
  "trip_keys a = s_key ` ran (ag_sessions a)"

lemma in_place_keys: "in_place a a' \<Longrightarrow> trip_keys a' \<subseteq> trip_keys a"
proof
  fix k
  assume place: "in_place a a'" and k: "k \<in> trip_keys a'"
  then obtain i s' where s': "ag_sessions a' i = Some s'" "k = s_key s'"
    by (auto simp: trip_keys_def ran_def)
  obtain s where s: "ag_sessions a i = Some s" "identity s' = identity s"
    using place [unfolded in_place_def, rule_format, of i] s'(1) by auto
  then show "k \<in> trip_keys a"
    using s'(2) identity_fields(3) [OF s(2)] ranI [of "ag_sessions a", OF s(1)] unfolding trip_keys_def by blast
qed

lemma remove_keys: "trip_keys (fst (Remove i a)) \<subseteq> trip_keys a"
  by (auto simp: trip_keys_def Remove_def removeLocked_def ran_def split: option.splits if_splits)

lemma end_keys: "trip_keys (fst (agg_End i reason now a)) \<subseteq> trip_keys a"
proof (cases "agg_End i reason now a")
  case (Pair a' snap)
  then show ?thesis
    using in_place_End [of i reason now a a'] in_place_keys [of a a']
    by (cases snap) (auto simp: agg_End_def Let_def split: option.splits)
qed

lemma tier_keys: "trip_keys (agg_SetTier r tier a) \<subseteq> trip_keys a"
  using in_place_keys [OF in_place_SetTier] .

lemma finish_steps:
  assumes "finishRide i reason now dbnow a st = (res, a', st')"
  shows "a' = a \<or> a' = fst (agg_End i reason now a) \<or> a' = fst (Remove i (fst (agg_End i reason now a)))
    \<or> (\<exists>r tier. a' = agg_SetTier r tier (fst (Remove i (fst (agg_End i reason now a)))))"
  using assms
  by (auto simp: finishRide_def agg_End_def Let_def split: prod.splits sum.splits if_splits option.splits)

lemma finish_keys:
  assumes "finishRide i reason now dbnow a st = (res, a', st')"
  shows "trip_keys a' \<subseteq> trip_keys a"
  using finish_steps [OF assms] end_keys [of i reason now a] remove_keys [of i "fst (agg_End i reason now a)"]
    tier_keys by (meson order_refl subset_trans)

lemma try_finish_keys: "try_finish i reason now dbnow (a, st) = (a', st') \<Longrightarrow> trip_keys a' \<subseteq> trip_keys a"
  by (cases "finishRide i reason now dbnow a st") (auto simp: try_finish_def dest: finish_keys)

lemma reap_keys:
  assumes "range_order ks (ag_sessions a)" "reap_tick ks now dbnow (a, st) = (a', st')"
  shows "trip_keys a' \<subseteq> trip_keys a"
proof -
  have folded: "fold (\<lambda>i. try_finish i EndIdle now dbnow) js (a1, st1) = (a2, st2) \<Longrightarrow> trip_keys a2 \<subseteq> trip_keys a1"
    for js a1 st1 a2 st2
  proof (induction js arbitrary: a1 st1)
    case (Cons j js)
    obtain a3 st3 where step: "try_finish j EndIdle now dbnow (a1, st1) = (a3, st3)"
      by (cases "try_finish j EndIdle now dbnow (a1, st1)")
    show ?case
      using Cons.prems Cons.IH [of a3 st3] try_finish_keys [OF step] by (simp add: step)
  qed simp
  obtain a1 reaped where r: "Reap ks now a = (a1, reaped)"
    by (cases "Reap ks now a")
  have "trip_keys a1 \<subseteq> trip_keys a"
    using in_place_keys [of a a1] in_place_Reap [OF assms(1) r] by blast
  moreover have "trip_keys a' \<subseteq> trip_keys a1"
    using assms(2) folded by (simp add: reap_tick_def r)
  ultimately show ?thesis by simp
qed

lemma add_keys: "trip_keys (agg_Add s a) \<subseteq> insert (s_key s) (trip_keys a)"
  by (auto simp: trip_keys_def agg_Add_def ran_def split: if_splits)

lemma supersede_keys: "supersede riderID now dbnow a st = (res, a', st') \<Longrightarrow> trip_keys a' \<subseteq> trip_keys a"
  by (auto simp: supersede_def dest: finish_keys split: option.splits prod.splits sum.splits finish_error.splits)

lemma started_key:
  assumes "Store_StartRide (requested_ride uuid riderID req trip startDate) dbnow st = (Inr row, st')"
  shows "s_key (ride_session row riderID trip tier) = TripKey (sq_TripID req) startDate"
  using assms
  by (cases st; cases st') (auto simp: Store_StartRide_def answer_def db_InsertRide_def Let_def requested_ride_def
      ride_session_def NewSession_def rideFromRow_def elim!: and_then_Inr dest!: exec_Inr split: if_splits)

lemma open_keys:
  assumes "open_ride uuid riderID req trip startDate now dbnow a st = (ans, a', st')"
  shows "trip_keys a' \<subseteq> insert (TripKey (sq_TripID req) startDate) (trip_keys a)"
proof (cases "supersede riderID now dbnow a st")
  case (fields r1 a1 st1)
  then have first: "trip_keys a1 \<subseteq> trip_keys a"
    by (rule supersede_keys)
  have "a' = a1 \<or> (\<exists>row tier st2 st3. a' = agg_Add (ride_session row riderID trip tier) a1
      \<and> Store_StartRide (requested_ride uuid riderID req trip startDate) dbnow st2 = (Inr row, st3))"
    using assms fields unfolding open_ride_def
    by (simp split: prod.split_asm sum.split_asm if_split_asm del: split_paired_Ex) blast+
  then show ?thesis
    using first add_keys [of _ a1] started_key by fastforce
qed

lemma start_keys:
  assumes "handleStartRide cf uuid now dbnow ctx r body sv st = (ans, sv', st')"
  shows "trip_keys (sv_agg sv') \<subseteq> trip_keys (sv_agg sv)
    \<or> (\<exists>k. colon_free (tk_StartDate k) \<and> trip_keys (sv_agg sv') \<subseteq> insert k (trip_keys (sv_agg sv)))"
proof -
  have dated: "colon_free startDate"
    if "validate_start req = None" "resolve_trip cf now req = (Inr (trip, startDate) :: startRideResponse answer + TripInfo \<times> string)"
    for req trip startDate
    using that by (auto simp: validate_start_def resolve_trip_def Let_def ServiceDateFor_colon_free
        service_date_colon_free split: option.splits if_splits)
  have "sv_agg sv' = sv_agg sv \<or> (\<exists>req trip startDate riderID. validate_start req = None
      \<and> resolve_trip cf now req = (Inr (trip, startDate) :: startRideResponse answer + TripInfo \<times> string)
      \<and> open_ride uuid riderID req trip startDate now dbnow (sv_agg sv) st = (ans, sv_agg sv', st'))"
    using assms unfolding handleStartRide_def ride_limited_def Let_def
    by (simp split: option.split_asm prod.split_asm bool.split_asm sum.split_asm del: split_paired_Ex)
      (fastforce+)
  then show ?thesis
  proof (elim disjE exE conjE)
    fix req trip startDate riderID
    assume ok: "validate_start req = None"
        "resolve_trip cf now req = (Inr (trip, startDate) :: startRideResponse answer + TripInfo \<times> string)"
        "open_ride uuid riderID req trip startDate now dbnow (sv_agg sv) st = (ans, sv_agg sv', st')"
    have "colon_free (tk_StartDate (TripKey (sq_TripID req) startDate))"
      using dated [OF ok(1,2)] by simp
    then show ?thesis
      using open_keys [OF ok(3)] by blast
  qed simp
qed

lemma handler_end_keys:
  assumes "handleEndRide cf now dbnow ctx r i body sv st = (ans, sv', st')"
  shows "trip_keys (sv_agg sv') \<subseteq> trip_keys (sv_agg sv)"
  using assms
  by (auto simp: handleEndRide_def ride_limited_def Let_def dest!: finish_keys
      split: option.splits prod.splits bool.splits sum.splits finish_error.splits)

lemma handler_register_keys:
  "handleRegister cf uuid now dbnow r body sv st = (ans, sv', st') \<Longrightarrow> sv_agg sv' = sv_agg sv"
  by (auto simp: handleRegister_def Let_def split: option.splits prod.splits sum.splits if_splits)

lemma batch_keys:
  assumes "ApplyBatch (\<lambda>x. x) i pts lookup now a = (a', res)"
  shows "trip_keys a' \<subseteq> trip_keys a"
proof (cases "liveKey a i")
  case (Some key)
  then show ?thesis
    using assms in_place_keys [OF in_place_batch] by (simp add: ApplyBatch_def) (metis fst_conv)
qed (use assms in \<open>simp add: ApplyBatch_def\<close>)

lemma positions_keys:
  assumes "handlePositions cf (\<lambda>x. x) now dbnow ctx r i body sv st = (ans, sv', st')"
  shows "trip_keys (sv_agg sv') \<subseteq> trip_keys (sv_agg sv)"
proof -
  have tail: "trip_keys a2 \<subseteq> trip_keys a1"
    if "(case e of None \<Rightarrow> (a1, st1) | Some reason \<Rightarrow> try_finish j reason now dbnow (a1, st1)) = (a2, st2)"
    for e a1 st1 a2 st2 j
    using that by (cases e) (auto dest: try_finish_keys)
  show ?thesis
    using assms unfolding handlePositions_def Let_def
    by (auto simp del: split_paired_All dest!: batch_keys tail try_finish_keys
        split: option.split_asm prod.split_asm sum.split_asm if_split_asm) blast+
qed

definition dated :: "Aggregator \<Rightarrow> bool" where
  "dated a \<longleftrightarrow> (\<forall>k \<in> trip_keys a. colon_free (tk_StartDate k))"

lemma dated_sub: "dated a \<Longrightarrow> trip_keys a' \<subseteq> trip_keys a \<Longrightarrow> dated a'"
  by (auto simp: dated_def)

lemma rider_call_dated:
  assumes "rider_call cf (a, d) (a', d')" "dated a"
  shows "dated a'"
  using assms(1)
proof (cases rule: rider_call.cases)
  case call_register
  then show ?thesis
    using assms(2) handler_register_keys by metis
next
  case call_start
  then show ?thesis
    using assms(2) start_keys unfolding dated_def by blast
next
  case call_end
  then show ?thesis
    using assms(2) handler_end_keys dated_sub by metis
next
  case call_positions
  then show ?thesis
    using assms(2) positions_keys dated_sub by metis
next
  case call_reap
  then show ?thesis
    using assms(2) reap_keys dated_sub by metis
next
  case call_other
  then show ?thesis
    using assms(2) by simp
qed

section \<open>Reports in the database\<close>

definition recorded_row :: "LocationReport \<Rightarrow> gotime \<Rightarrow> int \<Rightarrow> LocationPointRow" where
  "recorded_row loc now n =
     \<lparr>lp_ID = n, lp_VehicleID = lr_VehicleID loc, lp_TripID = lr_TripID loc, lp_RouteID = lr_RouteID loc,
      lp_StartDate = lr_StartDate loc, lp_Latitude = lr_Latitude loc, lp_Longitude = lr_Longitude loc,
      lp_Bearing = lr_Bearing loc, lp_Speed = lr_Speed loc, lp_Accuracy = lr_Accuracy loc,
      lp_Timestamp = lr_Timestamp loc, lp_DriverID = lr_DriverID loc, lp_ReceivedAt = now\<rparr>"

lemma report_of_recorded [simp]: "report_of (recorded_row loc now n) = loc"
  by (simp add: report_of_def recorded_row_def)

lemma UpsertVehicle_points: "db_UpsertVehicle i now d = Inr (x, d') \<Longrightarrow> db_location_points d' = db_location_points d"
  by (auto simp: db_UpsertVehicle_def split: if_splits)

lemma InsertLocationPoint_row:
  "db_InsertLocationPoint (location_params loc) now d = Inr (x, d')
     \<Longrightarrow> \<exists>n. db_location_points d' = db_location_points d @ [recorded_row loc now n]"
  by (auto simp: db_InsertLocationPoint_def location_params_def recorded_row_def split: if_splits)

lemma save_body_row:
  assumes "save_body loc now (net, d) = (Inr x, net', d')"
  shows "\<exists>n. db_location_points d' = db_location_points d @ [recorded_row loc now n]"
  using assms
  by (auto simp: save_body_def answer_def elim!: and_then_Inr dest!: exec_Inr InsertLocationPoint_row UpsertVehicle_points)

text \<open>Saved, or not at all; a lost answer leaves it open which.\<close>

lemma SaveLocation_row:
  assumes "Store_SaveLocation loc now (net, d) = (res, net', d')"
  shows "(\<exists>n. db_location_points d' = db_location_points d @ [recorded_row loc now n])
    \<or> d' = d \<and> (\<exists>e. res = Inl e)"
  using assms unfolding Store_SaveLocation_def
  by (cases rule: in_tx_cases) (auto dest: save_body_row)

section \<open>Restarting\<close>

lemma stable_filter_key:
  fixes key :: "'r \<Rightarrow> 'k::linorder"
  shows "filter (\<lambda>r. key r = k) (order_asc key rows) = filter (\<lambda>r. key r = k) rows"
  unfolding order_asc_def
  by (simp only: stable_sort_key [of "\<lambda>x y. cmp (key x) (key y)" key] cmp_simps sort_key_stable)

lemma distinct_on_subset: "set (distinct_on key rows) \<subseteq> set rows"
  by (induction key rows rule: distinct_on.induct) auto

lemma distinct_on_filter:
  "filter (\<lambda>r. key r = k) (distinct_on key rows) = List.take 1 (filter (\<lambda>r. key r = k) rows)"
proof (induction key rows rule: distinct_on.induct)
  case (2 key r rows)
  show ?case
  proof (cases "key r = k")
    case True
    then have "filter (\<lambda>x. key x = k) (distinct_on key (filter (\<lambda>x. key x \<noteq> key r) rows)) = []"
      using distinct_on_subset [of key "filter (\<lambda>x. key x \<noteq> key r) rows"] by (auto simp: filter_empty_conv)
    then show ?thesis
      using True by simp
  next
    case False
    then have "filter (\<lambda>x. key x = k) (filter (\<lambda>x. key x \<noteq> key r) rows) = filter (\<lambda>x. key x = k) rows"
      by (induction rows) auto
    then show ?thesis
      using False "2.IH" by simp
  qed
qed simp

lemma order_desc_sorted:
  "sorted_wrt (\<lambda>x y. key y \<le> key x) (order_desc key (\<lambda>_. 0 :: int) rows)"
proof -
  have c: "comparison (\<lambda>x y. if cmp (key y) (key x) \<noteq> 0 then cmp (key y) (key x) else cmp (0 :: int) 0)"
    by (auto simp: comparison_def)
  show ?thesis
    using stable_sort_sorted [OF c, of rows] unfolding order_desc_def
    by (rule sorted_wrt_mono_rel [rotated]) (auto split: if_splits)
qed

text \<open>The row of a vehicle received last, if it is the only one received then, is the one recalled.\<close>

lemma recall_latest:
  assumes "p \<in> set rows" "\<forall>q \<in> set rows. lp_VehicleID q = lp_VehicleID p \<longrightarrow> q = p \<or> lp_ReceivedAt q < lp_ReceivedAt p"
  shows "filter (\<lambda>q. lp_VehicleID q = lp_VehicleID p)
      (distinct_on lp_VehicleID (order_asc lp_VehicleID (order_desc lp_ReceivedAt (\<lambda>_. 0 :: int) rows))) = [p]"
proof -
  let ?rows = "filter (\<lambda>q. lp_VehicleID q = lp_VehicleID p) (order_desc lp_ReceivedAt (\<lambda>_. 0 :: int) rows)"
  have set: "set ?rows = {q \<in> set rows. lp_VehicleID q = lp_VehicleID p}"
    by (auto simp: order_desc_def)
  have sorted: "sorted_wrt (\<lambda>x y. lp_ReceivedAt y \<le> lp_ReceivedAt x) ?rows"
    by (rule sorted_wrt_filter) (rule order_desc_sorted)
  obtain R where R: "R = ?rows" by simp
  have "hd R = p \<and> R \<noteq> []"
  proof (cases R)
    case Nil
    then show ?thesis using set assms(1) R by auto
  next
    case (Cons x xs)
    have x: "x \<in> set rows" "lp_VehicleID x = lp_VehicleID p" and "p \<in> set R"
      using set assms(1) Cons unfolding R by auto
    then have "lp_ReceivedAt p \<le> lp_ReceivedAt x"
      using sorted Cons unfolding R [symmetric] by auto
    then have "x = p"
      using assms(2) x by force
    then show ?thesis
      using Cons by simp
  qed
  then show ?thesis
    unfolding distinct_on_filter stable_filter_key R [symmetric] by (cases R) auto
qed

definition tracked :: "LocationReport \<Rightarrow> gotime \<Rightarrow> VehicleState" where
  "tracked loc now = the (tk_vehicles (Update loc now \<lparr>tk_vehicles = Map.empty, tk_seen = {}, tk_maxAge = 1\<rparr>) (lr_VehicleID loc))"

lemma Update_tracked: "tk_vehicles (Update loc now t) = (tk_vehicles t)(lr_VehicleID loc \<mapsto> tracked loc now)"
  by (simp add: tracked_def Update_def)

lemma seeded_vehicle:
  "tk_vehicles (fold (\<lambda>loc. Update loc now) locs t) i =
     (case filter (\<lambda>loc. lr_VehicleID loc = i) (rev locs) of [] \<Rightarrow> tk_vehicles t i | loc # _ \<Rightarrow> Some (tracked loc now))"
proof (induction locs rule: rev_induct)
  case (snoc loc locs)
  then show ?case
    by (auto simp: Update_tracked)
qed simp

lemma seed_cases:
  assumes "seed_tracker now t (net, d) = (t', net', d')"
  shows "d' = d \<and> (t' = t \<or> t' = fold (\<lambda>loc. Update loc now) (map report_of
      (distinct_on lp_VehicleID (order_asc lp_VehicleID (order_desc lp_ReceivedAt (\<lambda>_. 0 :: int)
        (filter (\<lambda>p. lp_ReceivedAt p > time_add now (- tk_maxAge t)) (db_location_points d)))))) t)"
  using assms
  by (auto simp: seed_tracker_def Store_GetRecentLocations_def db_GetRecentLocations_def answer_def
      elim!: serve_cases and_then_cases exec_cases split: sum.splits)

section \<open>The server as the feed sees it\<close>

text \<open>
  The tracker and the registry of a server from its start, where the tracker is seeded from reports whose
  vehicles were validated when they were saved, through reports posted by drivers, passes of the cleanup and
  calls of the rider API.
\<close>

inductive serving :: "'b riderDeps \<Rightarrow> Tracker \<times> Aggregator \<Rightarrow> bool" for cf where
  serving_up: "NewTracker maxAge = Some t0 \<Longrightarrow> list_all (\<lambda>p. vehicleIDPattern (lp_VehicleID p)) (db_location_points d)
    \<Longrightarrow> seed_tracker now t0 (net, d) = (t, net', d') \<Longrightarrow> serving cf (t, NewAggregator th tz)"
| serving_post: "serving cf (t, a)
    \<Longrightarrow> handlePostLocation (cf_new cf) (cf_draw cf) now dbnow ctx r body t rl (net, d) = (ans, t', rl', net', d')
    \<Longrightarrow> serving cf (t', a)"
| serving_cleanup: "serving cf (t, a) \<Longrightarrow> serving cf (cleanup ks now t, a)"
| serving_ride: "serving cf (t, a) \<Longrightarrow> rider_call cf (a, d) (a', d') \<Longrightarrow> serving cf (t, a')"

lemma valid_vehicle: "validate_location now loc = None \<Longrightarrow> vehicleIDPattern (lr_VehicleID loc)"
  by (auto simp: validate_location_def split: if_splits)

text \<open>What a posted report did, by its answer.\<close>

lemma posted_cases:
  assumes "handlePostLocation new draw now dbnow ctx r body t rl (net, d) = (ans, t', rl', net', d')"
  obtains status msg where "ans = HErr status msg" "t' = t" "d' = d \<or> status = 500"
  | decoded claims n where "ans = HOk 201 ()" "body = Decoded decoded NoMore" "ctx = Some claims" "str_claim claims ''sub'' \<noteq> []"
      "validate_location now (trim_ids decoded) = None"
      "t' = Update ((trim_ids decoded)\<lparr>lr_DriverID := str_claim claims ''sub''\<rparr>) now t"
      "db_location_points d' = db_location_points d
         @ [recorded_row ((trim_ids decoded)\<lparr>lr_DriverID := str_claim claims ''sub''\<rparr>) dbnow n]"
  using assms
  by (auto simp: handlePostLocation_def strict_body_def server_error_def Let_def dest!: SaveLocation_row
      split: if_splits body.splits rest.splits option.splits prod.splits sum.splits)

definition tracker_valid :: "Tracker \<Rightarrow> bool" where
  "tracker_valid t \<longleftrightarrow> tracker_ok t \<and> (\<forall>i \<in> dom (tk_vehicles t). vehicleIDPattern i)"

lemma Update_valid: "tracker_valid t \<Longrightarrow> vehicleIDPattern (lr_VehicleID loc) \<Longrightarrow> tracker_valid (Update loc now t)"
  by (auto simp: tracker_valid_def tracker_ok_def Update_def)

lemma Updates_valid:
  "tracker_valid t \<Longrightarrow> \<forall>loc \<in> set locs. vehicleIDPattern (lr_VehicleID loc)
     \<Longrightarrow> tracker_valid (fold (\<lambda>loc. Update loc now) locs t)"
  by (induction locs arbitrary: t) (auto intro: Update_valid)

lemma serving_ok: "serving cf w \<Longrightarrow> tracker_valid (fst w) \<and> dated (snd w)"
proof (induction rule: serving.induct)
  case (serving_up maxAge t0 d now net t net' d' th tz)
  have "tracker_valid t0"
    using serving_up(1) by (auto simp: NewTracker_def tracker_valid_def tracker_ok_def split: if_splits)
  moreover have "vehicleIDPattern (lr_VehicleID loc)"
    if "loc \<in> set (map report_of (distinct_on lp_VehicleID (order_asc lp_VehicleID
        (order_desc lp_ReceivedAt (\<lambda>_. 0 :: int) (filter p (db_location_points d))))))" for loc p
    using that distinct_on_subset serving_up(2)
    by (fastforce simp: list_all_iff order_asc_def order_desc_def report_of_def)
  ultimately have "tracker_valid t"
    using seed_cases [OF serving_up(3)] Updates_valid by metis
  then show ?case
    by (simp add: dated_def trip_keys_def NewAggregator_def)
next
  case (serving_post t a now dbnow ctx r body rl net d ans t' rl' net' d')
  have "tracker_valid t'"
    using serving_post.hyps(2)
  proof (cases rule: posted_cases)
    case (2 decoded claims n)
    show ?thesis
      unfolding 2(6) using serving_post.IH valid_vehicle [OF 2(5)] by (intro Update_valid) simp_all
  qed (use serving_post.IH in simp)
  then show ?case
    using serving_post.IH by simp
next
  case (serving_cleanup t a ks now)
  then show ?case
    using delete_where_dom [of "\<lambda>v. ve_UpdatedAt v < cutoff t now" ks "tk_vehicles t"]
    by (auto simp: tracker_valid_def cleanup_def tracker_ok_def delete_where_lookup split: option.splits if_splits)
next
  case (serving_ride t a d a' d')
  then show ?case
    using rider_call_dated by auto
qed

lemma estimate_keys:
  assumes "distinct kks"
  shows "distinct (map te_Key (Estimates ks kks now covered a))"
    and "te_Key ` set (Estimates ks kks now covered a) \<subseteq> trip_keys a"
proof -
  define f where "f key = (if is_covered covered key then None
      else case groups ks now a key of None \<Rightarrow> None | Some g \<Rightarrow> estimate key now g)" for key
  have fk: "te_Key e = k" if "f k = Some e" for k e
    using that by (auto simp: f_def estimate_key split: if_splits option.splits)
  have "map te_Key (List.map_filter f ks0) = filter (\<lambda>k. f k \<noteq> None) ks0" for ks0
    by (induction ks0) (auto simp: List.map_filter_def fk)
  then have "distinct (map te_Key (List.map_filter f kks))"
    using assms by simp
  moreover have "mset (map te_Key (Estimates ks kks now covered a)) = mset (map te_Key (List.map_filter f kks))"
    by (simp add: Estimates_def estimates_of_def f_def [abs_def])
  ultimately show "distinct (map te_Key (Estimates ks kks now covered a))"
    using mset_eq_imp_distinct_iff by blast
  show "te_Key ` set (Estimates ks kks now covered a) \<subseteq> trip_keys a"
  proof
    fix k
    assume "k \<in> te_Key ` set (Estimates ks kks now covered a)"
    then obtain g where g: "groups ks now a k = Some g"
      by (auto simp: in_estimates estimate_key)
    then obtain s where "s \<in> set (filter (contributes a now k) (range_values ks (ag_sessions a)))"
      unfolding groups_at by (cases "filter (contributes a now k) (range_values ks (ag_sessions a))") auto
    then have "s \<in> ran (ag_sessions a)" "s_key s = k"
      by (auto simp: contributes_def range_values_def List.map_filter_def ran_def)
    then show "k \<in> trip_keys a"
      by (auto simp: trip_keys_def)
  qed
qed

text \<open>
  C10: no two entities of the published feed have the same id, whatever drivers posted and riders rode since
  the server started and whatever order Go visits its maps in: an id is the vehicle's for a driver's entity and
  is made of trip and service date for a rider's, which no valid vehicle id can look like, and every entity's
  vehicle descriptor carries the entity's id.
\<close>

theorem feed_ids_unique:
  assumes "serving cf (t, a)" "range_order ks (tk_vehicles t)" "range_order rks (ag_sessions a)"
    "range_order kks (groups rks now a)"
  shows "distinct (map fe_Id (fm_Entity (buildFeed f32 now (ActiveVehicles ks now t) (Estimates rks kks now covered a))))
    \<and> (\<forall>e \<in> set (fm_Entity (buildFeed f32 now (ActiveVehicles ks now t) (Estimates rks kks now covered a))).
         fe_VehicleId e = fe_Id e)"
proof -
  let ?vs = "ActiveVehicles ks now t" and ?es = "Estimates rks kks now covered a"
  have ok: "tracker_valid t" "dated a"
    using serving_ok [OF assms(1)] by simp_all
  have vs: "distinct (map ve_VehicleID ?vs)" "\<forall>v \<in> set ?vs. vehicleIDPattern (ve_VehicleID v)"
    using active_ids_distinct [of t ks now] ok(1) assms(2)
    by (auto simp: tracker_valid_def tracker_ok_def range_order_def ActiveVehicles_def range_values_def List.map_filter_def)
  have keys: "distinct (map te_Key ?es)" "\<forall>e \<in> set ?es. colon_free (tk_StartDate (te_Key e))"
    using estimate_keys [of kks rks now covered a] assms(4) ok(2) by (auto simp: range_order_def dated_def)
  have "distinct (map (\<lambda>e. riderEntityID (te_Key e)) ?es)"
    using keys riderEntityID_inj by (simp add: distinct_map inj_on_def)
  moreover have "ve_VehicleID v \<noteq> riderEntityID (te_Key e)" if "v \<in> set ?vs" for v e
    using vs(2) that vehicle_id_not_rider by blast
  ultimately show ?thesis
    using vs(1) unfolding feed_entities by (auto simp: comp_def distinct_map_filter image_iff)
qed

definition late_report :: LocationReport where
  "late_report = \<lparr>lr_VehicleID = ''bus-1'', lr_TripID = ''t1'', lr_RouteID = [], lr_StartDate = [], lr_Latitude = Num 1,
     lr_Longitude = Num 2, lr_Bearing = None, lr_Speed = None, lr_Accuracy = None, lr_Timestamp = 1000, lr_DriverID = ''9''\<rparr>"

definition saved_db :: Database where
  "saved_db = empty_db\<lparr>db_location_points := [recorded_row late_report 950 1]\<rparr>"

definition seeded_tracker :: Tracker where
  "seeded_tracker = Update late_report 1000 \<lparr>tk_vehicles = Map.empty, tk_seen = {}, tk_maxAge = 100\<rparr>"

lemma seeded_demo: "seed_tracker 1000 \<lparr>tk_vehicles = Map.empty, tk_seen = {}, tk_maxAge = 100\<rparr> ([], saved_db)
    = (seeded_tracker, [], saved_db)"
proof -
  have "time_add 1000 (- 100) < 950"
    by (simp add: time_add_def)
  then show ?thesis
    by (simp add: seed_tracker_def serve_def Store_GetRecentLocations_def and_then_def exec_def next_trip_def
        db_GetRecentLocations_def saved_db_def order_asc_def order_desc_def stable_sort_def answer_def seeded_tracker_def)
      (simp add: recorded_row_def)
qed

theorem feed_ids_unique_witness:
  "distinct (map fe_Id (fm_Entity (buildFeed (\<lambda>x. x) 1010 (ActiveVehicles [''bus-1''] 1010 seeded_tracker)
      (Estimates [] [] 1010 None (NewAggregator DefaultThresholds (\<lambda>_. 0))))))"
proof -
  have valid: "list_all (\<lambda>p. vehicleIDPattern (lp_VehicleID p)) (db_location_points saved_db)"
    by (simp add: saved_db_def recorded_row_def late_report_def vehicleIDPattern_def is_digit_def)
  have up: "serving open_config (seeded_tracker, NewAggregator DefaultThresholds (\<lambda>_. 0))"
    by (rule serving_up [OF _ valid seeded_demo, where maxAge = 100]) (simp add: NewTracker_def)
  show ?thesis
    by (rule feed_ids_unique [OF up, THEN conjunct1])
      (simp_all add: range_order_def seeded_tracker_def Update_def late_report_def NewAggregator_def groups_at dom_def)
qed

text \<open>
  C5: a driver's report is published exactly when it is accepted. An accepted one was valid after its ids were
  trimmed, came with a token that names its driver, is tracked under its vehicle with the time it arrived, and
  is in the database as the row the driver's identity was stamped on; a refused one changes neither the tracker
  nor, unless the database itself failed, the database.
\<close>

theorem accepted_report_published:
  assumes "handlePostLocation new draw now dbnow ctx r body t rl (net, d) = (ans, t', rl', net', d')"
  shows "case ans of
      HErr status _ \<Rightarrow> t' = t \<and> (d' = d \<or> status = 500)
    | HOk status _ \<Rightarrow> (\<exists>decoded claims n loc. body = Decoded decoded NoMore \<and> ctx = Some claims
        \<and> loc = (trim_ids decoded)\<lparr>lr_DriverID := str_claim claims ''sub''\<rparr>
        \<and> status = 201 \<and> str_claim claims ''sub'' \<noteq> [] \<and> validate_location now (trim_ids decoded) = None
        \<and> t' = Update loc now t \<and> db_location_points d' = db_location_points d @ [recorded_row loc dbnow n]
        \<and> (0 < tk_maxAge t \<longrightarrow> tracked loc now \<in> set (ActiveVehicles [lr_VehicleID loc] now t')))"
  using assms
proof (cases rule: posted_cases)
  case (2 decoded claims n)
  have "tracked loc now \<in> set (ActiveVehicles [lr_VehicleID loc] now (Update loc now t))" if "0 < tk_maxAge t" for loc
    using that by (simp add: ActiveVehicles_def range_values_def List.map_filter_def tracked_def Update_def
        cutoff_def time_add_def)
  from this [of "(trim_ids decoded)\<lparr>lr_DriverID := str_claim claims ''sub''\<rparr>"] show ?thesis
    using 2 by auto
qed auto

text \<open>
  C26: a saved report survives a restart. Whatever a report that was saved and answered says is what the tracker
  of the next process shows for that vehicle, if the process starts before the report is stale and no report of
  the vehicle came later: the row written by \<open>SaveLocation\<close>, read back by \<open>GetRecentLocations\<close> and fed to
  \<open>Update\<close>, is the original report, every optional reading included.
\<close>

theorem saved_report_survives_restart:
  assumes saved: "Store_SaveLocation loc dbnow (net, d) = (Inr (), net1, d1)"
    and newest: "\<forall>p \<in> set (db_location_points d). lp_VehicleID p = lr_VehicleID loc \<longrightarrow> lp_ReceivedAt p < dbnow"
    and recent: "now - tk_maxAge t < dbnow"
    and up: "seed_tracker now t ([], d1) = (t', net', d')"
  shows "tk_vehicles t' (lr_VehicleID loc) = tk_vehicles (Update loc now t) (lr_VehicleID loc)"
proof -
  obtain n where rows: "db_location_points d1 = db_location_points d @ [recorded_row loc dbnow n]"
    using SaveLocation_row [OF saved] by auto
  let ?rows = "filter (\<lambda>p. lp_ReceivedAt p > time_add now (- tk_maxAge t)) (db_location_points d1)"
  let ?recent = "distinct_on lp_VehicleID (order_asc lp_VehicleID (order_desc lp_ReceivedAt (\<lambda>_. 0 :: int) ?rows))"
  have "filter (\<lambda>p. lp_VehicleID p = lr_VehicleID loc) ?recent = [recorded_row loc dbnow n]"
    using recall_latest [of "recorded_row loc dbnow n" ?rows] newest recent rows
    by (auto simp: recorded_row_def time_add_def)
  then have "filter (\<lambda>l. lr_VehicleID l = lr_VehicleID loc) (map report_of ?recent) = [loc]"
    by (simp add: filter_map comp_def report_of_def [of "_ :: LocationPointRow"]) (metis report_of_recorded report_of_def)
  moreover have "t' = fold (\<lambda>loc. Update loc now) (map report_of ?recent) t"
    using up by (auto simp: seed_tracker_def serve_def Store_GetRecentLocations_def and_then_def exec_def next_trip_def
        db_GetRecentLocations_def answer_def)
  ultimately show ?thesis
    by (simp add: seeded_vehicle rev_filter [symmetric] Update_tracked)
qed

theorem saved_report_survives_restart_witness:
  "\<exists>d1. tk_vehicles (fst (seed_tracker 1000 \<lparr>tk_vehicles = Map.empty, tk_seen = {}, tk_maxAge = 100\<rparr> ([], d1))) ''bus-1''
     = Some (tracked late_report 1000) \<and> d1 \<noteq> empty_db"
proof -
  let ?t = "\<lparr>tk_vehicles = Map.empty, tk_seen = {}, tk_maxAge = 100\<rparr>"
  obtain d1 where saved: "Store_SaveLocation late_report 950 ([], empty_db) = (Inr (), [], d1)" "d1 \<noteq> empty_db"
    by (simp add: Store_SaveLocation_def in_tx_def begin_tx_def save_body_def and_then_def exec_def next_trip_def
        db_UpsertVehicle_def db_InsertLocationPoint_def location_params_def late_report_def empty_db_def between_def
        answer_def)
  obtain t' st' where up: "seed_tracker 1000 ?t ([], d1) = (t', st')"
    by (cases "seed_tracker 1000 ?t ([], d1)")
  have "tk_vehicles t' ''bus-1'' = Some (tracked late_report 1000)"
    using saved_report_survives_restart [OF saved(1), of 1000 ?t t' "fst st'" "snd st'"] up
    by (simp add: empty_db_def Update_tracked) (simp add: late_report_def)
  then show ?thesis
    using up saved(2) by (intro exI [of _ d1]) simp
qed

theorem accepted_report_published_witness:
  "\<exists>t' d'. tracked late_report (1000 * nano + unix_to_internal * nano)
       \<in> set (ActiveVehicles [''bus-1''] (1000 * nano + unix_to_internal * nano) t')
     \<and> (\<exists>n. d' = [recorded_row late_report 950 n])"
proof -
  let ?now = "1000 * nano + unix_to_internal * nano"
  let ?t = "\<lparr>tk_vehicles = Map.empty, tk_seen = {}, tk_maxAge = 100\<rparr>"
  let ?claims = "[''sub'' \<mapsto> JStr ''9'']"
  have valid: "validate_location ?now (trim_ids late_report) = None" "trim_ids late_report = late_report"
  proof -
    have trim: "trim_space ''t1'' = ''t1''" "trim_space [] = []"
      by code_simp+
    show same: "trim_ids late_report = late_report"
      by (simp add: trim_ids_def late_report_def trim)
    have "unix_of ?now = 1000" "whole_seconds (5 * minute) = 300"
      by (simp_all add: unix_of_def whole_seconds_def minute_def second_def nano_def unix_to_internal_def wrap64_def)
    then show "validate_location ?now (trim_ids late_report) = None"
      unfolding same
      by (simp add: validate_location_def late_report_def maxVehicleIDLength_def vehicleIDPattern_def is_digit_def
          maxTimestampSkew_def maxTripFieldLength_def)
  qed
  have ids: "str_claim ?claims ''sub'' = ''9''" "lr_VehicleID late_report = ''bus-1''" "late_report\<lparr>lr_DriverID := ''9''\<rparr> = late_report"
    by (simp_all add: str_claim_def late_report_def)
  obtain t' rl' net' d' where post: "handlePostLocation (\<lambda>_ _. ()) (\<lambda>b t. (b, True)) ?now 950 (Some ?claims) json_request
      (Decoded late_report NoMore) ?t NewVehicleRateLimiter ([], empty_db) = (HOk 201 (), t', rl', net', d')"
  proof -
    let ?loc = "late_report\<lparr>lr_DriverID := ''9''\<rparr>"
    obtain rl1 where "Vehicle_Allow (\<lambda>_ _. ()) (\<lambda>b t. (b, True)) ''9'' ?now NewVehicleRateLimiter = (rl1, True)"
      by (simp add: Vehicle_Allow_def NewVehicleRateLimiter_def NewKeyedRateLimiter_def maxTrackedRates_def)
    moreover obtain net1 d1 where "Store_SaveLocation ?loc 950 ([], empty_db) = (Inr (), net1, d1)"
      by (simp add: Store_SaveLocation_def in_tx_def begin_tx_def save_body_def and_then_def exec_def next_trip_def
          db_UpsertVehicle_def db_InsertLocationPoint_def location_params_def empty_db_def between_def answer_def
          late_report_def)
    ultimately show thesis
      using that valid json_request_ok by (simp add: handlePostLocation_def strict_body_def str_claim_def Let_def)
  qed
  show ?thesis
    using accepted_report_published [OF post] ids by (auto simp: valid empty_db_def)
qed

end
