(* ===== verification/Fleet.thy ===== *)
theory Fleet
  imports ApiKeys "HOL-Library.Sublist"
begin

text \<open>
  The administrators' side of vehicles, users and assignments: the store's functions
  (\<open>src/store_vehicles.go\<close>, \<open>src/user_store.go\<close>, \<open>src/assignment_store.go\<close>, \<open>src/store_admin_stats.go\<close>), the
  handlers over them (\<open>src/handlers_vehicles.go\<close>, \<open>src/user_handlers.go\<close>, \<open>src/assignment_handlers.go\<close>,
  \<open>src/driver_vehicle_handlers.go\<close>), the search pattern of \<open>src/store.go\<close> and the first administrator
  (\<open>src/bootstrap.go\<close>). A request's query parameters and path values are arguments of its handler.
\<close>

section \<open>Searching\<close>

text \<open>
  \<open>s LIKE p\<close> as PostgreSQL documents it: \<open>%\<close> stands for any text, \<open>_\<close> for one character, and a backslash
  takes what follows it literally. \<open>ILIKE\<close> compares without regard to case; \<open>lc\<close> is the server's lower case.
\<close>

fun like :: "string \<Rightarrow> string \<Rightarrow> bool" where
  "like [] s \<longleftrightarrow> s = []"
| "like (c # p) s \<longleftrightarrow>
     (if c = CHR ''%'' then like p s \<or> (case s of [] \<Rightarrow> False | _ # s' \<Rightarrow> like (c # p) s')
      else if c = CHR ''_'' then (case s of [] \<Rightarrow> False | _ # s' \<Rightarrow> like p s')
      else if c = CHR 0x5C then
        (case p of [] \<Rightarrow> False | e # p' \<Rightarrow> (case s of [] \<Rightarrow> False | x # s' \<Rightarrow> x = e \<and> like p' s'))
      else (case s of [] \<Rightarrow> False | x # s' \<Rightarrow> x = c \<and> like p s'))"

definition ilike :: "(char \<Rightarrow> char) \<Rightarrow> string \<Rightarrow> string \<Rightarrow> bool" where
  "ilike lc p s \<longleftrightarrow> like (map lc p) (map lc s)"

definition like_escape :: "char \<Rightarrow> string" where
  "like_escape c = (if c = CHR 0x5C \<or> c = CHR ''%'' \<or> c = CHR ''_'' then [CHR 0x5C, c] else [c])"

definition likeSubstringPattern :: "string \<Rightarrow> string" where
  "likeSubstringPattern q = ''%'' @ concat (map like_escape q) @ ''%''"

text \<open>\<open>LIMIT l OFFSET f\<close>; a negative one is an error of the database.\<close>

definition page_rows :: "int \<Rightarrow> int \<Rightarrow> 'r list \<Rightarrow> Database \<Rightarrow> DbError + 'r list \<times> Database" where
  "page_rows l f rows d =
     (if l < 0 \<or> f < 0 then Inl (CheckViolation ''row count must not be negative'')
      else Inr (take (nat l) (drop (nat f) rows), d))"

section \<open>Vehicles\<close>

record VehicleResponse =
  vr_ID :: string
  vr_Label :: string
  vr_AgencyTag :: string
  vr_Active :: bool
  vr_CreatedAt :: gotime
  vr_UpdatedAt :: gotime

record VehicleFilter =
  vf_IncludeInactive :: bool
  vf_AgencyTag :: string
  vf_Q :: string
  vf_Limit :: int
  vf_Offset :: int

definition toVehicleResponse :: "VehicleRow \<Rightarrow> VehicleResponse" where
  "toVehicleResponse row =
     \<lparr>vr_ID = v_ID row, vr_Label = v_Label row, vr_AgencyTag = v_AgencyTag row, vr_Active = v_Active row,
      vr_CreatedAt = v_CreatedAt row, vr_UpdatedAt = v_UpdatedAt row\<rparr>"

definition Store_ListVehicles :: "(StoreError + VehicleResponse list) call" where
  "Store_ListVehicles = and_then (exec db_ListVehicles) Wrapped (\<lambda>rows. answer (Inr (map toVehicleResponse rows)))"

definition vehicle_matches :: "(char \<Rightarrow> char) \<Rightarrow> VehicleFilter \<Rightarrow> VehicleRow \<Rightarrow> bool" where
  "vehicle_matches lc f v \<longleftrightarrow>
     (vf_IncludeInactive f \<or> v_Active v) \<and> (vf_AgencyTag f = [] \<or> v_AgencyTag v = vf_AgencyTag f)
     \<and> (vf_Q f = [] \<or> ilike lc (likeSubstringPattern (vf_Q f)) (v_ID v) \<or> ilike lc (likeSubstringPattern (vf_Q f)) (v_Label v))"

definition db_ListVehiclesPage :: "(char \<Rightarrow> char) \<Rightarrow> VehicleFilter \<Rightarrow> VehicleRow list stmt" where
  "db_ListVehiclesPage lc f d =
     page_rows (vf_Limit f) (vf_Offset f)
       (order_desc v_CreatedAt v_ID (filter (vehicle_matches lc f) (db_vehicles d))) d"

definition Store_ListVehiclesPage :: "(char \<Rightarrow> char) \<Rightarrow> VehicleFilter \<Rightarrow> (StoreError + VehicleResponse list) call" where
  "Store_ListVehiclesPage lc f =
     and_then (exec (db_ListVehiclesPage lc f)) Wrapped (\<lambda>rows. answer (Inr (map toVehicleResponse rows)))"

definition Store_GetVehicle :: "string \<Rightarrow> (StoreError + VehicleResponse) call" where
  "Store_GetVehicle i =
     and_then (exec (db_GetVehicleByID i)) Wrapped (\<lambda>row. answer (Inr (toVehicleResponse row)))"

definition Store_UpsertVehicle :: "string \<Rightarrow> string \<Rightarrow> string \<Rightarrow> gotime \<Rightarrow> (StoreError + VehicleResponse) call" where
  "Store_UpsertVehicle i label tag now =
     and_then (exec (db_UpsertAdminVehicle i label tag now)) Wrapped (\<lambda>row. answer (Inr (toVehicleResponse row)))"

definition Store_CreateVehicle :: "string \<Rightarrow> string \<Rightarrow> string \<Rightarrow> gotime \<Rightarrow> (StoreError + bool) call" where
  "Store_CreateVehicle i label tag now =
     and_then (exec (db_CreateVehicle i label tag now)) Wrapped (\<lambda>rows. answer (Inr (rows > 0)))"

definition Store_UpdateVehicleInfo :: "string \<Rightarrow> string \<Rightarrow> string \<Rightarrow> gotime \<Rightarrow> (StoreError + unit) call" where
  "Store_UpdateVehicleInfo i label tag now =
     and_then (exec (db_UpdateVehicleInfo i label tag now)) Wrapped (\<lambda>rows.
       answer (if rows = 0 then Inl (Wrapped NoRows) else Inr ()))"

definition Store_SetVehicleActive :: "string \<Rightarrow> bool \<Rightarrow> gotime \<Rightarrow> (StoreError + unit) call" where
  "Store_SetVehicleActive i active now =
     and_then (exec (db_SetVehicleActive i active now)) Wrapped (\<lambda>rows.
       answer (if rows = 0 then Inl (Wrapped NoRows) else Inr ()))"

definition Store_DeactivateVehicle :: "string \<Rightarrow> gotime \<Rightarrow> (StoreError + unit) call" where
  "Store_DeactivateVehicle i now = Store_SetVehicleActive i False now"

definition Store_ListActiveVehiclesByUser :: "int \<Rightarrow> (StoreError + VehicleResponse list) call" where
  "Store_ListActiveVehiclesByUser uid =
     and_then (exec (db_ListActiveVehiclesByUser uid)) Wrapped (\<lambda>rows. answer (Inr (map toVehicleResponse rows)))"

definition Store_VehicleExists :: "string \<Rightarrow> (StoreError + bool) call" where
  "Store_VehicleExists i = and_then (exec (db_VehicleExists i)) Wrapped (\<lambda>exists. answer (Inr exists))"

record upsertVehicleRequest =
  uq_ID :: string
  uq_Label :: string
  uq_AgencyTag :: string

definition validate_upsert :: "upsertVehicleRequest \<Rightarrow> string option" where  \<comment> \<open>the error, if any\<close>
  "validate_upsert r =
     (case validateVehicleID (uq_ID r) of
        Some msg \<Rightarrow> Some msg
      | None \<Rightarrow>
          (if length (uq_Label r) > maxFieldLength then Some ''label must be at most 255 characters''
           else if length (uq_AgencyTag r) > maxFieldLength then Some ''agency_tag must be at most 255 characters''
           else None))"

definition handleListVehicles ::
  "(char \<Rightarrow> char) \<Rightarrow> string \<Rightarrow> string \<Rightarrow> string \<Rightarrow> string \<Rightarrow> VehicleResponse list answer call" where
  "handleListVehicles lc limit offset q agency_tag =
     (case parseListPageParams limit offset of
        Inl bad \<Rightarrow> answer bad
      | Inr (l, f) \<Rightarrow>
          (case validateListQuery q of
             Some msg \<Rightarrow> answer (HErr 400 msg)
           | None \<Rightarrow>
               serve (Store_ListVehiclesPage lc
                        \<lparr>vf_IncludeInactive = True, vf_AgencyTag = agency_tag, vf_Q = q, vf_Limit = wrap32 l, vf_Offset = wrap32 f\<rparr>)
                 (\<lambda>res. answer (case res of Inl e \<Rightarrow> HErr 500 ''failed to list vehicles'' | Inr vs \<Rightarrow> HOk 200 vs))))"

definition handleGetVehicle :: "string \<Rightarrow> VehicleResponse answer call" where
  "handleGetVehicle i =
     (case validateVehicleID i of
        Some msg \<Rightarrow> answer (HErr 400 msg)
      | None \<Rightarrow>
          serve (Store_GetVehicle i) (\<lambda>res.
            answer (case res of
                      Inl e \<Rightarrow> if e = Wrapped NoRows then HErr 404 ''vehicle not found'' else HErr 500 ''failed to get vehicle''
                    | Inr v \<Rightarrow> HOk 200 v)))"

definition handleUpsertVehicle ::
  "gotime \<Rightarrow> http_request \<Rightarrow> upsertVehicleRequest body \<Rightarrow> VehicleResponse answer call" where
  "handleUpsertVehicle now r body =
     (if \<not> is_json (hr_MediaType r) then answer (HErr 415 content_type_message)
      else case strict_body too_large body of
             Inl bad \<Rightarrow> answer bad
           | Inr req \<Rightarrow>
               (case validate_upsert req of
                  Some msg \<Rightarrow> answer (HErr 400 msg)
                | None \<Rightarrow>
                    serve (Store_UpsertVehicle (uq_ID req) (uq_Label req) (uq_AgencyTag req) now) (\<lambda>res.
                      answer (case res of Inl e \<Rightarrow> HErr 500 ''failed to save vehicle'' | Inr v \<Rightarrow> HOk 200 v))))"

definition handleDeactivateVehicle :: "string \<Rightarrow> gotime \<Rightarrow> unit answer call" where
  "handleDeactivateVehicle i now =
     (case validateVehicleID i of
        Some msg \<Rightarrow> answer (HErr 400 msg)
      | None \<Rightarrow>
          serve (Store_DeactivateVehicle i now) (\<lambda>res.
            answer (case res of
                      Inl e \<Rightarrow> if e = Wrapped NoRows then HErr 404 ''vehicle not found''
                               else HErr 500 ''failed to deactivate vehicle''
                    | Inr _ \<Rightarrow> HOk 204 ())))"

definition handleListMyVehicles :: "MapClaims option \<Rightarrow> VehicleResponse list answer call" where
  "handleListMyVehicles ctx =
     (case userIDFromClaims ctx of
        Inl bad \<Rightarrow> answer bad
      | Inr uid \<Rightarrow>
          serve (Store_ListActiveVehiclesByUser uid) (\<lambda>res.
            answer (case res of Inl e \<Rightarrow> server_error | Inr vs \<Rightarrow> HOk 200 vs)))"

section \<open>Users\<close>

definition minPasswordLength :: nat where "minPasswordLength = 8"
definition maxPasswordBytes :: nat where "maxPasswordBytes = 72"

definition validatePassword :: "string \<Rightarrow> string option" where  \<comment> \<open>the error, if any\<close>
  "validatePassword password =
     (if length password < minPasswordLength then Some ''password must be at least 8 characters''
      else if length password > maxPasswordBytes then Some ''password must be at most 72 bytes''
      else None)"

record UserFilter =
  uf_Role :: string
  uf_Q :: string
  uf_ActiveOnly :: bool
  uf_Limit :: int
  uf_Offset :: int

definition user_matches :: "(char \<Rightarrow> char) \<Rightarrow> UserFilter \<Rightarrow> UserRow \<Rightarrow> bool" where
  "user_matches lc f u \<longleftrightarrow>
     (uf_Role f = [] \<or> u_Role u = uf_Role f) \<and> (\<not> uf_ActiveOnly f \<or> u_Active u)
     \<and> (uf_Q f = [] \<or> ilike lc (likeSubstringPattern (uf_Q f)) (u_Name u) \<or> ilike lc (likeSubstringPattern (uf_Q f)) (u_Email u))"

definition db_ListUsersPage :: "(char \<Rightarrow> char) \<Rightarrow> UserFilter \<Rightarrow> UserRow list stmt" where
  "db_ListUsersPage lc f d =
     page_rows (uf_Limit f) (uf_Offset f) (order_desc u_CreatedAt u_ID (filter (user_matches lc f) (db_users d))) d"

definition Store_ListUsersPage :: "(char \<Rightarrow> char) \<Rightarrow> UserFilter \<Rightarrow> (StoreError + UserResponse list) call" where
  "Store_ListUsersPage lc f =
     and_then (exec (db_ListUsersPage lc f)) Wrapped (\<lambda>rows. answer (Inr (map user_response rows)))"

record CreateUserRequest =
  cu_Name :: string
  cu_Email :: string
  cu_Password :: string
  cu_Role :: string

record UpdateUserRequest =
  uu_Name :: string
  uu_Email :: string
  uu_Role :: string
  uu_Password :: string

definition parseUserID :: "string \<Rightarrow> int option" where  \<comment> \<open>of the path's \<open>id\<close>\<close>
  "parseUserID s =
     (if s = [] then None
      else case parse_int64 s of None \<Rightarrow> None | Some i \<Rightarrow> if i \<le> 0 then None else Some i)"

definition handleListUsers ::
  "(char \<Rightarrow> char) \<Rightarrow> string \<Rightarrow> string \<Rightarrow> string \<Rightarrow> string \<Rightarrow> UserResponse list answer call" where
  "handleListUsers lc limit offset q role =
     (case parseListPageParams limit offset of
        Inl bad \<Rightarrow> answer bad
      | Inr (l, f) \<Rightarrow>
          (case validateListQuery q of
             Some msg \<Rightarrow> answer (HErr 400 msg)
           | None \<Rightarrow>
               (if \<not> validUserRoleFilter role
                then answer (HErr 400 (''role must be '' @ [CHR 34, CHR 34] @ '', '' @ [CHR 34] @ ''driver'' @ [CHR 34] @ '', or ''
                                        @ [CHR 34] @ ''admin'' @ [CHR 34]))
                else serve (Store_ListUsersPage lc
                              \<lparr>uf_Role = role, uf_Q = q, uf_ActiveOnly = False, uf_Limit = wrap32 l, uf_Offset = wrap32 f\<rparr>)
                       (\<lambda>res. answer (case res of Inl e \<Rightarrow> server_error | Inr us \<Rightarrow> HOk 200 us)))))"

definition handleGetUser :: "string \<Rightarrow> UserResponse answer call" where
  "handleGetUser i =
     (case parseUserID i of
        None \<Rightarrow> answer (HErr 400 ''invalid user id'')
      | Some uid \<Rightarrow>
          serve (Store_GetUser uid) (\<lambda>res.
            answer (case res of
                      Inl e \<Rightarrow> if e = ErrUserNotFound then HErr 404 ''user not found'' else server_error
                    | Inr u \<Rightarrow> HOk 200 u)))"

definition body_over_limit :: "'a answer" where
  "body_over_limit = HErr 400 ''invalid JSON: http: request body too large''"

definition role_message :: string where
  "role_message = ''role must be '' @ [CHR 39] @ ''driver'' @ [CHR 39] @ '' or '' @ [CHR 39] @ ''admin'' @ [CHR 39]"

definition validate_create :: "CreateUserRequest \<Rightarrow> string option" where
  "validate_create req =
     (if cu_Name req = [] then Some ''name is required''
      else if cu_Email req = [] then Some ''email is required''
      else if cu_Password req = [] then Some ''password is required''
      else case validatePassword (cu_Password req) of
             Some msg \<Rightarrow> Some msg
           | None \<Rightarrow> if \<not> validUserRole (cu_Role req) then Some role_message else None)"

text \<open>\<open>bcrypt\<close> is \<open>GenerateFromPassword\<close> with the salt it drew.\<close>

definition handleCreateUser ::
  "(string \<Rightarrow> string option) \<Rightarrow> gotime \<Rightarrow> http_request \<Rightarrow> CreateUserRequest body \<Rightarrow> UserResponse answer call" where
  "handleCreateUser bcrypt now r body =
     (if \<not> is_json (hr_MediaType r) then answer (HErr 415 content_type_message)
      else case strict_body body_over_limit body of
             Inl bad \<Rightarrow> answer bad
           | Inr req \<Rightarrow>
               (case validate_create req of
                  Some msg \<Rightarrow> answer (HErr 400 msg)
                | None \<Rightarrow>
                    serve (Store_CreateUser (cu_Name req) (cu_Email req) (bcrypt (cu_Password req)) (cu_Role req) now) (\<lambda>res.
                      answer (case res of
                                Inl e \<Rightarrow> if e = ErrDuplicateEmail then HErr 409 ''email already exists'' else server_error
                              | Inr u \<Rightarrow> HOk 201 u))))"

definition validate_update :: "UpdateUserRequest \<Rightarrow> string option" where
  "validate_update req =
     (if uu_Name req = [] then Some ''name is required''
      else if uu_Email req = [] then Some ''email is required''
      else if \<not> validUserRole (uu_Role req) then Some role_message
      else if uu_Password req \<noteq> [] then validatePassword (uu_Password req)
      else None)"

definition handleUpdateUser ::
  "(string \<Rightarrow> string option) \<Rightarrow> gotime \<Rightarrow> string \<Rightarrow> http_request \<Rightarrow> UpdateUserRequest body \<Rightarrow> UserResponse answer call" where
  "handleUpdateUser bcrypt now i r body =
     (if \<not> is_json (hr_MediaType r) then answer (HErr 415 content_type_message)
      else case parseUserID i of
             None \<Rightarrow> answer (HErr 400 ''invalid user id'')
           | Some uid \<Rightarrow>
               (case strict_body body_over_limit body of
                  Inl bad \<Rightarrow> answer bad
                | Inr req \<Rightarrow>
                    (case validate_update req of
                       Some msg \<Rightarrow> answer (HErr 400 msg)
                     | None \<Rightarrow>
                         serve (Store_UpdateUser uid (uu_Name req) (uu_Email req) (uu_Role req) now) (\<lambda>res.
                           case res of
                             Inl e \<Rightarrow> answer (if e = ErrUserNotFound then HErr 404 ''user not found''
                                              else if e = ErrDuplicateEmail then HErr 409 ''email already exists''
                                              else server_error)
                           | Inr user \<Rightarrow>
                               (if uu_Password req = [] then answer (HOk 200 user)
                                else serve (Store_SetUserPasswordAndRevokeSessions uid (bcrypt (uu_Password req)) now) (\<lambda>res2.
                                  answer (case res2 of
                                            Inl e \<Rightarrow> if e = ErrUserNotFound then HErr 404 ''user not found'' else server_error
                                          | Inr _ \<Rightarrow> HOk 200 user))))))) "

definition handleDeleteUser :: "string \<Rightarrow> unit answer call" where
  "handleDeleteUser i =
     (case parseUserID i of
        None \<Rightarrow> answer (HErr 400 ''invalid user id'')
      | Some uid \<Rightarrow>
          serve (Store_DeleteUser uid) (\<lambda>res.
            answer (case res of
                      Inl e \<Rightarrow> if e = ErrUserNotFound then HErr 404 ''user not found'' else server_error
                    | Inr _ \<Rightarrow> HOk 204 ())))"

text \<open>The first administrator; the result is the error, if any.\<close>

definition bootstrapAdmin :: "(string \<Rightarrow> string option) \<Rightarrow> string \<Rightarrow> string \<Rightarrow> gotime \<Rightarrow> StoreError option call" where
  "bootstrapAdmin bcrypt email password now =
     serve (Store_CountUsersByRole roleAdmin) (\<lambda>counted.
       case counted of
         Inl e \<Rightarrow> answer (Some e)
       | Inr n \<Rightarrow>
           (if n > 0 then answer None
            else case validatePassword password of
                   Some msg \<Rightarrow> answer (Some (Internal msg))
                 | None \<Rightarrow>
                     serve (Store_CreateUser ''Administrator'' email (bcrypt password) roleAdmin now) (\<lambda>res.
                       answer (case res of
                                 Inl e \<Rightarrow> if e = ErrDuplicateEmail then None else Some e
                               | Inr _ \<Rightarrow> None))))"

definition Store_CountActiveVehicles :: "(StoreError + int) call" where
  "Store_CountActiveVehicles = and_then (exec db_CountActiveVehicles) Wrapped (\<lambda>n. answer (Inr n))"

definition Store_CountActiveTrips :: "(StoreError + int) call" where
  "Store_CountActiveTrips = and_then (exec db_CountActiveTrips) Wrapped (\<lambda>n. answer (Inr n))"

section \<open>Assignments\<close>

record AssignmentResponse =
  an_UserID :: int
  an_VehicleID :: string
  an_CreatedAt :: gotime

record AssignmentRequest =
  aq_UserID :: int
  aq_VehicleID :: string

definition assignment_response :: "UserVehicleRow \<Rightarrow> AssignmentResponse" where
  "assignment_response row =
     \<lparr>an_UserID = uv_UserID row, an_VehicleID = uv_VehicleID row, an_CreatedAt = uv_CreatedAt row\<rparr>"

definition classifyAssignmentError :: "DbError \<Rightarrow> StoreError" where
  "classifyAssignmentError e =
     (case e of
        UniqueViolation name \<Rightarrow> (if name = ''user_vehicles_pkey'' then ErrAssignmentExists else Wrapped e)
      | FKViolation name \<Rightarrow>
          (if name = ''user_vehicles_user_id_fkey'' then ErrUserNotFoundFK
           else if name = ''user_vehicles_vehicle_id_fkey'' then ErrVehicleNotFoundFK
           else Wrapped e)
      | _ \<Rightarrow> Wrapped e)"

definition Store_CreateAssignment :: "int \<Rightarrow> string \<Rightarrow> gotime \<Rightarrow> (StoreError + AssignmentResponse) call" where
  "Store_CreateAssignment uid vid now =
     and_then (exec (db_AssignUserVehicle uid vid now)) classifyAssignmentError (\<lambda>row.
       answer (Inr (assignment_response row)))"

definition Store_DeleteAssignment :: "int \<Rightarrow> string \<Rightarrow> (StoreError + unit) call" where
  "Store_DeleteAssignment uid vid =
     and_then (exec (db_UnassignUserVehicle uid vid)) Wrapped (\<lambda>rows.
       answer (if rows = 0 then Inl ErrAssignmentNotFound else Inr ()))"

definition Store_ListAssignmentsByUser :: "int \<Rightarrow> (StoreError + AssignmentResponse list) call" where
  "Store_ListAssignmentsByUser uid =
     and_then (exec (db_ListVehiclesByUser uid)) Wrapped (\<lambda>rows. answer (Inr (map assignment_response rows)))"

definition Store_ListAssignmentsByVehicle :: "string \<Rightarrow> (StoreError + AssignmentResponse list) call" where
  "Store_ListAssignmentsByVehicle vid =
     and_then (exec (db_ListUsersByVehicle vid)) Wrapped (\<lambda>rows. answer (Inr (map assignment_response rows)))"

definition handleCreateAssignment ::
  "gotime \<Rightarrow> http_request \<Rightarrow> AssignmentRequest body \<Rightarrow> AssignmentResponse answer call" where
  "handleCreateAssignment now r body =
     (if \<not> is_json (hr_MediaType r) then answer (HErr 415 content_type_message)
      else case strict_body too_large body of
             Inl bad \<Rightarrow> answer bad
           | Inr req \<Rightarrow>
               (if aq_UserID req \<le> 0 then answer (HErr 400 ''user_id is required and must be positive'')
                else case validateVehicleID (aq_VehicleID req) of
                       Some msg \<Rightarrow> answer (HErr 400 msg)
                     | None \<Rightarrow>
                         serve (Store_CreateAssignment (aq_UserID req) (aq_VehicleID req) now) (\<lambda>res.
                           answer (case res of
                                     Inl e \<Rightarrow> if e = ErrAssignmentExists then HErr 409 ''assignment already exists''
                                              else if e = ErrUserNotFoundFK then HErr 404 ''user not found''
                                              else if e = ErrVehicleNotFoundFK then HErr 404 ''vehicle not found''
                                              else server_error
                                   | Inr a \<Rightarrow> HOk 201 a))))"

text \<open>The path's \<open>userID\<close>, which \<open>strconv\<close> refuses where it is empty, and its \<open>vehicleID\<close>.\<close>

definition handleDeleteAssignment :: "string \<Rightarrow> string \<Rightarrow> unit answer call" where
  "handleDeleteAssignment uid vid =
     (case parse_int64 uid of
        None \<Rightarrow> answer (HErr 400 ''invalid user id'')
      | Some u \<Rightarrow>
          (if u \<le> 0 then answer (HErr 400 ''invalid user id'')
           else case validateVehicleID vid of
             Some msg \<Rightarrow> answer (HErr 400 msg)
           | None \<Rightarrow>
               serve (Store_DeleteAssignment u vid) (\<lambda>res.
                 answer (case res of
                           Inl e \<Rightarrow> if e = ErrAssignmentNotFound then HErr 404 ''assignment not found'' else server_error
                         | Inr _ \<Rightarrow> HOk 200 ()))))"

definition handleListUserVehicles :: "string \<Rightarrow> AssignmentResponse list answer call" where
  "handleListUserVehicles i =
     (case parse_int64 i of
        None \<Rightarrow> answer (HErr 400 ''invalid user id'')
      | Some uid \<Rightarrow>
          (if uid \<le> 0 then answer (HErr 400 ''invalid user id'')
           else serve (Store_ListAssignmentsByUser uid) (\<lambda>res.
             answer (case res of Inl e \<Rightarrow> server_error | Inr rows \<Rightarrow> HOk 200 rows))))"

definition handleListVehicleUsers :: "string \<Rightarrow> AssignmentResponse list answer call" where
  "handleListVehicleUsers i =
     (case validateVehicleID i of
        Some msg \<Rightarrow> answer (HErr 400 msg)
      | None \<Rightarrow>
          serve (Store_ListAssignmentsByVehicle i) (\<lambda>res.
            answer (case res of Inl e \<Rightarrow> server_error | Inr rows \<Rightarrow> HOk 200 rows)))"

end
