(* ===== verification/FleetProps.thy ===== *)
theory FleetProps
  imports Fleet
begin

text \<open>
  What the administrators' side promises: a search finds exactly the rows that contain what was typed, an
  assignment is made exactly when it can be, a password reset ends the sessions of its user, and what the first
  start leaves behind.
\<close>

section \<open>Search\<close>

definition case_safe :: "(char \<Rightarrow> char) \<Rightarrow> bool" where
  "case_safe lc \<longleftrightarrow> (\<forall>c. \<forall>m \<in> {CHR 0x5C, CHR ''%'', CHR ''_''}. lc c = m \<longleftrightarrow> c = m)"

lemma escape_case: "case_safe lc \<Longrightarrow> map lc (like_escape c) = like_escape (lc c)"
  by (auto simp: case_safe_def like_escape_def)

lemma pattern_case: "case_safe lc \<Longrightarrow> map lc (likeSubstringPattern q) = likeSubstringPattern (map lc q)"
proof -
  assume safe: "case_safe lc"
  then have "map lc (concat (map like_escape q)) = concat (map like_escape (map lc q))"
    by (induction q) (simp_all add: escape_case)
  then show ?thesis
    using safe by (simp add: likeSubstringPattern_def case_safe_def)
qed

lemma like_any: "like (CHR ''%'' # p) s \<longleftrightarrow> (\<exists>u v. s = u @ v \<and> like p v)"
proof (induction s)
  case (Cons x s)
  have "(\<exists>u v. x # s = u @ v \<and> like p v) \<longleftrightarrow> like p (x # s) \<or> (\<exists>u v. s = u @ v \<and> like p v)"
    by (metis append_Cons append_Nil append_eq_Cons_conv)
  then show ?case
    using Cons.IH by simp
qed simp

lemma like_literal: "like (concat (map like_escape q) @ p) s \<longleftrightarrow> (\<exists>r. s = q @ r \<and> like p r)"
proof (induction q arbitrary: s)
  case (Cons c q)
  have "like (like_escape c @ concat (map like_escape q) @ p) s
      \<longleftrightarrow> (case s of [] \<Rightarrow> False | x # s' \<Rightarrow> x = c \<and> like (concat (map like_escape q) @ p) s')"
    by (auto simp: like_escape_def split: list.splits)
  then show ?case
    using Cons.IH by (auto split: list.splits)
qed simp

lemma substring_pattern: "like (likeSubstringPattern q) s \<longleftrightarrow> sublist q s"
  by (simp add: likeSubstringPattern_def like_any like_literal sublist_def del: like.simps) force

text \<open>
  A search matches exactly the rows that contain what was typed. Whatever the text is, wildcards and
  backslashes included, the pattern built from it matches a value just when the text occurs in it, letter case
  aside; \<open>lc\<close> is the database's lower case, which maps nothing to or from the three special characters.
\<close>

theorem search_is_literal:
  assumes "case_safe lc"
  shows "ilike lc (likeSubstringPattern q) s \<longleftrightarrow> sublist (map lc q) (map lc s)"
  by (simp add: ilike_def pattern_case [OF assms] substring_pattern)

lemma ascii_case_safe: "case_safe ascii_lower"
proof -
  have "ascii_lower c = m \<longleftrightarrow> c = m" if "m \<in> {CHR 0x5C, CHR ''%'', CHR ''_''}" for c m
  proof (cases "65 \<le> (of_char c :: nat) \<and> of_char c \<le> (90 :: nat)")
    case True
    then have "(of_char (ascii_lower c) :: nat) = of_char c + 32"
      by (simp add: ascii_lower_def Let_def)
    moreover have "(of_char m :: nat) \<in> {37, 92, 95}"
      using that by auto
    ultimately show ?thesis
      using True by auto
  next
    case False
    then have "ascii_lower c = c"
      unfolding ascii_lower_def Let_def by (rule if_not_P)
    then show ?thesis by simp
  qed
  then show ?thesis
    by (simp add: case_safe_def)
qed

theorem search_is_literal_witness:
  "\<not> ilike ascii_lower (likeSubstringPattern ''s_1'') ''BUS-1'' \<and> ilike ascii_lower (likeSubstringPattern ''s_1'') ''BUS_1''"
proof -
  have lower: "map ascii_lower ''s_1'' = ''s_1''" "map ascii_lower ''BUS-1'' = ''bus-1''" "map ascii_lower ''BUS_1'' = ''bus_1''"
    by code_simp+
  have "\<not> sublist ''s_1'' ''bus-1''" "sublist ''s_1'' ''bus_1''"
    by code_simp+
  then show ?thesis
    unfolding search_is_literal [OF ascii_case_safe] lower by simp
qed

section \<open>The first administrator\<close>

definition has_admin :: "Database \<Rightarrow> bool" where
  "has_admin d \<longleftrightarrow> (\<exists>u \<in> set (db_users d). u_Role u = roleAdmin)"

lemma count_positive: "count_rows p rows > 0 \<longleftrightarrow> (\<exists>r \<in> set rows. p r)"
  by (auto simp: count_rows_def filter_empty_conv)

text \<open>
  C33: starting with bootstrap credentials can report success and leave the server without an administrator. If
  there is none and some account that is not an administrator already has the bootstrap email, the insert's
  duplicate-email error is taken for another instance having won the race: nothing is created, no error is
  returned, and no administrator exists.
\<close>

theorem bootstrap_can_leave_no_admin:
  assumes "\<not> has_admin d" "u \<in> set (db_users d)" "u_Email u = email" "email \<noteq> []"
    "validatePassword password = None" "bcrypt password = Some hash" "hash \<noteq> []"
  shows "bootstrapAdmin bcrypt email password now ([], d) = (None, [], d)
    \<and> \<not> has_admin (snd (snd (bootstrapAdmin bcrypt email password now ([], d))))"
proof -
  have none: "\<not> count_rows (\<lambda>u. u_Role u = roleAdmin) (db_users d) > 0"
    using assms(1) unfolding count_positive has_admin_def .
  have taken: "list_ex (\<lambda>u. u_Email u = email) (db_users d)"
    using assms(2,3) by (auto simp: list_ex_iff)
  have "bootstrapAdmin bcrypt email password now ([], d) = (None, [], d)"
    using none taken assms(4-7)
    by (simp add: bootstrapAdmin_def serve_def Store_CountUsersByRole_def and_then_def exec_def next_trip_def
        db_CountUsersByRole_def answer_def Store_CreateUser_def db_CreateUser_def user_role_ok_def roleAdmin_def
        isDuplicateEmail_def)
  then show ?thesis
    using assms(1) by simp
qed

definition driver_row :: UserRow where
  "driver_row = \<lparr>u_ID = 1, u_Name = ''D'', u_Email = ''a@b'', u_PasswordHash = ''h'', u_Role = ''driver'', u_Active = True,
     u_CreatedAt = 0, u_UpdatedAt = 0\<rparr>"

theorem bootstrap_can_leave_no_admin_witness:
  "bootstrapAdmin (\<lambda>p. Some p) ''a@b'' ''password1'' 5 ([], empty_db\<lparr>db_users := [driver_row]\<rparr>)
     = (None, [], empty_db\<lparr>db_users := [driver_row]\<rparr>)"
  using bootstrap_can_leave_no_admin [of "empty_db\<lparr>db_users := [driver_row]\<rparr>" driver_row "''a@b''" "''password1''"
      "\<lambda>p. Some p" "''password1''" 5]
  by (simp add: has_admin_def driver_row_def roleAdmin_def validatePassword_def minPasswordLength_def maxPasswordBytes_def)

section \<open>Assignments\<close>

definition assigned :: "int \<Rightarrow> string \<Rightarrow> Database \<Rightarrow> bool" where
  "assigned uid vid d \<longleftrightarrow> (\<exists>uv \<in> set (db_user_vehicles d). uv_UserID uv = uid \<and> uv_VehicleID uv = vid)"

definition known_user :: "int \<Rightarrow> Database \<Rightarrow> bool" where
  "known_user uid d \<longleftrightarrow> (\<exists>u \<in> set (db_users d). u_ID u = uid)"

definition known_vehicle :: "string \<Rightarrow> Database \<Rightarrow> bool" where
  "known_vehicle vid d \<longleftrightarrow> (\<exists>v \<in> set (db_vehicles d). v_ID v = vid)"

lemma assign_cases:
  "db_AssignUserVehicle uid vid now d =
     (if assigned uid vid d then Inl (UniqueViolation ''user_vehicles_pkey'')
      else if \<not> known_user uid d then Inl (FKViolation ''user_vehicles_user_id_fkey'')
      else if \<not> known_vehicle vid d then Inl (FKViolation ''user_vehicles_vehicle_id_fkey'')
      else Inr (\<lparr>uv_UserID = uid, uv_VehicleID = vid, uv_CreatedAt = now\<rparr>,
                d\<lparr>db_user_vehicles := db_user_vehicles d @ [\<lparr>uv_UserID = uid, uv_VehicleID = vid, uv_CreatedAt = now\<rparr>]\<rparr>))"
  by (simp add: db_AssignUserVehicle_def assigned_def known_user_def known_vehicle_def list_ex_iff Let_def)

text \<open>
  An assignment is made exactly when it can be. A valid request gets 409 where the driver already has the
  vehicle, 404 where the driver or the vehicle does not exist and 500 where the database could not be asked,
  and in none of these does it change anything; otherwise it gets 201 and one row is added.
\<close>

theorem assignment_decides:
  assumes "is_json (hr_MediaType r)" "0 < uid" "validateVehicleID vid = None"
  shows "handleCreateAssignment now r (Decoded \<lparr>aq_UserID = uid, aq_VehicleID = vid\<rparr> NoMore) ([], d) =
     (if assigned uid vid d then (HErr 409 ''assignment already exists'', [], d)
      else if \<not> known_user uid d then (HErr 404 ''user not found'', [], d)
      else if \<not> known_vehicle vid d then (HErr 404 ''vehicle not found'', [], d)
      else (HOk 201 \<lparr>an_UserID = uid, an_VehicleID = vid, an_CreatedAt = now\<rparr>, [],
            d\<lparr>db_user_vehicles := db_user_vehicles d @ [\<lparr>uv_UserID = uid, uv_VehicleID = vid, uv_CreatedAt = now\<rparr>]\<rparr>))
     \<and> handleCreateAssignment now r (Decoded \<lparr>aq_UserID = uid, aq_VehicleID = vid\<rparr> NoMore) ([Failed], d) = (server_error, [], d)"
  using assms
  by (simp add: handleCreateAssignment_def strict_body_def serve_def Store_CreateAssignment_def and_then_def exec_def
      next_trip_def assign_cases classifyAssignmentError_def answer_def assignment_response_def)

theorem assignment_decides_witness:
  "handleCreateAssignment 5 json_request (Decoded \<lparr>aq_UserID = 1, aq_VehicleID = ''bus-1''\<rparr> NoMore) ([], empty_db)
     = (HErr 404 ''user not found'', [], empty_db)"
proof -
  have "validateVehicleID ''bus-1'' = None"
    by (simp add: validateVehicleID_def maxVehicleIDLength_def vehicleIDPattern_def is_digit_def)
  then show ?thesis
    using assignment_decides [OF json_request_ok, of 1 "''bus-1''" 5 empty_db]
    by (simp add: assigned_def known_user_def empty_db_def)
qed

section \<open>Resetting a password\<close>

lemma delete_tokens_gone:
  "db_DeleteRefreshTokensForUser uid d = Inr (x, d')
     \<Longrightarrow> db_users d' = db_users d \<and> (\<forall>t \<in> set (db_refresh_tokens d'). rt_UserID t \<noteq> uid)"
  by (auto simp: db_DeleteRefreshTokensForUser_def delete_rows_def)

lemma update_password_hash:
  assumes "db_UpdateUserPassword uid h now d = Inr (x, d')"
  shows "(\<forall>u \<in> set (db_users d'). u_ID u = uid \<longrightarrow> u_PasswordHash u = h) \<and> known_user uid d' = known_user uid d"
proof -
  have "db_users d' = update_rows (\<lambda>u. u_ID u = uid) (\<lambda>u. u\<lparr>u_PasswordHash := h, u_UpdatedAt := now\<rparr>) (db_users d)"
    using assms by (clarsimp simp: db_UpdateUserPassword_def split: if_splits)
  moreover have "known_user uid d \<longleftrightarrow> uid \<in> u_ID ` set (db_users d)" for d
    by (auto simp: known_user_def)
  ultimately show ?thesis
    by (simp add: ball_update_rows image_update_rows)
qed

lemma read_one_some: "read_one rows d = Inr (x, d') \<Longrightarrow> d' = d \<and> rows \<noteq> []"
  by (auto simp: read_one_def one_row_def split: list.splits)

lemma lock_user: "db_LockUser uid d = Inr (x, d') \<Longrightarrow> d' = d \<and> known_user uid d"
  using read_one_some [of "map u_ID (filter (\<lambda>u. u_ID u = uid) (db_users d))" d x d']
  by (auto simp: db_LockUser_def known_user_def filter_empty_conv)

lemma password_set:
  assumes "Store_SetUserPasswordAndRevokeSessions uid hash now (net, d) = (Inr x, net', d')"
  shows "\<exists>h. hash = Some h \<and> known_user uid d' \<and> (\<forall>u \<in> set (db_users d'). u_ID u = uid \<longrightarrow> u_PasswordHash u = h)
    \<and> (\<forall>t \<in> set (db_refresh_tokens d'). rt_UserID t \<noteq> uid)"
proof -
  obtain h where h: "hash = Some h"
    using assms by (cases hash) (auto simp: Store_SetUserPasswordAndRevokeSessions_def answer_def)
  then show ?thesis
    using assms unfolding Store_SetUserPasswordAndRevokeSessions_def
    by (auto simp: answer_def known_user_def elim!: in_tx_Inr and_then_Inr
        dest!: exec_Inr lock_user update_password_hash delete_tokens_gone)
qed

text \<open>
  C19: an administrator who resets a password and is told it worked has ended the account's sessions: the
  account exists, its password is the new one, and it holds no refresh token any more, whatever the network did
  on the way. Without the success the answer is an error, never a 200.
\<close>

theorem password_reset_ends_sessions:
  assumes "handleUpdateUser bcrypt now i r (Decoded req rest) (net, d) = (HOk status user, net', d')"
    and "uu_Password req \<noteq> []"
  shows "\<exists>uid h. parseUserID i = Some uid \<and> status = 200 \<and> validatePassword (uu_Password req) = None
    \<and> bcrypt (uu_Password req) = Some h \<and> known_user uid d'
    \<and> (\<forall>u \<in> set (db_users d'). u_ID u = uid \<longrightarrow> u_PasswordHash u = h)
    \<and> (\<forall>t \<in> set (db_refresh_tokens d'). rt_UserID t \<noteq> uid)"
  using assms
  by (auto simp: handleUpdateUser_def strict_body_def validate_update_def server_error_def answer_def
      split: if_splits option.splits rest.splits sum.splits elim!: serve_cases dest!: password_set)

definition session_db :: Database where
  "session_db = empty_db\<lparr>db_users := [driver_row],
     db_refresh_tokens := [\<lparr>rt_ID = 2, rt_TokenHash = ''t'', rt_UserID = 1, rt_ExpiresAt = 9, rt_UsedAt = None,
                            rt_CreatedAt = 0\<rparr>]\<rparr>"

lemma demo_reset:
  "\<exists>user d'. handleUpdateUser (\<lambda>p. Some ''new'') 5 ''1'' json_request
     (Decoded \<lparr>uu_Name = ''D'', uu_Email = ''a@b'', uu_Role = ''driver'', uu_Password = ''password2''\<rparr> NoMore) ([], session_db)
   = (HOk 200 user, [], d')"
proof -
  have one: "parse_int64 ''1'' = Some 1"
    by code_simp
  have role: "user_role_ok ''driver''" "validUserRole ''driver''"
    by code_simp+
  show ?thesis
    by (simp add: handleUpdateUser_def json_request_ok strict_body_def validate_update_def parseUserID_def one role
        validatePassword_def minPasswordLength_def maxPasswordBytes_def serve_def and_then_def exec_def next_trip_def
        Store_UpdateUser_def db_UpdateUser_def session_db_def empty_db_def driver_row_def
        Store_SetUserPasswordAndRevokeSessions_def in_tx_def begin_tx_def db_LockUser_def read_one_def one_row_def
        db_UpdateUserPassword_def db_DeleteRefreshTokensForUser_def answer_def update_rows_def)
qed

theorem password_reset_ends_sessions_witness:
  "\<exists>user d'. handleUpdateUser (\<lambda>p. Some ''new'') 5 ''1'' json_request
     (Decoded \<lparr>uu_Name = ''D'', uu_Email = ''a@b'', uu_Role = ''driver'', uu_Password = ''password2''\<rparr> NoMore) ([], session_db)
     = (HOk 200 user, [], d')
   \<and> (\<forall>u \<in> set (db_users d'). u_ID u = 1 \<longrightarrow> u_PasswordHash u = ''new'')
   \<and> (\<forall>t \<in> set (db_refresh_tokens d'). rt_UserID t \<noteq> 1)"
proof -
  have one: "parseUserID ''1'' = Some 1"
    by code_simp
  obtain user d' where run: "handleUpdateUser (\<lambda>p. Some ''new'') 5 ''1'' json_request
     (Decoded \<lparr>uu_Name = ''D'', uu_Email = ''a@b'', uu_Role = ''driver'', uu_Password = ''password2''\<rparr> NoMore) ([], session_db)
     = (HOk 200 user, [], d')"
    using demo_reset by blast
  from password_reset_ends_sessions [OF run] one show ?thesis
    by (intro exI [of _ user] exI [of _ d'] conjI run) auto
qed

end
