(* ===== verification/Trips.thy ===== *)
theory Trips
  imports Feed Fleet
begin

text \<open>
  Drivers' trips and the history of locations: the store's functions (\<open>src/store_trips.go\<close>,
  \<open>src/location_history_store.go\<close>), starting and ending a trip (\<open>src/trip_handlers.go\<close>), the live map, the
  list of trips and the trail of one (\<open>src/admin_live_handlers.go\<close>) and a vehicle's history as JSON or CSV
  (\<open>src/location_history_handlers.go\<close>).
\<close>

section \<open>The store\<close>

record TripResponse =
  tp_ID :: int
  tp_UserID :: int
  tp_VehicleID :: string
  tp_RouteID :: string
  tp_GtfsTripID :: string
  tp_StartTime :: gotime
  tp_EndTime :: "gotime option"
  tp_Status :: string

record TripSummary =
  tm_ID :: int
  tm_VehicleID :: string
  tm_VehicleLabel :: string
  tm_UserID :: int
  tm_DriverName :: string
  tm_RouteID :: string
  tm_GtfsTripID :: string
  tm_StartTime :: gotime
  tm_EndTime :: "gotime option"
  tm_Status :: string

record TripFilter =
  tf_Status :: string
  tf_VehicleID :: string
  tf_UserID :: int
  tf_Q :: string
  tf_Limit :: int
  tf_Offset :: int

record ActiveTripInfo =
  ati_TripID :: int
  ati_RouteID :: string
  ati_GtfsTripID :: string
  ati_UserID :: int
  ati_DriverName :: string

record LocationPoint =
  po_Latitude :: f64
  po_Longitude :: f64
  po_Bearing :: "f64 option"
  po_Speed :: "f64 option"
  po_Accuracy :: "f64 option"
  po_Timestamp :: int
  po_TripID :: string
  po_ReceivedAt :: gotime

definition trip_response :: "TripRow \<Rightarrow> TripResponse" where
  "trip_response t =
     \<lparr>tp_ID = t_ID t, tp_UserID = t_UserID t, tp_VehicleID = t_VehicleID t, tp_RouteID = t_RouteID t,
      tp_GtfsTripID = t_GtfsTripID t, tp_StartTime = t_StartTime t, tp_EndTime = t_EndTime t, tp_Status = t_Status t\<rparr>"

text \<open>\<open>errors.Is(err, pgx.ErrNoRows)\<close> is the good outcome of the second query.\<close>

definition start_trip_body ::
  "int \<Rightarrow> string \<Rightarrow> string \<Rightarrow> string \<Rightarrow> gotime \<Rightarrow> (StoreError + TripRow) call" where
  "start_trip_body userID vehicleID routeID gtfsTripID now =
     and_then (exec (db_CheckUserVehicleAssignment userID vehicleID)) (no_rows_as ErrNotAssigned) (\<lambda>_.
       serve (exec (db_GetActiveTripByUser userID)) (\<lambda>active.
         case active of
           Inr _ \<Rightarrow> answer (Inl ErrActiveTripExists)
         | Inl e \<Rightarrow>
             (if e \<noteq> NoRows then answer (Inl (Wrapped e))
              else and_then (exec (db_StartTrip userID vehicleID routeID gtfsTripID now))
                     (\<lambda>e. if e = UniqueViolation ''idx_trips_one_active_per_user'' then ErrActiveTripExists else Wrapped e)
                     (\<lambda>trip. answer (Inr trip)))))"

definition Store_StartTrip ::
  "int \<Rightarrow> string \<Rightarrow> string \<Rightarrow> string \<Rightarrow> gotime \<Rightarrow> (StoreError + TripResponse) call" where
  "Store_StartTrip userID vehicleID routeID gtfsTripID now =
     serve (in_tx Wrapped (start_trip_body userID vehicleID routeID gtfsTripID now)) (\<lambda>res.
       answer (case res of Inl e \<Rightarrow> Inl e | Inr trip \<Rightarrow> Inr (trip_response trip)))"

definition Store_EndTrip :: "int \<Rightarrow> int \<Rightarrow> gotime \<Rightarrow> (StoreError + unit) call" where
  "Store_EndTrip tripID userID now =
     and_then (exec (db_EndTrip tripID userID now)) Wrapped (\<lambda>rows.
       answer (if rows = 0 then Inl ErrTripNotFound else Inr ()))"

definition trip_summary :: "TripRow \<times> string \<times> string \<Rightarrow> TripSummary" where
  "trip_summary row =
     (case row of (t, label, driver) \<Rightarrow>
        \<lparr>tm_ID = t_ID t, tm_VehicleID = t_VehicleID t, tm_VehicleLabel = label, tm_UserID = t_UserID t, tm_DriverName = driver,
         tm_RouteID = t_RouteID t, tm_GtfsTripID = t_GtfsTripID t, tm_StartTime = t_StartTime t, tm_EndTime = t_EndTime t,
         tm_Status = t_Status t\<rparr>)"

definition trip_matches :: "(char \<Rightarrow> char) \<Rightarrow> TripFilter \<Rightarrow> TripRow \<times> string \<times> string \<Rightarrow> bool" where
  "trip_matches lc f row \<longleftrightarrow>
     (case row of (t, label, driver) \<Rightarrow>
        (tf_Status f = [] \<or> t_Status t = tf_Status f) \<and> (tf_VehicleID f = [] \<or> t_VehicleID t = tf_VehicleID f)
        \<and> (tf_UserID f = 0 \<or> t_UserID t = tf_UserID f)
        \<and> (tf_Q f = [] \<or> ilike lc (likeSubstringPattern (tf_Q f)) driver \<or> ilike lc (likeSubstringPattern (tf_Q f)) (t_RouteID t)
            \<or> ilike lc (likeSubstringPattern (tf_Q f)) (t_GtfsTripID t)))"

definition matching_trips :: "(char \<Rightarrow> char) \<Rightarrow> TripFilter \<Rightarrow> Database \<Rightarrow> (TripRow \<times> string \<times> string) list" where
  "matching_trips lc f d =
     order_desc (\<lambda>row. t_StartTime (fst row)) (\<lambda>row. t_ID (fst row))
       (filter (trip_matches lc f) (concat (map (trip_joined d) (db_trips d))))"

definition db_ListTrips :: "(char \<Rightarrow> char) \<Rightarrow> TripFilter \<Rightarrow> (TripRow \<times> string \<times> string) list stmt" where
  "db_ListTrips lc f d = page_rows (tf_Limit f) (tf_Offset f) (matching_trips lc f d) d"

definition Store_ListTrips :: "(char \<Rightarrow> char) \<Rightarrow> TripFilter \<Rightarrow> (StoreError + TripSummary list) call" where
  "Store_ListTrips lc f = and_then (exec (db_ListTrips lc f)) Wrapped (\<lambda>rows. answer (Inr (map trip_summary rows)))"

definition Store_GetTripSummary :: "int \<Rightarrow> (StoreError + TripSummary) call" where
  "Store_GetTripSummary i =
     and_then (exec (db_GetTripSummary i)) (no_rows_as ErrTripNotFound) (\<lambda>row. answer (Inr (trip_summary row)))"

definition point_of :: "LocationPointRow \<Rightarrow> LocationPoint" where
  "point_of row =
     \<lparr>po_Latitude = lp_Latitude row, po_Longitude = lp_Longitude row, po_Bearing = lp_Bearing row, po_Speed = lp_Speed row,
      po_Accuracy = lp_Accuracy row, po_Timestamp = lp_Timestamp row, po_TripID = lp_TripID row,
      po_ReceivedAt = lp_ReceivedAt row\<rparr>"

definition Store_ListTripLocations :: "int \<Rightarrow> gotime \<Rightarrow> (StoreError + LocationPoint list) call" where
  "Store_ListTripLocations tripID now =
     and_then (exec (db_ListTripLocations fmt_d tripID now)) Wrapped (\<lambda>rows. answer (Inr (map point_of rows)))"

definition active_info :: "TripRow \<times> string \<Rightarrow> ActiveTripInfo" where
  "active_info row =
     (case row of (t, driver) \<Rightarrow>
        \<lparr>ati_TripID = t_ID t, ati_RouteID = t_RouteID t, ati_GtfsTripID = t_GtfsTripID t, ati_UserID = t_UserID t,
         ati_DriverName = driver\<rparr>)"

definition Store_ListActiveTripsByVehicle :: "(StoreError + (string \<rightharpoonup> ActiveTripInfo)) call" where
  "Store_ListActiveTripsByVehicle =
     and_then (exec db_ListActiveTripsByVehicle) Wrapped (\<lambda>rows.
       answer (Inr (fold (\<lambda>row m. m(t_VehicleID (fst row) \<mapsto> active_info row)) rows Map.empty)))"

definition Store_GetLocationHistory :: "string \<Rightarrow> int \<Rightarrow> int \<Rightarrow> int \<Rightarrow> (StoreError + LocationPoint list) call" where
  "Store_GetLocationHistory vehicleID t1 t2 limit =
     and_then (exec (\<lambda>d. if wrap32 limit < 0 then Inl (CheckViolation ''LIMIT must not be negative'')
                         else db_GetLocationHistory vehicleID t1 t2 (nat (wrap32 limit)) d))
       Wrapped (\<lambda>rows. answer (Inr (map point_of rows)))"

section \<open>Starting and ending a trip\<close>

record StartTripRequest =
  sp_VehicleID :: string
  sp_RouteID :: string
  sp_GtfsTripID :: string

definition validate_trip_start :: "StartTripRequest \<Rightarrow> string option" where
  "validate_trip_start req =
     (if sp_VehicleID req = [] then Some ''vehicle_id is required''
      else if length (sp_VehicleID req) > maxVehicleIDLength then Some ''vehicle_id must be at most 50 characters''
      else if \<not> vehicleIDPattern (sp_VehicleID req)
      then Some ''vehicle_id must contain only alphanumeric characters, dots, hyphens, and underscores''
      else if length (sp_RouteID req) > 100 then Some ''route_id must be at most 100 characters''
      else if length (sp_GtfsTripID req) > 100 then Some ''gtfs_trip_id must be at most 100 characters''
      else None)"

definition handleStartTrip ::
  "gotime \<Rightarrow> MapClaims option \<Rightarrow> http_request \<Rightarrow> StartTripRequest body \<Rightarrow> TripResponse answer call" where
  "handleStartTrip now ctx r body =
     (if \<not> is_json (hr_MediaType r) then answer (HErr 415 content_type_message)
      else case userIDFromClaims ctx of
             Inl bad \<Rightarrow> answer bad
           | Inr userID \<Rightarrow>
               (case strict_body too_large body of
                  Inl bad \<Rightarrow> answer bad
                | Inr req \<Rightarrow>
                    (case validate_trip_start req of
                       Some msg \<Rightarrow> answer (HErr 400 msg)
                     | None \<Rightarrow>
                         serve (Store_StartTrip userID (sp_VehicleID req) (sp_RouteID req) (sp_GtfsTripID req) now) (\<lambda>res.
                           answer (case res of
                                     Inl e \<Rightarrow> if e = ErrNotAssigned then HErr 403 ''driver is not assigned to this vehicle''
                                              else if e = ErrActiveTripExists then HErr 409 ''driver already has an active trip''
                                              else HErr 500 ''failed to start trip''
                                   | Inr trip \<Rightarrow> HOk 201 trip)))))"

definition handleEndTrip :: "gotime \<Rightarrow> MapClaims option \<Rightarrow> http_request \<Rightarrow> int body \<Rightarrow> unit answer call" where
  "handleEndTrip now ctx r body =
     (if \<not> is_json (hr_MediaType r) then answer (HErr 415 content_type_message)
      else case userIDFromClaims ctx of
             Inl bad \<Rightarrow> answer bad
           | Inr userID \<Rightarrow>
               (case strict_body too_large body of
                  Inl bad \<Rightarrow> answer bad
                | Inr tripID \<Rightarrow>
                    (if tripID \<le> 0 then answer (HErr 400 ''trip_id is required and must be positive'')
                     else serve (Store_EndTrip tripID userID now) (\<lambda>res.
                            answer (case res of
                                      Inl e \<Rightarrow> if e = ErrTripNotFound then HErr 404 ''active trip not found''
                                               else HErr 500 ''failed to end trip''
                                    | Inr _ \<Rightarrow> HOk 200 ())))))"

section \<open>The live map\<close>

record liveVehicleEntry =
  le_VehicleID :: string
  le_Label :: string
  le_Latitude :: f64
  le_Longitude :: f64
  le_Bearing :: "f64 option"
  le_Speed :: "f64 option"
  le_GtfsTripID :: string
  le_TripDBID :: "int option"
  le_RouteID :: "string option"
  le_DriverName :: "string option"
  le_ReportedAt :: int
  le_UpdatedAt :: string

definition live_entry ::
  "(string \<rightharpoonup> string) \<Rightarrow> (string \<rightharpoonup> ActiveTripInfo) \<Rightarrow> VehicleState \<Rightarrow> liveVehicleEntry" where
  "live_entry labels activeTrips state =
     \<lparr>le_VehicleID = ve_VehicleID state,
      le_Label = (case labels (ve_VehicleID state) of None \<Rightarrow> ve_VehicleID state | Some l \<Rightarrow> l),
      le_Latitude = ve_Latitude state, le_Longitude = ve_Longitude state, le_Bearing = ve_Bearing state,
      le_Speed = ve_Speed state, le_GtfsTripID = ve_TripID state,
      le_TripDBID = map_option ati_TripID (activeTrips (ve_VehicleID state)),
      le_RouteID = map_option ati_RouteID (activeTrips (ve_VehicleID state)),
      le_DriverName = map_option ati_DriverName (activeTrips (ve_VehicleID state)),
      le_ReportedAt = ve_Timestamp state, le_UpdatedAt = rfc3339 (ve_UpdatedAt state)\<rparr>"

text \<open>
  The response's count is the length of the list. \<open>sort.Slice\<close> sorts by an id no two entries share, so any
  sort gives this order.
\<close>

definition handleLiveVehicles :: "string list \<Rightarrow> gotime \<Rightarrow> Tracker \<Rightarrow> (nat \<times> liveVehicleEntry list) answer call" where
  "handleLiveVehicles ks now tracker =
     serve Store_ListVehicles (\<lambda>listed.
       case listed of
         Inl e \<Rightarrow> answer (HErr 500 ''failed to list vehicles'')
       | Inr vehicles \<Rightarrow>
           (let labels = fold (\<lambda>v m. m(vr_ID v \<mapsto> vr_Label v)) vehicles Map.empty
            in serve Store_ListActiveTripsByVehicle (\<lambda>res.
                 answer (case res of
                           Inl e \<Rightarrow> HErr 500 ''failed to list active trips''
                         | Inr activeTrips \<Rightarrow>
                             (let entries = stable_sort (\<lambda>x y. cmp (le_VehicleID x) (le_VehicleID y))
                                              (map (live_entry labels activeTrips) (ActiveVehicles ks now tracker))
                              in HOk 200 (length entries, entries))))))"

section \<open>The list of trips and the trail of one\<close>

definition defaultTripListLimit :: int where "defaultTripListLimit = 50"
definition maxTripListLimit :: int where "maxTripListLimit = 200"

definition validTripStatus :: "string \<Rightarrow> bool" where
  "validTripStatus s \<longleftrightarrow> s = [] \<or> s = ''active'' \<or> s = ''completed''"

record tripListResponse =
  tlr_Count :: nat
  tlr_HasMore :: bool
  tlr_Trips :: "TripSummary list"

definition quoted :: "string \<Rightarrow> string" where "quoted s = [CHR 34] @ s @ [CHR 34]"

text \<open>The filter's user: absent means all drivers, a present one must be positive.\<close>

definition trip_list_user :: "string \<Rightarrow> string + int" where
  "trip_list_user raw =
     (if raw = [] then Inr 0
      else case parse_int64 raw of
             None \<Rightarrow> Inl ''user_id must be a positive integer''
           | Some i \<Rightarrow> if i < 1 then Inl ''user_id must be a positive integer'' else Inr i)"

definition trip_page :: "int \<Rightarrow> TripSummary list \<Rightarrow> tripListResponse" where
  "trip_page limit trips =
     (let hasMore = int (length trips) > limit; shown = (if hasMore then take (nat limit) trips else trips)
      in \<lparr>tlr_Count = length shown, tlr_HasMore = hasMore, tlr_Trips = shown\<rparr>)"

definition handleListTrips ::
  "(char \<Rightarrow> char) \<Rightarrow> string \<Rightarrow> string \<Rightarrow> string \<Rightarrow> string \<Rightarrow> string \<Rightarrow> string \<Rightarrow> tripListResponse answer call" where
  "handleListTrips lc status limit offset user_id vehicle_id q =
     (if \<not> validTripStatus status
      then answer (HErr 400 (''status must be '' @ quoted [] @ '', '' @ quoted ''active'' @ '', or '' @ quoted ''completed''))
      else case parsePage limit offset defaultTripListLimit maxTripListLimit of
             Inl msg \<Rightarrow> answer (HErr 400 msg)
           | Inr (l, f) \<Rightarrow>
               (case trip_list_user user_id of
                  Inl msg \<Rightarrow> answer (HErr 400 msg)
                | Inr userID \<Rightarrow>
                    serve (Store_ListTrips lc \<lparr>tf_Status = status, tf_VehicleID = vehicle_id, tf_UserID = userID, tf_Q = q,
                                              tf_Limit = l + 1, tf_Offset = f\<rparr>) (\<lambda>res.
                      answer (case res of Inl e \<Rightarrow> server_error | Inr trips \<Rightarrow> HOk 200 (trip_page l trips)))))"

definition handleGetTrip :: "string \<Rightarrow> TripSummary answer call" where
  "handleGetTrip i =
     (case parse_int64 i of
        None \<Rightarrow> answer (HErr 404 ''trip not found'')
      | Some tripID \<Rightarrow>
          serve (Store_GetTripSummary tripID) (\<lambda>res.
            answer (case res of
                      Inl e \<Rightarrow> if e = ErrTripNotFound then HErr 404 ''trip not found'' else server_error
                    | Inr trip \<Rightarrow> HOk 200 trip)))"

record tripTrailPoint =
  tt_Latitude :: f64
  tt_Longitude :: f64
  tt_Bearing :: "f64 option"
  tt_Speed :: "f64 option"
  tt_Accuracy :: "f64 option"
  tt_ReportedAt :: int
  tt_ReceivedAt :: string

definition trail_point :: "LocationPoint \<Rightarrow> tripTrailPoint" where
  "trail_point p =
     \<lparr>tt_Latitude = po_Latitude p, tt_Longitude = po_Longitude p, tt_Bearing = po_Bearing p, tt_Speed = po_Speed p,
      tt_Accuracy = po_Accuracy p, tt_ReportedAt = po_Timestamp p, tt_ReceivedAt = rfc3339 (po_ReceivedAt p)\<rparr>"

definition handleTripLocations :: "string \<Rightarrow> gotime \<Rightarrow> (TripSummary \<times> tripTrailPoint list) answer call" where
  "handleTripLocations i now =
     (case parse_int64 i of
        None \<Rightarrow> answer (HErr 404 ''trip not found'')
      | Some tripID \<Rightarrow>
          serve (Store_GetTripSummary tripID) (\<lambda>res.
            case res of
              Inl e \<Rightarrow> answer (if e = ErrTripNotFound then HErr 404 ''trip not found'' else server_error)
            | Inr trip \<Rightarrow>
                serve (Store_ListTripLocations tripID now) (\<lambda>pts.
                  answer (case pts of Inl e \<Rightarrow> server_error | Inr points \<Rightarrow> HOk 200 (trip, map trail_point points)))))"

section \<open>A vehicle's history\<close>

definition defaultHistoryLimit :: int where "defaultHistoryLimit = 100"
definition maxHistoryLimit :: int where "maxHistoryLimit = 1000"

record locationEntry =
  lo_Latitude :: f64
  lo_Longitude :: f64
  lo_Bearing :: "f64 option"
  lo_Speed :: "f64 option"
  lo_Accuracy :: "f64 option"
  lo_Timestamp :: int
  lo_TripID :: string
  lo_ReceivedAt :: string

record locationHistoryResponse =
  lh_VehicleID :: string
  lh_Count :: nat
  lh_HasMore :: bool
  lh_Locations :: "locationEntry list"

datatype history = HistoryJSON locationHistoryResponse | HistoryCSV string string  \<comment> \<open>the file's name and its text\<close>

definition location_entry :: "LocationPoint \<Rightarrow> locationEntry" where
  "location_entry p =
     \<lparr>lo_Latitude = po_Latitude p, lo_Longitude = po_Longitude p, lo_Bearing = po_Bearing p, lo_Speed = po_Speed p,
      lo_Accuracy = po_Accuracy p, lo_Timestamp = po_Timestamp p, lo_TripID = po_TripID p,
      lo_ReceivedAt = rfc3339 (po_ReceivedAt p)\<rparr>"

text \<open>Cells that a spreadsheet would take for a formula get an apostrophe in front.\<close>

definition formula_start :: "char \<Rightarrow> bool" where
  "formula_start c \<longleftrightarrow> c \<in> {CHR ''='', CHR ''+'', CHR ''-'', CHR ''@'', CHR 9, CHR 13}"

definition sanitizeCSVCell :: "string \<Rightarrow> string" where
  "sanitizeCSVCell s = (if s = [] then s else if formula_start (hd s) then CHR 39 # s else s)"

text \<open>\<open>fmt_float\<close> is \<open>strconv.FormatFloat(_, 'f', -1, 64)\<close>.\<close>

definition formatOptionalFloat :: "(f64 \<Rightarrow> string) \<Rightarrow> f64 option \<Rightarrow> string" where
  "formatOptionalFloat fmt_float v = (case v of None \<Rightarrow> [] | Some x \<Rightarrow> fmt_float x)"

definition csv_record :: "(f64 \<Rightarrow> string) \<Rightarrow> LocationPoint \<Rightarrow> string list" where
  "csv_record fmt_float p =
     [fmt_d (po_Timestamp p), fmt_float (po_Latitude p), fmt_float (po_Longitude p),
      formatOptionalFloat fmt_float (po_Bearing p), formatOptionalFloat fmt_float (po_Speed p),
      formatOptionalFloat fmt_float (po_Accuracy p), sanitizeCSVCell (po_TripID p), rfc3339 (po_ReceivedAt p)]"

text \<open>
  \<open>csv.Writer\<close>: a field with a comma, a quote or a line break in it, or a space in front, and the field \<open>\.\<close>,
  go in quotes, with the quotes inside doubled. \<open>lead_space\<close> says whether the first character is a space to
  \<open>unicode.IsSpace\<close>.
\<close>

definition lead_space :: "string \<Rightarrow> bool" where
  "lead_space s \<longleftrightarrow>
     (case map of_char s :: nat list of
        [] \<Rightarrow> False
      | a # rest \<Rightarrow>
          (if a < 128 then 9 \<le> a \<and> a \<le> 13 \<or> a = 32
           else case rest of
                  [] \<Rightarrow> False
                | b # rest' \<Rightarrow>
                    (if a = 0xC2 then b = 0x85 \<or> b = 0xA0
                     else case rest' of
                            [] \<Rightarrow> False
                          | c # _ \<Rightarrow>
                              a = 0xE1 \<and> b = 0x9A \<and> c = 0x80
                              \<or> a = 0xE2 \<and> b = 0x80 \<and> (0x80 \<le> c \<and> c \<le> 0x8A \<or> c = 0xA8 \<or> c = 0xA9 \<or> c = 0xAF)
                              \<or> a = 0xE2 \<and> b = 0x81 \<and> c = 0x9F
                              \<or> a = 0xE3 \<and> b = 0x80 \<and> c = 0x80)))"

definition needs_quotes :: "string \<Rightarrow> bool" where
  "needs_quotes field \<longleftrightarrow>
     field \<noteq> [] \<and> (field = [CHR 0x5C, CHR ''.''] \<or> list_ex (\<lambda>c. c \<in> {CHR 10, CHR 13, CHR 34, CHR '',''}) field \<or> lead_space field)"

definition csv_field :: "string \<Rightarrow> string" where
  "csv_field field =
     (if needs_quotes field
      then [CHR 34] @ concat (map (\<lambda>c. if c = CHR 34 then [CHR 34, CHR 34] else [c]) field) @ [CHR 34]
      else field)"

fun csv_join :: "string list \<Rightarrow> string" where
  "csv_join [] = []"
| "csv_join [f] = csv_field f"
| "csv_join (f # fs) = csv_field f @ '','' @ csv_join fs"

definition csv_line :: "string list \<Rightarrow> string" where
  "csv_line cells = csv_join cells @ [CHR 10]"

definition csv_header :: "string list" where
  "csv_header = [''timestamp'', ''latitude'', ''longitude'', ''bearing'', ''speed'', ''accuracy'', ''trip_id'', ''received_at'']"

definition writeCSV :: "(f64 \<Rightarrow> string) \<Rightarrow> string \<Rightarrow> LocationPoint list \<Rightarrow> history" where
  "writeCSV fmt_float vehicleID points =
     HistoryCSV (vehicleID @ ''_locations.csv'') (concat (map csv_line (csv_header # map (csv_record fmt_float) points)))"

text \<open>The window: \<open>to\<close> is now unless given, \<open>from\<close> a day before \<open>to\<close>.\<close>

definition history_window :: "gotime \<Rightarrow> string \<Rightarrow> string \<Rightarrow> string + int \<times> int" where
  "history_window now since till =
     (case parseOptionalInt64 till (unix_of now) of
        None \<Rightarrow> Inl ''to must be a valid unix timestamp''
      | Some t2 \<Rightarrow>
          (case parseOptionalInt64 since (wrap64 (t2 - 86400)) of
             None \<Rightarrow> Inl ''from must be a valid unix timestamp''
           | Some t1 \<Rightarrow> if t1 > t2 then Inl ''from must be less than or equal to to'' else Inr (t1, t2)))"

definition history_vehicle :: "string \<Rightarrow> string option" where  \<comment> \<open>the error, if any\<close>
  "history_vehicle vehicleID =
     (if vehicleID = [] then Some ''vehicle_id is required''
      else if length vehicleID > maxVehicleIDLength then Some ''vehicle_id must be at most 50 characters''
      else if \<not> vehicleIDPattern vehicleID
      then Some ''vehicle_id must contain only alphanumeric characters, dots, hyphens, and underscores''
      else None)"

definition history_page :: "(f64 \<Rightarrow> string) \<Rightarrow> string \<Rightarrow> string \<Rightarrow> int \<Rightarrow> LocationPoint list \<Rightarrow> history" where
  "history_page fmt_float format vehicleID limit points =
     (let hasMore = int (length points) > limit; shown = (if hasMore then take (nat limit) points else points)
      in if format = ''csv'' then writeCSV fmt_float vehicleID shown
         else HistoryJSON \<lparr>lh_VehicleID = vehicleID, lh_Count = length shown, lh_HasMore = hasMore,
                           lh_Locations = map location_entry shown\<rparr>)"

definition handleGetLocationHistory ::
  "(f64 \<Rightarrow> string) \<Rightarrow> gotime \<Rightarrow> string \<Rightarrow> string \<Rightarrow> string \<Rightarrow> string \<Rightarrow> string \<Rightarrow> history answer call" where
  "handleGetLocationHistory fmt_float now vehicleID since till limit format =
     (case history_vehicle vehicleID of
        Some msg \<Rightarrow> answer (HErr 400 msg)
      | None \<Rightarrow>
          (case history_window now since till of
             Inl msg \<Rightarrow> answer (HErr 400 msg)
           | Inr (t1, t2) \<Rightarrow>
               (case parseLimit limit defaultHistoryLimit maxHistoryLimit of
                  Inl msg \<Rightarrow> answer (HErr 400 msg)
                | Inr l \<Rightarrow>
                    (if format \<notin> {[], ''json'', ''csv''} then answer (HErr 400 ''format must be json or csv'')
                     else serve (Store_VehicleExists vehicleID) (\<lambda>found.
                       case found of
                         Inl e \<Rightarrow> answer server_error
                       | Inr exists \<Rightarrow>
                           (if \<not> exists then answer (HErr 404 ''vehicle not found'')
                            else serve (Store_GetLocationHistory vehicleID t1 t2 (l + 1)) (\<lambda>res.
                              answer (case res of
                                        Inl e \<Rightarrow> server_error
                                      | Inr points \<Rightarrow> HOk 200 (history_page fmt_float format vehicleID l points)))))))))"

end
