(* ===== verification/TripsProps.thy ===== *)
theory TripsProps
  imports Trips FleetProps FeedProps
begin

text \<open>
  What drivers' trips, their lists and the history export promise.
\<close>

section \<open>Trips\<close>

definition on_trip :: "int \<Rightarrow> Database \<Rightarrow> bool" where
  "on_trip uid d \<longleftrightarrow> (\<exists>t \<in> set (db_trips d). t_UserID t = uid \<and> t_Status t = ''active'')"

lemma read_one_none: "read_one rows d = (case rows of [] \<Rightarrow> Inl NoRows | r # _ \<Rightarrow> Inr (r, d))"
  by (simp add: read_one_def one_row_def split: list.splits)

lemma read_filter:
  "(\<exists>r \<in> set rows. p r) \<Longrightarrow> \<exists>r. read_one (filter p rows) d = Inr (r, d)"
  "\<not> (\<exists>r \<in> set rows. p r) \<Longrightarrow> read_one (filter p rows) d = Inl NoRows"
  by (auto simp: read_one_none filter_empty_conv split: list.splits)

lemma assigned_known:
  assumes "db_ok d" "assigned uid vid d"
  shows "known_user uid d" "known_vehicle vid d"
  using assms refersD [of uv_UserID "db_user_vehicles d" u_ID "db_users d"]
    refersD [of uv_VehicleID "db_user_vehicles d" v_ID "db_vehicles d"]
  by (auto simp: ok_defs assigned_def known_user_def known_vehicle_def)

definition new_trip :: "int \<Rightarrow> string \<Rightarrow> string \<Rightarrow> string \<Rightarrow> gotime \<Rightarrow> Database \<Rightarrow> TripRow" where
  "new_trip uid vid route gtfs now d =
     \<lparr>t_ID = db_serial d, t_UserID = uid, t_VehicleID = vid, t_RouteID = route, t_GtfsTripID = gtfs, t_StartTime = now,
      t_EndTime = None, t_Status = ''active'', t_CreatedAt = now, t_UpdatedAt = now\<rparr>"

lemma start_trip_outcome:
  assumes "db_ok d"
  shows "Store_StartTrip uid vid route gtfs now ([], d) =
     (if \<not> assigned uid vid d then (Inl ErrNotAssigned, [], d)
      else if on_trip uid d then (Inl ErrActiveTripExists, [], d)
      else (Inr (trip_response (new_trip uid vid route gtfs now d)), [],
            d\<lparr>db_trips := db_trips d @ [new_trip uid vid route gtfs now d], db_serial := db_serial d + 1\<rparr>))"
proof -
  let ?here = "\<lambda>uv. uv_UserID uv = uid \<and> uv_VehicleID uv = vid" and ?active = "\<lambda>t. t_UserID t = uid \<and> t_Status t = ''active''"
  show ?thesis
  proof (cases "assigned uid vid d")
    case False
    then have "db_CheckUserVehicleAssignment uid vid d = Inl NoRows"
      using read_filter(2) [of "db_user_vehicles d" ?here] by (auto simp: db_CheckUserVehicleAssignment_def assigned_def)
    then show ?thesis
      using False by (simp add: Store_StartTrip_def serve_def in_tx_def begin_tx_def start_trip_body_def and_then_def exec_def
          next_trip_def no_rows_as_def answer_def)
  next
    case True
    then obtain uv where a: "db_CheckUserVehicleAssignment uid vid d = Inr (uv, d)"
      using read_filter(1) [of "db_user_vehicles d" ?here d] by (auto simp: db_CheckUserVehicleAssignment_def assigned_def)
    show ?thesis
    proof (cases "on_trip uid d")
      case active: True
      then obtain t where "db_GetActiveTripByUser uid d = Inr (t, d)"
        using read_filter(1) [of "db_trips d" ?active d] by (auto simp: db_GetActiveTripByUser_def on_trip_def)
      then show ?thesis
        using True active a by (simp add: Store_StartTrip_def serve_def in_tx_def begin_tx_def start_trip_body_def and_then_def
            exec_def next_trip_def answer_def)
    next
      case idle: False
      then have "db_GetActiveTripByUser uid d = Inl NoRows"
        using read_filter(2) [of "db_trips d" ?active d] by (auto simp: db_GetActiveTripByUser_def on_trip_def)
      moreover have "db_StartTrip uid vid route gtfs now d = Inr (new_trip uid vid route gtfs now d,
          d\<lparr>db_trips := db_trips d @ [new_trip uid vid route gtfs now d], db_serial := db_serial d + 1\<rparr>)"
        using idle assigned_known [OF assms True]
        by (simp add: db_StartTrip_def list_ex_iff on_trip_def known_user_def known_vehicle_def Let_def new_trip_def)
      ultimately show ?thesis
        using True idle a by (simp add: Store_StartTrip_def serve_def in_tx_def begin_tx_def start_trip_body_def and_then_def
            exec_def next_trip_def answer_def)
    qed
  qed
qed

text \<open>
  C25: a driver starts a trip exactly when the vehicle is assigned to them and they are on no other trip. For
  a valid request in any database the server can reach, the answer is 403 without the assignment, 409 during
  another trip, and otherwise 201 with one new active trip of that driver, vehicle, route and schedule trip;
  no broken reference can turn it into a 500.
\<close>

theorem trip_start_decides:
  assumes "db_reachable d" "is_json (hr_MediaType r)" "userIDFromClaims ctx = (Inr uid :: TripResponse answer + int)"
    "validate_trip_start req = None"
  shows "handleStartTrip now ctx r (Decoded req NoMore) ([], d) =
     (if \<not> assigned uid (sp_VehicleID req) d then (HErr 403 ''driver is not assigned to this vehicle'', [], d)
      else if on_trip uid d then (HErr 409 ''driver already has an active trip'', [], d)
      else (let t = new_trip uid (sp_VehicleID req) (sp_RouteID req) (sp_GtfsTripID req) now d
            in (HOk 201 (trip_response t), [], d\<lparr>db_trips := db_trips d @ [t], db_serial := db_serial d + 1\<rparr>)))"
  using assms start_trip_outcome [OF reachable_ok [OF assms(1)]]
  by (simp add: handleStartTrip_def strict_body_def serve_def answer_def Let_def)

definition completed_trips :: "int \<Rightarrow> int \<Rightarrow> gotime \<Rightarrow> TripRow list \<Rightarrow> TripRow list" where
  "completed_trips i uid now ts =
     map (\<lambda>t. if t_ID t = i \<and> t_UserID t = uid \<and> t_Status t = ''active''
              then t\<lparr>t_Status := ''completed'', t_EndTime := Some now, t_UpdatedAt := now\<rparr> else t) ts"

lemma db_EndTrip_rows:
  assumes "db_EndTrip i uid now d = Inr (n, d1)"
  shows "db_trips d1 = completed_trips i uid now (db_trips d)"
    and "n = 0 \<Longrightarrow> completed_trips i uid now (db_trips d) = db_trips d"
    and "n \<noteq> 0 \<Longrightarrow> \<exists>t \<in> set (db_trips d). t_ID t = i \<and> t_UserID t = uid \<and> t_Status t = ''active''"
proof -
  let ?p = "\<lambda>t. t_ID t = i \<and> t_UserID t = uid \<and> t_Status t = ''active''"
  have n: "n = count_rows ?p (db_trips d)" and rows: "db_trips d1 = completed_trips i uid now (db_trips d)"
    using assms by (auto simp: db_EndTrip_def Let_def update_rows_def completed_trips_def)
  show "db_trips d1 = completed_trips i uid now (db_trips d)"
    by (fact rows)
  show "completed_trips i uid now (db_trips d) = db_trips d" if "n = 0"
    using that unfolding n completed_trips_def count_rows_def by (intro map_idI) (auto simp: filter_empty_conv)
  show "\<exists>t \<in> set (db_trips d). ?p t" if "n \<noteq> 0"
    using that unfolding n count_rows_def by (auto simp: filter_empty_conv)
qed

lemma EndTrip_outcome:
  assumes "Store_EndTrip i uid now (net, d) = (res, net', d')"
  shows "case res of
      Inr _ \<Rightarrow> (\<exists>t \<in> set (db_trips d). t_ID t = i \<and> t_UserID t = uid \<and> t_Status t = ''active'')
        \<and> db_trips d' = completed_trips i uid now (db_trips d)
    | Inl e \<Rightarrow> e \<noteq> ErrTripNotFound \<or> db_trips d' = db_trips d"
proof (cases "exec (db_EndTrip i uid now) (net, d)")
  case (fields r net1 d1)
  show ?thesis
  proof (cases r)
    case (Inl e)
    then show ?thesis
      using assms fields by (auto simp: Store_EndTrip_def and_then_def)
  next
    case (Inr n)
    then have "db_EndTrip i uid now d = Inr (n, d1)"
      using fields exec_Inr by simp
    then show ?thesis
      using assms fields Inr db_EndTrip_rows [of i uid now d n d1]
      by (auto simp: Store_EndTrip_def and_then_def answer_def split: if_splits)
  qed
qed

text \<open>
  Only its own driver ends a trip, and only once. A 200 means the trip was that driver's and active, and
  that it is completed now with every other trip as it was; any other answer but a 500 changes no trip.
\<close>

theorem trip_end_is_own:
  assumes "handleEndTrip now ctx r body (net, d) = (ans, net', d')"
  shows "case ans of
      HOk status _ \<Rightarrow> (\<exists>uid tripID. userIDFromClaims ctx = (Inr uid :: unit answer + int) \<and> body = Decoded tripID NoMore
        \<and> status = 200 \<and> (\<exists>t \<in> set (db_trips d). t_ID t = tripID \<and> t_UserID t = uid \<and> t_Status t = ''active'')
        \<and> db_trips d' = completed_trips tripID uid now (db_trips d))
    | HErr status _ \<Rightarrow> status = 500 \<or> db_trips d' = db_trips d"
  using assms
  by (auto simp: handleEndTrip_def strict_body_def answer_def too_large_def
      split: if_splits body.splits rest.splits sum.splits elim!: serve_cases dest!: EndTrip_outcome)
    (auto simp: userIDFromClaims_def split: option.splits if_splits)

section \<open>Paging\<close>

lemma int32_fits: "0 \<le> n \<Longrightarrow> n < 2 ^ 31 \<Longrightarrow> wrap32 n = n"
  by (simp add: wrap32_def)

text \<open>One row more than the page is fetched; whether it came says if there is a next page.\<close>

lemma page_slice:
  assumes "0 \<le> l"
  shows "(let trips = take (nat (l + 1)) rows; more = int (length trips) > l
          in (more, if more then take (nat l) trips else trips)) = (int (length rows) > l, take (nat l) rows)"
proof -
  have "nat (l + 1) = Suc (nat l)"
    using assms by simp
  then show ?thesis
    using assms by (auto simp: Let_def min_def)
qed

text \<open>
  The pages of the trip list are slices of the one list of matching trips, newest first: a page holds the
  rows from its offset on, at most its limit, its count is their number, and it says there is more exactly when
  a row follows. So pages taken one limit apart list every trip once.
\<close>

theorem trip_pages_partition:
  assumes "validTripStatus status" "parsePage limit offset defaultTripListLimit maxTripListLimit = Inr (l, f)"
    "trip_list_user user_id = Inr uid"
  shows "1 \<le> l \<and> l \<le> 200 \<and> 0 \<le> f
    \<and> (\<exists>flt rows. tf_Status flt = status \<and> tf_VehicleID flt = vehicle_id \<and> tf_UserID flt = uid \<and> tf_Q flt = q
         \<and> rows = map trip_summary (matching_trips lc flt d)
         \<and> handleListTrips lc status limit offset user_id vehicle_id q ([], d)
             = (HOk 200 \<lparr>tlr_Count = length (take (nat l) (drop (nat f) rows)), tlr_HasMore = (int (length rows) > f + l),
                         tlr_Trips = take (nat l) (drop (nat f) rows)\<rparr>, [], d)
         \<and> concat (map (\<lambda>k. take (nat l) (drop (k * nat l) rows)) [0..<length rows]) = rows)"
proof -
  have lf: "1 \<le> l" "l \<le> 200" "0 \<le> f"
    using assms(2) by (auto simp: parsePage_def parseLimit_def maxTripListLimit_def split: sum.splits option.splits if_splits)
  let ?flt = "\<lparr>tf_Status = status, tf_VehicleID = vehicle_id, tf_UserID = uid, tf_Q = q, tf_Limit = l + 1, tf_Offset = f\<rparr>"
  define rows where "rows = map trip_summary (matching_trips lc ?flt d)"
  have more: "int (length (drop (nat f) rows)) > l \<longleftrightarrow> int (length rows) > f + l"
    using lf by auto
  have pages: "concat (map (\<lambda>k. take n (drop (k * n) xs)) [0..<m]) = take (m * n) xs" for n m and xs :: "TripSummary list"
  proof (induction m)
    case (Suc m)
    then show ?case
      using take_add [of "m * n" n xs] by (simp add: add.commute)
  qed simp
  have "length rows \<le> length rows * nat l"
    using lf by (simp add: Suc_le_eq)
  then have whole: "concat (map (\<lambda>k. take (nat l) (drop (k * nat l) rows)) [0..<length rows]) = rows"
    unfolding pages by simp
  have page: "trip_page l (take (nat (l + 1)) xs)
      = \<lparr>tlr_Count = length (take (nat l) xs), tlr_HasMore = (int (length xs) > l), tlr_Trips = take (nat l) xs\<rparr>" for xs
    using page_slice [of l xs] lf by (simp add: trip_page_def Let_def)
  have "handleListTrips lc status limit offset user_id vehicle_id q ([], d)
      = (HOk 200 (trip_page l (take (nat (l + 1)) (drop (nat f) rows))), [], d)"
    using assms lf by (simp add: handleListTrips_def serve_def Store_ListTrips_def and_then_def exec_def next_trip_def
        db_ListTrips_def page_rows_def answer_def rows_def take_map drop_map)
  then show ?thesis
    using lf whole more page [of "drop (nat f) rows"] by (intro conjI exI [of _ ?flt] exI [of _ rows]) (simp_all add: rows_def)
qed

theorem trip_pages_partition_witness:
  "handleListTrips ascii_lower [] [] [] [] [] [] ([], empty_db)
     = (HOk 200 \<lparr>tlr_Count = 0, tlr_HasMore = False, tlr_Trips = []\<rparr>, [], empty_db)"
proof -
  have page: "parsePage [] [] defaultTripListLimit maxTripListLimit = Inr (50, 0)"
    by (simp add: parsePage_def parseLimit_def parseOptionalInt_def defaultTripListLimit_def maxTripListLimit_def maxListOffset_def)
  have none: "matching_trips ascii_lower flt empty_db = []" for flt
    by (simp add: matching_trips_def empty_db_def order_desc_def stable_sort_def)
  show ?thesis
    using trip_pages_partition [of "[]" "[]" "[]" 50 0 "[]" 0 "[]" "[]" ascii_lower empty_db, OF _ page]
    by (auto simp: validTripStatus_def trip_list_user_def none)
qed

definition driver_claims :: MapClaims where
  "driver_claims = [''sub'' \<mapsto> JStr ''1'']"

lemma driver_claims_id: "userIDFromClaims (Some driver_claims) = Inr 1"
proof -
  have "parse_int64 ''1'' = Some 1" by code_simp
  then show ?thesis
    by (simp add: userIDFromClaims_def driver_claims_def str_claim_def)
qed

definition trip_request :: StartTripRequest where
  "trip_request = \<lparr>sp_VehicleID = ''bus-1'', sp_RouteID = ''5'', sp_GtfsTripID = ''t1''\<rparr>"

theorem trip_start_decides_witness:
  "handleStartTrip 5 (Some driver_claims) json_request (Decoded trip_request NoMore) ([], empty_db)
     = (HErr 403 ''driver is not assigned to this vehicle'', [], empty_db)"
proof -
  have "validate_trip_start trip_request = None"
    by (simp add: validate_trip_start_def trip_request_def maxVehicleIDLength_def vehicleIDPattern_def is_digit_def)
  from trip_start_decides [OF db_reachable.reach_empty json_request_ok driver_claims_id this, of 5] show ?thesis
    by (simp add: assigned_def empty_db_def)
qed

definition riding_db :: Database where
  "riding_db = empty_db\<lparr>db_trips := [new_trip 1 ''bus-1'' ''5'' ''t1'' 5 empty_db]\<rparr>"

theorem trip_end_is_own_witness:
  "\<exists>d'. handleEndTrip 9 (Some driver_claims) json_request (Decoded 1 NoMore) ([], riding_db) = (HOk 200 (), [], d')
     \<and> db_trips d' = completed_trips 1 1 9 (db_trips riding_db)"
proof -
  obtain d' where run: "handleEndTrip 9 (Some driver_claims) json_request (Decoded 1 NoMore) ([], riding_db) = (HOk 200 (), [], d')"
    by (simp add: handleEndTrip_def json_request_ok driver_claims_id strict_body_def serve_def Store_EndTrip_def and_then_def
        exec_def next_trip_def db_EndTrip_def Let_def count_rows_def riding_db_def new_trip_def empty_db_def answer_def)
  have "userIDFromClaims (Some driver_claims) = (Inr uid :: unit answer + int) \<Longrightarrow> uid = 1" for uid
    by (simp add: driver_claims_id)
  then show ?thesis
    using trip_end_is_own [OF run] run by auto
qed

section \<open>The history of a vehicle\<close>

text \<open>
  The format of RFC 4180, as a relation between a text and what it holds: a cell stands bare if it has no comma, quote or
  line break, or goes in quotes, where only a quote is special and two of them stand for one; every record ends with a
  line feed or with a carriage return and a line feed.
\<close>

definition doubled :: "string \<Rightarrow> string" where
  "doubled f = concat (map (\<lambda>c. if c = CHR 34 then [CHR 34, CHR 34] else [c]) f)"

inductive csv_cell :: "string \<Rightarrow> string \<Rightarrow> bool" where
  csv_bare: "\<forall>c \<in> set f. c \<notin> {CHR 10, CHR 13, CHR 34, CHR '',''} \<Longrightarrow> csv_cell f f"
| csv_quoted: "csv_cell (CHR 34 # doubled f @ [CHR 34]) f"

inductive csv_row :: "string \<Rightarrow> string list \<Rightarrow> bool" where
  csv_one: "csv_cell t f \<Longrightarrow> csv_row t [f]"
| csv_more: "csv_cell t f \<Longrightarrow> csv_row u fs \<Longrightarrow> csv_row (t @ CHR '','' # u) (f # fs)"

inductive csv_file :: "string \<Rightarrow> string list list \<Rightarrow> bool" where
  csv_nothing: "csv_file [] []"
| csv_next: "csv_row t fs \<Longrightarrow> e = [CHR 10] \<or> e = [CHR 13, CHR 10] \<Longrightarrow> csv_file u rows \<Longrightarrow> csv_file (t @ e @ u) (fs # rows)"

text \<open>A reader of the format, to show that a text can be read in one way only.\<close>

datatype csv_mode = Opening | Plain | Inside | Closing

fun csv_read :: "csv_mode \<Rightarrow> string \<Rightarrow> string list \<Rightarrow> string \<Rightarrow> string list list" where
  "csv_read m cell cells [] = (if cell = [] \<and> cells = [] then [] else [cells @ [cell]])"
| "csv_read Inside cell cells (c # s) =
     (if c = CHR 34 then csv_read Closing cell cells s else csv_read Inside (cell @ [c]) cells s)"
| "csv_read m cell cells (c # s) =
     (if c = CHR 34 then csv_read Inside (if m = Closing then cell @ [CHR 34] else []) cells s
      else if c = CHR '','' then csv_read Opening [] (cells @ [cell]) s
      else if c = CHR 10 then (cells @ [cell]) # csv_read Opening [] [] s
      else if c = CHR 13 then csv_read m cell cells s
      else csv_read Plain (cell @ [c]) cells s)"

text \<open>What ends a cell, and how the reader goes on behind it.\<close>

definition csv_stop :: "string \<Rightarrow> bool" where
  "csv_stop e \<longleftrightarrow> e = '','' \<or> e = [CHR 10] \<or> e = [CHR 13, CHR 10]"

definition csv_end :: "string \<Rightarrow> string list \<Rightarrow> string \<Rightarrow> string \<Rightarrow> string list list" where
  "csv_end cell cells e s =
     (if e = '','' then csv_read Opening [] (cells @ [cell]) s else (cells @ [cell]) # csv_read Opening [] [] s)"

lemma read_stop: "csv_stop e \<Longrightarrow> m \<noteq> Inside \<Longrightarrow> csv_read m cell cells (e @ s) = csv_end cell cells e s"
  by (cases m) (auto simp: csv_stop_def csv_end_def)

lemma read_plain:
  assumes "\<forall>c \<in> set f. c \<notin> {CHR 10, CHR 13, CHR 34, CHR '',''}" "csv_stop e"
  shows "csv_read Plain cell cells (f @ e @ s) = csv_end (cell @ f) cells e s"
  using assms by (induction f arbitrary: cell) (auto simp: read_stop)

lemma read_quoted:
  assumes "csv_stop e"
  shows "csv_read Inside cell cells (doubled f @ CHR 34 # e @ s) = csv_end (cell @ f) cells e s"
  using assms by (induction f arbitrary: cell) (auto simp: doubled_def read_stop)

lemma read_cell: "csv_cell t f \<Longrightarrow> csv_stop e \<Longrightarrow> csv_read Opening [] cells (t @ e @ s) = csv_end f cells e s"
proof (induction rule: csv_cell.induct)
  case (csv_bare f)
  then show ?case
    using read_plain [of "tl f" e "[hd f]" cells s] by (cases f) (auto simp: read_stop)
qed (simp add: read_quoted)

lemma read_row:
  "csv_row t fs \<Longrightarrow> e = [CHR 10] \<or> e = [CHR 13, CHR 10]
    \<Longrightarrow> csv_read Opening [] cells (t @ e @ s) = (cells @ fs) # csv_read Opening [] [] s"
proof (induction arbitrary: cells rule: csv_row.induct)
  case (csv_one t f)
  then show ?case
    using read_cell [of t f e cells s] by (auto simp: csv_stop_def csv_end_def)
next
  case (csv_more t f u fs)
  then show ?case
    using read_cell [of t f "'',''" cells "u @ e @ s"] by (simp add: csv_stop_def csv_end_def)
qed

lemma read_file: "csv_file t rows \<Longrightarrow> csv_read Opening [] [] t = rows"
  by (induction rule: csv_file.induct) (simp_all add: read_row)

text \<open>What the writer writes has the format.\<close>

lemma csv_field_cell: "csv_cell (csv_field f) f"
proof (cases "needs_quotes f")
  case True
  then show ?thesis
    using csv_quoted [of f] by (simp add: csv_field_def doubled_def)
next
  case False
  then have "\<forall>c \<in> set f. c \<notin> {CHR 10, CHR 13, CHR 34, CHR '',''}"
    by (cases f) (auto simp: needs_quotes_def list_ex_iff)
  then show ?thesis
    using False csv_bare by (simp add: csv_field_def)
qed

lemma csv_join_row: "fs \<noteq> [] \<Longrightarrow> csv_row (csv_join fs) fs"
  by (induction fs rule: csv_join.induct) (auto intro: csv_row.intros csv_field_cell)

lemma csv_lines_file: "\<forall>r \<in> set rows. r \<noteq> [] \<Longrightarrow> csv_file (concat (map csv_line rows)) rows"
proof (induction rows)
  case (Cons r rows)
  then show ?case
    using csv_next [OF csv_join_row [of r], of "[CHR 10]" "concat (map csv_line rows)" rows] by (simp add: csv_line_def [of r])
qed (simp add: csv_nothing)

text \<open>
  C31: the exported history reads back as what was exported, and no cell a driver chose can run as a formula.
  The text of the export has the format of RFC 4180 and, whatever commas, quotes and line breaks the trip ids hold, can
  be read in that format in one way only: as the header and one record per point, with the fields as they were. (A
  reader that departs from the format, as Go's own does where it turns the two characters of a line break inside quotes
  into one, is not covered.) The trip id's cell is the id, with an apostrophe in front if the id would start a formula,
  so that it never does.
\<close>

theorem csv_reads_back:
  "\<exists>text. writeCSV fmt_float vehicleID points = HistoryCSV (vehicleID @ ''_locations.csv'') text
     \<and> (\<forall>rows. csv_file text rows \<longleftrightarrow> rows = csv_header # map (csv_record fmt_float) points)
     \<and> csv_record fmt_float p ! 6 \<in> {po_TripID p, CHR 39 # po_TripID p}
     \<and> \<not> (csv_record fmt_float p ! 6 \<noteq> [] \<and> formula_start (hd (csv_record fmt_float p ! 6)))"
proof -
  let ?rows = "csv_header # map (csv_record fmt_float) points"
  have "\<forall>r \<in> set ?rows. r \<noteq> []"
    by (auto simp: csv_header_def csv_record_def)
  then have written: "csv_file (concat (map csv_line ?rows)) ?rows"
    by (rule csv_lines_file)
  then have "csv_file (concat (map csv_line ?rows)) rows \<longleftrightarrow> rows = ?rows" for rows
    using written read_file [OF written] read_file [of _ rows] by metis
  moreover have "\<not> formula_start (CHR 39)"
    by (simp add: formula_start_def)
  ultimately show ?thesis
    unfolding writeCSV_def by (auto simp: csv_record_def sanitizeCSVCell_def)
qed

lemma parse_limit_bounds: "parseLimit s df mx = Inr l \<Longrightarrow> 1 \<le> l \<and> l \<le> mx"
  by (auto simp: parseLimit_def split: option.splits if_splits)

text \<open>
  The history is the window asked for. For a vehicle that exists and parameters that pass, the points are
  those of that vehicle whose device time lies in the window, newest first and at most as many as asked for;
  the answer says there are more exactly when there are, and both formats carry the same points.
\<close>

theorem history_is_window:
  assumes "history_vehicle vid = None" "history_window now since till = Inr (t1, t2)"
    "parseLimit limit defaultHistoryLimit maxHistoryLimit = Inr l" "format \<in> {[], ''json'', ''csv''}" "known_vehicle vid d"
  shows "\<exists>rows shown. mset rows = filter_mset (\<lambda>p. lp_VehicleID p = vid \<and> t1 \<le> lp_Timestamp p \<and> lp_Timestamp p \<le> t2)
        (mset (db_location_points d))
    \<and> sorted_wrt (\<lambda>p q. lp_Timestamp q \<le> lp_Timestamp p) rows \<and> shown = map point_of (take (nat l) rows)
    \<and> handleGetLocationHistory fmt_float now vid since till limit format ([], d) =
        (HOk 200 (if format = ''csv'' then writeCSV fmt_float vid shown
                  else HistoryJSON \<lparr>lh_VehicleID = vid, lh_Count = length shown, lh_HasMore = (int (length rows) > l),
                                    lh_Locations = map location_entry shown\<rparr>), [], d)"
proof -
  define rows where "rows = order_desc lp_Timestamp (\<lambda>_. 0 :: int)
      (filter (\<lambda>p. lp_VehicleID p = vid \<and> t1 \<le> lp_Timestamp p \<and> lp_Timestamp p \<le> t2) (db_location_points d))"
  have l: "1 \<le> l" "l \<le> 1000"
    using parse_limit_bounds [OF assms(3)] by (simp_all add: maxHistoryLimit_def)
  then have fits: "wrap32 (l + 1) = l + 1"
    by (intro int32_fits) simp_all
  have m: "mset rows = filter_mset (\<lambda>p. lp_VehicleID p = vid \<and> t1 \<le> lp_Timestamp p \<and> lp_Timestamp p \<le> t2)
        (mset (db_location_points d))"
    by (simp add: rows_def order_desc_def mset_filter)
  have s: "sorted_wrt (\<lambda>p q. lp_Timestamp q \<le> lp_Timestamp p) rows"
    unfolding rows_def by (rule order_desc_sorted)
  have page: "history_page fmt_float format vid l (map point_of (take (nat (l + 1)) rows))
      = (if format = ''csv'' then writeCSV fmt_float vid (map point_of (take (nat l) rows))
         else HistoryJSON \<lparr>lh_VehicleID = vid, lh_Count = length (map point_of (take (nat l) rows)),
                lh_HasMore = (int (length rows) > l), lh_Locations = map location_entry (map point_of (take (nat l) rows))\<rparr>)"
    using page_slice [of l "map point_of rows"] l by (simp add: history_page_def Let_def take_map)
  have "list_ex (\<lambda>v. v_ID v = vid) (db_vehicles d)"
    using assms(5) by (auto simp: known_vehicle_def list_ex_iff)
  then have "handleGetLocationHistory fmt_float now vid since till limit format ([], d)
      = (HOk 200 (history_page fmt_float format vid l (map point_of (take (nat (l + 1)) rows))), [], d)"
    using assms(1-4) l fits
    by (simp add: handleGetLocationHistory_def serve_def Store_VehicleExists_def and_then_def exec_def next_trip_def
        db_VehicleExists_def answer_def Store_GetLocationHistory_def db_GetLocationHistory_def rows_def)
  then show ?thesis
    using m s page by (intro exI [of _ rows] exI [of _ "map point_of (take (nat l) rows)"] conjI) simp_all
qed

definition history_db :: Database where
  "history_db = empty_db\<lparr>db_vehicles := [\<lparr>v_ID = ''bus-1'', v_Label = [], v_AgencyTag = [], v_Active = True,
     v_CreatedAt = 0, v_UpdatedAt = 0\<rparr>], db_location_points := [recorded_row late_report 950 1]\<rparr>"

theorem history_is_window_witness:
  "\<exists>shown. handleGetLocationHistory (\<lambda>_. []) 0 ''bus-1'' ''900'' ''2000'' [] [] ([], history_db)
     = (HOk 200 (HistoryJSON \<lparr>lh_VehicleID = ''bus-1'', lh_Count = length shown, lh_HasMore = False,
          lh_Locations = map location_entry shown\<rparr>), [], history_db)"
proof -
  have numbers: "parse_int64 ''900'' = Some 900" "parse_int64 ''2000'' = Some 2000"
    by code_simp+
  have vehicle: "history_vehicle ''bus-1'' = None"
    by (simp add: history_vehicle_def maxVehicleIDLength_def vehicleIDPattern_def is_digit_def)
  have window: "history_window 0 ''900'' ''2000'' = Inr (900, 2000)"
    using numbers by (simp add: history_window_def parseOptionalInt64_def)
  have limit: "parseLimit [] defaultHistoryLimit maxHistoryLimit = Inr 100"
    by (simp add: parseLimit_def parseOptionalInt_def defaultHistoryLimit_def maxHistoryLimit_def)
  have known: "known_vehicle ''bus-1'' history_db"
    by (simp add: known_vehicle_def history_db_def)
  obtain rows shown where r: "mset rows = filter_mset (\<lambda>p. lp_VehicleID p = ''bus-1'' \<and> 900 \<le> lp_Timestamp p \<and> lp_Timestamp p \<le> 2000)
        (mset (db_location_points history_db))"
      "handleGetLocationHistory (\<lambda>_. []) 0 ''bus-1'' ''900'' ''2000'' [] [] ([], history_db) =
        (HOk 200 (if [] = ''csv'' then writeCSV (\<lambda>_. []) ''bus-1'' shown
          else HistoryJSON \<lparr>lh_VehicleID = ''bus-1'', lh_Count = length shown, lh_HasMore = (int (length rows) > 100),
                                    lh_Locations = map location_entry shown\<rparr>), [], history_db)"
    using history_is_window [OF vehicle window limit insertI1 known, of "\<lambda>_. []"] by (elim exE conjE) (rule that)
  have "size (mset rows) \<le> 1"
    unfolding r(1) by (rule order_trans [OF size_filter_mset_lesseq]) (simp add: history_db_def)
  then show ?thesis
    using r(2) by (intro exI [of _ shown]) simp
qed

end
