(* ===== verification/Catalog.thy ===== *)
theory Catalog
  imports Fleet Verify
begin

text \<open>
  The schedule as a service: loading a static feed and refreshing it (\<open>src/rider/loader.go\<close>), the copy kept in
  the database for an outage (\<open>src/store_gtfs_cache.go\<close>, \<open>src/gtfs_wiring.go\<close>) and the catalog the drivers
  read (\<open>src/gtfs_handlers.go\<close>). Downloading, reading a file, parsing a feed and SHA-256 are parameters.
\<close>

section \<open>Loading a feed\<close>

record feed_sources =
  fz_file :: "string \<Rightarrow> string option"                        \<comment> \<open>\<open>os.ReadFile\<close>\<close>
  fz_get :: "string \<Rightarrow> (nat \<times> string option) option"         \<comment> \<open>the status of a GET, and its body if it could be read\<close>
  fz_parse :: "string \<Rightarrow> Static option"                      \<comment> \<open>\<open>gtfs.ParseStatic\<close>\<close>
  fz_location :: "string \<Rightarrow> location option"                 \<comment> \<open>\<open>time.LoadLocation\<close>\<close>
  fz_sha256 :: "string \<Rightarrow> string"

datatype load_error =
    ReadFileFailed
  | GetFailed
  | GotStatus nat
  | BodyFailed
  | ParseFailed
  | NoTimezone
  | NoCache                  \<comment> \<open>the server keeps no cache\<close>
  | CacheFailed StoreError
  | CachedOther string       \<comment> \<open>the cached copy is of another source\<close>

definition maxFeedBytes :: nat where "maxFeedBytes = 512 * 2 ^ 20"

definition FetchFeed :: "feed_sources \<Rightarrow> string \<Rightarrow> load_error + string" where
  "FetchFeed z source =
     (if \<not> has_prefix ''http://'' source \<and> \<not> has_prefix ''https://'' source
      then (case fz_file z source of None \<Rightarrow> Inl ReadFileFailed | Some body \<Rightarrow> Inr body)
      else case fz_get z source of
             None \<Rightarrow> Inl GetFailed
           | Some (status, body) \<Rightarrow>
               (if status \<noteq> 200 then Inl (GotStatus status)
                else case body of None \<Rightarrow> Inl BodyFailed | Some b \<Rightarrow> Inr (take maxFeedBytes b)))"

definition parseStatic :: "feed_sources \<Rightarrow> string \<Rightarrow> load_error + Static" where
  "parseStatic z body = (case fz_parse z body of None \<Rightarrow> Inl ParseFailed | Some static \<Rightarrow> Inr static)"

definition IndexFromBytes :: "feed_sources \<Rightarrow> string \<Rightarrow> string \<Rightarrow> gotime \<Rightarrow> load_error + Index" where
  "IndexFromBytes z body source now =
     (case parseStatic z body of
        Inl e \<Rightarrow> Inl e
      | Inr static \<Rightarrow>
          (case BuildIndex (fz_location z) static source now of None \<Rightarrow> Inl NoTimezone | Some ix \<Rightarrow> Inr ix))"

definition LoadStatic :: "feed_sources \<Rightarrow> string \<Rightarrow> load_error + Static" where
  "LoadStatic z source = (case FetchFeed z source of Inl e \<Rightarrow> Inl e | Inr body \<Rightarrow> parseStatic z body)"

definition LoadIndex :: "feed_sources \<Rightarrow> string \<Rightarrow> gotime \<Rightarrow> load_error + Index" where
  "LoadIndex z source now =
     (case FetchFeed z source of Inl e \<Rightarrow> Inl e | Inr body \<Rightarrow> IndexFromBytes z body source now)"

section \<open>The copy in the database\<close>

record CachedGTFSFeed =
  cg_Source :: string
  cg_Body :: string
  cg_FetchedAt :: gotime

definition Store_LoadGTFSFeed :: "(StoreError + CachedGTFSFeed) call" where
  "Store_LoadGTFSFeed =
     and_then (exec db_GetGTFSFeedCache) (no_rows_as ErrNoCachedGTFSFeed) (\<lambda>row.
       answer (Inr \<lparr>cg_Source = fc_Source row, cg_Body = fc_Body row, cg_FetchedAt = fc_FetchedAt row\<rparr>))"

definition Store_SaveGTFSFeed :: "(string \<Rightarrow> string) \<Rightarrow> string \<Rightarrow> string \<Rightarrow> gotime \<Rightarrow> (StoreError + unit) call" where
  "Store_SaveGTFSFeed sha256 source body now =
     serve (exec db_GetGTFSFeedCacheDigest) (\<lambda>current.
       case current of
         Inr (src, digest) \<Rightarrow>
           (if src = source \<and> digest = sha256 body then answer (Inr ())
            else and_then (exec (db_UpsertGTFSFeedCache source body (sha256 body) now)) Wrapped (\<lambda>_. answer (Inr ())))
       | Inl e \<Rightarrow>
           (if e \<noteq> NoRows then answer (Inl (Wrapped e))
            else and_then (exec (db_UpsertGTFSFeedCache source body (sha256 body) now)) Wrapped (\<lambda>_. answer (Inr ()))))"

section \<open>The schedule in force\<close>

text \<open>
  One load: fetch, index, and save the copy if there is a cache; a copy that cannot be saved costs nothing.
  \<open>dbnow\<close> is the database's clock.
\<close>

definition load_gtfs :: "feed_sources \<Rightarrow> bool \<Rightarrow> string \<Rightarrow> gotime \<Rightarrow> gotime \<Rightarrow> (load_error + Index) call" where
  "load_gtfs z cache source now dbnow =
     (case FetchFeed z source of
        Inl e \<Rightarrow> answer (Inl e)
      | Inr body \<Rightarrow>
          (case IndexFromBytes z body source now of
             Inl e \<Rightarrow> answer (Inl e)
           | Inr index \<Rightarrow>
               (if cache then serve (Store_SaveGTFSFeed (fz_sha256 z) source body dbnow) (\<lambda>_. answer (Inr index))
                else answer (Inr index))))"

definition loadCachedGTFS :: "feed_sources \<Rightarrow> bool \<Rightarrow> string \<Rightarrow> (load_error + Index) call" where
  "loadCachedGTFS z cache source =
     (if \<not> cache then answer (Inl NoCache)
      else serve Store_LoadGTFSFeed (\<lambda>res.
        answer (case res of
                  Inl e \<Rightarrow> Inl (CacheFailed e)
                | Inr feed \<Rightarrow>
                    (if cg_Source feed \<noteq> source then Inl (CachedOther (cg_Source feed))
                     else IndexFromBytes z (cg_Body feed) source (cg_FetchedAt feed)))))"

text \<open>What the server starts on; the error is the load's and the cache's.\<close>

definition newGTFSRuntime ::
  "feed_sources \<Rightarrow> bool \<Rightarrow> string \<Rightarrow> gotime \<Rightarrow> gotime \<Rightarrow> (load_error \<times> load_error + Index) call" where
  "newGTFSRuntime z cache source now dbnow =
     serve (load_gtfs z cache source now dbnow) (\<lambda>res.
       case res of
         Inr index \<Rightarrow> answer (Inr index)
       | Inl e \<Rightarrow>
           serve (loadCachedGTFS z cache source) (\<lambda>cached.
             answer (case cached of Inl cacheErr \<Rightarrow> Inl (e, cacheErr) | Inr index \<Rightarrow> Inr index)))"

text \<open>\<open>RefreshNow\<close>: the index in force after it, which a failure leaves as it was.\<close>

definition RefreshNow :: "feed_sources \<Rightarrow> bool \<Rightarrow> string \<Rightarrow> gotime \<Rightarrow> gotime \<Rightarrow> Index \<Rightarrow> Index call" where
  "RefreshNow z cache source now dbnow current =
     serve (load_gtfs z cache source now dbnow) (\<lambda>res. answer (case res of Inl e \<Rightarrow> current | Inr next_index \<Rightarrow> next_index))"

section \<open>The catalog\<close>

record gtfsCatalog =
  gc_index :: "Index option"
  gc_thresholds :: Thresholds
  gc_timezone :: string       \<comment> \<open>\<open>ix.Timezone().String()\<close>\<close>

record catalogRoute =
  cr_ID :: string
  cr_ShortName :: string
  cr_LongName :: string
  cr_Color :: string
  cr_TextColor :: string
  cr_Type :: int

record catalogTripSummary =
  cs_ID :: string
  cs_Headsign :: string
  cs_DirectionID :: "int option"
  cs_StartsAt :: gotime
  cs_EndsAt :: gotime
  cs_FirstStop :: string
  cs_LastStop :: string

record catalogRouteTripsResponse =
  crt_RouteID :: string
  crt_ServiceDate :: string
  crt_Timezone :: string
  crt_Trips :: "catalogTripSummary list"

record catalogTripRoute =
  ctr_ShortName :: string
  ctr_LongName :: string
  ctr_Color :: string
  ctr_TextColor :: string

record catalogShape =
  csh_LengthM :: f64
  csh_Points :: "(f64 \<times> f64) list"

record catalogStop =
  cst_ID :: string
  cst_Name :: string
  cst_Sequence :: int
  cst_Lat :: f64
  cst_Lon :: f64
  cst_AlongShapeM :: f64
  cst_ArrivalAt :: gotime
  cst_DepartureAt :: gotime

record catalogThresholds =
  cth_MaxShapeDistanceM :: f64
  cth_ScheduleEarlyS :: int
  cth_ScheduleLateS :: int

record catalogTripResponse =
  ctp_ID :: string
  ctp_RouteID :: string
  ctp_Headsign :: string
  ctp_DirectionID :: "int option"
  ctp_ServiceDate :: string
  ctp_Timezone :: string
  ctp_Route :: catalogTripRoute
  ctp_Shape :: catalogShape
  ctp_Stops :: "catalogStop list"
  ctp_Thresholds :: catalogThresholds

definition directionJSON :: "int \<Rightarrow> int option" where
  "directionJSON d = (if d < 0 then None else Some d)"

definition currentIndex :: "gtfsCatalog \<Rightarrow> 'a answer + Index" where
  "currentIndex c =
     (case gc_index c of None \<Rightarrow> Inl (HErr 503 ''schedule data unavailable'') | Some ix \<Rightarrow> Inr ix)"

definition catalog_day :: "Index \<Rightarrow> string \<Rightarrow> 'a answer + gotime" where
  "catalog_day ix date =
     (if \<not> serviceDatePattern date then Inl (HErr 400 ''date must be YYYYMMDD'')
      else case ServiceDayStart date (ix_tz ix) of
             None \<Rightarrow> Inl (HErr 400 ''date must be YYYYMMDD'')
           | Some dayStart \<Rightarrow> Inr dayStart)"

definition catalog_route :: "RouteInfo \<Rightarrow> catalogRoute" where
  "catalog_route rt =
     \<lparr>cr_ID = ri_ID rt, cr_ShortName = ri_ShortName rt, cr_LongName = ri_LongName rt, cr_Color = ri_Color rt,
      cr_TextColor = ri_TextColor rt, cr_Type = ri_Type rt\<rparr>"

definition handleRoutes :: "gtfsCatalog \<Rightarrow> catalogRoute list answer" where
  "handleRoutes c = (case currentIndex c of Inl bad \<Rightarrow> bad | Inr ix \<Rightarrow> HOk 200 (map catalog_route (Routes ix)))"

text \<open>\<open>None\<close> is a panic: \<open>trip.StopTimes[0]\<close> of a trip without stop times, a field of a nil shape.\<close>

definition catalog_trip :: "gotime \<Rightarrow> TripInfo \<Rightarrow> catalogTripSummary option" where
  "catalog_trip dayStart trip =
     (if ti_StopTimes trip = [] then None
      else Some \<lparr>cs_ID = ti_ID trip, cs_Headsign = ti_Headsign trip, cs_DirectionID = directionJSON (ti_DirectionID trip),
                 cs_StartsAt = time_add dayStart (si_Departure (hd (ti_StopTimes trip))),
                 cs_EndsAt = time_add dayStart (si_Arrival (last (ti_StopTimes trip))),
                 cs_FirstStop = si_StopName (hd (ti_StopTimes trip)), cs_LastStop = si_StopName (last (ti_StopTimes trip))\<rparr>)"

fun all_some :: "'a option list \<Rightarrow> 'a list option" where
  "all_some [] = Some []"
| "all_some (None # xs) = None"
| "all_some (Some x # xs) = map_option (\<lambda>ys. x # ys) (all_some xs)"

definition handleRouteTrips :: "gtfsCatalog \<Rightarrow> gotime \<Rightarrow> string \<Rightarrow> string \<Rightarrow> catalogRouteTripsResponse answer option" where
  "handleRouteTrips c now routeID date =
     (case currentIndex c of
        Inl bad \<Rightarrow> Some bad
      | Inr ix \<Rightarrow>
          (if Route ix routeID = None then Some (HErr 404 ''unknown route'')
           else let day = (if date = [] then ServiceDate (ix_tz ix) now else date)
                in case catalog_day ix day of
                     Inl bad \<Rightarrow> Some bad
                   | Inr dayStart \<Rightarrow>
                       map_option (\<lambda>trips. HOk 200 \<lparr>crt_RouteID = routeID, crt_ServiceDate = day,
                                                   crt_Timezone = gc_timezone c, crt_Trips = trips\<rparr>)
                         (all_some (map (catalog_trip dayStart) (TripsOnRoute ix routeID day)))))"

definition catalog_stop :: "gotime \<Rightarrow> StopTimeInfo \<Rightarrow> catalogStop" where
  "catalog_stop dayStart st =
     \<lparr>cst_ID = si_StopID st, cst_Name = si_StopName st, cst_Sequence = si_Sequence st, cst_Lat = Lat (si_Pos st),
      cst_Lon = Lon (si_Pos st), cst_AlongShapeM = si_AlongShape st, cst_ArrivalAt = time_add dayStart (si_Arrival st),
      cst_DepartureAt = time_add dayStart (si_Departure st)\<rparr>"

definition trip_route :: "RouteInfo option \<Rightarrow> catalogTripRoute" where
  "trip_route route =
     (case route of
        None \<Rightarrow> \<lparr>ctr_ShortName = [], ctr_LongName = [], ctr_Color = [], ctr_TextColor = []\<rparr>
      | Some r \<Rightarrow> \<lparr>ctr_ShortName = ri_ShortName r, ctr_LongName = ri_LongName r, ctr_Color = ri_Color r,
                   ctr_TextColor = ri_TextColor r\<rparr>)"

definition catalog_detail :: "gtfsCatalog \<Rightarrow> Index \<Rightarrow> TripInfo \<Rightarrow> string \<Rightarrow> gotime \<Rightarrow> catalogTripResponse option" where
  "catalog_detail c ix trip day dayStart =
     map_option (\<lambda>shape.
       \<lparr>ctp_ID = ti_ID trip, ctp_RouteID = ti_RouteID trip, ctp_Headsign = ti_Headsign trip,
        ctp_DirectionID = directionJSON (ti_DirectionID trip), ctp_ServiceDate = day, ctp_Timezone = gc_timezone c,
        ctp_Route = trip_route (Route ix (ti_RouteID trip)),
        ctp_Shape = \<lparr>csh_LengthM = sg_Length shape, csh_Points = map (\<lambda>p. (Lat p, Lon p)) (sg_Points shape)\<rparr>,
        ctp_Stops = map (catalog_stop dayStart) (ti_StopTimes trip),
        ctp_Thresholds = \<lparr>cth_MaxShapeDistanceM = th_MaxShapeDistance (gc_thresholds c),
                         cth_ScheduleEarlyS = whole_seconds (th_ScheduleEarly (gc_thresholds c)),
                         cth_ScheduleLateS = whole_seconds (th_ScheduleLate (gc_thresholds c))\<rparr>\<rparr>) (ti_Shape trip)"

definition handleTrip :: "gtfsCatalog \<Rightarrow> gotime \<Rightarrow> string \<Rightarrow> string \<Rightarrow> catalogTripResponse answer option" where
  "handleTrip c now tripID date =
     (case currentIndex c of
        Inl bad \<Rightarrow> Some bad
      | Inr ix \<Rightarrow>
          (case Trip ix tripID of
             None \<Rightarrow> Some (HErr 404 ''unknown trip'')
           | Some trip \<Rightarrow>
               (let day = (if date = [] then ServiceDateFor ix (Some trip) now else date)
                in case catalog_day ix day of
                     Inl bad \<Rightarrow> Some bad
                   | Inr dayStart \<Rightarrow>
                       (if \<not> ActiveOn ix (Some trip) day then Some (HErr 422 ''trip not active on date'')
                        else map_option (HOk 200) (catalog_detail c ix trip day dayStart)))))"

end
