(* ===== verification/CatalogProps.thy ===== *)
theory CatalogProps
  imports Catalog
begin

text \<open>
  What the schedule service promises: the catalog answers from any index the server can be serving, and an
  outage of the agency's host does not keep the server from starting on the schedule it had.
\<close>

section \<open>The indexes a server can be serving\<close>

inductive served :: "feed_sources \<Rightarrow> string \<Rightarrow> Index \<Rightarrow> bool" for z source where
  served_start: "newGTFSRuntime z cache source now dbnow st = (Inr ix, st') \<Longrightarrow> served z source ix"
| served_refresh: "served z source ix \<Longrightarrow> RefreshNow z cache source now dbnow ix st = (ix', st') \<Longrightarrow> served z source ix'"

lemma IndexFromBytes_ok: "IndexFromBytes z body source now = Inr ix \<Longrightarrow> index_ok ix"
  by (auto simp: IndexFromBytes_def dest: BuildIndex_ok split: sum.splits option.splits)

lemma load_gtfs_index: "load_gtfs z cache source now dbnow st = (Inr ix, st') \<Longrightarrow> LoadIndex z source now = Inr ix"
  by (auto simp: load_gtfs_def LoadIndex_def answer_def elim!: serve_cases split: sum.splits if_splits)

lemma LoadIndex_ok: "LoadIndex z source now = Inr ix \<Longrightarrow> index_ok ix"
  by (auto simp: LoadIndex_def dest: IndexFromBytes_ok split: sum.splits)

lemma loadCached_ok: "loadCachedGTFS z cache source st = (Inr ix, st') \<Longrightarrow> index_ok ix"
  by (auto simp: loadCachedGTFS_def answer_def elim!: serve_cases dest: IndexFromBytes_ok split: sum.splits if_splits)

lemma load_gtfs_ok: "load_gtfs z cache source now dbnow st = (Inr ix, st') \<Longrightarrow> index_ok ix"
  by (cases st') (blast dest: load_gtfs_index LoadIndex_ok)

lemma newGTFSRuntime_cases:
  assumes "newGTFSRuntime z cache source now dbnow st = (Inr ix, st')"
  obtains (loaded) st1 where "load_gtfs z cache source now dbnow st = (Inr ix, st1)"
  | (cached) st1 st2 where "loadCachedGTFS z cache source st1 = (Inr ix, st2)"
  using assms by (auto simp: newGTFSRuntime_def answer_def elim!: serve_cases split: sum.splits)

lemma RefreshNow_cases:
  assumes "RefreshNow z cache source now dbnow ix st = (ix', st')"
  obtains (kept) "ix' = ix" | (swapped) st1 where "load_gtfs z cache source now dbnow st = (Inr ix', st1)"
  using assms by (auto simp: RefreshNow_def answer_def elim!: serve_cases split: sum.splits)

lemma served_ok: "served z source ix \<Longrightarrow> index_ok ix"
proof (induction rule: served.induct)
  case (served_start cache now dbnow st ix st')
  then show ?case
    by (rule newGTFSRuntime_cases) (blast dest: load_gtfs_ok loadCached_ok)+
next
  case (served_refresh ix cache now dbnow st ix' st')
  from served_refresh.hyps(2) show ?case
    using served_refresh.IH by (cases rule: RefreshNow_cases) (auto dest: load_gtfs_ok)
qed

section \<open>The catalog\<close>

lemma all_some_map: "\<forall>x \<in> set xs. f x = Some (g x) \<Longrightarrow> all_some (map f xs) = Some (map g xs)"
  by (induction xs) simp_all

definition listed_trip :: "gotime \<Rightarrow> TripInfo \<Rightarrow> catalogTripSummary" where
  "listed_trip dayStart trip = the (catalog_trip dayStart trip)"

lemma catalog_trip_listed: "ti_StopTimes trip \<noteq> [] \<Longrightarrow> catalog_trip dayStart trip = Some (listed_trip dayStart trip)"
  by (simp add: listed_trip_def catalog_trip_def)

lemma listed_trip_fields:
  "ti_StopTimes trip \<noteq> [] \<Longrightarrow> cs_ID (listed_trip dayStart trip) = ti_ID trip"
  "ti_StopTimes trip \<noteq> [] \<Longrightarrow> cs_StartsAt (listed_trip dayStart trip) = time_add dayStart (si_Departure (hd (ti_StopTimes trip)))"
  by (simp_all add: listed_trip_def catalog_trip_def)

lemma route_trips_ok:
  assumes "index_ok ix" "t \<in> set (TripsOnRoute ix routeID day)"
  shows "trip_ok t"
proof (cases "ix_tripsByRoute ix routeID")
  case None
  then show ?thesis
    using assms(2) by (auto simp: TripsOnRoute_def split: option.splits)
next
  case (Some ts)
  then have "t \<in> set ts"
    using assms(2) by (auto simp: TripsOnRoute_def split: option.splits)
  then show ?thesis
    using assms(1) Some unfolding index_ok_def by blast
qed

lemma trip_ok_fields: "trip_ok t \<Longrightarrow> ti_StopTimes t \<noteq> []" "trip_ok t \<Longrightarrow> \<exists>shape. ti_Shape t = Some shape"
  by (auto simp: trip_ok_def)

text \<open>A feed of an agency with a timezone and nothing else, at a host that answers and at one that does not.\<close>

definition demo_sources :: "bool \<Rightarrow> feed_sources" where
  "demo_sources up =
     \<lparr>fz_file = (\<lambda>_. None), fz_get = (\<lambda>_. if up then Some (200, Some ''feed'') else None),
      fz_parse = (\<lambda>_. Some \<lparr>st_AgencyTimezones = [''UTC''], st_Services = [], st_Trips = [], st_Routes = []\<rparr>),
      fz_location = (\<lambda>_. Some (\<lambda>_. 0)), fz_sha256 = (\<lambda>s. s)\<rparr>"

definition demo_source :: string where "demo_source = ''https://x''"

definition demo_index :: Index where
  "demo_index = the (BuildIndex (fz_location (demo_sources True)) (the (fz_parse (demo_sources True) [])) demo_source 0)"

lemma demo_load: "load_gtfs (demo_sources True) True demo_source 0 0 ([], empty_db)
  = (Inr demo_index, [], snd (snd (load_gtfs (demo_sources True) True demo_source 0 0 ([], empty_db))))"
  by (simp add: load_gtfs_def FetchFeed_def demo_sources_def demo_source_def maxFeedBytes_def IndexFromBytes_def
      parseStatic_def BuildIndex_def feedTimezone_def Let_def demo_index_def serve_def answer_def Store_SaveGTFSFeed_def
      exec_def next_trip_def db_GetGTFSFeedCacheDigest_def read_one_def one_row_def empty_db_def and_then_def
      db_UpsertGTFSFeedCache_def split: prod.splits sum.splits)

lemma newGTFSRuntime_loaded:
  "load_gtfs z cache source now dbnow st = (Inr ix, st') \<Longrightarrow> newGTFSRuntime z cache source now dbnow st = (Inr ix, st')"
  by (simp add: newGTFSRuntime_def serve_def answer_def)

lemma demo_served: "served (demo_sources True) demo_source demo_index"
  by (rule served_start [OF newGTFSRuntime_loaded [OF demo_load]])

text \<open>
  C27: the catalog never fails on a schedule the server can be serving, be it loaded, taken from the cache or
  swapped in by a refresh: no request makes it take a stop of a trip without stops or a point of a missing
  shape. The list of a route's trips is complete for its service date, and a trip that is shown runs on the date
  shown with it, with all its stops.
\<close>

theorem catalog_never_panics:
  assumes "served z source ix" "gc_index c = Some ix"
  shows "(\<exists>a. handleRouteTrips c now routeID date = Some a
        \<and> (case a of HErr status _ \<Rightarrow> status \<in> {400, 404}
           | HOk status resp \<Rightarrow> status = 200
               \<and> map cs_ID (crt_Trips resp) = map ti_ID (TripsOnRoute ix routeID (crt_ServiceDate resp))))
    \<and> (\<exists>b. handleTrip c now tripID date = Some b
        \<and> (case b of HErr status _ \<Rightarrow> status \<in> {400, 404, 422}
           | HOk status resp \<Rightarrow> status = 200 \<and> (\<exists>trip. Trip ix tripID = Some trip \<and> ctp_ID resp = tripID
               \<and> ActiveOn ix (Some trip) (ctp_ServiceDate resp)
               \<and> map cst_ID (ctp_Stops resp) = map si_StopID (ti_StopTimes trip) \<and> ctp_Stops resp \<noteq> [])))"
proof -
  have ok: "index_ok ix"
    using served_ok [OF assms(1)] .
  have trips: "all_some (map (catalog_trip dayStart) (TripsOnRoute ix routeID day))
      = Some (map (listed_trip dayStart) (TripsOnRoute ix routeID day))" for dayStart day
    using route_trips_ok [OF ok] trip_ok_fields catalog_trip_listed by (intro all_some_map) blast
  have ids: "map cs_ID (map (listed_trip dayStart) (TripsOnRoute ix routeID day)) = map ti_ID (TripsOnRoute ix routeID day)"
    for dayStart day
    using route_trips_ok [OF ok] trip_ok_fields listed_trip_fields(1) by simp
  have "\<exists>a. handleRouteTrips c now routeID date = Some a
        \<and> (case a of HErr status _ \<Rightarrow> status \<in> {400, 404}
           | HOk status resp \<Rightarrow> status = 200
               \<and> map cs_ID (crt_Trips resp) = map ti_ID (TripsOnRoute ix routeID (crt_ServiceDate resp)))"
    using assms(2) ids
    by (auto simp: handleRouteTrips_def currentIndex_def catalog_day_def Let_def trips split: option.splits)
  moreover have "ti_ID trip = tripID" "ti_StopTimes trip \<noteq> []" "\<exists>shape. ti_Shape trip = Some shape"
    if "Trip ix tripID = Some trip" for trip
    using that ok trip_ok_fields [of trip] by (auto simp: index_ok_def Trip_def)
  moreover have "map cst_ID (map (catalog_stop dayStart) sts) = map si_StopID sts" for dayStart sts
    by (simp add: catalog_stop_def)
  ultimately show ?thesis
    using assms(2)
    by (auto simp: handleTrip_def currentIndex_def catalog_day_def catalog_detail_def Let_def catalog_stop_def
        split: option.splits)
qed

theorem catalog_never_panics_witness:
  "\<exists>a. handleRouteTrips \<lparr>gc_index = Some demo_index, gc_thresholds = DefaultThresholds, gc_timezone = ''UTC''\<rparr> 0 ''R'' [] = Some a"
  using catalog_never_panics [OF demo_served,
    where c = "\<lparr>gc_index = Some demo_index, gc_thresholds = DefaultThresholds, gc_timezone = ''UTC''\<rparr>" and routeID = "''R''"
      and date = "[]" and now = 0] by auto

section \<open>An outage of the host\<close>

text \<open>The cached row's digest is its body's, and no other body in play has the same digest.\<close>

definition cache_sound :: "(string \<Rightarrow> string) \<Rightarrow> string \<Rightarrow> Database \<Rightarrow> bool" where
  "cache_sound sha256 body d \<longleftrightarrow> (\<forall>row \<in> set (db_feed_cache d).
     fc_Sha256 row = sha256 (fc_Body row) \<and> (sha256 (fc_Body row) = sha256 body \<longrightarrow> fc_Body row = body))"

lemma save_then_load:
  assumes "Store_SaveGTFSFeed sha256 source body dbnow ([], d) = (res, [], d')" "cache_sound sha256 body d"
  shows "\<exists>t. Store_LoadGTFSFeed ([], d') = (Inr \<lparr>cg_Source = source, cg_Body = body, cg_FetchedAt = t\<rparr>, [], d')"
proof -
  have "\<exists>row rows. db_feed_cache d' = row # rows \<and> fc_Source row = source \<and> fc_Body row = body"
  proof (cases "db_feed_cache d")
    case Nil
    then show ?thesis
      using assms(1) by (auto simp: Store_SaveGTFSFeed_def serve_def exec_def next_trip_def and_then_def answer_def
          db_GetGTFSFeedCacheDigest_def read_one_def one_row_def db_UpsertGTFSFeedCache_def)
  next
    case (Cons row rows)
    then have "fc_Sha256 row = sha256 (fc_Body row)" "sha256 (fc_Body row) = sha256 body \<longrightarrow> fc_Body row = body"
      using assms(2) by (simp_all add: cache_sound_def)
    then show ?thesis
      using assms(1) Cons by (auto simp: Store_SaveGTFSFeed_def serve_def exec_def next_trip_def and_then_def answer_def
          db_GetGTFSFeedCacheDigest_def read_one_def one_row_def db_UpsertGTFSFeedCache_def split: if_splits)
  qed
  then show ?thesis
    by (auto simp: Store_LoadGTFSFeed_def and_then_def exec_def next_trip_def db_GetGTFSFeedCache_def read_one_def one_row_def
        answer_def)
qed

lemma BuildIndex_loaded_at:
  "BuildIndex loc static source t' = map_option (\<lambda>ix. ix\<lparr>ix_stats := (ix_stats ix)\<lparr>is_LoadedAt := t'\<rparr>\<rparr>) (BuildIndex loc static source t)"
  by (simp add: BuildIndex_def Let_def split: option.splits)

text \<open>
  C28: the server starts on the schedule it last loaded while the agency's host is down. If a load succeeded and
  the database answered, then a later start that cannot fetch the same source, in a process that parses feeds
  the same way, serves the same index, timezone and all, only with the time the copy was taken; \<open>sha256\<close> must not
  have mapped two of the feeds to one digest.
\<close>

theorem outage_keeps_schedule:
  assumes loaded: "load_gtfs z True source now dbnow ([], d) = (Inr ix, net', d')"
    and sound: "\<forall>body. FetchFeed z source = Inr body \<longrightarrow> cache_sound (fz_sha256 z) body d"
    and outage: "FetchFeed z' source = Inl e"
    and same: "fz_parse z' = fz_parse z" "fz_location z' = fz_location z"
  shows "\<exists>t. newGTFSRuntime z' True source now' dbnow' ([], d')
    = (Inr (ix\<lparr>ix_stats := (ix_stats ix)\<lparr>is_LoadedAt := t\<rparr>\<rparr>), [], d')"
proof -
  obtain body where body: "FetchFeed z source = Inr body" "IndexFromBytes z body source now = Inr ix"
    using load_gtfs_index [OF loaded] by (auto simp: LoadIndex_def split: sum.splits)
  obtain res where "Store_SaveGTFSFeed (fz_sha256 z) source body dbnow ([], d) = (res, net', d')"
    using loaded body by (auto simp: load_gtfs_def answer_def elim!: serve_cases)
  moreover from this have "net' = []"
    by (auto simp: Store_SaveGTFSFeed_def serve_def exec_def next_trip_def and_then_def answer_def
        split: sum.splits prod.splits if_splits)
  ultimately obtain t where t: "Store_LoadGTFSFeed ([], d') = (Inr \<lparr>cg_Source = source, cg_Body = body, cg_FetchedAt = t\<rparr>, [], d')"
    using save_then_load sound body(1) by blast
  have "IndexFromBytes z' body source t = Inr (ix\<lparr>ix_stats := (ix_stats ix)\<lparr>is_LoadedAt := t\<rparr>\<rparr>)"
    using body(2) BuildIndex_loaded_at [of "fz_location z" _ source t now] same
    by (auto simp: IndexFromBytes_def parseStatic_def split: option.splits sum.splits)
  then show ?thesis
    using t outage by (auto simp: newGTFSRuntime_def load_gtfs_def loadCachedGTFS_def serve_def answer_def)
qed

theorem outage_keeps_schedule_witness:
  "\<exists>t d'. newGTFSRuntime (demo_sources False) True demo_source 7 7 ([], d')
    = (Inr (demo_index\<lparr>ix_stats := (ix_stats demo_index)\<lparr>is_LoadedAt := t\<rparr>\<rparr>), [], d')"
  using outage_keeps_schedule [OF demo_load, where z' = "demo_sources False" and now' = 7 and dbnow' = 7 and e = GetFailed]
  by (fastforce simp: demo_sources_def demo_source_def FetchFeed_def cache_sound_def empty_db_def)

end
