(* ===== verification/Retention.thy ===== *)
theory Retention
  imports Auth
begin

text \<open>
  What the server throws away: location points past the retention period (\<open>src/retention.go\<close>,
  \<open>src/retention_store.go\<close>) and refresh tokens that have expired (\<open>src/refresh_retention.go\<close>). The loop over
  the batches may never end, so it is a partial function and that it ends is a theorem.
\<close>

section \<open>Location points\<close>

definition Store_PruneLocationPoints :: "gotime \<Rightarrow> int \<Rightarrow> (StoreError + int) call" where
  "Store_PruneLocationPoints cutoff batchSize =
     and_then (exec (db_DeleteLocationPointsBefore cutoff (nat batchSize))) Wrapped (\<lambda>rows. answer (Inr rows))"

record LocationPruner =
  lp_retention :: int
  lp_interval :: int
  lp_batchSize :: int

datatype pruner_error = BadRetention int | BadInterval int | BadBatchSize int

definition NewLocationPruner :: "int \<Rightarrow> int \<Rightarrow> int \<Rightarrow> pruner_error + LocationPruner" where
  "NewLocationPruner retention interval batchSize =
     (if retention \<le> 0 then Inl (BadRetention retention)
      else if interval \<le> 0 then Inl (BadInterval interval)
      else if batchSize < 1 then Inl (BadBatchSize batchSize)
      else Inr \<lparr>lp_retention = retention, lp_interval = interval, lp_batchSize = batchSize\<rparr>)"

text \<open>
  How a pass ends. \<open>stops\<close> is what \<open>ctx.Err()\<close> answers at the head of each turn, the end of the list meaning
  that nobody stops the pruner; a delete cut short by \<open>Stop\<close> is a fault of the network.
\<close>

datatype prune_end = Stopped | Aborted StoreError | Drained

definition asked_to_stop :: "bool list \<Rightarrow> bool" where
  "asked_to_stop stops \<longleftrightarrow> stops \<noteq> [] \<and> hd stops"

partial_function (option) prune_batches ::
  "gotime \<Rightarrow> int \<Rightarrow> bool list \<Rightarrow> int \<Rightarrow> net \<times> Database \<Rightarrow> (prune_end \<times> int \<times> net \<times> Database) option" where
  "prune_batches cutoff batchSize stops sofar st =
     (if asked_to_stop stops then Some (Stopped, sofar, st)
      else case Store_PruneLocationPoints cutoff batchSize st of
             (Inl e, st') \<Rightarrow> Some (Aborted e, sofar, st')
           | (Inr deleted, st') \<Rightarrow>
               (if deleted < batchSize then Some (Drained, sofar + deleted, st')
                else prune_batches cutoff batchSize (tl stops) (sofar + deleted) st'))"

definition pruneAll ::
  "LocationPruner \<Rightarrow> gotime \<Rightarrow> bool list \<Rightarrow> net \<times> Database \<Rightarrow> (prune_end \<times> int \<times> net \<times> Database) option" where
  "pruneAll p start stops st = prune_batches (start - lp_retention p) (lp_batchSize p) stops 0 st"

text \<open>The worker: a pass at every tick until its context ends.\<close>

datatype wakeup = Tick gotime "bool list" | Done

fun pruner_run :: "LocationPruner \<Rightarrow> wakeup list \<Rightarrow> net \<times> Database \<Rightarrow> (net \<times> Database) option" where
  "pruner_run p [] st = Some st"
| "pruner_run p (Done # es) st = Some st"
| "pruner_run p (Tick start stops # es) st =
     (case pruneAll p start stops st of None \<Rightarrow> None | Some (_, _, st') \<Rightarrow> pruner_run p es st')"

section \<open>Refresh tokens\<close>

definition NewRefreshTokenPruner :: "int \<Rightarrow> pruner_error + int" where
  "NewRefreshTokenPruner interval = (if interval \<le> 0 then Inl (BadInterval interval) else Inr interval)"

definition refresh_prune :: "gotime \<Rightarrow> (StoreError + int) call" where
  "refresh_prune start = Store_PruneExpiredRefreshTokens start"

section \<open>One batch\<close>

definition expired :: "gotime \<Rightarrow> LocationPointRow \<Rightarrow> bool" where
  "expired cutoff p \<longleftrightarrow> lp_ReceivedAt p < cutoff"

text \<open>What is left of \<open>d\<close>: some expired points are gone and nothing else has changed.\<close>

definition only_expired_gone :: "gotime \<Rightarrow> Database \<Rightarrow> Database \<Rightarrow> bool" where
  "only_expired_gone cutoff d d' \<longleftrightarrow>
     (\<exists>gone. d' = d\<lparr>db_location_points := filter (\<lambda>p. lp_ID p \<notin> gone) (db_location_points d)\<rparr>
        \<and> (\<forall>p \<in> set (db_location_points d). lp_ID p \<in> gone \<longrightarrow> expired cutoff p))"

lemma only_expired_gone_refl: "only_expired_gone cutoff d d"
  unfolding only_expired_gone_def by (rule exI [of _ "{}"]) simp

lemma only_expired_gone_trans:
  assumes "only_expired_gone cutoff d1 d2" "only_expired_gone cutoff d2 d3"
  shows "only_expired_gone cutoff d1 d3"
proof -
  obtain g h where "d2 = d1\<lparr>db_location_points := filter (\<lambda>p. lp_ID p \<notin> g) (db_location_points d1)\<rparr>"
      "\<forall>p \<in> set (db_location_points d1). lp_ID p \<in> g \<longrightarrow> expired cutoff p"
      "d3 = d2\<lparr>db_location_points := filter (\<lambda>p. lp_ID p \<notin> h) (db_location_points d2)\<rparr>"
      "\<forall>p \<in> set (db_location_points d2). lp_ID p \<in> h \<longrightarrow> expired cutoff p"
    using assms unfolding only_expired_gone_def by blast
  then show ?thesis
    unfolding only_expired_gone_def by (intro exI [of _ "g \<union> h"]) (auto intro: filter_cong)
qed

text \<open>The points that are left of a batch: the count is right because IDs are unique.\<close>

lemma expired_batch:
  assumes "unique lp_ID ps"
    and doomed: "doomed = take n (order_asc lp_ReceivedAt (filter (expired cutoff) ps))"
  shows "length doomed + length (filter (\<lambda>p. lp_ID p \<notin> set (map lp_ID doomed)) ps) = length ps"
    and "\<forall>p \<in> set ps. lp_ID p \<in> set (map lp_ID doomed) \<longrightarrow> expired cutoff p"
    and "length doomed < n \<Longrightarrow> filter (\<lambda>p. lp_ID p \<notin> set (map lp_ID doomed)) ps = filter (\<lambda>p. \<not> expired cutoff p) ps"
proof -
  have inj: "inj_on lp_ID (set ps)" "distinct ps"
    using assms(1) by (auto simp: unique_def distinct_map)
  have doomed_set: "set doomed \<subseteq> {p \<in> set ps. expired cutoff p}"
    unfolding doomed order_asc_def by (auto dest: in_set_takeD)
  have out: "lp_ID p \<in> set (map lp_ID doomed) \<longleftrightarrow> p \<in> set doomed" if "p \<in> set ps" for p
    using inj(1) doomed_set that by (auto dest: inj_onD)
  show "\<forall>p \<in> set ps. lp_ID p \<in> set (map lp_ID doomed) \<longrightarrow> expired cutoff p"
    using out doomed_set by blast
  have "distinct doomed"
    unfolding doomed order_asc_def using inj(2)
    by (metis distinct_filter distinct_take mset_eq_imp_distinct_iff stable_sort_mset)
  then have "length doomed = card (set doomed)"
    by (simp add: distinct_card)
  also have "\<dots> = length (filter (\<lambda>p. p \<in> set doomed) ps)"
    using inj(2) doomed_set by (subst distinct_card [symmetric]) (auto intro!: arg_cong [where f = card])
  finally have "length doomed + length (filter (\<lambda>p. p \<notin> set doomed) ps) = length ps"
    using sum_length_filter_compl [of "\<lambda>p. p \<in> set doomed" ps] by simp
  moreover have eq: "filter (\<lambda>p. lp_ID p \<notin> set (map lp_ID doomed)) ps = filter (\<lambda>p. p \<notin> set doomed) ps"
    using out by (intro filter_cong) auto
  ultimately show "length doomed + length (filter (\<lambda>p. lp_ID p \<notin> set (map lp_ID doomed)) ps) = length ps"
    by simp
  show "filter (\<lambda>p. lp_ID p \<notin> set (map lp_ID doomed)) ps = filter (\<lambda>p. \<not> expired cutoff p) ps" if "length doomed < n"
  proof -
    have "doomed = order_asc lp_ReceivedAt (filter (expired cutoff) ps)"
      using that unfolding doomed by (metis length_take min.strict_order_iff nat_neq_iff take_all linorder_not_less min_def)
    then have "set doomed = {p \<in> set ps. expired cutoff p}"
      by (simp add: order_asc_def)
    then show ?thesis
      unfolding eq by (intro filter_cong) auto
  qed
qed

lemma prune_store_cases:
  assumes "Store_PruneLocationPoints cutoff batchSize (net, d) = (r, net', d')"
  obtains (cut) e where "r = Inl e" "d' = d \<or> (\<exists>n. db_DeleteLocationPointsBefore cutoff (nat batchSize) d = Inr (n, d'))"
  | (ok) n where "r = Inr n" "db_DeleteLocationPointsBefore cutoff (nat batchSize) d = Inr (n, d')"
  using assms unfolding Store_PruneLocationPoints_def
  by (auto simp: answer_def elim!: and_then_cases exec_cases)

lemma delete_batch:
  assumes "unique lp_ID (db_location_points d)" "db_DeleteLocationPointsBefore cutoff n d = Inr (k, d')"
  shows "only_expired_gone cutoff d d'" "unique lp_ID (db_location_points d')"
    and "nat k + length (db_location_points d') = length (db_location_points d)" "0 \<le> k"
    and "nat k < n \<Longrightarrow> d' = d\<lparr>db_location_points := filter (\<lambda>p. \<not> expired cutoff p) (db_location_points d)\<rparr>"
proof -
  define doomed where "doomed = take n (order_asc lp_ReceivedAt (filter (expired cutoff) (db_location_points d)))"
  have eq: "(\<lambda>p. lp_ReceivedAt p < cutoff) = expired cutoff"
    by (simp add: fun_eq_iff expired_def)
  have d': "k = int (length doomed)"
    "d' = d\<lparr>db_location_points := filter (\<lambda>p. lp_ID p \<notin> set (map lp_ID doomed)) (db_location_points d)\<rparr>"
    using assms(2) by (auto simp: db_DeleteLocationPointsBefore_def Let_def doomed_def eq)
  note facts = expired_batch [OF assms(1) doomed_def]
  show "only_expired_gone cutoff d d'"
    unfolding only_expired_gone_def d' using facts(2) by blast
  show "unique lp_ID (db_location_points d')"
    using assms(1) unfolding d' by (simp add: unique_def distinct_map_filter)
  show "nat k + length (db_location_points d') = length (db_location_points d)" "0 \<le> k"
    using facts(1) unfolding d' by simp_all
  show "d' = d\<lparr>db_location_points := filter (\<lambda>p. \<not> expired cutoff p) (db_location_points d)\<rparr>" if "nat k < n"
    using facts(3) that unfolding d' by simp
qed

lemma only_expired_gone_keeps:
  assumes "only_expired_gone cutoff d d'"
  shows "filter (\<lambda>p. \<not> expired cutoff p) (db_location_points d') = filter (\<lambda>p. \<not> expired cutoff p) (db_location_points d)"
    and "d'\<lparr>db_location_points := ps\<rparr> = d\<lparr>db_location_points := ps\<rparr>"
proof -
  obtain gone where gone: "d' = d\<lparr>db_location_points := filter (\<lambda>p. lp_ID p \<notin> gone) (db_location_points d)\<rparr>"
      "\<forall>p \<in> set (db_location_points d). lp_ID p \<in> gone \<longrightarrow> expired cutoff p"
    using assms unfolding only_expired_gone_def by blast
  then have "filter (\<lambda>p. lp_ID p \<notin> gone \<and> \<not> expired cutoff p) (db_location_points d)
      = filter (\<lambda>p. \<not> expired cutoff p) (db_location_points d)"
    by (intro filter_cong) auto
  then show "filter (\<lambda>p. \<not> expired cutoff p) (db_location_points d') = filter (\<lambda>p. \<not> expired cutoff p) (db_location_points d)"
    by (simp add: gone(1) conj_commute)
  show "d'\<lparr>db_location_points := ps\<rparr> = d\<lparr>db_location_points := ps\<rparr>"
    by (simp add: gone(1))
qed

section \<open>A pass\<close>

lemma prune_batches_step:
  "prune_batches cutoff batchSize stops sofar st =
     (if asked_to_stop stops then Some (Stopped, sofar, st)
      else case Store_PruneLocationPoints cutoff batchSize st of
             (Inl e, st') \<Rightarrow> Some (Aborted e, sofar, st')
           | (Inr deleted, st') \<Rightarrow>
               (if deleted < batchSize then Some (Drained, sofar + deleted, st')
                else prune_batches cutoff batchSize (tl stops) (sofar + deleted) st'))"
  by (subst prune_batches.simps) simp

text \<open>
  One pass, whatever the network and the stop button do: it ends, it takes nothing but expired points, and if it
  drained the backlog it took them all and counted them right.
\<close>

lemma prune_batches_ends:
  assumes "1 \<le> batchSize" "unique lp_ID (db_location_points d)"
  shows "\<exists>ended n net' d'. prune_batches cutoff batchSize stops sofar (net, d) = Some (ended, n, net', d')
    \<and> only_expired_gone cutoff d d' \<and> sofar \<le> n
    \<and> (ended = Drained \<longrightarrow> d' = d\<lparr>db_location_points := filter (\<lambda>p. \<not> expired cutoff p) (db_location_points d)\<rparr>
         \<and> n = sofar + int (length (filter (expired cutoff) (db_location_points d))))
    \<and> (net = [] \<and> stops = [] \<longrightarrow> ended = Drained)"
  using assms(2)
proof (induction "length (db_location_points d)" arbitrary: d net stops sofar rule: less_induct)
  case less
  note b = prune_batches_step [of cutoff batchSize stops sofar "(net, d)"]
  show ?case
  proof (cases "asked_to_stop stops")
    case True
    then show ?thesis
      using b only_expired_gone_refl by (auto simp: asked_to_stop_def)
  next
    case False
    obtain r net1 d1 where one: "Store_PruneLocationPoints cutoff batchSize (net, d) = (r, net1, d1)"
      using prod_cases3 by blast
    have quiet: "net = [] \<longrightarrow> net1 = [] \<and> (\<exists>k. r = Inr k)"
      using one by (auto simp: Store_PruneLocationPoints_def and_then_def exec_def next_trip_def answer_def
          db_DeleteLocationPointsBefore_def Let_def)
    from one show ?thesis
    proof (cases rule: prune_store_cases)
      case (cut e)
      then have "only_expired_gone cutoff d d1"
        using delete_batch(1) [OF less.prems] only_expired_gone_refl by blast
      then show ?thesis
        using b False one cut quiet by simp
    next
      case (ok n)
      note batch = delete_batch [OF less.prems ok(2)]
      show ?thesis
      proof (cases "n < batchSize")
        case True
        then have drained: "d1 = d\<lparr>db_location_points := filter (\<lambda>p. \<not> expired cutoff p) (db_location_points d)\<rparr>"
          using batch(4,5) assms(1) by auto
        then have "n = int (length (filter (expired cutoff) (db_location_points d)))"
          using batch(3,4) sum_length_filter_compl [of "expired cutoff" "db_location_points d"] by simp
        then show ?thesis
          using b False one ok True drained batch(1,4) by simp
      next
        case False
        then have "length (db_location_points d1) < length (db_location_points d)"
          using batch(3,4) assms(1) by linarith
        from less.hyps [OF this batch(2), of "tl stops" "sofar + n" net1] obtain ended m net' d' where rest:
          "prune_batches cutoff batchSize (tl stops) (sofar + n) (net1, d1) = Some (ended, m, net', d')"
          "only_expired_gone cutoff d1 d'" "sofar + n \<le> m"
          "ended = Drained \<longrightarrow> d' = d1\<lparr>db_location_points := filter (\<lambda>p. \<not> expired cutoff p) (db_location_points d1)\<rparr>
             \<and> m = sofar + n + int (length (filter (expired cutoff) (db_location_points d1)))"
          "net1 = [] \<and> tl stops = [] \<longrightarrow> ended = Drained"
          by blast
        have "n + int (length (filter (expired cutoff) (db_location_points d1)))
            = int (length (filter (expired cutoff) (db_location_points d)))"
          using batch(3,4) only_expired_gone_keeps(1) [OF batch(1)]
            sum_length_filter_compl [of "expired cutoff" "db_location_points d"]
            sum_length_filter_compl [of "expired cutoff" "db_location_points d1"] by simp
        then show ?thesis
          using b \<open>\<not> asked_to_stop stops\<close> one ok False rest quiet batch(4) only_expired_gone_trans [OF batch(1) rest(2)]
            only_expired_gone_keeps [OF batch(1)] by auto
      qed
    qed
  qed
qed

lemma pass_ends:
  assumes "NewLocationPruner retention interval batchSize = Inr p" "db_reachable d"
  shows "\<exists>ended n net' d'. pruneAll p start stops (net, d) = Some (ended, n, net', d')
    \<and> only_expired_gone (start - retention) d d'
    \<and> (ended = Drained \<longrightarrow>
        d' = d\<lparr>db_location_points := filter (\<lambda>q. \<not> expired (start - retention) q) (db_location_points d)\<rparr>
        \<and> n = int (length (filter (expired (start - retention)) (db_location_points d))))
    \<and> (net = [] \<and> stops = [] \<longrightarrow> ended = Drained)"
proof -
  have p: "p = \<lparr>lp_retention = retention, lp_interval = interval, lp_batchSize = batchSize\<rparr>" "1 \<le> batchSize"
    using assms(1) by (auto simp: NewLocationPruner_def split: if_splits)
  have "unique lp_ID (db_location_points d)"
    using reachable_ok [OF assms(2)] by (simp add: ok_defs locations_ok_def)
  from prune_batches_ends [OF p(2) this, of "start - retention" stops 0 net] show ?thesis
    unfolding pruneAll_def p(1) by auto
qed

lemma demo_pruner: "NewLocationPruner 5 1 2 = Inr \<lparr>lp_retention = 5, lp_interval = 1, lp_batchSize = 2\<rparr>"
  by (simp add: NewLocationPruner_def)

text \<open>A bus with a point received at 1 and one received at 99.\<close>

definition demo_location :: InsertLocationPointParams where
  "demo_location = \<lparr>il_VehicleID = ''b'', il_TripID = [], il_RouteID = [], il_StartDate = [], il_Latitude = Num 0,
     il_Longitude = Num 0, il_Bearing = None, il_Speed = None, il_Accuracy = None, il_Timestamp = 7, il_DriverID = []\<rparr>"

definition bus_row :: VehicleRow where
  "bus_row = \<lparr>v_ID = ''b'', v_Label = [], v_AgencyTag = [], v_Active = True, v_CreatedAt = 0, v_UpdatedAt = 0\<rparr>"

definition stored_point :: "int \<Rightarrow> gotime \<Rightarrow> LocationPointRow" where
  "stored_point i now = \<lparr>lp_ID = i, lp_VehicleID = ''b'', lp_TripID = [], lp_RouteID = [], lp_StartDate = [], lp_Latitude = Num 0,
     lp_Longitude = Num 0, lp_Bearing = None, lp_Speed = None, lp_Accuracy = None, lp_Timestamp = 7, lp_DriverID = [],
     lp_ReceivedAt = now\<rparr>"

definition points_db :: "LocationPointRow list \<Rightarrow> int \<Rightarrow> Database" where
  "points_db ps n = empty_db\<lparr>db_vehicles := [bus_row], db_location_points := ps, db_serial := n\<rparr>"

lemma points_db_reachable: "db_reachable (points_db [stored_point 1 1, stored_point 2 99] 3)"
proof -
  have "db_CreateVehicle ''b'' [] [] 0 empty_db = Inr (1, points_db [] 1)"
    by (simp add: db_CreateVehicle_def empty_db_def points_db_def bus_row_def)
  then have "db_reachable (points_db [] 1)"
    using reach_empty by (blast intro: db_reachable.reach_step CreateVehicle_step)
  moreover have "db_InsertLocationPoint demo_location 1 (points_db [] 1) = Inr ((), points_db [stored_point 1 1] 2)"
    "db_InsertLocationPoint demo_location 99 (points_db [stored_point 1 1] 2)
       = Inr ((), points_db [stored_point 1 1, stored_point 2 99] 3)"
    by (simp_all add: db_InsertLocationPoint_def points_db_def demo_location_def stored_point_def bus_row_def empty_db_def
        between_def)
  ultimately show ?thesis
    by (blast intro: db_reachable.reach_step InsertLocationPoint_step)
qed

lemma demo_pass: "pruneAll \<lparr>lp_retention = 5, lp_interval = 1, lp_batchSize = 2\<rparr> 100 []
    ([], points_db [stored_point 1 1, stored_point 2 99] 3) = Some (Drained, 1, [], points_db [stored_point 2 99] 3)"
  by (simp add: pruneAll_def prune_batches_step asked_to_stop_def Store_PruneLocationPoints_def and_then_def exec_def
      next_trip_def answer_def db_DeleteLocationPointsBefore_def Let_def points_db_def empty_db_def order_asc_def
      stable_sort_def stored_point_def)

text \<open>
  C29: pruning always ends. The configuration the constructor accepts has batches of at least one row, so every
  full batch leaves the table shorter and a pass stops, whatever the table holds, whatever the network does and
  whenever the worker is stopped.
\<close>

theorem pruning_terminates:
  assumes "NewLocationPruner retention interval batchSize = Inr p" "db_reachable d"
  shows "\<exists>r. pruneAll p start stops (net, d) = Some r"
  using pass_ends [OF assms] by blast

theorem pruning_terminates_witness:
  "\<exists>r. pruneAll \<lparr>lp_retention = 5, lp_interval = 1, lp_batchSize = 2\<rparr> 100 [False] ([Lost], points_db [stored_point 1 1, stored_point 2 99] 3) = Some r"
  by (rule pruning_terminates [OF demo_pruner points_db_reachable])

text \<open>
  C30: retention is exact. A pass never deletes a point younger than the retention period and touches no other
  table, under any network and stop; when nothing interferes it leaves no point older than the period, and its
  count is the number of points it deleted.
\<close>

theorem retention_exact:
  assumes "NewLocationPruner retention interval batchSize = Inr p" "db_reachable d"
    and "pruneAll p start stops (net, d) = Some (ended, n, net', d')"
  shows "only_expired_gone (start - retention) d d'
    \<and> (net = [] \<and> stops = [] \<longrightarrow> ended = Drained)
    \<and> (ended = Drained \<longrightarrow>
        d' = d\<lparr>db_location_points := filter (\<lambda>q. \<not> expired (start - retention) q) (db_location_points d)\<rparr>
        \<and> n = int (length (filter (expired (start - retention)) (db_location_points d))))"
  using pass_ends [OF assms(1,2), of start stops net] assms(3) by auto

theorem retention_exact_witness:
  "only_expired_gone 95 (points_db [stored_point 1 1, stored_point 2 99] 3) (points_db [stored_point 2 99] 3)"
  using retention_exact [OF demo_pruner points_db_reachable demo_pass, THEN conjunct1] by simp

end
