(* ===== verification/Query.thy ===== *)
theory Query
  imports Web
begin

text \<open>
  Query strings and forms as \<open>net/url\<close> writes and reads them: \<open>QueryEscape\<close>, \<open>QueryUnescape\<close>, \<open>ParseQuery\<close>,
  \<open>Values.Encode\<close> and \<open>Values.Get\<close>. The admin pages build the links between the pages of a list with them and
  read their filters back. What was encoded is what is read.
\<close>

type_synonym query_values = "(string \<times> string) list"   \<comment> \<open>in the order they appear; each key once if built by \<open>Set\<close>\<close>

definition values_get :: "query_values \<Rightarrow> string \<Rightarrow> string" where  \<comment> \<open>\<open>v.Get(key)\<close>\<close>
  "values_get vs k = (case map_of vs k of None \<Rightarrow> [] | Some v \<Rightarrow> v)"

section \<open>Escaping\<close>

definition unreserved :: "char \<Rightarrow> bool" where
  "unreserved c \<longleftrightarrow> is_alpha c \<or> is_digit c \<or> c \<in> set ''-_.~''"

definition upper_hex :: "nat \<Rightarrow> char" where
  "upper_hex n = (if n < 10 then char_of (48 + n) else char_of (55 + n))"

definition escape_char :: "char \<Rightarrow> string" where
  "escape_char c =
     (if unreserved c then [c]
      else if c = CHR '' '' then ''+''
      else [CHR ''%'', upper_hex (of_char c div 16), upper_hex (of_char c mod 16)])"

definition QueryEscape :: "string \<Rightarrow> string" where
  "QueryEscape s = concat (map escape_char s)"

definition unhex :: "char \<Rightarrow> nat option" where
  "unhex c =
     (let n = (of_char c :: nat) in
      if 48 \<le> n \<and> n \<le> 57 then Some (n - 48)
      else if 97 \<le> n \<and> n \<le> 102 then Some (n - 87)
      else if 65 \<le> n \<and> n \<le> 70 then Some (n - 55)
      else None)"

fun QueryUnescape :: "string \<Rightarrow> string option" where
  "QueryUnescape [] = Some []"
| "QueryUnescape (c # cs) =
     (if c = CHR ''%'' then
        (case cs of
           a # b # rest \<Rightarrow>
             (case (unhex a, unhex b) of
                (Some x, Some y) \<Rightarrow> map_option (\<lambda>s. char_of (16 * x + y) # s) (QueryUnescape rest)
              | _ \<Rightarrow> None)
         | _ \<Rightarrow> None)
      else map_option (\<lambda>s. (if c = CHR ''+'' then CHR '' '' else c) # s) (QueryUnescape cs))"

section \<open>Reading a query\<close>

text \<open>\<open>strings.Cut\<close> at a byte.\<close>

definition cut_at :: "char \<Rightarrow> string \<Rightarrow> string \<times> string" where
  "cut_at sep s = (takeWhile (\<lambda>c. c \<noteq> sep) s, drop 1 (dropWhile (\<lambda>c. c \<noteq> sep) s))"

text \<open>A setting that cannot be read is left out; \<open>r.URL.Query()\<close> drops the error.\<close>

definition parse_setting :: "string \<Rightarrow> (string \<times> string) option" where
  "parse_setting s =
     (if CHR '';'' \<in> set s \<or> s = [] then None
      else case cut_at (CHR ''='') s of
             (k, v) \<Rightarrow>
               (case (QueryUnescape k, QueryUnescape v) of
                  (Some k', Some v') \<Rightarrow> Some (k', v')
                | _ \<Rightarrow> None))"

definition ParseQuery :: "string \<Rightarrow> query_values" where
  "ParseQuery s = List.map_filter parse_setting (split_on (CHR ''&'') s)"

section \<open>Writing a query\<close>

fun join_with :: "char \<Rightarrow> string list \<Rightarrow> string" where
  "join_with sep [] = []"
| "join_with sep [s] = s"
| "join_with sep (s # t # ts) = s @ sep # join_with sep (t # ts)"

definition encode_setting :: "string \<times> string \<Rightarrow> string" where
  "encode_setting kv = (case kv of (k, v) \<Rightarrow> QueryEscape k @ CHR ''='' # QueryEscape v)"

definition values_Encode :: "query_values \<Rightarrow> string" where
  "values_Encode vs = join_with (CHR ''&'') (map encode_setting (sort_key fst vs))"

section \<open>What is written is what is read\<close>

lemma unhex_upper: "n < 16 \<Longrightarrow> unhex (upper_hex n) = Some n"
  by (auto simp: unhex_def upper_hex_def Let_def)

lemma unreserved_plain: "unreserved c \<Longrightarrow> c \<noteq> CHR ''%'' \<and> c \<noteq> CHR ''+'' \<and> c \<noteq> CHR ''&'' \<and> c \<noteq> CHR ''='' \<and> c \<noteq> CHR '';''"
  by (auto simp: unreserved_def is_alpha_def is_digit_def Let_def)

lemma hex_halves: "(of_char c :: nat) div 16 < 16" "(of_char c :: nat) mod 16 < 16"
  using nat_of_char_less_256 [of c] by linarith+

lemma unescape_escape: "QueryUnescape (escape_char c @ s) = map_option (\<lambda>t. c # t) (QueryUnescape s)"
proof -
  have "(of_char c :: nat) div 16 < 16" "(of_char c :: nat) mod 16 < 16"
    using hex_halves .
  moreover have "16 * ((of_char c :: nat) div 16) + of_char c mod 16 = of_char c"
    by simp
  ultimately show ?thesis
    using unreserved_plain [of c] unfolding escape_char_def by (auto simp: unhex_upper)
qed

lemma QueryUnescape_QueryEscape: "QueryUnescape (QueryEscape s) = Some s"
  by (induction s) (simp_all add: QueryEscape_def unescape_escape)

text \<open>No separator survives escaping.\<close>

definition separators :: "char set" where "separators = {CHR ''&'', CHR ''='', CHR '';''}"

lemma upper_hex_plain: "n < 16 \<Longrightarrow> upper_hex n \<notin> separators"
proof -
  have "list_all (\<lambda>n. upper_hex n \<notin> separators) [0..<16]"
    by code_simp
  then show "n < 16 \<Longrightarrow> upper_hex n \<notin> separators"
    by (simp add: list_all_iff)
qed

lemma escape_plain: "x \<in> set (QueryEscape s) \<Longrightarrow> x \<notin> separators"
proof -
  assume "x \<in> set (QueryEscape s)"
  then obtain c where "x \<in> set (escape_char c)"
    by (auto simp: QueryEscape_def)
  moreover have "(of_char c :: nat) div 16 < 16" "(of_char c :: nat) mod 16 < 16"
    using hex_halves .
  ultimately show ?thesis
    using upper_hex_plain unreserved_plain [of c]
    by (auto simp: escape_char_def separators_def split: if_splits)
qed

lemma parse_encode_setting: "parse_setting (encode_setting kv) = Some kv"
proof (cases kv)
  case (Pair k v)
  let ?s = "QueryEscape k @ CHR ''='' # QueryEscape v"
  have plain: "\<forall>x \<in> set (QueryEscape k). x \<noteq> CHR ''=''" "CHR '';'' \<notin> set ?s"
    using escape_plain [of _ k] escape_plain [of _ v] by (auto simp: separators_def)
  then have "cut_at (CHR ''='') ?s = (QueryEscape k, QueryEscape v)"
    by (simp add: cut_at_def takeWhile_append2 dropWhile_append2)
  then show ?thesis
    using plain(2) Pair by (simp add: parse_setting_def encode_setting_def QueryUnescape_QueryEscape)
qed

lemma split_join:
  assumes "ss \<noteq> []" "\<forall>s \<in> set ss. sep \<notin> set s"
  shows "split_on sep (join_with sep ss) = ss"
proof -
  have one: "split_on sep s = [s]" if "sep \<notin> set s" for s
    using that by (induction s) auto
  have more: "split_on sep (s @ sep # t) = s # split_on sep t" if "sep \<notin> set s" for s t
    using that by (induction s) auto
  show ?thesis
    using assms by (induction ss rule: induct_list012) (simp_all add: one more)
qed

lemma ParseQuery_Encode: "vs \<noteq> [] \<Longrightarrow> ParseQuery (values_Encode vs) = sort_key fst vs"
proof -
  assume "vs \<noteq> []"
  moreover have "\<forall>s \<in> set (map encode_setting (sort_key fst vs)). CHR ''&'' \<notin> set s"
    using escape_plain by (fastforce simp: encode_setting_def separators_def split: prod.splits)
  moreover have "sort_key fst vs \<noteq> []" if "vs \<noteq> []"
    using that by (metis length_0_conv length_sort)
  ultimately have "split_on (CHR ''&'') (values_Encode vs) = map encode_setting (sort_key fst vs)"
    unfolding values_Encode_def by (intro split_join) blast+
  moreover have "List.map_filter parse_setting (map encode_setting kvs) = kvs" for kvs
    by (induction kvs) (simp_all add: parse_encode_setting List.map_filter_simps)
  ultimately show ?thesis
    by (simp add: ParseQuery_def)
qed

text \<open>Sorting by key keeps what every key says.\<close>

lemma map_of_sort_key: "distinct (map fst vs) \<Longrightarrow> map_of (sort_key fst vs) = map_of vs"
proof -
  assume d: "distinct (map fst vs)"
  moreover have "mset (map fst (sort_key fst vs)) = mset (map fst vs)"
    by simp
  ultimately have "distinct (map fst (sort_key fst vs))"
    using mset_eq_imp_distinct_iff by blast
  then show ?thesis
    using d by (simp add: map_of_inject_set)
qed

lemma values_get_encoded:
  "vs \<noteq> [] \<Longrightarrow> distinct (map fst vs) \<Longrightarrow> values_get (ParseQuery (values_Encode vs)) k = values_get vs k"
  by (simp add: ParseQuery_Encode values_get_def map_of_sort_key)

end
