(* ===== verification/AdminPages.thy ===== *)
theory AdminPages
  imports Trips Query
begin

text \<open>
  The server-rendered pages of the administrators (\<open>src/admin_page_handlers.go\<close>) and their cookies
  (\<open>src/admin_session.go\<close>): signing in and out, the dashboard, the lists of vehicles, users and trips with the
  links between their pages, and the forms that change vehicles, users and assignments. A page is its template's
  data; the templates themselves are assets. \<open>now\<close> is the server's clock and \<open>dbnow\<close> the database's.
\<close>

section \<open>Pages and cookies\<close>

record Cookie =
  ck_Name :: string
  ck_Value :: string
  ck_MaxAge :: int
  ck_HttpOnly :: bool
  ck_Secure :: bool      \<comment> \<open>every cookie has path \<open>/\<close> and \<open>SameSite=Lax\<close>\<close>

definition sessionCookieName :: string where "sessionCookieName = ''vp_session''"
definition flashCookieName :: string where "flashCookieName = ''vp_flash''"

definition setSessionCookie :: "http_request \<Rightarrow> string \<Rightarrow> bool \<Rightarrow> Cookie" where
  "setSessionCookie r token trustProxy =
     \<lparr>ck_Name = sessionCookieName, ck_Value = token, ck_MaxAge = whole_seconds sessionLifetime, ck_HttpOnly = True,
      ck_Secure = requestIsSecure r trustProxy\<rparr>"

definition clearSessionCookie :: Cookie where
  "clearSessionCookie =
     \<lparr>ck_Name = sessionCookieName, ck_Value = [], ck_MaxAge = - 1, ck_HttpOnly = True, ck_Secure = False\<rparr>"

definition setFlash :: "string \<Rightarrow> Cookie" where
  "setFlash code = \<lparr>ck_Name = flashCookieName, ck_Value = code, ck_MaxAge = 60, ck_HttpOnly = True, ck_Secure = False\<rparr>"

definition flashMessages :: "string \<rightharpoonup> string" where
  "flashMessages = map_of
     [(''vehicle_created'', ''Vehicle created.''), (''vehicle_updated'', ''Vehicle updated.''),
      (''vehicle_deactivated'', ''Vehicle deactivated.''), (''vehicle_activated'', ''Vehicle reactivated.''),
      (''user_created'', ''User created.''), (''user_updated'', ''User updated.''),
      (''user_deactivated'', ''User deactivated.''), (''user_activated'', ''User reactivated.''),
      (''vehicle_assigned'', ''Vehicle assigned.''), (''vehicle_unassigned'', ''Vehicle unassigned.'')]"

text \<open>The message of the request's flash cookie, and the cookie that clears it.\<close>

definition takeFlash :: "string option \<Rightarrow> string \<times> Cookie list" where
  "takeFlash cookie =
     (case cookie of
        None \<Rightarrow> ([], [])
      | Some v \<Rightarrow>
          (if v = [] then ([], [])
           else (case flashMessages v of None \<Rightarrow> [] | Some msg \<Rightarrow> msg,
                 [\<lparr>ck_Name = flashCookieName, ck_Value = [], ck_MaxAge = - 1, ck_HttpOnly = True, ck_Secure = False\<rparr>])))"

datatype 'v page =
    Redirect string "Cookie list"          \<comment> \<open>303\<close>
  | PlainPage nat string                   \<comment> \<open>\<open>http.Error\<close>, \<open>http.NotFound\<close>\<close>
  | Rendered nat string 'v "Cookie list"   \<comment> \<open>the status, the flash message, the template's data\<close>

definition not_found_page :: "'v page" where "not_found_page = PlainPage 404 ''404 page not found''"
definition server_error_page :: "'v page" where "server_error_page = PlainPage 500 ''internal server error''"

definition renderAdmin :: "string option \<Rightarrow> nat \<Rightarrow> 'v \<Rightarrow> 'v page" where
  "renderAdmin flash status data = (case takeFlash flash of (msg, cookies) \<Rightarrow> Rendered status msg data cookies)"

text \<open>A submitted form, or that \<open>ParseForm\<close> failed; \<open>PostFormValue\<close>.\<close>

type_synonym form = "query_values option"

section \<open>Signing in and out\<close>

record adminUIConfig =
  ac_enabled :: bool
  ac_trustProxy :: bool
  ac_stalenessThreshold :: duration

record loginView =
  lv_Error :: string
  lv_Email :: string

definition renderLogin :: "nat \<Rightarrow> string \<Rightarrow> string \<Rightarrow> loginView page" where
  "renderLogin status errMsg email = Rendered status [] \<lparr>lv_Error = errMsg, lv_Email = email\<rparr> []"

definition rootRedirect ::
  "JWT \<Rightarrow> string \<Rightarrow> checker \<Rightarrow> gotime \<Rightarrow> http_request \<Rightarrow> loginView page call" where
  "rootRedirect J secret checker now r =
     serve (adminClaimsFromCookie J secret checker now r) (\<lambda>claims.
       answer (Redirect (if claims = None then ''/admin/login'' else ''/admin/dashboard'') []))"

definition loginPage ::
  "JWT \<Rightarrow> string \<Rightarrow> checker \<Rightarrow> gotime \<Rightarrow> http_request \<Rightarrow> loginView page call" where
  "loginPage J secret checker now r =
     serve (adminClaimsFromCookie J secret checker now r) (\<lambda>claims.
       answer (if claims = None then renderLogin 200 [] [] else Redirect ''/admin/dashboard'' []))"

definition invalid_login :: "string \<Rightarrow> loginView page" where
  "invalid_login email = renderLogin 401 ''Invalid email or password.'' email"

definition loginSubmit ::
  "JWT \<Rightarrow> Crypto \<Rightarrow> string \<Rightarrow> adminUIConfig \<Rightarrow> string option \<Rightarrow> gotime \<Rightarrow> http_request \<Rightarrow> form \<Rightarrow> LoginRateLimiter
     \<Rightarrow> net \<times> Database \<Rightarrow> loginView page \<times> LoginRateLimiter \<times> net \<times> Database" where
  "loginSubmit J C secret cfg rnd now r form limiter st =
     (case form of
        None \<Rightarrow> (renderLogin 400 ''Invalid form submission.'' [], limiter, st)
      | Some vs \<Rightarrow>
          (let email = values_get vs ''email''; password = values_get vs ''password''; ip = clientIP r (ac_trustProxy cfg)
           in if email = [] \<or> password = []
              then (renderLogin 422 ''Email and password are required.'' email, limiter, st)
              else
                (case Login_Allow ip email now limiter of
                   (limiter', allowed) \<Rightarrow>
                     (if \<not> allowed then (renderLogin 429 ''Too many attempts, try again shortly.'' email, limiter', st)
                      else
                        (case Store_GetUserByEmail email st of
                           (Inl e, st') \<Rightarrow>
                             ((if e = ErrUserNotFound then invalid_login email
                               else renderLogin 500 ''Something went wrong. Try again.'' email), limiter', st')
                         | (Inr user, st') \<Rightarrow>
                             (if cr_Compare C (u_PasswordHash user) password \<noteq> Match \<or> \<not> u_Active user
                              then (invalid_login email, limiter', st')
                              else
                                (let limiter'' = RecordSuccess ip email limiter' in
                                 if u_Role user \<noteq> roleAdmin
                                 then (renderLogin 403 ''Admin access required.'' email, limiter'', st')
                                 else
                                   (case generateJWT J (u_ID user) (u_Email user) (u_Role user) secret sessionLifetime rnd now of
                                      None \<Rightarrow> (renderLogin 500 ''Something went wrong. Try again.'' email, limiter'', st')
                                    | Some token \<Rightarrow>
                                        (Redirect ''/admin/dashboard'' [setSessionCookie r token (ac_trustProxy cfg)],
                                         limiter'', st')))))))))"

definition admin_logout :: "JWT \<Rightarrow> string \<Rightarrow> revoker \<Rightarrow> gotime \<Rightarrow> http_request \<Rightarrow> loginView page call" where
  "admin_logout J secret revoke now r =
     serve (revokeSessionCookie J secret revoke now r) (\<lambda>_. answer (Redirect ''/admin/login'' [clearSessionCookie]))"

section \<open>The map and the dashboard\<close>

definition mapPage :: "string option \<Rightarrow> string \<Rightarrow> string page" where  \<comment> \<open>the template gets the trip's ID\<close>
  "mapPage flash query =
     (let raw = values_get (ParseQuery query) ''trip_id'' in
      if raw \<noteq> [] \<and> parse_int64 raw = None then not_found_page else renderAdmin flash 200 raw)"

record dashboardRow =
  dr_Label :: string
  dr_RouteID :: string
  dr_LastSeen :: string

definition recentActivityLimit :: nat where "recentActivityLimit = 10"

text \<open>Conversion of a positive duration to whole units, as \<open>int(d.Minutes())\<close>.\<close>

definition humanizeAge :: "gotime \<Rightarrow> gotime \<Rightarrow> string" where
  "humanizeAge now t =
     (let age = time_sub now t in
      if age < minute then ''just now''
      else if age < hour then fmt_d (age div minute) @ '' min ago''
      else fmt_d (age div hour) @ '' h ago'')"

definition humanizeDuration :: "duration \<Rightarrow> string" where
  "humanizeDuration d =
     (if d < minute then fmt_d (whole_seconds d) @ ''s''
      else if d < hour then fmt_d (d div minute) @ '' min''
      else fmt_d (d div hour) @ '' h'')"

record dashboardView =
  dv_TotalVehicles :: int
  dv_ActiveVehicles :: nat
  dv_TotalDrivers :: int
  dv_ActiveTrips :: int
  dv_LastUpdate :: string
  dv_StalenessThreshold :: string
  dv_Recent :: "dashboardRow list"

definition label_map :: "VehicleResponse list \<Rightarrow> (string \<rightharpoonup> string)" where
  "label_map vehicles = fold (\<lambda>v m. m(vr_ID v \<mapsto> vr_Label v)) vehicles Map.empty"

definition dashboard_row ::
  "gotime \<Rightarrow> (string \<rightharpoonup> string) \<Rightarrow> (string \<rightharpoonup> ActiveTripInfo) \<Rightarrow> VehicleState \<Rightarrow> dashboardRow" where
  "dashboard_row now labels trips v =
     \<lparr>dr_Label = (case labels (ve_VehicleID v) of None \<Rightarrow> ve_VehicleID v | Some l \<Rightarrow> l),
      dr_RouteID = (case trips (ve_VehicleID v) of None \<Rightarrow> [] | Some trip \<Rightarrow> ati_RouteID trip),
      dr_LastSeen = humanizeAge now (ve_UpdatedAt v)\<rparr>"

text \<open>
  \<open>sort.Slice\<close> leaves the order of vehicles seen at the same instant open; the order \<open>ks\<close> in which the tracker's
  map is visited decides it here.
\<close>

definition recent_vehicles :: "VehicleState list \<Rightarrow> VehicleState list" where
  "recent_vehicles active =
     take recentActivityLimit (stable_sort (\<lambda>x y. cmp (ve_UpdatedAt y) (ve_UpdatedAt x)) active)"

definition dashboardPage ::
  "adminUIConfig \<Rightarrow> string option \<Rightarrow> string list \<Rightarrow> gotime \<Rightarrow> Tracker \<Rightarrow> dashboardView page call" where
  "dashboardPage cfg flash ks now tracker =
     serve Store_CountActiveVehicles (\<lambda>r1. case r1 of Inl e \<Rightarrow> answer server_error_page | Inr totalVehicles \<Rightarrow>
     serve (Store_CountActiveUsersByRole roleDriver) (\<lambda>r2. case r2 of Inl e \<Rightarrow> answer server_error_page | Inr totalDrivers \<Rightarrow>
     serve Store_CountActiveTrips (\<lambda>r3. case r3 of Inl e \<Rightarrow> answer server_error_page | Inr activeTripCount \<Rightarrow>
     serve Store_ListVehicles (\<lambda>r4. case r4 of Inl e \<Rightarrow> answer server_error_page | Inr vehicles \<Rightarrow>
     serve Store_ListActiveTripsByVehicle (\<lambda>r5. case r5 of Inl e \<Rightarrow> answer server_error_page | Inr trips \<Rightarrow>
       (let status = Status ks now tracker in
        answer (renderAdmin flash 200
          \<lparr>dv_TotalVehicles = totalVehicles, dv_ActiveVehicles = ts_ActiveVehicles status, dv_TotalDrivers = totalDrivers,
           dv_ActiveTrips = activeTripCount,
           dv_LastUpdate = (case ts_LastUpdate status of None \<Rightarrow> ''never'' | Some t \<Rightarrow> humanizeAge now t),
           dv_StalenessThreshold = humanizeDuration (ac_stalenessThreshold cfg),
           dv_Recent = map (dashboard_row now (label_map vehicles) trips) (recent_vehicles (ActiveVehicles ks now tracker))\<rparr>)))))))"

section \<open>Paging\<close>

definition adminPageSize :: int where "adminPageSize = 50"
definition maxAdminPage :: int where "maxAdminPage = 1000000"

definition adminPageNumber :: "query_values \<Rightarrow> int" where
  "adminPageNumber q =
     (let raw = values_get q ''page'' in
      if raw = [] then 1
      else case parse_int64 raw of Some n \<Rightarrow> if 1 \<le> n \<and> n \<le> maxAdminPage then n else 1 | None \<Rightarrow> 1)"

definition adminPageOffset :: "int \<Rightarrow> int" where
  "adminPageOffset page = (page - 1) * adminPageSize"

text \<open>Setting a key of a query under construction, if the filter says so.\<close>

definition set_if :: "bool \<Rightarrow> string \<Rightarrow> string \<Rightarrow> query_values" where
  "set_if b k v = (if b then [(k, v)] else [])"

text \<open>A list is asked for one row more than a page holds; the extra row says that there is a next page.\<close>

definition has_more :: "'r list \<Rightarrow> bool" where
  "has_more rows \<longleftrightarrow> int (length rows) > adminPageSize"

definition one_page :: "'r list \<Rightarrow> 'r list" where
  "one_page rows = (if has_more rows then take (nat adminPageSize) rows else rows)"

section \<open>The list of vehicles\<close>

record vehicleRow =
  vw_ID :: string
  vw_Label :: string
  vw_AgencyTag :: string
  vw_Active :: bool
  vw_LastSeen :: string
  vw_Driver :: string

record vehiclesView =
  vv_Vehicles :: "vehicleRow list"
  vv_IncludeInactive :: bool
  vv_AgencyTag :: string
  vv_Q :: string
  vv_PageNum :: int
  vv_HasMore :: bool
  vv_PrevURL :: string
  vv_NextURL :: string
  vv_ToggleInactiveURL :: string

definition vehicles_query :: "VehicleFilter \<Rightarrow> int \<Rightarrow> query_values" where
  "vehicles_query f page =
     set_if (vf_IncludeInactive f) ''include_inactive'' ''1'' @ set_if (vf_AgencyTag f \<noteq> []) ''agency_tag'' (vf_AgencyTag f)
     @ set_if (vf_Q f \<noteq> []) ''q'' (vf_Q f) @ [(''page'', fmt_d page)]"

definition vehiclesPageURL :: "VehicleFilter \<Rightarrow> int \<Rightarrow> string" where
  "vehiclesPageURL f page = ''/admin/vehicles?'' @ values_Encode (vehicles_query f page)"

text \<open>What a request asks for: its filter and page, or the error.\<close>

definition vehicles_request :: "query_values \<Rightarrow> string + VehicleFilter \<times> int" where
  "vehicles_request query =
     (case validateListQuery (values_get query ''q'') of
        Some msg \<Rightarrow> Inl msg
      | None \<Rightarrow>
          (let page = adminPageNumber query
           in Inr (\<lparr>vf_IncludeInactive = (values_get query ''include_inactive'' = ''1''),
                    vf_AgencyTag = values_get query ''agency_tag'', vf_Q = values_get query ''q'',
                    vf_Limit = adminPageSize + 1, vf_Offset = wrap32 (adminPageOffset page)\<rparr>, page)))"

definition last_seen :: "gotime \<Rightarrow> VehicleState list \<Rightarrow> (string \<rightharpoonup> string)" where
  "last_seen now reporting = fold (\<lambda>v m. m(ve_VehicleID v \<mapsto> humanizeAge now (ve_UpdatedAt v))) reporting Map.empty"

definition vehicle_row :: "(string \<rightharpoonup> string) \<Rightarrow> (string \<rightharpoonup> ActiveTripInfo) \<Rightarrow> VehicleResponse \<Rightarrow> vehicleRow" where
  "vehicle_row seen trips v =
     \<lparr>vw_ID = vr_ID v, vw_Label = vr_Label v, vw_AgencyTag = vr_AgencyTag v, vw_Active = vr_Active v,
      vw_LastSeen = (case seen (vr_ID v) of None \<Rightarrow> [] | Some s \<Rightarrow> s),
      vw_Driver = (case trips (vr_ID v) of None \<Rightarrow> [] | Some trip \<Rightarrow> ati_DriverName trip)\<rparr>"

definition vehiclesPage ::
  "(char \<Rightarrow> char) \<Rightarrow> string option \<Rightarrow> string \<Rightarrow> string list \<Rightarrow> gotime \<Rightarrow> Tracker \<Rightarrow> vehiclesView page call" where
  "vehiclesPage lc flash query ks now tracker =
     (case vehicles_request (ParseQuery query) of
        Inl msg \<Rightarrow> answer (PlainPage 400 msg)
      | Inr (fltr, page) \<Rightarrow>
          serve (Store_ListVehiclesPage lc fltr) (\<lambda>r1. case r1 of Inl e \<Rightarrow> answer server_error_page | Inr vehicles \<Rightarrow>
          serve Store_ListActiveTripsByVehicle (\<lambda>r2. case r2 of Inl e \<Rightarrow> answer server_error_page | Inr trips \<Rightarrow>
            answer (renderAdmin flash 200
              \<lparr>vv_Vehicles = map (vehicle_row (last_seen now (ActiveVehicles ks now tracker)) trips) (one_page vehicles),
               vv_IncludeInactive = vf_IncludeInactive fltr, vv_AgencyTag = vf_AgencyTag fltr, vv_Q = vf_Q fltr, vv_PageNum = page,
               vv_HasMore = has_more vehicles, vv_PrevURL = vehiclesPageURL fltr (page - 1),
               vv_NextURL = vehiclesPageURL fltr (page + 1),
               vv_ToggleInactiveURL = vehiclesPageURL (fltr\<lparr>vf_IncludeInactive := \<not> vf_IncludeInactive fltr\<rparr>) 1\<rparr>))))"

section \<open>The forms of a vehicle\<close>

record vehicleFormData =
  vfd_IsEdit :: bool
  vfd_ID :: string
  vfd_Label :: string
  vfd_AgencyTag :: string
  vfd_Error :: string

definition renderVehicleForm :: "string option \<Rightarrow> nat \<Rightarrow> vehicleFormData \<Rightarrow> (string \<times> vehicleFormData) page" where
  "renderVehicleForm flash status data =
     renderAdmin flash status (if vfd_IsEdit data then ''Edit Vehicle'' else ''New Vehicle'', data)"

definition vehicle_form :: "bool \<Rightarrow> string \<Rightarrow> string \<Rightarrow> string \<Rightarrow> string \<Rightarrow> vehicleFormData" where
  "vehicle_form isEdit i label tag err =
     \<lparr>vfd_IsEdit = isEdit, vfd_ID = i, vfd_Label = label, vfd_AgencyTag = tag, vfd_Error = err\<rparr>"

definition vehicleNewPage :: "string option \<Rightarrow> (string \<times> vehicleFormData) page" where
  "vehicleNewPage flash = renderVehicleForm flash 200 (vehicle_form False [] [] [] [])"

definition vehicleCreate :: "string option \<Rightarrow> gotime \<Rightarrow> form \<Rightarrow> (string \<times> vehicleFormData) page call" where
  "vehicleCreate flash dbnow form =
     (case form of
        None \<Rightarrow> answer (renderVehicleForm flash 400 (vehicle_form False [] [] [] ''Invalid form submission.''))
      | Some vs \<Rightarrow>
          (let i = values_get vs ''id''; label = values_get vs ''label''; tag = values_get vs ''agency_tag''
           in case validateVehicleID i of
                Some msg \<Rightarrow> answer (renderVehicleForm flash 422 (vehicle_form False i label tag msg))
              | None \<Rightarrow>
                  serve (Store_CreateVehicle i label tag dbnow) (\<lambda>res.
                    answer (case res of
                              Inl e \<Rightarrow> server_error_page
                            | Inr created \<Rightarrow>
                                (if \<not> created
                                 then renderVehicleForm flash 422 (vehicle_form False i label tag ''vehicle id already exists'')
                                 else Redirect ''/admin/vehicles'' [setFlash ''vehicle_created''])))))"

definition vehicleEditPage :: "string option \<Rightarrow> string \<Rightarrow> (string \<times> vehicleFormData) page call" where
  "vehicleEditPage flash i =
     serve (Store_GetVehicle i) (\<lambda>res.
       answer (case res of
                 Inl e \<Rightarrow> if e = Wrapped NoRows then not_found_page else server_error_page
               | Inr v \<Rightarrow> renderVehicleForm flash 200 (vehicle_form True (vr_ID v) (vr_Label v) (vr_AgencyTag v) [])))"

definition vehicleUpdate :: "string option \<Rightarrow> gotime \<Rightarrow> string \<Rightarrow> form \<Rightarrow> (string \<times> vehicleFormData) page call" where
  "vehicleUpdate flash dbnow i form =
     (case form of
        None \<Rightarrow> answer (renderVehicleForm flash 400 (vehicle_form True i [] [] ''Invalid form submission.''))
      | Some vs \<Rightarrow>
          serve (Store_UpdateVehicleInfo i (values_get vs ''label'') (values_get vs ''agency_tag'') dbnow) (\<lambda>res.
            answer (case res of
                      Inl e \<Rightarrow> if e = Wrapped NoRows then not_found_page else server_error_page
                    | Inr _ \<Rightarrow> Redirect ''/admin/vehicles'' [setFlash ''vehicle_updated''])))"

definition setVehicleActive :: "gotime \<Rightarrow> string \<Rightarrow> bool \<Rightarrow> string \<Rightarrow> unit page call" where
  "setVehicleActive dbnow i active flashCode =
     serve (Store_SetVehicleActive i active dbnow) (\<lambda>res.
       answer (case res of
                 Inl e \<Rightarrow> if e = Wrapped NoRows then not_found_page else server_error_page
               | Inr _ \<Rightarrow> Redirect ''/admin/vehicles'' [setFlash flashCode]))"

definition vehicleDeactivate :: "gotime \<Rightarrow> string \<Rightarrow> unit page call" where
  "vehicleDeactivate dbnow i = setVehicleActive dbnow i False ''vehicle_deactivated''"

definition vehicleActivate :: "gotime \<Rightarrow> string \<Rightarrow> unit page call" where
  "vehicleActivate dbnow i = setVehicleActive dbnow i True ''vehicle_activated''"


section \<open>The list of users\<close>

record userRow =
  uw_ID :: int
  uw_Name :: string
  uw_Email :: string
  uw_Role :: string
  uw_Active :: bool
  uw_VehicleCount :: nat

record usersView =
  uv_Users :: "userRow list"
  uv_Role :: string
  uv_Q :: string
  uv_ActiveOnly :: bool
  uv_PageNum :: int
  uv_HasMore :: bool
  uv_PrevURL :: string
  uv_NextURL :: string
  uv_ToggleActiveURL :: string

definition users_query :: "UserFilter \<Rightarrow> int \<Rightarrow> query_values" where
  "users_query f page =
     set_if (uf_Role f \<noteq> []) ''role'' (uf_Role f) @ set_if (uf_Q f \<noteq> []) ''q'' (uf_Q f)
     @ set_if (uf_ActiveOnly f) ''active'' ''1'' @ [(''page'', fmt_d page)]"

definition usersPageURL :: "UserFilter \<Rightarrow> int \<Rightarrow> string" where
  "usersPageURL f page = ''/admin/users?'' @ values_Encode (users_query f page)"

definition users_request :: "query_values \<Rightarrow> string + UserFilter \<times> int" where
  "users_request query =
     (case validateListQuery (values_get query ''q'') of
        Some msg \<Rightarrow> Inl msg
      | None \<Rightarrow>
          (if \<not> validUserRoleFilter (values_get query ''role'') then Inl ''role must be driver or admin''
           else let page = adminPageNumber query
                in Inr (\<lparr>uf_Role = values_get query ''role'', uf_Q = values_get query ''q'',
                         uf_ActiveOnly = (values_get query ''active'' = ''1''), uf_Limit = adminPageSize + 1,
                         uf_Offset = wrap32 (adminPageOffset page)\<rparr>, page)))"

text \<open>The vehicles of each user are counted with a query of their own.\<close>

primrec user_rows :: "UserResponse list \<Rightarrow> (StoreError + userRow list) call" where
  "user_rows [] = answer (Inr [])"
| "user_rows (u # us) =
     serve (Store_ListAssignmentsByUser (us_ID u)) (\<lambda>res.
       case res of
         Inl e \<Rightarrow> answer (Inl e)
       | Inr assignments \<Rightarrow>
           serve (user_rows us) (\<lambda>rest.
             answer (case rest of
                       Inl e \<Rightarrow> Inl e
                     | Inr rows \<Rightarrow> Inr (\<lparr>uw_ID = us_ID u, uw_Name = us_Name u, uw_Email = us_Email u, uw_Role = us_Role u,
                                      uw_Active = us_Active u, uw_VehicleCount = length assignments\<rparr> # rows))))"

definition usersPage :: "(char \<Rightarrow> char) \<Rightarrow> string option \<Rightarrow> string \<Rightarrow> usersView page call" where
  "usersPage lc flash query =
     (case users_request (ParseQuery query) of
        Inl msg \<Rightarrow> answer (PlainPage 400 msg)
      | Inr (fltr, page) \<Rightarrow>
          serve (Store_ListUsersPage lc fltr) (\<lambda>r1. case r1 of Inl e \<Rightarrow> answer server_error_page | Inr users \<Rightarrow>
          serve (user_rows (one_page users)) (\<lambda>r2. case r2 of Inl e \<Rightarrow> answer server_error_page | Inr rows \<Rightarrow>
            answer (renderAdmin flash 200
              \<lparr>uv_Users = rows, uv_Role = uf_Role fltr, uv_Q = uf_Q fltr, uv_ActiveOnly = uf_ActiveOnly fltr, uv_PageNum = page,
               uv_HasMore = has_more users, uv_PrevURL = usersPageURL fltr (page - 1),
               uv_NextURL = usersPageURL fltr (page + 1),
               uv_ToggleActiveURL = usersPageURL (fltr\<lparr>uf_ActiveOnly := \<not> uf_ActiveOnly fltr\<rparr>) 1\<rparr>))))"

section \<open>The forms of a user\<close>

record assignmentRow =
  asr_VehicleID :: string
  asr_Label :: string

record userFormData =
  ufd_IsEdit :: bool
  ufd_ID :: string
  ufd_Name :: string
  ufd_Email :: string
  ufd_Role :: string
  ufd_Error :: string
  ufd_Assignments :: "assignmentRow list"
  ufd_AvailableVehicles :: "VehicleResponse list"

definition renderUserForm :: "string option \<Rightarrow> nat \<Rightarrow> userFormData \<Rightarrow> (string \<times> userFormData) page" where
  "renderUserForm flash status data =
     renderAdmin flash status (if ufd_IsEdit data then ''Edit User'' else ''New User'', data)"

definition new_user_form :: "string \<Rightarrow> string \<Rightarrow> string \<Rightarrow> string \<Rightarrow> userFormData" where
  "new_user_form name email role err =
     \<lparr>ufd_IsEdit = False, ufd_ID = [], ufd_Name = name, ufd_Email = email, ufd_Role = role, ufd_Error = err,
      ufd_Assignments = [], ufd_AvailableVehicles = []\<rparr>"

definition userNewPage :: "string option \<Rightarrow> (string \<times> userFormData) page" where
  "userNewPage flash = renderUserForm flash 200 (new_user_form [] [] roleDriver [])"

text \<open>The checks of a new user's form, in the code's order; the error, if any.\<close>

definition new_user_error :: "string \<Rightarrow> string \<Rightarrow> string \<Rightarrow> string \<Rightarrow> string option" where
  "new_user_error name email password role =
     (if name = [] then Some ''name is required''
      else if email = [] then Some ''email is required''
      else case validatePassword password of
             Some msg \<Rightarrow> Some msg
           | None \<Rightarrow> if \<not> validUserRole role then Some ''role must be driver or admin'' else None)"

definition userCreate ::
  "(string \<Rightarrow> string option) \<Rightarrow> string option \<Rightarrow> gotime \<Rightarrow> form \<Rightarrow> (string \<times> userFormData) page call" where
  "userCreate bcrypt flash dbnow form =
     (case form of
        None \<Rightarrow> answer (renderUserForm flash 400 (new_user_form [] [] [] ''Invalid form submission.''))
      | Some vs \<Rightarrow>
          (let name = values_get vs ''name''; email = values_get vs ''email''; password = values_get vs ''password'';
               role = values_get vs ''role''
           in case new_user_error name email password role of
                Some msg \<Rightarrow> answer (renderUserForm flash 422 (new_user_form name email role msg))
              | None \<Rightarrow>
                  serve (Store_CreateUser name email (bcrypt password) role dbnow) (\<lambda>res.
                    answer (case res of
                              Inl e \<Rightarrow>
                                (if e = ErrDuplicateEmail
                                 then renderUserForm flash 422 (new_user_form name email role ''email already exists'')
                                 else server_error_page)
                            | Inr _ \<Rightarrow> Redirect ''/admin/users'' [setFlash ''user_created'']))))"

definition buildUserFormData :: "int \<Rightarrow> string \<Rightarrow> string \<Rightarrow> string \<Rightarrow> (StoreError + userFormData) call" where
  "buildUserFormData i name email role =
     serve (Store_ListAssignmentsByUser i) (\<lambda>r1. case r1 of Inl e \<Rightarrow> answer (Inl e) | Inr assignments \<Rightarrow>
     serve Store_ListVehicles (\<lambda>r2. case r2 of Inl e \<Rightarrow> answer (Inl e) | Inr allVehicles \<Rightarrow>
       (let labels = label_map allVehicles; assigned = set (map an_VehicleID assignments) in
        answer (Inr \<lparr>ufd_IsEdit = True, ufd_ID = fmt_d i, ufd_Name = name, ufd_Email = email, ufd_Role = role, ufd_Error = [],
                     ufd_Assignments =
                       map (\<lambda>a. \<lparr>asr_VehicleID = an_VehicleID a,
                                 asr_Label = (case labels (an_VehicleID a) of None \<Rightarrow> [] | Some l \<Rightarrow> l)\<rparr>) assignments,
                     ufd_AvailableVehicles = filter (\<lambda>v. vr_Active v \<and> vr_ID v \<notin> assigned) allVehicles\<rparr>))))"

definition userEditPage :: "string option \<Rightarrow> string \<Rightarrow> (string \<times> userFormData) page call" where
  "userEditPage flash i =
     (case parse_int64 i of
        None \<Rightarrow> answer not_found_page
      | Some uid \<Rightarrow>
          serve (Store_GetUser uid) (\<lambda>res.
            case res of
              Inl e \<Rightarrow> answer (if e = ErrUserNotFound then not_found_page else server_error_page)
            | Inr u \<Rightarrow>
                serve (buildUserFormData (us_ID u) (us_Name u) (us_Email u) (us_Role u)) (\<lambda>built.
                  answer (case built of Inl e \<Rightarrow> server_error_page | Inr data \<Rightarrow> renderUserForm flash 200 data))))"

definition renderUserEditError ::
  "string option \<Rightarrow> nat \<Rightarrow> int \<Rightarrow> string \<Rightarrow> string \<Rightarrow> string \<Rightarrow> string \<Rightarrow> (string \<times> userFormData) page call" where
  "renderUserEditError flash status i name email role errMsg =
     serve (buildUserFormData i name email role) (\<lambda>built.
       answer (case built of
                 Inl e \<Rightarrow> server_error_page
               | Inr data \<Rightarrow> renderUserForm flash status (data\<lparr>ufd_Error := errMsg\<rparr>)))"


text \<open>The checks of an edited user's form; a password left blank is not checked.\<close>

definition edited_user_error :: "string \<Rightarrow> string \<Rightarrow> string \<Rightarrow> string \<Rightarrow> string option" where
  "edited_user_error name email role password =
     (if name = [] then Some ''name is required''
      else if email = [] then Some ''email is required''
      else if \<not> validUserRole role then Some ''role must be driver or admin''
      else if password \<noteq> [] then validatePassword password
      else None)"

text \<open>
  The guard of the last active administrator: \<open>blocks\<close> says whether the change takes an administrator's access
  away, and \<open>refuse\<close> answers if this is the last one.
\<close>

definition last_admin_guard ::
  "int \<Rightarrow> (UserResponse \<Rightarrow> bool) \<Rightarrow> 'v page call \<Rightarrow> 'v page call \<Rightarrow> 'v page call" where
  "last_admin_guard uid blocks refuse go_on =
     serve (Store_GetUser uid) (\<lambda>res.
       case res of
         Inl e \<Rightarrow> answer (if e = ErrUserNotFound then not_found_page else server_error_page)
       | Inr current \<Rightarrow>
           (if us_Role current = roleAdmin \<and> us_Active current \<and> blocks current
            then serve (Store_CountActiveUsersByRole roleAdmin) (\<lambda>counted.
                   case counted of
                     Inl e \<Rightarrow> answer server_error_page
                   | Inr admins \<Rightarrow> if admins \<le> 1 then refuse else go_on)
            else go_on))"

definition save_user ::
  "(string \<Rightarrow> string option) \<Rightarrow> string option \<Rightarrow> gotime \<Rightarrow> int \<Rightarrow> string \<Rightarrow> string \<Rightarrow> string \<Rightarrow> string
     \<Rightarrow> (string \<times> userFormData) page call" where
  "save_user bcrypt flash dbnow uid name email role password =
     serve (Store_UpdateUser uid name email role dbnow) (\<lambda>res.
       case res of
         Inl e \<Rightarrow>
           (if e = ErrUserNotFound then answer not_found_page
            else if e = ErrDuplicateEmail then renderUserEditError flash 422 uid name email role ''email already exists''
            else answer server_error_page)
       | Inr _ \<Rightarrow>
           (if password = [] then answer (Redirect ''/admin/users'' [setFlash ''user_updated''])
            else serve (Store_SetUserPasswordAndRevokeSessions uid (bcrypt password) dbnow) (\<lambda>res2.
              answer (case res2 of
                        Inl e \<Rightarrow> if e = ErrUserNotFound then not_found_page else server_error_page
                      | Inr _ \<Rightarrow> Redirect ''/admin/users'' [setFlash ''user_updated'']))))"

definition userUpdate ::
  "(string \<Rightarrow> string option) \<Rightarrow> string option \<Rightarrow> gotime \<Rightarrow> string \<Rightarrow> form \<Rightarrow> (string \<times> userFormData) page call" where
  "userUpdate bcrypt flash dbnow i form =
     (case parse_int64 i of
        None \<Rightarrow> answer not_found_page
      | Some uid \<Rightarrow>
          (case form of
             None \<Rightarrow> answer (renderUserForm flash 400
                       ((new_user_form [] [] [] ''Invalid form submission.'')\<lparr>ufd_IsEdit := True, ufd_ID := i\<rparr>))
           | Some vs \<Rightarrow>
               (let name = values_get vs ''name''; email = values_get vs ''email''; role = values_get vs ''role'';
                    password = values_get vs ''password''
                in case edited_user_error name email role password of
                     Some msg \<Rightarrow> renderUserEditError flash 422 uid name email role msg
                   | None \<Rightarrow>
                       last_admin_guard uid (\<lambda>_. role \<noteq> roleAdmin)
                         (renderUserEditError flash 422 uid name email role ''cannot demote the last active admin'')
                         (save_user bcrypt flash dbnow uid name email role password))))"

definition set_active :: "gotime \<Rightarrow> int \<Rightarrow> bool \<Rightarrow> string \<Rightarrow> unit page call" where
  "set_active dbnow uid active flashCode =
     serve (Store_SetUserActiveAndRevokeSessions uid active dbnow) (\<lambda>res.
       answer (case res of
                 Inl e \<Rightarrow> if e = ErrUserNotFound then not_found_page else server_error_page
               | Inr _ \<Rightarrow> Redirect ''/admin/users'' [setFlash flashCode]))"

definition setUserActive :: "gotime \<Rightarrow> string \<Rightarrow> bool \<Rightarrow> string \<Rightarrow> unit page call" where
  "setUserActive dbnow i active flashCode =
     (case parse_int64 i of
        None \<Rightarrow> answer not_found_page
      | Some uid \<Rightarrow>
          (if active then set_active dbnow uid active flashCode
           else last_admin_guard uid (\<lambda>_. True)
                  (answer (PlainPage 422 ''cannot deactivate the last active admin''))
                  (set_active dbnow uid active flashCode)))"

definition userDeactivate :: "gotime \<Rightarrow> string \<Rightarrow> unit page call" where
  "userDeactivate dbnow i = setUserActive dbnow i False ''user_deactivated''"

definition userActivate :: "gotime \<Rightarrow> string \<Rightarrow> unit page call" where
  "userActivate dbnow i = setUserActive dbnow i True ''user_activated''"

definition edit_url :: "string \<Rightarrow> string" where
  "edit_url i = ''/admin/users/'' @ i @ ''/edit''"

definition userAssignVehicle :: "gotime \<Rightarrow> string \<Rightarrow> form \<Rightarrow> unit page call" where
  "userAssignVehicle dbnow i form =
     (case parse_int64 i of
        None \<Rightarrow> answer not_found_page
      | Some uid \<Rightarrow>
          (case form of
             None \<Rightarrow> answer (PlainPage 400 ''invalid form submission'')
           | Some vs \<Rightarrow>
               (let vehicleID = values_get vs ''vehicle_id'' in
                if vehicleID = [] then answer (Redirect (edit_url i) [])
                else serve (Store_CreateAssignment uid vehicleID dbnow) (\<lambda>res.
                  answer (case res of
                            Inl e \<Rightarrow>
                              (if e = ErrVehicleNotFoundFK then not_found_page
                               else if e \<noteq> ErrAssignmentExists then server_error_page
                               else Redirect (edit_url i) [])
                          | Inr _ \<Rightarrow> Redirect (edit_url i) [setFlash ''vehicle_assigned''])))))"

definition userUnassignVehicle :: "string \<Rightarrow> string \<Rightarrow> unit page call" where
  "userUnassignVehicle i vehicleID =
     (case parse_int64 i of
        None \<Rightarrow> answer not_found_page
      | Some uid \<Rightarrow>
          serve (Store_DeleteAssignment uid vehicleID) (\<lambda>res.
            answer (case res of
                      Inl e \<Rightarrow> if e = ErrAssignmentNotFound then not_found_page else server_error_page
                    | Inr _ \<Rightarrow> Redirect (edit_url i) [setFlash ''vehicle_unassigned''])))"

section \<open>The list of trips\<close>

record tripRow =
  tw_ID :: int
  tw_VehicleLabel :: string
  tw_DriverName :: string
  tw_RouteID :: string
  tw_GtfsTripID :: string
  tw_Start :: string
  tw_End :: string
  tw_Status :: string
  tw_Duration :: string

record tripsView =
  tv_Trips :: "tripRow list"
  tv_Vehicles :: "VehicleResponse list"
  tv_Status :: string
  tv_VehicleID :: string
  tv_Q :: string
  tv_PageNum :: int
  tv_HasMore :: bool
  tv_PrevURL :: string
  tv_NextURL :: string

definition em_dash :: string where "em_dash = [CHR 0xE2, CHR 0x80, CHR 0x94]"

definition formatTripTimestamp :: "gotime \<Rightarrow> string" where
  "formatTripTimestamp t =
     (case Date_of (\<lambda>_. 0) t of
        (y, m, d) \<Rightarrow>
          year_digits y @ CHR ''-'' # pad_digits 2 m @ CHR ''-'' # pad_digits 2 d @ CHR '' '' # pad_digits 2 (clock_of (\<lambda>_. 0) t div 3600)
          @ CHR '':'' # pad_digits 2 (clock_of (\<lambda>_. 0) t div 60 mod 60) @ '' UTC'')"

text \<open>\<open>d.Round(time.Minute)\<close>: to the nearest minute, halves away from zero, saturating; Go's \<open>/\<close> truncates.\<close>

definition round_minute :: "duration \<Rightarrow> duration" where
  "round_minute d =
     (if d < 0
      then (let r = (- d) mod minute in
            if 2 * r < minute then d + r else if d - minute + r < min_int64 then min_int64 else d - minute + r)
      else (let r = d mod minute in
            if 2 * r < minute then d - r else if d + minute - r > max_int64 then max_int64 else d + minute - r))"

definition quot_trunc :: "int \<Rightarrow> int \<Rightarrow> int" where
  "quot_trunc a b = (if 0 \<le> a then a div b else - ((- a) div b))"

definition formatTripDuration :: "gotime \<Rightarrow> gotime option \<Rightarrow> string" where
  "formatTripDuration start till =
     (case till of
        None \<Rightarrow> em_dash
      | Some t \<Rightarrow>
          (let d = round_minute (time_sub t start);
               h = quot_trunc d hour;
               minutes = quot_trunc d minute;
               m = minutes - 60 * quot_trunc minutes 60
           in if h > 0 then fmt_d h @ ''h '' @ fmt_d m @ ''m'' else fmt_d m @ ''m''))"

definition trips_query :: "string \<Rightarrow> string \<Rightarrow> string \<Rightarrow> int \<Rightarrow> query_values" where
  "trips_query status vehicleID q page =
     set_if (status \<noteq> []) ''status'' status @ set_if (vehicleID \<noteq> []) ''vehicle_id'' vehicleID @ set_if (q \<noteq> []) ''q'' q
     @ [(''page'', fmt_d page)]"

definition tripsPageURL :: "string \<Rightarrow> string \<Rightarrow> string \<Rightarrow> int \<Rightarrow> string" where
  "tripsPageURL status vehicleID q page = ''/admin/trips?'' @ values_Encode (trips_query status vehicleID q page)"

definition trips_request :: "query_values \<Rightarrow> string + TripFilter \<times> int" where
  "trips_request query =
     (if \<not> validTripStatus (values_get query ''status'') then Inl ''status must be active or completed''
      else let page = adminPageNumber query
           in Inr (\<lparr>tf_Status = values_get query ''status'', tf_VehicleID = values_get query ''vehicle_id'', tf_UserID = 0,
                    tf_Q = values_get query ''q'', tf_Limit = adminPageSize + 1, tf_Offset = adminPageOffset page\<rparr>, page))"

definition trip_row :: "TripSummary \<Rightarrow> tripRow" where
  "trip_row t =
     \<lparr>tw_ID = tm_ID t, tw_VehicleLabel = tm_VehicleLabel t, tw_DriverName = tm_DriverName t, tw_RouteID = tm_RouteID t,
      tw_GtfsTripID = tm_GtfsTripID t, tw_Start = formatTripTimestamp (tm_StartTime t),
      tw_End = (case tm_EndTime t of None \<Rightarrow> em_dash | Some e \<Rightarrow> formatTripTimestamp e), tw_Status = tm_Status t,
      tw_Duration = formatTripDuration (tm_StartTime t) (tm_EndTime t)\<rparr>"

definition tripsPage :: "(char \<Rightarrow> char) \<Rightarrow> string option \<Rightarrow> string \<Rightarrow> tripsView page call" where
  "tripsPage lc flash query =
     (case trips_request (ParseQuery query) of
        Inl msg \<Rightarrow> answer (PlainPage 400 msg)
      | Inr (fltr, page) \<Rightarrow>
          serve (Store_ListTrips lc fltr) (\<lambda>r1. case r1 of Inl e \<Rightarrow> answer server_error_page | Inr trips \<Rightarrow>
          serve Store_ListVehicles (\<lambda>r2. case r2 of Inl e \<Rightarrow> answer server_error_page | Inr allVehicles \<Rightarrow>
            answer (renderAdmin flash 200
              \<lparr>tv_Trips = map trip_row (one_page trips),
               tv_Vehicles = stable_sort (\<lambda>x y. cmp (vr_ID x) (vr_ID y)) (filter vr_Active allVehicles),
               tv_Status = tf_Status fltr, tv_VehicleID = tf_VehicleID fltr, tv_Q = tf_Q fltr, tv_PageNum = page,
               tv_HasMore = has_more trips,
               tv_PrevURL = tripsPageURL (tf_Status fltr) (tf_VehicleID fltr) (tf_Q fltr) (page - 1),
               tv_NextURL = tripsPageURL (tf_Status fltr) (tf_VehicleID fltr) (tf_Q fltr) (page + 1)\<rparr>))))"

end
