(* ===== verification/AdminPagesProps.thy ===== *)
theory AdminPagesProps
  imports AdminPages FleetProps
begin

text \<open>
  What the admin pages promise: their links lead where they say, their forms cannot lock the last administrator
  out, and signing in opens them. And where they and the JSON API part ways.
\<close>

section \<open>The links between pages\<close>

lemma values_get_Nil [simp]: "values_get [] k = []"
  by (simp add: values_get_def)

lemma values_get_Cons [simp]: "values_get ((k', v) # vs) k = (if k = k' then v else values_get vs k)"
  by (simp add: values_get_def)

lemma page_offset: "1 \<le> p \<Longrightarrow> p \<le> maxAdminPage \<Longrightarrow> wrap32 (adminPageOffset p) = 50 * (p - 1)"
  by (simp add: adminPageOffset_def adminPageSize_def maxAdminPage_def wrap32_id)

lemma page_number_read:
  assumes "values_get vs ''page'' = fmt_d p" "0 \<le> p" "p \<le> maxAdminPage + 1"
  shows "adminPageNumber vs = (if 1 \<le> p \<and> p \<le> maxAdminPage then p else 1)"
proof -
  have "parse_int64 (fmt_d p) = Some p"
    using assms(2,3) by (intro parse_fmt) (simp_all add: int64_defs maxAdminPage_def)
  moreover have "fmt_d p \<noteq> []"
    using assms(2) decimal_nonempty by (simp add: fmt_d_def)
  ultimately show ?thesis
    using assms(1) by (simp add: adminPageNumber_def)
qed

lemma page_number_bounds: "1 \<le> adminPageNumber vs \<and> adminPageNumber vs \<le> maxAdminPage"
  by (auto simp: adminPageNumber_def Let_def maxAdminPage_def split: option.splits)

lemma encoded_get:
  assumes "vs \<noteq> []" "distinct (map fst vs)"
  shows "values_get (ParseQuery (values_Encode vs)) = values_get vs"
  using values_get_encoded [OF assms] by (rule ext)

lemma query_keys:
  "vehicles_query f p \<noteq> []" "distinct (map fst (vehicles_query f p))"
  "users_query g p \<noteq> []" "distinct (map fst (users_query g p))"
  "trips_query status vid q p \<noteq> []" "distinct (map fst (trips_query status vid q p))"
  by (simp_all add: vehicles_query_def users_query_def trips_query_def set_if_def)

text \<open>What a key of a built query says.\<close>

lemma vehicles_query_get:
  "values_get (vehicles_query f p) ''page'' = fmt_d p" "values_get (vehicles_query f p) ''q'' = vf_Q f"
  "values_get (vehicles_query f p) ''agency_tag'' = vf_AgencyTag f"
  "values_get (vehicles_query f p) ''include_inactive'' = ''1'' \<longleftrightarrow> vf_IncludeInactive f"
  by (simp_all add: vehicles_query_def set_if_def)

lemma users_query_get:
  "values_get (users_query f p) ''page'' = fmt_d p" "values_get (users_query f p) ''q'' = uf_Q f"
  "values_get (users_query f p) ''role'' = uf_Role f"
  "values_get (users_query f p) ''active'' = ''1'' \<longleftrightarrow> uf_ActiveOnly f"
  by (simp_all add: users_query_def set_if_def)

lemma trips_query_get:
  "values_get (trips_query status vid q p) ''page'' = fmt_d p" "values_get (trips_query status vid q p) ''q'' = q"
  "values_get (trips_query status vid q p) ''status'' = status" "values_get (trips_query status vid q p) ''vehicle_id'' = vid"
  by (simp_all add: trips_query_def set_if_def)

definition shown_page :: "int \<Rightarrow> int" where
  "shown_page p = (if 1 \<le> p \<and> p \<le> maxAdminPage then p else 1)"

lemma shown_page_bounds: "1 \<le> shown_page p \<and> shown_page p \<le> maxAdminPage"
  by (simp add: shown_page_def maxAdminPage_def)

text \<open>
  A link between the pages of an admin list keeps every filter. Reading the query of a link back gives the
  filter the link was made from, whatever bytes its texts hold, and the page the link names (page 1 for the links
  behind the first and past the last page number), with an offset that fits 32 bits: no link shows unfiltered
  rows and no page number can wrap the offset.
\<close>

theorem page_links_keep_filters:
  assumes "0 \<le> p" "p \<le> maxAdminPage + 1"
  shows "(validateListQuery (vf_Q f) = None \<longrightarrow>
        (\<exists>query. vehiclesPageURL f p = ''/admin/vehicles?'' @ query
           \<and> vehicles_request (ParseQuery query) = Inr (f\<lparr>vf_Limit := 51, vf_Offset := 50 * (shown_page p - 1)\<rparr>, shown_page p)))
    \<and> (validateListQuery (uf_Q g) = None \<and> validUserRoleFilter (uf_Role g) \<longrightarrow>
        (\<exists>query. usersPageURL g p = ''/admin/users?'' @ query
           \<and> users_request (ParseQuery query) = Inr (g\<lparr>uf_Limit := 51, uf_Offset := 50 * (shown_page p - 1)\<rparr>, shown_page p)))
    \<and> (validTripStatus status \<longrightarrow>
        (\<exists>query. tripsPageURL status vid q p = ''/admin/trips?'' @ query
           \<and> trips_request (ParseQuery query)
               = Inr (\<lparr>tf_Status = status, tf_VehicleID = vid, tf_UserID = 0, tf_Q = q, tf_Limit = 51,
                      tf_Offset = 50 * (shown_page p - 1)\<rparr>, shown_page p)))"
proof -
  have page: "adminPageNumber (ParseQuery (values_Encode vs)) = shown_page p"
    if "values_get vs ''page'' = fmt_d p" "vs \<noteq> []" "distinct (map fst vs)" for vs
    using page_number_read [of "ParseQuery (values_Encode vs)" p] that assms by (simp add: encoded_get shown_page_def)
  have offset: "wrap32 (shown_page p * 50 - 50) = 50 * shown_page p - 50"
    using shown_page_bounds [of p] wrap32_id [of "shown_page p * 50 - 50"] by (simp add: maxAdminPage_def)
  note pages = page [OF vehicles_query_get(1) query_keys(1,2)] page [OF users_query_get(1) query_keys(3,4)]
    page [OF trips_query_get(1) query_keys(5,6)]
  note gets = encoded_get [OF query_keys(1,2)] encoded_get [OF query_keys(3,4)] encoded_get [OF query_keys(5,6)]
  show ?thesis
    by (cases f; cases g) (simp add: vehiclesPageURL_def usersPageURL_def tripsPageURL_def vehicles_request_def users_request_def
        trips_request_def gets pages vehicles_query_get users_query_get trips_query_get offset adminPageSize_def
        adminPageOffset_def Let_def)
qed

section \<open>The last active administrator\<close>

named_theorems admin_intros "introduction rules for calls that keep an administrator"

definition active_admin :: "UserRow \<Rightarrow> bool" where
  "active_admin u \<longleftrightarrow> u_Role u = roleAdmin \<and> u_Active u"

definition has_active_admin :: "Database \<Rightarrow> bool" where
  "has_active_admin d \<longleftrightarrow> (\<exists>u \<in> set (db_users d). active_admin u)"

definition other_admin :: "int \<Rightarrow> Database \<Rightarrow> bool" where
  "other_admin uid d \<longleftrightarrow> (\<exists>u \<in> set (db_users d). active_admin u \<and> u_ID u \<noteq> uid)"

lemma other_admin_has: "other_admin uid d \<Longrightarrow> has_active_admin d"
  by (auto simp: other_admin_def has_active_admin_def)

text \<open>A statement that leaves the accounts alone keeps whatever is said of them.\<close>

definition about_users :: "(Database \<Rightarrow> bool) \<Rightarrow> bool" where
  "about_users P \<longleftrightarrow> (\<forall>d d'. db_users d' = db_users d \<longrightarrow> P d' = P d)"

lemma about_users_admins [admin_intros]: "about_users has_active_admin" "about_users (other_admin uid)"
  by (simp_all add: about_users_def has_active_admin_def other_admin_def)

lemma keeps_about_users: "about_users P \<Longrightarrow> (\<And>d x d'. q d = Inr (x, d') \<Longrightarrow> db_users d' = db_users d) \<Longrightarrow> keeps P q"
  unfolding about_users_def by (rule keepsI) blast

lemma keeps_untouched [admin_intros]:
  assumes "about_users P"
  shows "keeps P (db_CreateVehicle i label tag now)" "keeps P (db_UpdateVehicleInfo i label tag now)"
    "keeps P (db_SetVehicleActive i active now)" "keeps P (db_ListVehiclesByUser uid)" "keeps P db_ListVehicles"
    "keeps P (db_GetUserByID uid)" "keeps P (db_LockUser uid)" "keeps P (db_CountActiveUsersByRole role)"
    "keeps P (db_DeleteRefreshTokensForUser uid)" "keeps P (db_AssignUserVehicle uid vid now)"
    "keeps P (db_UnassignUserVehicle uid vid)"
  by (rule keeps_about_users [OF assms]; auto simp: db_CreateVehicle_def db_UpdateVehicleInfo_def db_SetVehicleActive_def
      db_ListVehiclesByUser_def db_ListVehicles_def db_GetUserByID_def db_LockUser_def db_CountActiveUsersByRole_def
      db_DeleteRefreshTokensForUser_def db_AssignUserVehicle_def db_UnassignUserVehicle_def Let_def
      dest!: read_one_some split: if_splits)+

lemma keeps_create_user [admin_intros]: "keeps has_active_admin (db_CreateUser name email hash role now)"
  by (rule keepsI) (auto simp: db_CreateUser_def has_active_admin_def Let_def split: if_splits)

lemma update_user_rows:
  assumes "db_UpdateUser name email role uid now d = Inr (x, d')"
  shows "db_users d' = update_rows (\<lambda>u. u_ID u = uid)
    (\<lambda>u. u\<lparr>u_Name := name, u_Email := email, u_Role := role, u_UpdatedAt := now\<rparr>) (db_users d)"
  using assms by (auto simp: db_UpdateUser_def Let_def dest!: read_one_some split: if_splits)

text \<open>Changing one account leaves the others what they are.\<close>

lemma keeps_other [admin_intros]:
  "keeps (other_admin uid) (db_UpdateUser name email role uid now)"
  "keeps (other_admin uid) (db_SetUserActive uid active now)"
  "keeps (other_admin uid) (db_UpdateUserPassword uid hash now)"
  by (intro keepsI; force simp: other_admin_def active_admin_def set_update_rows update_user_rows db_SetUserActive_def
      db_UpdateUserPassword_def split: if_splits)+

lemma promoting_update:
  assumes "db_users d' = update_rows p f (db_users d)" "\<And>u. active_admin u \<Longrightarrow> active_admin (f u)" "has_active_admin d"
  shows "has_active_admin d'"
proof -
  obtain u where "u \<in> set (db_users d)" "active_admin u"
    using assms(3) by (auto simp: has_active_admin_def)
  then have "(if p u then f u else u) \<in> set (db_users d')" "active_admin (if p u then f u else u)"
    using assms(1,2) by (simp_all add: update_rows_def)
  then show ?thesis
    unfolding has_active_admin_def by blast
qed

lemma active_rows:
  "db_SetUserActive uid active now d = Inr (x, d') \<Longrightarrow>
     db_users d' = update_rows (\<lambda>u. u_ID u = uid) (\<lambda>u. u\<lparr>u_Active := active, u_UpdatedAt := now\<rparr>) (db_users d)"
  by (auto simp: db_SetUserActive_def)

lemma password_rows:
  "db_UpdateUserPassword uid hash now d = Inr (x, d') \<Longrightarrow>
     db_users d' = update_rows (\<lambda>u. u_ID u = uid) (\<lambda>u. u\<lparr>u_PasswordHash := hash, u_UpdatedAt := now\<rparr>) (db_users d)"
  by (auto simp: db_UpdateUserPassword_def split: if_splits)

lemma keeps_promoting [admin_intros]:
  "keeps has_active_admin (db_UpdateUser name email roleAdmin uid now)"
  "keeps has_active_admin (db_SetUserActive uid True now)"
  "keeps has_active_admin (db_UpdateUserPassword uid hash now)"
  using promoting_update [OF update_user_rows] promoting_update [OF active_rows] promoting_update [OF password_rows]
  unfolding keeps_def by (simp_all add: active_admin_def)

lemmas page_stores = Store_ListAssignmentsByUser_def Store_ListVehicles_def Store_UpdateUser_def
  Store_SetUserPasswordAndRevokeSessions_def Store_SetUserActiveAndRevokeSessions_def Store_CreateUser_def
  Store_CreateVehicle_def Store_UpdateVehicleInfo_def Store_SetVehicleActive_def Store_CreateAssignment_def
  Store_DeleteAssignment_def Store_GetUser_def Store_CountActiveUsersByRole_def

lemma admin_reads [admin_intros]:
  assumes "about_users P"
  shows "call_keeps P (buildUserFormData i name email role)" "call_keeps P (renderUserEditError flash status i name email role msg)"
    "call_keeps P (Store_GetUser uid)" "call_keeps P (Store_CountActiveUsersByRole role)"
  unfolding renderUserEditError_def buildUserFormData_def page_stores Let_def by (intro keeps_intros admin_intros assms)+

lemma save_user_keeps:
  "call_keeps (other_admin uid) (save_user bcrypt flash now uid name email role password)"
  "call_keeps has_active_admin (save_user bcrypt flash now uid name email roleAdmin password)"
  unfolding save_user_def page_stores Let_def by (intro keeps_intros admin_intros)+

lemma set_active_keeps:
  "call_keeps (other_admin uid) (set_active now uid active code)"
  "call_keeps has_active_admin (set_active now uid True code)"
  unfolding set_active_def page_stores Let_def by (intro keeps_intros admin_intros)+

lemma GetUser_found: "Store_GetUser uid (net, d) = (Inr r, net', d') \<Longrightarrow>
  d' = d \<and> (\<exists>u \<in> set (db_users d). u_ID u = uid \<and> r = user_response u)"
  by (auto simp: Store_GetUser_def answer_def db_GetUserByID_def read_one_def one_row_def filter_eq_Cons_iff
      elim!: and_then_Inr dest!: exec_Inr split: list.splits)

lemma GetUser_same: "Store_GetUser uid (net, d) = (r, net', d') \<Longrightarrow> d' = d"
  by (auto simp: Store_GetUser_def answer_def db_GetUserByID_def read_one_def elim!: and_then_cases exec_cases split: sum.splits)

lemma CountActive_run:
  assumes "Store_CountActiveUsersByRole role (net, d) = (r, net', d')"
  shows "d' = d" "r = Inr n \<Longrightarrow> n = int (length (filter (\<lambda>u. u_Role u = role \<and> u_Active u) (db_users d)))"
  using assms by (auto simp: Store_CountActiveUsersByRole_def answer_def db_CountActiveUsersByRole_def count_rows_def
      elim!: and_then_cases exec_cases)

lemma two_admins:
  assumes "unique u_ID (db_users d)" "1 < int (length (filter (\<lambda>u. u_Role u = roleAdmin \<and> u_Active u) (db_users d)))"
  shows "other_admin uid d"
proof -
  let ?admins = "filter active_admin (db_users d)"
  have "distinct (map u_ID ?admins)"
    using assms(1) by (simp add: unique_def distinct_map_filter)
  moreover have "1 < length ?admins"
    using assms(2) by (simp add: active_admin_def [abs_def])
  ultimately obtain u v where "u \<in> set ?admins" "v \<in> set ?admins" "u_ID u \<noteq> u_ID v"
    by (cases ?admins rule: remdups_adj.cases) (auto simp del: set_filter)
  then show ?thesis
    unfolding other_admin_def by (cases "u_ID u = uid") auto
qed

text \<open>
  The guard keeps an administrator: if it goes on, then another one is left, or the change takes nothing away
  from this account.
\<close>

lemma guard_runs:
  assumes "last_admin_guard uid blocks refuse go_on st = r" "Store_GetUser uid st = (Inr cur, st1)"
  shows "r = (if us_Role cur = roleAdmin \<and> us_Active cur \<and> blocks cur
    then serve (Store_CountActiveUsersByRole roleAdmin) (\<lambda>counted.
           case counted of
             Inl e \<Rightarrow> answer server_error_page
           | Inr admins \<Rightarrow> if admins \<le> 1 then refuse else go_on) st1
    else go_on st1)"
  using assms by (auto simp: last_admin_guard_def serve_def)

lemma guard_keeps:
  assumes ok: "db_ok d" and "has_active_admin d" and run: "last_admin_guard uid blocks refuse go_on (net, d) = (pg, net', d')"
    and refuse: "call_keeps has_active_admin refuse" and others: "call_keeps (other_admin uid) go_on"
    and harmless: "\<And>r. \<not> blocks r \<Longrightarrow> call_keeps has_active_admin go_on"
  shows "has_active_admin d'"
proof -
  have uniq: "unique u_ID (db_users d)"
    using ok by (simp add: ok_defs users_ok_def)
  have gone_on: "has_active_admin d'" if "go_on (net1, d) = (pg, net', d')" "other_admin uid d" for net1
    using others that other_admin_has by (metis call_keeps_def snd_conv)
  from run obtain r net1 d1 where got: "Store_GetUser uid (net, d) = (r, net1, d1)"
    using prod_cases3 by blast
  show ?thesis
  proof (cases r)
    case (Inl e)
    then show ?thesis
      using run got GetUser_same [OF got] assms(2) by (auto simp: last_admin_guard_def serve_def answer_def)
  next
    case (Inr cur)
    then obtain u where u: "u \<in> set (db_users d)" "u_ID u = uid" "cur = user_response u" "d1 = d"
      using GetUser_found got by blast
    have only: "v = u" if "v \<in> set (db_users d)" "u_ID v = uid" for v
      using uniq that u by (metis distinct_map inj_onD unique_def)
    show ?thesis
    proof (cases "us_Role cur = roleAdmin \<and> us_Active cur \<and> blocks cur")
      case False
      then have go: "go_on (net1, d) = (pg, net', d')"
        using guard_runs [OF run, of cur "(net1, d1)"] got Inr u(4) by auto
      show ?thesis
      proof (cases "blocks cur")
        case True
        then have "\<not> active_admin u"
          using False u(3) by (auto simp: active_admin_def user_response_def)
        then have "other_admin uid d"
          using assms(2) only by (auto simp: has_active_admin_def other_admin_def)
        then show ?thesis
          using gone_on go by blast
      next
        case False
        then show ?thesis
          using harmless go assms(2) by (metis call_keeps_def snd_conv)
      qed
    next
      case True
      obtain counted net2 d2 where count: "Store_CountActiveUsersByRole roleAdmin (net1, d) = (counted, net2, d2)"
        using prod_cases3 by blast
      have d2: "d2 = d"
        using CountActive_run(1) [OF count] .
      show ?thesis
      proof (cases counted)
        case (Inl e)
        then show ?thesis
          using run got Inr u(4) True count d2 assms(2) by (simp add: last_admin_guard_def serve_def answer_def)
      next
        case n: (Inr n)
        show ?thesis
        proof (cases "n \<le> 1")
          case few: True
          then have "refuse (net2, d) = (pg, net', d')"
            using run got Inr u(4) True count d2 n by (simp add: last_admin_guard_def serve_def)
          then show ?thesis
            using refuse assms(2) by (metis call_keeps_def snd_conv)
        next
          case False
          then have "go_on (net2, d) = (pg, net', d')"
            using run got Inr u(4) True count d2 n by (simp add: last_admin_guard_def serve_def)
          moreover have "other_admin uid d"
            using two_admins [OF uniq] CountActive_run(2) [OF count n] False by simp
          ultimately show ?thesis
            using gone_on by blast
        qed
      qed
    qed
  qed
qed

text \<open>Every form of the admin pages, submitted with anything, under any faults of the network.\<close>

inductive admin_form :: "(string \<Rightarrow> string option) \<Rightarrow> Database \<Rightarrow> Database \<Rightarrow> bool" for bcrypt where
  form_vehicle_create: "vehicleCreate flash now form (net, d) = (pg, net', d') \<Longrightarrow> admin_form bcrypt d d'"
| form_vehicle_update: "vehicleUpdate flash now i form (net, d) = (pg, net', d') \<Longrightarrow> admin_form bcrypt d d'"
| form_vehicle_active: "setVehicleActive now i active code (net, d) = (pg2, net', d') \<Longrightarrow> admin_form bcrypt d d'"
| form_user_create: "userCreate bcrypt flash now form (net, d) = (pg3, net', d') \<Longrightarrow> admin_form bcrypt d d'"
| form_user_update: "userUpdate bcrypt flash now i form (net, d) = (pg3, net', d') \<Longrightarrow> admin_form bcrypt d d'"
| form_user_active: "setUserActive now i active code (net, d) = (pg2, net', d') \<Longrightarrow> admin_form bcrypt d d'"
| form_assign: "userAssignVehicle now i form (net, d) = (pg2, net', d') \<Longrightarrow> admin_form bcrypt d d'"
| form_unassign: "userUnassignVehicle i vid (net, d) = (pg2, net', d') \<Longrightarrow> admin_form bcrypt d d'"

text \<open>The forms that need no guard keep both what the schema promises and the administrator.\<close>

lemmas plain_forms = vehicleCreate_def vehicleUpdate_def setVehicleActive_def userCreate_def userAssignVehicle_def
  userUnassignVehicle_def page_stores Let_def

lemma plain_forms_ok:
  "call_keeps db_ok (vehicleCreate flash now form)" "call_keeps db_ok (vehicleUpdate flash now i form)"
  "call_keeps db_ok (setVehicleActive now i active code)" "call_keeps db_ok (userCreate bcrypt flash now form)"
  "call_keeps db_ok (userAssignVehicle now i form)" "call_keeps db_ok (userUnassignVehicle i vid)"
  unfolding plain_forms by (intro keeps_intros)+

lemma plain_forms_keep:
  "call_keeps has_active_admin (vehicleCreate flash now form)" "call_keeps has_active_admin (vehicleUpdate flash now i form)"
  "call_keeps has_active_admin (setVehicleActive now i active code)" "call_keeps has_active_admin (userCreate bcrypt flash now form)"
  "call_keeps has_active_admin (userAssignVehicle now i form)" "call_keeps has_active_admin (userUnassignVehicle i vid)"
  unfolding plain_forms by (intro keeps_intros admin_intros)+

lemma page_reads_ok:
  "keeps db_ok (db_GetUserByID uid)" "keeps db_ok (db_CountActiveUsersByRole role)" "keeps db_ok (db_ListVehiclesByUser uid)"
  "keeps db_ok db_ListVehicles" "keeps db_ok (db_LockUser uid)"
  by (rule keepsI; auto simp: db_LockUser_def db_GetUserByID_def db_CountActiveUsersByRole_def db_ListVehiclesByUser_def db_ListVehicles_def
      dest!: read_one_some)+

lemma guarded_forms_ok:
  "call_keeps db_ok (userUpdate bcrypt flash now i form)" "call_keeps db_ok (setUserActive now i active code)"
  unfolding userUpdate_def setUserActive_def last_admin_guard_def save_user_def set_active_def renderUserEditError_def
    buildUserFormData_def page_stores Let_def
  by (intro keeps_intros page_reads_ok)+

lemma user_update_keeps:
  assumes "db_ok d" "has_active_admin d" "userUpdate bcrypt flash now i form (net, d) = (pg, net', d')"
  shows "has_active_admin d'"
proof -
  show ?thesis
  proof (cases "\<exists>uid vs. parse_int64 i = Some uid \<and> form = Some vs
      \<and> edited_user_error (values_get vs ''name'') (values_get vs ''email'') (values_get vs ''role'') (values_get vs ''password'') = None")
    case True
    then obtain uid vs where form: "parse_int64 i = Some uid" "form = Some vs"
      "edited_user_error (values_get vs ''name'') (values_get vs ''email'') (values_get vs ''role'') (values_get vs ''password'') = None"
      by blast
    let ?role = "values_get vs ''role''"
    let ?save = "save_user bcrypt flash now uid (values_get vs ''name'') (values_get vs ''email'') ?role (values_get vs ''password'')"
    let ?refuse = "renderUserEditError flash 422 uid (values_get vs ''name'') (values_get vs ''email'') ?role
      ''cannot demote the last active admin''"
    have "last_admin_guard uid (\<lambda>_. ?role \<noteq> roleAdmin) ?refuse ?save (net, d) = (pg, net', d')"
      using assms(3) form by (simp add: userUpdate_def Let_def)
    then show ?thesis
      by (rule guard_keeps [OF assms(1,2)]) (auto intro: keeps_intros admin_intros save_user_keeps)
  next
    case False
    then have "d' = d \<or> (\<exists>uid name email role msg. renderUserEditError flash 422 uid name email role msg (net, d) = (pg, net', d'))"
      using assms(3) by (auto simp: userUpdate_def answer_def Let_def split: option.splits)
    then show ?thesis
      using assms(2) call_keepsD [OF admin_reads(2) [OF about_users_admins(1)]] by blast
  qed
qed

lemma user_active_keeps:
  assumes "db_ok d" "has_active_admin d" "setUserActive now i active code (net, d) = (pg, net', d')"
  shows "has_active_admin d'"
proof (cases "parse_int64 i")
  case None
  then show ?thesis
    using assms by (simp add: setUserActive_def answer_def)
next
  case (Some uid)
  show ?thesis
  proof (cases active)
    case True
    then have "set_active now uid True code (net, d) = (pg, net', d')"
      using assms(3) Some by (simp add: setUserActive_def)
    then show ?thesis
      using call_keepsD [OF set_active_keeps(2)] assms(2) by blast
  next
    case False
    then have "last_admin_guard uid (\<lambda>_. True) (answer (PlainPage 422 ''cannot deactivate the last active admin''))
        (set_active now uid active code) (net, d) = (pg, net', d')"
      using assms(3) Some by (simp add: setUserActive_def)
    then show ?thesis
      by (rule guard_keeps [OF assms(1,2)]) (auto intro: keeps_intros set_active_keeps)
  qed
qed

lemma admin_form_keeps: "admin_form bcrypt d d' \<Longrightarrow> db_ok d \<and> has_active_admin d \<Longrightarrow> db_ok d' \<and> has_active_admin d'"
  by (cases rule: admin_form.cases, assumption)
    (blast dest: call_keepsD [OF plain_forms_keep(1)] call_keepsD [OF plain_forms_keep(2)] call_keepsD [OF plain_forms_keep(3)]
      call_keepsD [OF plain_forms_keep(4)] call_keepsD [OF plain_forms_keep(5)] call_keepsD [OF plain_forms_keep(6)]
      call_keepsD [OF plain_forms_ok(1)] call_keepsD [OF plain_forms_ok(2)] call_keepsD [OF plain_forms_ok(3)]
      call_keepsD [OF plain_forms_ok(4)] call_keepsD [OF plain_forms_ok(5)] call_keepsD [OF plain_forms_ok(6)]
      call_keepsD [OF guarded_forms_ok(1)] call_keepsD [OF guarded_forms_ok(2)] user_update_keeps user_active_keeps)+

text \<open>
  C37: the admin pages never lock the last administrator out. From a database the server can reach that has an
  active administrator, whatever forms are submitted one after the other, with whatever values and whatever
  faults of the network, there is still an active administrator: deactivating or demoting the last one is
  refused, and every other form leaves the accounts' roles and states alone or adds to them.
\<close>

theorem last_admin_kept:
  assumes "db_reachable d" "has_active_admin d" "(admin_form bcrypt)\<^sup>*\<^sup>* d d'"
  shows "has_active_admin d'"
proof -
  have "db_ok d' \<and> has_active_admin d'"
    using assms(3) reachable_ok [OF assms(1)] assms(2)
    by (induction rule: rtranclp_induct) (blast dest: admin_form_keeps)+
  then show ?thesis ..
qed

definition admin_row :: UserRow where
  "admin_row = \<lparr>u_ID = 1, u_Name = ''A'', u_Email = ''a@b'', u_PasswordHash = ''h'', u_Role = ''admin'', u_Active = True,
     u_CreatedAt = 0, u_UpdatedAt = 0\<rparr>"

definition admin_db :: Database where
  "admin_db = empty_db\<lparr>db_users := [admin_row], db_serial := 2\<rparr>"

lemma admin_db_reachable: "db_reachable admin_db"
proof -
  have "db_CreateUser ''A'' ''a@b'' ''h'' ''admin'' 0 empty_db = Inr (admin_row, admin_db)"
    by (simp add: db_CreateUser_def empty_db_def admin_db_def admin_row_def user_role_ok_def Let_def)
  then show ?thesis
    using reach_empty by (blast intro: db_reachable.reach_step CreateUser_step)
qed

lemma admin_db_has: "has_active_admin admin_db"
  by (simp add: has_active_admin_def admin_db_def active_admin_def admin_row_def roleAdmin_def)

lemma parse_one: "parse_int64 ''1'' = Some 1"
  by code_simp

text \<open>The only administrator tries to deactivate themselves.\<close>

lemma demo_refused: "userDeactivate 5 ''1'' ([], admin_db)
  = (PlainPage 422 ''cannot deactivate the last active admin'', [], admin_db)"
  by (simp add: userDeactivate_def setUserActive_def parse_one last_admin_guard_def serve_def Store_GetUser_def and_then_def
      exec_def next_trip_def db_GetUserByID_def read_one_def one_row_def admin_db_def admin_row_def empty_db_def answer_def
      user_response_def roleAdmin_def Store_CountActiveUsersByRole_def db_CountActiveUsersByRole_def count_rows_def)

theorem last_admin_kept_witness:
  "userDeactivate 5 ''1'' ([], admin_db) = (PlainPage 422 ''cannot deactivate the last active admin'', [], admin_db)
     \<and> has_active_admin admin_db"
proof -
  have "admin_form (\<lambda>p. Some p) admin_db admin_db"
    using demo_refused by (intro form_user_active [where net = "[]" and i = "''1''" and now = 5 and active = False
        and code = "''user_deactivated''"]) (simp add: userDeactivate_def)
  then show ?thesis
    using demo_refused last_admin_kept [OF admin_db_reachable admin_db_has r_into_rtranclp] by simp
qed

section \<open>Where the JSON API differs from the pages\<close>

lemma filter_one:
  assumes "unique f xs" "x \<in> set xs"
  shows "filter (\<lambda>y. f y = f x) xs = [x]"
  using assms
proof (induction xs)
  case (Cons y ys)
  show ?case
  proof (cases "y = x")
    case True
    then have "\<forall>z \<in> set ys. f z \<noteq> f x"
      using Cons.prems(1) unfolding unique_def by (metis distinct.simps(2) image_eqI list.set_map list.simps(9))
    then show ?thesis
      using True by (simp add: filter_empty_conv)
  next
    case False
    then have "x \<in> set ys" "f y \<noteq> f x"
      using Cons.prems by (auto simp: unique_def)
    then show ?thesis
      using Cons.IH Cons.prems(1) by (simp add: unique_def)
  qed
qed simp

lemma filter_updated:
  "(\<And>r. f (g r) = f r) \<Longrightarrow> filter (\<lambda>r. f r = k) (update_rows (\<lambda>r. f r = k) g rows) = map g (filter (\<lambda>r. f r = k) rows)"
  by (induction rows) (simp_all add: update_rows_def)

lemma only_admin:
  assumes "u \<in> set (db_users d)" "active_admin u" "\<not> other_admin (u_ID u) d" "unique u_ID (db_users d)"
  shows "filter active_admin (db_users d) = [u]"
proof -
  have "filter active_admin (db_users d) = filter (\<lambda>x. u_ID x = u_ID u) (db_users d)"
  proof (rule filter_cong [OF refl])
    fix x
    assume "x \<in> set (db_users d)"
    moreover have "x = u" if "u_ID x = u_ID u"
      using calculation that assms(1,4) unfolding unique_def distinct_map inj_on_def by blast
    ultimately show "active_admin x \<longleftrightarrow> u_ID x = u_ID u"
      using assms(2,3) by (auto simp: other_admin_def)
  qed
  then show ?thesis
    using filter_one [OF assms(4,1)] by simp
qed

lemma edit_error_shown:
  "\<exists>view msg cookies. renderUserEditError flash 422 uid name email role err ([], d) = (Rendered 422 msg view cookies, [], d)
     \<and> ufd_Error (snd view) = err"
  by (simp add: renderUserEditError_def buildUserFormData_def serve_def and_then_def exec_def next_trip_def answer_def
      Store_ListAssignmentsByUser_def db_ListVehiclesByUser_def Store_ListVehicles_def db_ListVehicles_def Let_def
      renderUserForm_def renderAdmin_def split: prod.splits)

text \<open>
  C40: the JSON API has no such guard. An administrator who sets the role of the only active administrator to
  driver through \<open>PUT /api/v1/admin/users/{id}\<close> is answered 200 and no active administrator is left, although the
  pages refuse the same change with a 422 and leave the account as it was.
\<close>

theorem api_demotes_last_admin:
  assumes "u \<in> set (db_users d)" "active_admin u" "\<not> other_admin (u_ID u) d" "db_reachable d"
    and "parseUserID i = Some (u_ID u)" "is_json (hr_MediaType r)" "u_Name u \<noteq> []" "u_Email u \<noteq> []"
  shows "(\<exists>user d'. handleUpdateUser bcrypt now i r
        (Decoded \<lparr>uu_Name = u_Name u, uu_Email = u_Email u, uu_Role = roleDriver, uu_Password = []\<rparr> NoMore) ([], d)
        = (HOk 200 user, [], d') \<and> \<not> has_active_admin d')
    \<and> (\<exists>view msg cookies. userUpdate bcrypt flash now i
        (Some [(''name'', u_Name u), (''email'', u_Email u), (''role'', roleDriver)]) ([], d)
        = (Rendered 422 msg view cookies, [], d) \<and> ufd_Error (snd view) = ''cannot demote the last active admin'')"
proof -
  have ok: "unique u_ID (db_users d)" "unique u_Email (db_users d)"
    using reachable_ok [OF assms(4)] by (simp_all add: ok_defs users_ok_def)
  have row: "filter (\<lambda>x. u_ID x = u_ID u) (db_users d) = [u]"
    by (rule filter_one) fact+
  have mail: "\<not> list_ex (\<lambda>x. u_Email x = u_Email u \<and> u_ID x \<noteq> u_ID u) (db_users d)"
    using ok(2) assms(1) by (auto simp: list_ex_iff unique_def distinct_map dest: inj_onD)
  let ?f = "\<lambda>x. x\<lparr>u_Name := u_Name u, u_Email := u_Email u, u_Role := roleDriver, u_UpdatedAt := now\<rparr>"
  define d' where "d' = d\<lparr>db_users := update_rows (\<lambda>x. u_ID x = u_ID u) ?f (db_users d)\<rparr>"
  have found: "list_ex (\<lambda>x. u_ID x = u_ID u) (db_users d)"
    using assms(1) by (auto simp: list_ex_iff)
  have "db_UpdateUser (u_Name u) (u_Email u) roleDriver (u_ID u) now d = Inr (?f u, d')"
    using found mail assms(8) row filter_updated [of u_ID ?f "u_ID u" "db_users d"]
    by (simp add: db_UpdateUser_def user_role_ok_def roleDriver_def Let_def d'_def read_one_def one_row_def)
  then have "Store_UpdateUser (u_ID u) (u_Name u) (u_Email u) roleDriver now ([], d) = (Inr (user_response (?f u)), [], d')"
    by (simp add: Store_UpdateUser_def and_then_def exec_def next_trip_def answer_def)
  then have api: "handleUpdateUser bcrypt now i r
      (Decoded \<lparr>uu_Name = u_Name u, uu_Email = u_Email u, uu_Role = roleDriver, uu_Password = []\<rparr> NoMore) ([], d)
      = (HOk 200 (user_response (?f u)), [], d')"
    using assms(5-8) by (simp add: handleUpdateUser_def strict_body_def validate_update_def validUserRole_def staffRoles_def serve_def answer_def)
  have "\<not> has_active_admin d'"
    using assms(3) by (auto simp: has_active_admin_def other_admin_def active_admin_def d'_def set_update_rows
        roleDriver_def roleAdmin_def)
  moreover have "\<exists>view msg cookies. userUpdate bcrypt flash now i
      (Some [(''name'', u_Name u), (''email'', u_Email u), (''role'', roleDriver)]) ([], d) = (Rendered 422 msg view cookies, [], d)
      \<and> ufd_Error (snd view) = ''cannot demote the last active admin''"
  proof -
    have "Store_GetUser (u_ID u) ([], d) = (Inr (user_response u), [], d)"
      using row by (simp add: Store_GetUser_def and_then_def exec_def next_trip_def answer_def db_GetUserByID_def read_one_def one_row_def)
    moreover have "Store_CountActiveUsersByRole roleAdmin ([], d) = (Inr 1, [], d)"
      using only_admin [OF assms(1-3) ok(1)]
      by (simp add: Store_CountActiveUsersByRole_def and_then_def exec_def next_trip_def answer_def db_CountActiveUsersByRole_def
          count_rows_def active_admin_def [abs_def])
    moreover have "parse_int64 i = Some (u_ID u)"
      using assms(5) by (auto simp: parseUserID_def split: if_splits option.splits)
    moreover have "edited_user_error (u_Name u) (u_Email u) roleDriver [] = None" "roleDriver \<noteq> roleAdmin"
      using assms(7,8) by (simp_all add: edited_user_error_def validUserRole_def staffRoles_def roleAdmin_def roleDriver_def)
    ultimately have "userUpdate bcrypt flash now i
        (Some [(''name'', u_Name u), (''email'', u_Email u), (''role'', roleDriver)]) ([], d)
      = renderUserEditError flash 422 (u_ID u) (u_Name u) (u_Email u) roleDriver ''cannot demote the last active admin'' ([], d)"
      using assms(2) by (simp add: userUpdate_def last_admin_guard_def serve_def active_admin_def user_response_def Let_def)
    then show ?thesis
      using edit_error_shown by simp
  qed
  ultimately show ?thesis
    using api by blast
qed

theorem api_demotes_last_admin_witness:
  "\<exists>user d'. handleUpdateUser (\<lambda>p. Some p) 5 ''1'' json_request
      (Decoded \<lparr>uu_Name = ''A'', uu_Email = ''a@b'', uu_Role = ''driver'', uu_Password = []\<rparr> NoMore) ([], admin_db)
      = (HOk 200 user, [], d') \<and> \<not> has_active_admin d'"
proof -
  have facts: "admin_row \<in> set (db_users admin_db)" "active_admin admin_row" "\<not> other_admin (u_ID admin_row) admin_db"
    "parseUserID ''1'' = Some (u_ID admin_row)" "u_Name admin_row \<noteq> []" "u_Email admin_row \<noteq> []"
    using parse_one by (simp_all add: admin_db_def active_admin_def admin_row_def roleAdmin_def other_admin_def parseUserID_def)
  show ?thesis
    using api_demotes_last_admin [OF facts(1-3) admin_db_reachable facts(4) json_request_ok facts(5,6)]
    by (simp add: admin_row_def roleDriver_def)
qed

text \<open>A search whose text holds the separators of a query.\<close>

theorem page_links_keep_filters_witness:
  "\<exists>query. vehiclesPageURL \<lparr>vf_IncludeInactive = True, vf_AgencyTag = ''a=b'', vf_Q = ''x&q=y z'', vf_Limit = 51, vf_Offset = 0\<rparr> 2
       = ''/admin/vehicles?'' @ query
     \<and> vehicles_request (ParseQuery query)
       = Inr (\<lparr>vf_IncludeInactive = True, vf_AgencyTag = ''a=b'', vf_Q = ''x&q=y z'', vf_Limit = 51, vf_Offset = 50\<rparr>, 2)"
  using page_links_keep_filters [of 2 "\<lparr>vf_IncludeInactive = True, vf_AgencyTag = ''a=b'', vf_Q = ''x&q=y z'', vf_Limit = 51,
      vf_Offset = 0\<rparr>"] by (simp add: maxAdminPage_def validateListQuery_def maxFieldLength_def shown_page_def)

section \<open>Signing in\<close>

text \<open>
  C38: only an administrator gets an admin session, and it opens the pages. If a sign-in sets a session cookie,
  then the form's email is that of an active account with the role admin whose password it gave, the cookie is
  not for scripts, and until the session expires a request that carries it passes the guard of the pages with
  that account's claims, while its token is not revoked; a sign-in that fails sets no cookie.
\<close>

theorem admin_session_for_admins:
  assumes "jwt_contract J" "loginSubmit J C secret cfg (Some bytes) now0 r form limiter (net, d) = (pg, limiter', net', d')"
  shows "d' = d \<and> (case pg of
      Redirect url cookies \<Rightarrow> url = ''/admin/dashboard''
        \<and> (\<exists>vs u tok claims. form = Some vs \<and> u \<in> set (db_users d) \<and> u_Email u = values_get vs ''email'' \<and> active_admin u
             \<and> cr_Compare C (u_PasswordHash u) (values_get vs ''password'') = Match
             \<and> cookies = [setSessionCookie r tok (ac_trustProxy cfg)]
             \<and> claims = session_claims (u_ID u) (u_Email u) roleAdmin (hex_encode bytes) sessionLifetime now0
             \<and> (now < time_unix (unix_of (time_add now0 sessionLifetime)) \<and> hr_SessionCookie r' = Some tok \<and> tok \<noteq> []
                  \<and> not_revoked claims st \<longrightarrow> fst (requireAdminPage J secret Store_IsTokenRevoked now r' st) = Inr claims))
    | Rendered status _ _ cookies \<Rightarrow> status \<in> {400, 401, 403, 422, 429, 500} \<and> cookies = []
    | PlainPage _ _ \<Rightarrow> False)"
proof -
  obtain vs where form: "form = Some vs" if "\<forall>msg. pg \<noteq> renderLogin 400 msg []"
    using assms(2) by (cases form) (auto simp: loginSubmit_def)
  have opens: "fst (requireAdminPage J secret Store_IsTokenRevoked now r' st) = Inr claims"
    if "fst (adminClaimsFromCookie J secret Store_IsTokenRevoked now r' st) = Some claims" for claims
    using that by (auto simp: requireAdminPage_def serve_def answer_def split: prod.splits)
  have session: "now < time_unix (unix_of (time_add now0 sessionLifetime)) \<and> hr_SessionCookie r' = Some tok \<and> tok \<noteq> []
      \<and> not_revoked (session_claims uid email roleAdmin (hex_encode bytes) sessionLifetime now0) st \<longrightarrow>
      fst (requireAdminPage J secret Store_IsTokenRevoked now r' st)
        = Inr (session_claims uid email roleAdmin (hex_encode bytes) sessionLifetime now0)"
    if "generateJWT J uid email roleAdmin secret sessionLifetime (Some bytes) now0 = Some tok" for uid email tok
  proof -
    have "jw_Sign J (session_claims uid email roleAdmin (hex_encode bytes) sessionLifetime now0) secret = Some tok"
      using that by (simp add: generateJWT_def newJTI_def)
    then show ?thesis
      using parse_issued [OF assms(1)] by (auto intro!: opens simp: adminClaims_iff)
  qed
  show ?thesis
    using assms(2) session
    by (auto simp: loginSubmit_def renderLogin_def invalid_login_def Let_def active_admin_def
        split: option.splits prod.splits sum.splits if_splits dest!: GetUserByEmail_Inr dest: GetUserByEmail_same)
      (intro exI conjI; (assumption | rule refl)?; simp)+
qed

definition admin_claims :: MapClaims where
  "admin_claims = session_claims 1 ''a@b'' ''admin'' ''00ff'' sessionLifetime 0"

definition admin_JWT :: JWT where
  "admin_JWT = sample_JWT
     \<lparr>jw_Parse := (\<lambda>key po now tok.
        if tok = ''t'' \<and> key (HMAC ''HS256'') = Some ''k'' \<and> po_Issuer po = issuer
           \<and> now < time_unix (unix_of (time_add 0 sessionLifetime))
        then Some \<lparr>to_Valid = True, to_Claims = AsMap admin_claims\<rparr> else None),
      jw_Sign := (\<lambda>claims key. if claims = admin_claims \<and> key = ''k'' then Some ''t'' else None)\<rparr>"

lemma admin_contract: "jwt_contract admin_JWT"
  unfolding jwt_contract_def admin_JWT_def sample_JWT_def by (auto simp: jnum_def admin_claims_def split: if_splits)

definition plain_Crypto :: Crypto where
  "plain_Crypto = \<lparr>cr_Compare = (\<lambda>hash pw. if hash = pw then Match else Mismatch), cr_SHA256 = (\<lambda>s. s)\<rparr>"

definition demo_config :: adminUIConfig where
  "demo_config = \<lparr>ac_enabled = True, ac_trustProxy = False, ac_stalenessThreshold = 5 * minute\<rparr>"

lemma demo_login:
  "\<exists>limiter. loginSubmit admin_JWT plain_Crypto ''k'' demo_config (Some [CHR 0x00, CHR 0xFF]) 0 sample_request
     (Some [(''email'', ''a@b''), (''password'', ''h'')]) NewLoginRateLimiter ([], admin_db)
   = (Redirect ''/admin/dashboard'' [setSessionCookie sample_request ''t'' False], limiter, [], admin_db)"
  using sample_bytes
  by (simp add: loginSubmit_def Login_Allow_def NewLoginRateLimiter_def allowInWindow_def loginIPLimit_def loginEmailLimit_def maxTrackedLogins_def
      Store_GetUserByEmail_def and_then_def exec_def next_trip_def answer_def read_one_def one_row_def admin_db_def admin_row_def
      plain_Crypto_def roleAdmin_def generateJWT_def newJTI_def admin_JWT_def admin_claims_def demo_config_def Let_def)

theorem admin_session_for_admins_witness:
  "fst (requireAdminPage admin_JWT ''k'' Store_IsTokenRevoked 0 (sample_request\<lparr>hr_SessionCookie := Some ''t''\<rparr>) ([], admin_db))
     = Inr admin_claims"
proof -
  obtain limiter where run: "loginSubmit admin_JWT plain_Crypto ''k'' demo_config (Some [CHR 0x00, CHR 0xFF]) 0 sample_request
     (Some [(''email'', ''a@b''), (''password'', ''h'')]) NewLoginRateLimiter ([], admin_db)
     = (Redirect ''/admin/dashboard'' [setSessionCookie sample_request ''t'' False], limiter, [], admin_db)"
    using demo_login by blast
  have "not_revoked admin_claims ([], admin_db)"
    by (simp add: not_revoked_def next_trip_def admin_db_def empty_db_def)
  moreover have "0 < time_unix (unix_of (time_add 0 sessionLifetime))"
    by (simp add: time_unix_def unix_of_def wrap64_def time_add_def sessionLifetime_def time_units unix_to_internal_def)
  ultimately show ?thesis
    using admin_session_for_admins [OF admin_contract run, where now = 0 and st = "([], admin_db)"
        and r' = "sample_request\<lparr>hr_SessionCookie := Some ''t''\<rparr>"] sample_bytes
    by (auto simp: setSessionCookie_def admin_db_def admin_row_def admin_claims_def roleAdmin_def)
qed

end
