(* ===== verification/Routes.thy ===== *)
theory Routes
  imports Auth
begin

text \<open>
  Who answers a request: the table of routes (\<open>newMux\<close> and \<open>newHandler\<close> in \<open>src/main.go\<close>, \<open>registerAdminUI\<close> in
  \<open>src/admin_page_handlers.go\<close>, \<open>registerRiderRoutes\<close> in \<open>src/rider_handlers.go\<close>, \<open>registerGTFSRoutes\<close> in
  \<open>src/gtfs_handlers.go\<close>), the guard in front of each handler, and the protection against cross-site requests
  around them all. \<open>net/http\<close>'s mux picks the most specific pattern; a path is given as its segments and whether a
  slash follows them. Its redirects (of unclean paths, and of \<open>/static\<close> to \<open>/static/\<close>) are not modelled.
\<close>

section \<open>Patterns\<close>

datatype http_method = GET | HEAD | POST | PUT | DELETE | OPTIONS | OtherMethod string

datatype segment = Lit string | Wild string

datatype path_end = Exactly | WithSlash | Below   \<comment> \<open>\<open>/a/b\<close>, \<open>/a/b/{$}\<close>, \<open>/a/b/\<close>\<close>

record pattern =
  pn_Method :: http_method
  pn_Segments :: "segment list"
  pn_End :: path_end

text \<open>A pattern for \<open>GET\<close> also matches \<open>HEAD\<close>.\<close>

definition method_matches :: "http_method \<Rightarrow> http_method \<Rightarrow> bool" where
  "method_matches pm m \<longleftrightarrow> pm = m \<or> pm = GET \<and> m = HEAD"

fun segment_matches :: "segment \<Rightarrow> string \<Rightarrow> bool" where
  "segment_matches (Lit l) s = (l = s)"
| "segment_matches (Wild _) s = True"

definition path_matches :: "pattern \<Rightarrow> string list \<Rightarrow> bool \<Rightarrow> bool" where
  "path_matches p segs slash \<longleftrightarrow>
     (case pn_End p of
        Exactly \<Rightarrow> \<not> slash \<and> list_all2 segment_matches (pn_Segments p) segs
      | WithSlash \<Rightarrow> slash \<and> list_all2 segment_matches (pn_Segments p) segs
      | Below \<Rightarrow> length (pn_Segments p) \<le> length segs
                 \<and> list_all2 segment_matches (pn_Segments p) (take (length (pn_Segments p)) segs)
                 \<and> (slash \<or> length (pn_Segments p) < length segs))"

definition pattern_matches :: "pattern \<Rightarrow> http_method \<Rightarrow> string list \<Rightarrow> bool \<Rightarrow> bool" where
  "pattern_matches p m segs slash \<longleftrightarrow> method_matches (pn_Method p) m \<and> path_matches p segs slash"

text \<open>
  The mux walks its tree with literal segments before wildcards, whole paths before subtrees and, for \<open>HEAD\<close>, its own
  method before \<open>GET\<close>, so the pattern it finds is the first of the matching ones in this order.
\<close>

fun segments_rank :: "segment list \<Rightarrow> nat list" where
  "segments_rank [] = []"
| "segments_rank (Lit _ # ss) = 0 # segments_rank ss"
| "segments_rank (Wild _ # ss) = 1 # segments_rank ss"

definition pattern_rank :: "http_method \<Rightarrow> pattern \<Rightarrow> nat list" where
  "pattern_rank m p =
     (if pn_Method p = m then 0 else 1) # segments_rank (pn_Segments p) @ [case pn_End p of Below \<Rightarrow> 2 | _ \<Rightarrow> 0]"

section \<open>Routes\<close>

datatype guard =
    Open
  | FeedKey      \<comment> \<open>\<open>requireAPIKey\<close>\<close>
  | Staff        \<comment> \<open>\<open>requireAuth\<close>\<close>
  | StaffAdmin   \<comment> \<open>\<open>requireAuth\<close>, then \<open>requireAdmin\<close>\<close>
  | RiderToken   \<comment> \<open>\<open>requireRider\<close>\<close>
  | PageAdmin    \<comment> \<open>\<open>requireAdminPage\<close>\<close>

datatype endpoint =
    Login | RefreshSession | Logout | GetFeed | AdminStatus | ListVehicles | LiveVehicles | GetVehicle | UpsertVehicle
  | DeactivateVehicle | LocationHistory | ListTrips | GetTrip | TripLocations | Health | Ready | PostLocation | TripStart
  | TripEnd | MyVehicles | MapConfig | ListUsers | GetUser | CreateUser | UpdateUser | DeleteUser | CreateAssignment
  | DeleteAssignment | UserVehicles | VehicleUsers | ListAPIKeys | CreateAPIKey | DeactivateAPIKey | RiderAdminStatus
  | RiderAdminRides | RiderRegister | RideStart | RidePositions | RideEnd | RiderTripStatus | GTFSRoutes | GTFSRouteTrips
  | GTFSTrip | StaticFile | PageLogin | PageLoginSubmit | PageLogout | PageRoot | PageDashboard | PageMap | PageVehicles
  | PageVehicleNew | PageVehicleCreate | PageVehicleEdit | PageVehicleUpdate | PageVehicleDeactivate | PageVehicleActivate
  | PageUsers | PageUserNew | PageUserCreate | PageUserEdit | PageUserUpdate | PageUserDeactivate | PageUserActivate
  | PageUserAssign | PageUserUnassign | PageTrips

record route =
  ro_Pattern :: pattern
  ro_Guard :: guard
  ro_Endpoint :: endpoint

definition route_of :: "http_method \<Rightarrow> segment list \<Rightarrow> guard \<Rightarrow> endpoint \<Rightarrow> route" where
  "route_of m segs g e =
     \<lparr>ro_Pattern = \<lparr>pn_Method = m, pn_Segments = segs, pn_End = Exactly\<rparr>, ro_Guard = g, ro_Endpoint = e\<rparr>"

definition api :: "segment list \<Rightarrow> segment list" where
  "api segs = Lit ''api'' # Lit ''v1'' # segs"

definition admin_api :: "segment list \<Rightarrow> segment list" where
  "admin_api segs = api (Lit ''admin'' # segs)"

text \<open>The routes of \<open>newMux\<close> that are always there.\<close>

definition base_routes :: "bool \<Rightarrow> route list" where
  "base_routes feedAuth =
     [route_of POST (api [Lit ''auth'', Lit ''login'']) Open Login,
      route_of POST (api [Lit ''auth'', Lit ''refresh'']) Open RefreshSession,
      route_of POST (api [Lit ''auth'', Lit ''logout'']) Staff Logout,
      route_of GET [Lit ''gtfs-rt'', Lit ''vehicle-positions''] (if feedAuth then FeedKey else Open) GetFeed,
      route_of GET (admin_api [Lit ''status'']) StaffAdmin AdminStatus,
      route_of GET (admin_api [Lit ''vehicles'']) StaffAdmin ListVehicles,
      route_of GET (admin_api [Lit ''vehicles'', Lit ''live'']) StaffAdmin LiveVehicles,
      route_of GET (admin_api [Lit ''vehicles'', Wild ''id'']) StaffAdmin GetVehicle,
      route_of POST (admin_api [Lit ''vehicles'']) StaffAdmin UpsertVehicle,
      route_of DELETE (admin_api [Lit ''vehicles'', Wild ''id'']) StaffAdmin DeactivateVehicle,
      route_of GET (admin_api [Lit ''vehicles'', Wild ''vehicleID'', Lit ''locations'']) StaffAdmin LocationHistory,
      route_of GET (admin_api [Lit ''trips'']) StaffAdmin ListTrips,
      route_of GET (admin_api [Lit ''trips'', Wild ''id'']) StaffAdmin GetTrip,
      route_of GET (admin_api [Lit ''trips'', Wild ''id'', Lit ''locations'']) StaffAdmin TripLocations,
      route_of GET [Lit ''health''] Open Health,
      route_of GET [Lit ''ready''] Open Ready,
      route_of POST (api [Lit ''locations'']) Staff PostLocation,
      route_of POST (api [Lit ''trips'', Lit ''start'']) Staff TripStart,
      route_of POST (api [Lit ''trips'', Lit ''end'']) Staff TripEnd,
      route_of GET (api [Lit ''vehicles'']) Staff MyVehicles,
      route_of GET (api [Lit ''map'']) Staff MapConfig,
      route_of GET (admin_api [Lit ''users'']) StaffAdmin ListUsers,
      route_of GET (admin_api [Lit ''users'', Wild ''id'']) StaffAdmin GetUser,
      route_of POST (admin_api [Lit ''users'']) StaffAdmin CreateUser,
      route_of PUT (admin_api [Lit ''users'', Wild ''id'']) StaffAdmin UpdateUser,
      route_of DELETE (admin_api [Lit ''users'', Wild ''id'']) StaffAdmin DeleteUser,
      route_of POST (admin_api [Lit ''assignments'']) StaffAdmin CreateAssignment,
      route_of DELETE (admin_api [Lit ''users'', Wild ''userID'', Lit ''vehicles'', Wild ''vehicleID'']) StaffAdmin DeleteAssignment,
      route_of GET (admin_api [Lit ''users'', Wild ''id'', Lit ''vehicles'']) StaffAdmin UserVehicles,
      route_of GET (admin_api [Lit ''vehicles'', Wild ''id'', Lit ''users'']) StaffAdmin VehicleUsers,
      route_of GET (admin_api [Lit ''api-keys'']) StaffAdmin ListAPIKeys,
      route_of POST (admin_api [Lit ''api-keys'']) StaffAdmin CreateAPIKey,
      route_of DELETE (admin_api [Lit ''api-keys'', Wild ''id'']) StaffAdmin DeactivateAPIKey,
      route_of GET (admin_api [Lit ''rider'', Lit ''status'']) StaffAdmin RiderAdminStatus,
      route_of GET (admin_api [Lit ''rider'', Lit ''rides'']) StaffAdmin RiderAdminRides]"

definition rider_routes :: "route list" where
  "rider_routes =
     [route_of POST (api [Lit ''rider'', Lit ''register'']) Open RiderRegister,
      route_of POST (api [Lit ''rider'', Lit ''rides'']) RiderToken RideStart,
      route_of POST (api [Lit ''rider'', Lit ''rides'', Wild ''id'', Lit ''positions'']) RiderToken RidePositions,
      route_of POST (api [Lit ''rider'', Lit ''rides'', Wild ''id'', Lit ''end'']) RiderToken RideEnd,
      route_of GET (api [Lit ''rider'', Lit ''trips'', Wild ''trip_id'', Lit ''status'']) RiderToken RiderTripStatus]"

definition gtfs_routes :: "route list" where
  "gtfs_routes =
     [route_of GET (api [Lit ''gtfs'', Lit ''routes'']) Staff GTFSRoutes,
      route_of GET (api [Lit ''gtfs'', Lit ''routes'', Wild ''route_id'', Lit ''trips'']) Staff GTFSRouteTrips,
      route_of GET (api [Lit ''gtfs'', Lit ''trips'', Wild ''trip_id'']) Staff GTFSTrip]"

definition admin_page :: "segment list \<Rightarrow> segment list" where
  "admin_page segs = Lit ''admin'' # segs"

definition admin_ui_routes :: "route list" where
  "admin_ui_routes =
     [route_of GET (admin_page [Lit ''login'']) Open PageLogin,
      route_of POST (admin_page [Lit ''login'']) Open PageLoginSubmit,
      route_of POST (admin_page [Lit ''logout'']) Open PageLogout,
      route_of GET (admin_page []) Open PageRoot,
      \<lparr>ro_Pattern = \<lparr>pn_Method = GET, pn_Segments = admin_page [], pn_End = WithSlash\<rparr>, ro_Guard = Open, ro_Endpoint = PageRoot\<rparr>,
      route_of GET (admin_page [Lit ''dashboard'']) PageAdmin PageDashboard,
      route_of GET (admin_page [Lit ''map'']) PageAdmin PageMap,
      route_of GET (admin_page [Lit ''vehicles'']) PageAdmin PageVehicles,
      route_of GET (admin_page [Lit ''vehicles'', Lit ''new'']) PageAdmin PageVehicleNew,
      route_of POST (admin_page [Lit ''vehicles'']) PageAdmin PageVehicleCreate,
      route_of GET (admin_page [Lit ''vehicles'', Wild ''id'', Lit ''edit'']) PageAdmin PageVehicleEdit,
      route_of POST (admin_page [Lit ''vehicles'', Wild ''id'']) PageAdmin PageVehicleUpdate,
      route_of POST (admin_page [Lit ''vehicles'', Wild ''id'', Lit ''deactivate'']) PageAdmin PageVehicleDeactivate,
      route_of POST (admin_page [Lit ''vehicles'', Wild ''id'', Lit ''activate'']) PageAdmin PageVehicleActivate,
      route_of GET (admin_page [Lit ''users'']) PageAdmin PageUsers,
      route_of GET (admin_page [Lit ''users'', Lit ''new'']) PageAdmin PageUserNew,
      route_of POST (admin_page [Lit ''users'']) PageAdmin PageUserCreate,
      route_of GET (admin_page [Lit ''users'', Wild ''id'', Lit ''edit'']) PageAdmin PageUserEdit,
      route_of POST (admin_page [Lit ''users'', Wild ''id'']) PageAdmin PageUserUpdate,
      route_of POST (admin_page [Lit ''users'', Wild ''id'', Lit ''deactivate'']) PageAdmin PageUserDeactivate,
      route_of POST (admin_page [Lit ''users'', Wild ''id'', Lit ''activate'']) PageAdmin PageUserActivate,
      route_of POST (admin_page [Lit ''users'', Wild ''id'', Lit ''vehicles'']) PageAdmin PageUserAssign,
      route_of POST (admin_page [Lit ''users'', Wild ''id'', Lit ''vehicles'', Wild ''vehicleID'', Lit ''remove'']) PageAdmin PageUserUnassign,
      route_of GET (admin_page [Lit ''trips'']) PageAdmin PageTrips]"

definition static_route :: route where
  "static_route =
     \<lparr>ro_Pattern = \<lparr>pn_Method = GET, pn_Segments = [Lit ''static''], pn_End = Below\<rparr>, ro_Guard = Open, ro_Endpoint = StaticFile\<rparr>"

definition newMux :: "bool \<Rightarrow> bool \<Rightarrow> bool \<Rightarrow> route list" where
  "newMux feedAuth riderOn catalogOn =
     base_routes feedAuth @ (if riderOn then rider_routes else []) @ (if catalogOn then gtfs_routes else [])"

definition server_routes :: "bool \<Rightarrow> bool \<Rightarrow> bool \<Rightarrow> bool \<Rightarrow> route list" where
  "server_routes feedAuth riderOn catalogOn ui =
     newMux feedAuth riderOn catalogOn @ (if ui then static_route # admin_ui_routes else [])"

section \<open>Answering\<close>

definition candidates :: "route list \<Rightarrow> http_method \<Rightarrow> string list \<Rightarrow> bool \<Rightarrow> route list" where
  "candidates rts m segs slash = filter (\<lambda>r. pattern_matches (ro_Pattern r) m segs slash) rts"

definition better_route :: "http_method \<Rightarrow> route \<Rightarrow> route \<Rightarrow> route" where
  "better_route m r best = (if pattern_rank m (ro_Pattern r) < pattern_rank m (ro_Pattern best) then r else best)"

definition dispatch :: "route list \<Rightarrow> http_method \<Rightarrow> string list \<Rightarrow> bool \<Rightarrow> route option" where
  "dispatch rts m segs slash =
     (case candidates rts m segs slash of [] \<Rightarrow> None | r # rs \<Rightarrow> Some (fold (better_route m) rs r))"

text \<open>What \<open>http.CrossOriginProtection\<close> looks at; \<open>None\<close> is an origin that does not parse.\<close>

record browser_headers =
  bh_SecFetchSite :: string
  bh_Origin :: string
  bh_OriginHost :: "string option"
  bh_Host :: string

definition cross_origin_ok :: "http_method \<Rightarrow> browser_headers \<Rightarrow> bool" where
  "cross_origin_ok m h \<longleftrightarrow>
     m \<in> {GET, HEAD, OPTIONS}
     \<or> bh_SecFetchSite h \<in> {''same-origin'', ''none''}
     \<or> bh_SecFetchSite h = [] \<and> (bh_Origin h = [] \<or> bh_OriginHost h = Some (bh_Host h))"

definition with_claims :: "('a answer + MapClaims) call \<Rightarrow> ('a answer + MapClaims option) call" where
  "with_claims m = serve m (\<lambda>res. answer (case res of Inl a \<Rightarrow> Inl a | Inr claims \<Rightarrow> Inr (Some claims)))"

text \<open>A guard answers itself or lets the request through with the claims it found; \<open>feed_key\<close> is \<open>requireAPIKey\<close>.\<close>

definition pass_guard ::
  "JWT \<Rightarrow> string \<Rightarrow> checker \<Rightarrow> (string answer + unit) call \<Rightarrow> gotime \<Rightarrow> http_request \<Rightarrow> guard
     \<Rightarrow> (string answer + MapClaims option) call" where
  "pass_guard J secret checker feed_key now r g =
     (case g of
        Open \<Rightarrow> answer (Inr None)
      | FeedKey \<Rightarrow> serve feed_key (\<lambda>res. answer (case res of Inl a \<Rightarrow> Inl a | Inr _ \<Rightarrow> Inr None))
      | Staff \<Rightarrow> with_claims (requireAuth J secret checker now r)
      | StaffAdmin \<Rightarrow>
          serve (requireAuth J secret checker now r) (\<lambda>res.
            answer (case res of
                      Inl a \<Rightarrow> Inl a
                    | Inr claims \<Rightarrow> (case requireAdmin (Some claims) of Some a \<Rightarrow> Inl a | None \<Rightarrow> Inr (Some claims))))
      | RiderToken \<Rightarrow> with_claims (requireRider J secret checker now r)
      | PageAdmin \<Rightarrow> with_claims (requireAdminPage J secret checker now r))"

text \<open>The handler of the whole server: which endpoint a request reaches, with which claims, or the answer before that.\<close>

definition newHandler ::
  "JWT \<Rightarrow> string \<Rightarrow> checker \<Rightarrow> (string answer + unit) call \<Rightarrow> route list \<Rightarrow> gotime
     \<Rightarrow> http_method \<Rightarrow> string list \<Rightarrow> bool \<Rightarrow> browser_headers \<Rightarrow> http_request
     \<Rightarrow> (string answer + endpoint \<times> MapClaims option) call" where
  "newHandler J secret checker feed_key rts now m segs slash h r =
     (if \<not> cross_origin_ok m h then answer (Inl (HErr 403 ''cross-origin request detected''))
      else case dispatch rts m segs slash of
             None \<Rightarrow>
               answer (Inl (if list_ex (\<lambda>rt. path_matches (ro_Pattern rt) segs slash) rts
                            then HErr 405 ''Method Not Allowed'' else HErr 404 ''404 page not found''))
           | Some rt \<Rightarrow>
               serve (pass_guard J secret checker feed_key now r (ro_Guard rt)) (\<lambda>res.
                 answer (case res of Inl a \<Rightarrow> Inl a | Inr claims \<Rightarrow> Inr (ro_Endpoint rt, claims))))"

section \<open>No two routes are in each other's way\<close>

fun segments_clash :: "segment \<times> segment \<Rightarrow> bool" where
  "segments_clash (Lit a, Lit b) = (a \<noteq> b)"
| "segments_clash _ = False"

fun segment_within :: "segment \<Rightarrow> segment \<Rightarrow> bool" where
  "segment_within (Lit a) (Lit b) = (a = b)"
| "segment_within (Lit _) (Wild _) = True"
| "segment_within (Wild _) (Wild _) = True"
| "segment_within (Wild _) (Lit _) = False"

definition disjoint_methods :: "http_method \<Rightarrow> http_method \<Rightarrow> bool" where
  "disjoint_methods a b \<longleftrightarrow> a \<noteq> b \<and> \<not> (a = GET \<and> b = HEAD) \<and> \<not> (a = HEAD \<and> b = GET)"

definition disjoint_patterns :: "pattern \<Rightarrow> pattern \<Rightarrow> bool" where
  "disjoint_patterns p q =
     (if disjoint_methods (pn_Method p) (pn_Method q) then True
      else if pn_End p \<noteq> Below \<and> pn_End q \<noteq> Below
              \<and> (pn_End p \<noteq> pn_End q \<or> length (pn_Segments p) \<noteq> length (pn_Segments q)) then True
      else list_ex segments_clash (zip (pn_Segments p) (pn_Segments q)))"

definition pattern_within :: "pattern \<Rightarrow> pattern \<Rightarrow> bool" where
  "pattern_within p q \<longleftrightarrow>
     pn_Method p = pn_Method q \<and> pn_End p = pn_End q \<and> list_all2 segment_within (pn_Segments p) (pn_Segments q)"

lemma clash_no_match: "segments_clash (a, b) \<Longrightarrow> segment_matches a s \<Longrightarrow> \<not> segment_matches b s"
  by (cases a; cases b) auto

lemma within_match: "segment_within a b \<Longrightarrow> segment_matches a s \<Longrightarrow> segment_matches b s"
  by (cases a; cases b) auto

lemma path_prefix:
  "path_matches p segs slash \<Longrightarrow> length (pn_Segments p) \<le> length segs
     \<and> list_all2 segment_matches (pn_Segments p) (take (length (pn_Segments p)) segs)"
  by (cases "pn_End p") (auto simp: path_matches_def list_all2_conv_all_nth)

lemma disjoint_no_match:
  assumes "disjoint_patterns p q" "pattern_matches p m segs slash"
  shows "\<not> pattern_matches q m segs slash"
proof
  assume q: "pattern_matches q m segs slash"
  have paths: "path_matches p segs slash" "path_matches q segs slash"
    using assms(2) q by (simp_all add: pattern_matches_def)
  have "\<not> list_ex segments_clash (zip (pn_Segments p) (pn_Segments q))"
  proof
    assume "list_ex segments_clash (zip (pn_Segments p) (pn_Segments q))"
    then obtain i where i: "i < length (pn_Segments p)" "i < length (pn_Segments q)"
        "segments_clash (pn_Segments p ! i, pn_Segments q ! i)"
      by (auto simp: list_ex_iff in_set_zip)
    then have "segment_matches (pn_Segments p ! i) (segs ! i)" "segment_matches (pn_Segments q ! i) (segs ! i)"
      using path_prefix [OF paths(1)] path_prefix [OF paths(2)] by (auto simp: list_all2_conv_all_nth)
    then show False
      using clash_no_match i(3) by blast
  qed
  moreover have "pn_Method p = pn_Method q \<or> pn_Method p = GET \<and> pn_Method q = HEAD \<or> pn_Method p = HEAD \<and> pn_Method q = GET"
    using assms(2) q by (auto simp: pattern_matches_def method_matches_def)
  moreover have "pn_End p = Below \<or> pn_End q = Below \<or> pn_End p = pn_End q \<and> length (pn_Segments p) = length (pn_Segments q)"
    using paths by (cases "pn_End p"; cases "pn_End q") (auto simp: path_matches_def list_all2_conv_all_nth)
  ultimately show False
    using assms(1) unfolding disjoint_patterns_def disjoint_methods_def by (auto split: if_splits)
qed

lemma within_matches:
  assumes "pattern_within p q" "pattern_matches p m segs slash"
  shows "pattern_matches q m segs slash"
proof -
  have len: "length (pn_Segments p) = length (pn_Segments q)"
    using assms(1) by (auto simp: pattern_within_def dest: list_all2_lengthD)
  have "list_all2 segment_matches (pn_Segments q) ss" if "list_all2 segment_matches (pn_Segments p) ss" for ss
    using that assms(1) len within_match by (auto simp: pattern_within_def list_all2_conv_all_nth)
  then show ?thesis
    using assms len by (auto simp: pattern_matches_def pattern_within_def path_matches_def split: path_end.splits)
qed

lemma within_rank: "list_all2 segment_within ss ts \<Longrightarrow> segments_rank ss @ x \<le> segments_rank ts @ x"
  by (induction rule: list_all2_induct) (auto elim!: segment_within.elims)

lemma same_rank_within:
  "list_all2 segment_within ss ts \<Longrightarrow> segments_rank ss @ x = segments_rank ts @ x \<Longrightarrow> list_all2 segment_within ts ss"
  by (induction rule: list_all2_induct) (auto elim!: segment_within.elims)

text \<open>
  Two patterns that overlap are comparable, so that no request has two best routes: otherwise \<open>net/http\<close> panics when
  the second one is registered.
\<close>

definition no_conflict :: "pattern \<Rightarrow> pattern \<Rightarrow> bool" where
  "no_conflict p q = (if disjoint_patterns p q then True else pattern_within p q \<noteq> pattern_within q p)"

definition registers :: "route list \<Rightarrow> bool" where
  "registers rts \<longleftrightarrow> sorted_wrt (\<lambda>r1 r2. no_conflict (ro_Pattern r1) (ro_Pattern r2)) rts"

lemma disjoint_sym: "disjoint_patterns p q \<Longrightarrow> disjoint_patterns q p"
proof -
  have clash_sym: "segments_clash (a, b) \<Longrightarrow> segments_clash (b, a)" for a b
    by (cases a; cases b) auto
  have "list_ex segments_clash (zip ys xs)" if "list_ex segments_clash (zip xs ys)" for xs ys
  proof -
    obtain i where "i < length xs" "i < length ys" "segments_clash (xs ! i, ys ! i)"
      using \<open>list_ex segments_clash (zip xs ys)\<close> by (auto simp: list_ex_iff in_set_zip)
    then have "(ys ! i, xs ! i) \<in> set (zip ys xs)" "segments_clash (ys ! i, xs ! i)"
      using clash_sym by (auto simp: in_set_zip)
    then show ?thesis
      unfolding list_ex_iff by blast
  qed
  then show "disjoint_patterns p q \<Longrightarrow> disjoint_patterns q p"
    unfolding disjoint_patterns_def disjoint_methods_def by (smt (verit))
qed

lemma no_conflict_sym: "no_conflict p q \<Longrightarrow> no_conflict q p"
  using disjoint_sym by (auto simp: no_conflict_def split: if_splits)

lemma registers_pair:
  assumes "registers rts" "r \<in> set rts" "r' \<in> set rts"
  shows "r = r' \<or> no_conflict (ro_Pattern r) (ro_Pattern r')"
proof -
  obtain i j where "i < length rts" "j < length rts" "r = rts ! i" "r' = rts ! j"
    using assms(2,3) by (auto simp: in_set_conv_nth)
  moreover have "no_conflict (ro_Pattern (rts ! a)) (ro_Pattern (rts ! b))" if "a < b" "b < length rts" for a b
    using assms(1) that by (simp add: registers_def sorted_wrt_iff_nth_less)
  ultimately show ?thesis
    by (metis no_conflict_sym linorder_neqE_nat)
qed

lemma within_rank_le: "pattern_within p q \<Longrightarrow> pattern_rank m p \<le> pattern_rank m q"
  using within_rank by (auto simp: pattern_within_def pattern_rank_def)

lemma same_rank: "pattern_within p q \<Longrightarrow> pattern_rank m p = pattern_rank m q \<Longrightarrow> pattern_within q p"
  using same_rank_within by (auto simp: pattern_within_def pattern_rank_def)

lemma best_of_fold:
  "fold (better_route m) rs r \<in> set (r # rs)
   \<and> (\<forall>x \<in> set (r # rs). pattern_rank m (ro_Pattern (fold (better_route m) rs r)) \<le> pattern_rank m (ro_Pattern x))"
proof (induction rs arbitrary: r)
  case (Cons a rs)
  let ?b = "better_route m a r"
  have b: "?b = a \<or> ?b = r" "pattern_rank m (ro_Pattern ?b) \<le> pattern_rank m (ro_Pattern a)"
      "pattern_rank m (ro_Pattern ?b) \<le> pattern_rank m (ro_Pattern r)"
    by (auto simp: better_route_def)
  then show ?case
    using Cons.IH [of ?b] order_trans by (auto simp del: not_le)
qed simp

lemma dispatch_best:
  assumes "dispatch rts m segs slash = Some r"
  shows "r \<in> set rts" "pattern_matches (ro_Pattern r) m segs slash"
    "\<And>x. x \<in> set rts \<Longrightarrow> pattern_matches (ro_Pattern x) m segs slash
       \<Longrightarrow> pattern_rank m (ro_Pattern r) \<le> pattern_rank m (ro_Pattern x)"
proof -
  obtain a rs where c: "candidates rts m segs slash = a # rs" and r: "r = fold (better_route m) rs a"
    using assms by (auto simp: dispatch_def split: list.splits)
  have best: "r \<in> set (candidates rts m segs slash)"
      "\<forall>x \<in> set (candidates rts m segs slash). pattern_rank m (ro_Pattern r) \<le> pattern_rank m (ro_Pattern x)"
    using best_of_fold [of m rs a] unfolding c r by auto
  then show "r \<in> set rts" "pattern_matches (ro_Pattern r) m segs slash"
    by (auto simp: candidates_def)
  show "\<And>x. x \<in> set rts \<Longrightarrow> pattern_matches (ro_Pattern x) m segs slash
       \<Longrightarrow> pattern_rank m (ro_Pattern r) \<le> pattern_rank m (ro_Pattern x)"
    using best(2) by (auto simp: candidates_def)
qed

lemma dispatch_None: "dispatch rts m segs slash = None \<longleftrightarrow> (\<forall>r \<in> set rts. \<not> pattern_matches (ro_Pattern r) m segs slash)"
proof -
  have "dispatch rts m segs slash = None \<longleftrightarrow> candidates rts m segs slash = []"
    by (simp add: dispatch_def split: list.split)
  then show ?thesis
    by (auto simp: candidates_def filter_empty_conv)
qed

lemma dispatch_least:
  assumes "registers rts" "dispatch rts m segs slash = Some r" "x \<in> set rts" "pattern_matches (ro_Pattern x) m segs slash"
  shows "x = r \<or> pattern_within (ro_Pattern r) (ro_Pattern x)"
proof (cases "x = r")
  case False
  have r: "r \<in> set rts" "pattern_matches (ro_Pattern r) m segs slash"
      "pattern_rank m (ro_Pattern r) \<le> pattern_rank m (ro_Pattern x)"
    using dispatch_best [OF assms(2)] assms(3,4) by blast+
  then have "pattern_within (ro_Pattern r) (ro_Pattern x) \<noteq> pattern_within (ro_Pattern x) (ro_Pattern r)"
    using registers_pair [OF assms(1) r(1) assms(3)] False disjoint_no_match [OF _ r(2)] assms(4)
    by (auto simp: no_conflict_def split: if_splits)
  moreover have "pattern_within (ro_Pattern x) (ro_Pattern r) \<Longrightarrow> pattern_within (ro_Pattern r) (ro_Pattern x)"
    using within_rank_le [of "ro_Pattern x" "ro_Pattern r" m] same_rank [of "ro_Pattern x" "ro_Pattern r" m] r(3) by auto
  ultimately show ?thesis
    by blast
qed simp

lemma patterns_register: "sorted_wrt no_conflict (map ro_Pattern (server_routes True True True True))"
  by code_simp

lemma base_patterns: "map ro_Pattern (base_routes feedAuth) = map ro_Pattern (base_routes True)"
  by (simp add: base_routes_def route_of_def)

lemma registers_patterns: "registers rts \<longleftrightarrow> sorted_wrt no_conflict (map ro_Pattern rts)"
  by (simp add: registers_def sorted_wrt_map)

lemma sorted_wrt_choose:
  "sorted_wrt P (b @ r @ g @ u) \<Longrightarrow> sorted_wrt P ((b @ (if x then r else []) @ (if y then g else [])) @ (if z then u else []))"
  by (cases x; cases y; cases z) (auto simp: sorted_wrt_append)

lemma server_registers: "registers (server_routes feedAuth riderOn catalogOn ui)"
proof -
  have "sorted_wrt no_conflict (map ro_Pattern (base_routes feedAuth) @ map ro_Pattern rider_routes
          @ map ro_Pattern gtfs_routes @ map ro_Pattern (static_route # admin_ui_routes))"
    using patterns_register base_patterns [of feedAuth] by (simp add: server_routes_def newMux_def)
  note sorted_wrt_choose [OF this, of riderOn catalogOn ui]
  then show ?thesis
    unfolding registers_patterns server_routes_def newMux_def map_append if_distrib [of "map ro_Pattern"] list.map(1) .
qed

text \<open>
  C36: the table of routes is free of conflicts in every configuration, so the server never panics while it registers
  them, and the order of registration does not matter: a request is answered by a route that matches it, and every
  other route that matches it matches every request the chosen one does; a request finds no route exactly when none matches.
\<close>

theorem dispatch_most_specific:
  "registers (server_routes feedAuth riderOn catalogOn ui)
   \<and> (case dispatch (server_routes feedAuth riderOn catalogOn ui) m segs slash of
        None \<Rightarrow> \<forall>x \<in> set (server_routes feedAuth riderOn catalogOn ui). \<not> pattern_matches (ro_Pattern x) m segs slash
      | Some r \<Rightarrow>
          r \<in> set (server_routes feedAuth riderOn catalogOn ui) \<and> pattern_matches (ro_Pattern r) m segs slash
          \<and> (\<forall>x \<in> set (server_routes feedAuth riderOn catalogOn ui). pattern_matches (ro_Pattern x) m segs slash \<longrightarrow>
               x = r \<or> \<not> pattern_within (ro_Pattern x) (ro_Pattern r)
                 \<and> (\<forall>m' segs' slash'. pattern_matches (ro_Pattern r) m' segs' slash'
                      \<longrightarrow> pattern_matches (ro_Pattern x) m' segs' slash')))"
proof (cases "dispatch (server_routes feedAuth riderOn catalogOn ui) m segs slash")
  case None
  then show ?thesis
    using server_registers dispatch_None [THEN iffD1, OF None] unfolding None option.case(1) by blast
next
  case (Some r)
  note best = dispatch_best [OF Some] and least = dispatch_least [OF server_registers Some]
  have "\<not> pattern_within (ro_Pattern x) (ro_Pattern r)"
    if "x \<in> set (server_routes feedAuth riderOn catalogOn ui)" "pattern_matches (ro_Pattern x) m segs slash" "x \<noteq> r" for x
    using registers_pair [OF server_registers that(1) best(1)] least [OF that(1,2)] that disjoint_no_match [OF _ that(2)] best(2)
    by (auto simp: no_conflict_def split: if_splits)
  then show ?thesis
    unfolding Some option.case(2) using server_registers best(1,2) least within_matches by blast
qed

definition live_route :: route where
  "live_route = route_of GET (admin_api [Lit ''vehicles'', Lit ''live'']) StaffAdmin LiveVehicles"

definition vehicle_route :: route where
  "vehicle_route = route_of GET (admin_api [Lit ''vehicles'', Wild ''id'']) StaffAdmin GetVehicle"

theorem dispatch_most_specific_witness:
  "dispatch (server_routes True True True True) HEAD [''api'', ''v1'', ''admin'', ''vehicles'', ''live''] False = Some live_route
   \<and> \<not> pattern_within (ro_Pattern vehicle_route) (ro_Pattern live_route)"
proof -
  have "dispatch (server_routes True True True True) HEAD [''api'', ''v1'', ''admin'', ''vehicles'', ''live''] False = Some live_route"
    by code_simp
  moreover have "vehicle_route \<in> set (server_routes True True True True)"
    by (simp add: vehicle_route_def server_routes_def newMux_def base_routes_def)
  moreover have "pattern_matches (ro_Pattern vehicle_route) HEAD [''api'', ''v1'', ''admin'', ''vehicles'', ''live''] False"
      "vehicle_route \<noteq> live_route"
    by code_simp+
  ultimately show ?thesis
    using dispatch_most_specific [of True True True True HEAD "[''api'', ''v1'', ''admin'', ''vehicles'', ''live'']" False]
    by auto
qed

section \<open>Which requests reach which handler\<close>

text \<open>The endpoints anybody may call, those for drivers and dispatchers, and those for riders.\<close>

definition open_endpoints :: "endpoint list" where
  "open_endpoints = [Login, RefreshSession, GetFeed, Health, Ready, RiderRegister, StaticFile, PageLogin, PageLoginSubmit,
     PageLogout, PageRoot]"

definition staff_endpoints :: "endpoint list" where
  "staff_endpoints = [Logout, PostLocation, TripStart, TripEnd, MyVehicles, MapConfig, GTFSRoutes, GTFSRouteTrips, GTFSTrip]"

definition rider_endpoints :: "endpoint list" where
  "rider_endpoints = [RideStart, RidePositions, RideEnd, RiderTripStatus]"

definition guarded_well :: "route \<Rightarrow> bool" where
  "guarded_well r \<longleftrightarrow>
     (if ro_Endpoint r \<in> set open_endpoints then ro_Guard r = Open \<or> ro_Endpoint r = GetFeed \<and> ro_Guard r = FeedKey
      else if ro_Endpoint r \<in> set staff_endpoints then ro_Guard r = Staff
      else if ro_Endpoint r \<in> set rider_endpoints then ro_Guard r = RiderToken
      else ro_Guard r = StaffAdmin \<or> ro_Guard r = PageAdmin)"

lemma table_guarded: "list_all guarded_well (base_routes feedAuth @ rider_routes @ gtfs_routes @ static_route # admin_ui_routes)"
  by (simp add: base_routes_def rider_routes_def gtfs_routes_def static_route_def admin_ui_routes_def guarded_well_def
      route_of_def open_endpoints_def staff_endpoints_def rider_endpoints_def)

lemma routes_guarded:
  assumes "r \<in> set (server_routes feedAuth riderOn catalogOn ui)"
  shows "guarded_well r"
proof -
  have "r \<in> set (base_routes feedAuth @ rider_routes @ gtfs_routes @ static_route # admin_ui_routes)"
    using assms by (auto simp: server_routes_def newMux_def split: if_splits)
  then show ?thesis
    using table_guarded [of feedAuth] unfolding list_all_iff by blast
qed

lemma requireAdmin_None: "requireAdmin (Some claims) = None \<longleftrightarrow> claims ''role'' = Some (JStr roleAdmin)"
  by (auto simp: requireAdmin_def split: option.splits json.splits)

text \<open>The claims of a valid, unrevoked token that the request presents in its header or, for people, in its cookie.\<close>

definition signed_in :: "JWT \<Rightarrow> string \<Rightarrow> gotime \<Rightarrow> http_request \<Rightarrow> net \<times> Database \<Rightarrow> string list \<Rightarrow> MapClaims \<Rightarrow> bool" where
  "signed_in J secret now r st roles claims \<longleftrightarrow>
     (\<exists>tok. (tok \<noteq> [] \<and> hr_SessionCookie r = Some tok \<or> hr_Authorization r = ''Bearer '' @ tok)
        \<and> parseSessionToken J secret now tok = Some claims)
     \<and> str_claim claims ''role'' \<in> set roles \<and> not_revoked claims st"

lemma presented_from:
  "presented_token cookie r = Some tok
    \<Longrightarrow> tok \<noteq> [] \<and> hr_SessionCookie r = Some tok \<or> hr_Authorization r = ''Bearer '' @ tok"
proof -
  have "s = ''Bearer '' @ drop 7 s" if "has_prefix ''Bearer '' s" for s
    using that by (auto elim!: has_prefix.elims)
  then show "presented_token cookie r = Some tok
      \<Longrightarrow> tok \<noteq> [] \<and> hr_SessionCookie r = Some tok \<or> hr_Authorization r = ''Bearer '' @ tok"
    by (auto simp: presented_token_def split: option.splits if_splits)
qed

lemma pass_guard_claims:
  assumes "fst (pass_guard J secret Store_IsTokenRevoked feed_key now r g st) = Inr ctx"
  shows "case g of
      Open \<Rightarrow> ctx = None
    | FeedKey \<Rightarrow> ctx = None
    | Staff \<Rightarrow> \<exists>claims. ctx = Some claims \<and> signed_in J secret now r st staffRoles claims
    | RiderToken \<Rightarrow> \<exists>claims. ctx = Some claims \<and> signed_in J secret now r st [roleRider] claims
    | _ \<Rightarrow> \<exists>claims. ctx = Some claims \<and> signed_in J secret now r st [roleAdmin] claims"
proof (cases g)
  case Open
  then show ?thesis
    using assms by (simp add: pass_guard_def answer_def)
next
  case FeedKey
  then show ?thesis
    using assms by (auto simp: pass_guard_def answer_def serve_def split: prod.splits sum.splits)
next
  case Staff
  then obtain claims where "ctx = Some claims" "fst ((requireAuth J secret Store_IsTokenRevoked now r :: (string answer + MapClaims) call) st) = Inr claims"
    using assms by (cases "(requireAuth J secret Store_IsTokenRevoked now r :: (string answer + MapClaims) call) st")
      (auto simp: pass_guard_def with_claims_def answer_def serve_def split: sum.splits)
  then show ?thesis
    using Staff presented_from unfolding requireAuth_def requireRoles_Inr signed_in_def by auto
next
  case StaffAdmin
  then obtain claims where ctx: "ctx = Some claims" "fst ((requireAuth J secret Store_IsTokenRevoked now r :: (string answer + MapClaims) call) st) = Inr claims"
      "(requireAdmin (Some claims) :: string answer option) = None"
    using assms by (auto simp: pass_guard_def answer_def serve_def split: prod.splits sum.splits option.splits)
  then have "str_claim claims ''role'' = roleAdmin"
    by (simp add: requireAdmin_None str_claim_def)
  then show ?thesis
    using StaffAdmin ctx(1,2) presented_from unfolding requireAuth_def requireRoles_Inr signed_in_def by auto
next
  case RiderToken
  then obtain claims where "ctx = Some claims" "fst ((requireRider J secret Store_IsTokenRevoked now r :: (string answer + MapClaims) call) st) = Inr claims"
    using assms by (cases "(requireRider J secret Store_IsTokenRevoked now r :: (string answer + MapClaims) call) st")
      (auto simp: pass_guard_def with_claims_def answer_def serve_def split: sum.splits)
  then show ?thesis
    using RiderToken presented_from unfolding requireRider_def requireRoles_Inr signed_in_def by auto
next
  case PageAdmin
  then obtain claims where "ctx = Some claims" "fst (adminClaimsFromCookie J secret Store_IsTokenRevoked now r st) = Some claims"
    using assms by (auto simp: pass_guard_def with_claims_def requireAdminPage_def answer_def serve_def
        split: prod.splits sum.splits option.splits)
  then show ?thesis
    using PageAdmin unfolding adminClaims_iff signed_in_def by auto
qed

text \<open>
  C35: nothing reaches a handler that is not meant for it, in any configuration and on any path. A request that gets to
  an endpoint gets to one that is open to everybody, or one of those for drivers and dispatchers with the valid,
  unrevoked token of one of them, or one of a rider's with a rider's, and to any other endpoint, which are those of the
  administration, only with an administrator's; and a request that can change something is not one that a page of
  another site made a browser send.
\<close>

theorem admin_endpoints_guarded:
  assumes "fst (newHandler J secret Store_IsTokenRevoked feed_key (server_routes feedAuth riderOn catalogOn ui) now m segs slash h r st)
    = Inr (e, ctx)"
  shows "(if e \<in> set open_endpoints then ctx = None
      else \<exists>claims. ctx = Some claims \<and> signed_in J secret now r st
             (if e \<in> set staff_endpoints then staffRoles else if e \<in> set rider_endpoints then [roleRider] else [roleAdmin]) claims)
    \<and> (m \<in> {GET, HEAD, OPTIONS} \<or> bh_SecFetchSite h \<in> {''same-origin'', ''none'', []})
    \<and> (m \<notin> {GET, HEAD, OPTIONS} \<and> bh_SecFetchSite h = [] \<longrightarrow> bh_Origin h = [] \<or> bh_OriginHost h = Some (bh_Host h))"
proof -
  obtain rt where rt: "dispatch (server_routes feedAuth riderOn catalogOn ui) m segs slash = Some rt" "ro_Endpoint rt = e"
      "fst (pass_guard J secret Store_IsTokenRevoked feed_key now r (ro_Guard rt) st) = Inr ctx" "cross_origin_ok m h"
    using assms by (auto simp: newHandler_def answer_def serve_def split: if_splits option.splits prod.splits sum.splits)
  have "guarded_well rt"
    using dispatch_best(1) [OF rt(1)] routes_guarded by blast
  then have "if e \<in> set open_endpoints then ctx = None
      else \<exists>claims. ctx = Some claims \<and> signed_in J secret now r st
             (if e \<in> set staff_endpoints then staffRoles else if e \<in> set rider_endpoints then [roleRider] else [roleAdmin]) claims"
    using pass_guard_claims [OF rt(3)] rt(2) unfolding guarded_well_def by (auto split: if_splits)
  then show ?thesis
    using rt(4) unfolding cross_origin_ok_def by auto
qed

definition same_origin_headers :: browser_headers where
  "same_origin_headers = \<lparr>bh_SecFetchSite = ''same-origin'', bh_Origin = [], bh_OriginHost = None, bh_Host = ''h''\<rparr>"

theorem admin_endpoints_guarded_witness:
  "signed_in sample_JWT ''k'' 0 sample_request ([], empty_db) staffRoles sample_claims"
proof -
  have "dispatch (server_routes True False True False) POST [''api'', ''v1'', ''locations''] False
      = Some (route_of POST (api [Lit ''locations'']) Staff PostLocation)"
    by code_simp
  moreover have "fst ((requireAuth sample_JWT ''k'' Store_IsTokenRevoked 0 sample_request :: (string answer + MapClaims) call) ([], empty_db))
      = Inr sample_claims"
  proof -
    have "jw_Sign sample_JWT (session_claims 1 ''a@b'' ''driver'' ''00ff'' hour 0) ''k'' = Some ''t''"
      using sample_issued sample_bytes by (simp add: generateJWT_def newJTI_def)
    moreover have "0 < time_unix (unix_of (time_add 0 hour))"
      by (simp add: time_unix_def unix_of_def wrap64_def time_add_def time_units unix_to_internal_def)
    ultimately have "parseSessionToken sample_JWT ''k'' 0 ''t'' = Some sample_claims"
      using parse_issued [OF sample_contract] sample_claims_def by metis
    moreover have "not_revoked sample_claims ([], empty_db)"
      by (simp add: not_revoked_def next_trip_def empty_db_def)
    moreover have "presented_token True sample_request = Some ''t''"
      by (simp add: presented_token_def sample_request_def)
    ultimately show ?thesis
      by (simp add: requireAuth_def requireRoles_Inr sample_claims_def staffRoles_def roleDriver_def)
  qed
  ultimately have "fst (newHandler sample_JWT ''k'' Store_IsTokenRevoked (answer (Inr ())) (server_routes True False True False) 0 POST
      [''api'', ''v1'', ''locations''] False same_origin_headers sample_request ([], empty_db)) = Inr (PostLocation, Some sample_claims)"
    by (auto simp: newHandler_def cross_origin_ok_def same_origin_headers_def pass_guard_def with_claims_def serve_def answer_def
        route_of_def split: prod.splits)
  from admin_endpoints_guarded [OF this] show ?thesis
    by (simp add: open_endpoints_def staff_endpoints_def)
qed

end
