(* ===== verification/RiderSim.thy ===== *)
theory RiderSim
  imports RiderService
begin

text \<open>
  The simulated rider of \<open>src/cmd/ridersim/main.go\<close>: choosing the trips, getting credentials, and one ride's client,
  which samples the shape on one ticker, uploads what it buffered on another, and ends the ride. What happens to a
  ride is a list of the events its loop selects on; an answer of the server, the noise of a fix and the readings of the
  clock come with the event. \<open>rn_posted\<close> records the calls made and their answers, for the statements. \<open>RiderSimProps\<close> shows
  that no fix is lost unaccounted for, that what the client posts is what the server's handlers accept, that a walk
  ends, and that the ride is over on the server too when it does.
\<close>

section \<open>What goes over the wire\<close>

record sim_position =
  sp_Latitude :: f64
  sp_Longitude :: f64
  sp_Accuracy :: f64
  sp_Speed :: f64
  sp_Bearing :: f64
  sp_Timestamp :: int

record sim_ride =
  sd_RideID :: string
  sd_State :: string
  sd_ReportIntervalSeconds :: int
  sd_MaxBatchSize :: int

record sim_answer =
  sa_State :: string
  sa_Published :: bool
  sa_Corroboration :: string
  sa_Accepted :: int
  sa_Ignored :: int
  sa_OffRouteStreak :: int
  sa_Ended :: bool
  sa_EndReason :: string

text \<open>The answer to a call: an error of the transport, or a status with the body, \<open>None\<close> if it does not decode.\<close>

datatype 'b reply = Broken | Reply nat "'b option"

datatype sim_error =
    TransportFailed
  | BadStatus nat
  | BadBody
  | RegistrationRefused nat
  | Interrupted
  | UnknownTrip string
  | TripNotRunning string string
  | NothingToSimulate
  | NoFurtherTrips string
  | TooFewTrips int nat
  | LoadFailed
  | UsageError string
  | NotAnEndReason string string
  | RidesFailed nat nat

definition postJSON :: "nat list \<Rightarrow> 'b reply \<Rightarrow> sim_error + 'b option" where
  "postJSON want rep =
     (case rep of
        Broken \<Rightarrow> Inl TransportFailed
      | Reply status body \<Rightarrow> if status \<notin> set want then Inl (BadStatus status) else Inr body)"

section \<open>Getting credentials\<close>

definition registerAttempts :: nat where "registerAttempts = 10"
definition registerBackoff :: duration where "registerBackoff = 12 * second"
definition registerStagger :: duration where "registerStagger = 250000000"

text \<open>
  The attempts from the one with \<open>left\<close> more behind it on. \<open>calls n\<close> is the answer to the \<open>n\<close>-th attempt, and whether
  the wait behind it was sat out rather than interrupted.
\<close>

primrec register_from :: "nat \<Rightarrow> nat \<Rightarrow> (nat \<Rightarrow> string reply \<times> bool) \<Rightarrow> sim_error + string" where
  "register_from 0 attempt calls =
     (case fst (calls attempt) of
        Broken \<Rightarrow> Inl TransportFailed
      | Reply status body \<Rightarrow>
          (if status \<in> {200, 201} then (case body of None \<Rightarrow> Inl BadBody | Some token \<Rightarrow> Inr token)
           else if status = 429 then Inl (RegistrationRefused attempt)
           else Inl (BadStatus status)))"
| "register_from (Suc left) attempt calls =
     (case fst (calls attempt) of
        Broken \<Rightarrow> Inl TransportFailed
      | Reply status body \<Rightarrow>
          (if status \<in> {200, 201} then (case body of None \<Rightarrow> Inl BadBody | Some token \<Rightarrow> Inr token)
           else if status = 429
             then (if snd (calls attempt) then register_from left (attempt + 1) calls else Inl Interrupted)
           else Inl (BadStatus status)))"

definition sim_register :: "(nat \<Rightarrow> string reply \<times> bool) \<Rightarrow> sim_error + string" where
  "sim_register calls = register_from (registerAttempts - 1) 1 calls"

section \<open>Choosing the trips\<close>

text \<open>The explicitly requested trips, in order.\<close>

primrec requested_trips :: "Index \<Rightarrow> string \<Rightarrow> string list \<Rightarrow> sim_error + string list" where
  "requested_trips ix day [] = Inr []"
| "requested_trips ix day (i # is) =
     (case Trip ix i of
        None \<Rightarrow> Inl (UnknownTrip i)
      | Some trip \<Rightarrow>
          (if \<not> ActiveOn ix (Some trip) day then Inl (TripNotRunning i day)
           else case requested_trips ix day is of Inl e \<Rightarrow> Inl e | Inr trips \<Rightarrow> Inr (i # trips)))"

definition further_trips :: "Index \<Rightarrow> string \<Rightarrow> string list \<Rightarrow> string list" where
  "further_trips ix day trips =
     filter (\<lambda>i. (case Trip ix i of None \<Rightarrow> False | Some trip \<Rightarrow> ActiveOn ix (Some trip) day \<and> i \<notin> set trips)) (TripIDs ix)"

text \<open>\<open>shuffle\<close> is the seeded \<open>rng.Shuffle\<close>.\<close>

definition pickTrips ::
  "(string list \<Rightarrow> string list) \<Rightarrow> Index \<Rightarrow> string list \<Rightarrow> int \<Rightarrow> string \<Rightarrow> sim_error + string list" where
  "pickTrips shuffle ix requested random day =
     (case requested_trips ix day requested of
        Inl e \<Rightarrow> Inl e
      | Inr trips \<Rightarrow>
          (if random \<le> 0 then (if trips = [] then Inl NothingToSimulate else Inr trips)
           else
             (let active = further_trips ix day trips in
              if active = [] then Inl (NoFurtherTrips day)
              else if random > int (length active) then Inl (TooFewTrips random (length active))
              else Inr (trips @ take (nat random) (shuffle active)))))"

section \<open>One ride\<close>

definition offRouteMetres :: f64 where "offRouteMetres = Num 300"
definition minAccuracy :: f64 where "minAccuracy = Num 5"

record simConfig =
  sc_interval :: duration
  sc_speed :: f64
  sc_noise :: f64
  sc_offRouteAfter :: duration
  sc_duration :: duration

datatype request = Positions "sim_position list" | EndRide EndReason

record riderRun =
  rn_shape :: ShapeGeom
  rn_report :: duration
  rn_maxBatch :: int
  rn_along :: f64
  rn_buf :: "sim_position list"
  rn_sent :: nat
  rn_dropped :: nat
  rn_lastStamp :: int
  rn_warnedSub :: bool
  rn_state :: string
  rn_corroboration :: string
  rn_published :: bool
  rn_posted :: "(request \<times> sim_answer reply) list"

definition new_run :: "ShapeGeom \<Rightarrow> sim_ride \<Rightarrow> riderRun" where
  "new_run shape ride =
     (let report = wrap64 (sd_ReportIntervalSeconds ride * second)
      in \<lparr>rn_shape = shape, rn_report = (if report \<le> 0 then 5 * second else report),
          rn_maxBatch = (if sd_MaxBatchSize ride \<le> 0 then 1 else sd_MaxBatchSize ride),
          rn_along = Num 0, rn_buf = [], rn_sent = 0, rn_dropped = 0, rn_lastStamp = 0, rn_warnedSub = False,
          rn_state = sd_State ride, rn_corroboration = [], rn_published = False, rn_posted = []\<rparr>)"

subsection \<open>Moving on\<close>

text \<open>\<open>north\<close> and \<open>east\<close> are two draws of \<open>NormFloat64\<close>.\<close>

definition jitter :: "LatLon \<Rightarrow> f64 \<Rightarrow> f64 \<Rightarrow> f64 \<Rightarrow> LatLon" where
  "jitter pos metres north east =
     (if fle metres (Num 0) then pos else OffsetMetres pos (fmul north metres) (fmul east metres))"

definition offsetEast :: "LatLon \<Rightarrow> f64 \<Rightarrow> LatLon" where
  "offsetEast pos metres = OffsetMetres pos (Num 0) metres"

definition sampled_fix :: "simConfig \<Rightarrow> ShapeGeom \<Rightarrow> f64 \<Rightarrow> duration \<Rightarrow> f64 \<Rightarrow> f64 \<Rightarrow> int \<Rightarrow> sim_position" where
  "sampled_fix cfg shape along since north east stamp =
     (let p0 = jitter (PointAt shape along) (sc_noise cfg) north east;
          pos = (if sc_offRouteAfter cfg > 0 \<and> since \<ge> sc_offRouteAfter cfg then offsetEast p0 offRouteMetres else p0)
      in \<lparr>sp_Latitude = Lat pos, sp_Longitude = Lon pos, sp_Accuracy = fmax (sc_noise cfg) minAccuracy,
          sp_Speed = sc_speed cfg, sp_Bearing = BearingAt shape along, sp_Timestamp = stamp\<rparr>)"

text \<open>\<open>since\<close> is \<open>time.Since(started)\<close>. The flag says that the shape has run out.\<close>

definition advance :: "simConfig \<Rightarrow> gotime \<Rightarrow> duration \<Rightarrow> f64 \<Rightarrow> f64 \<Rightarrow> riderRun \<Rightarrow> bool \<times> riderRun" where
  "advance cfg now since north east r =
     (let along = fadd (rn_along r) (fmul (sc_speed cfg) (dur_seconds (sc_interval cfg)));
          arrived = fge along (sg_Length (rn_shape r));
          along = (if arrived then sg_Length (rn_shape r) else along);
          r = r\<lparr>rn_along := along\<rparr>;
          stamp = unix_of now
      in if stamp \<le> rn_lastStamp r then (arrived, r\<lparr>rn_warnedSub := True\<rparr>)
         else (arrived, r\<lparr>rn_lastStamp := stamp,
                          rn_buf := rn_buf r @ [sampled_fix cfg (rn_shape r) along since north east stamp]\<rparr>))"

subsection \<open>Uploading\<close>

text \<open>
  What may happen during a flush: the answer to the first call, whether the wait before the retry was sat out, the
  answer to the retry, and whether the context was gone when the code looked.
\<close>

record flush_env =
  fl_first :: "sim_answer reply"
  fl_slept :: bool
  fl_second :: "sim_answer reply"
  fl_cancelled :: bool

fun answers :: "'b reply \<Rightarrow> bool" where
  "answers Broken = False"
| "answers (Reply status _) = (status \<in> {200, 429, 409})"

definition trim_buf :: "riderRun \<Rightarrow> riderRun" where
  "trim_buf r =
     (let n = nat (rn_maxBatch r)
      in if length (rn_buf r) > n
         then r\<lparr>rn_dropped := rn_dropped r + (length (rn_buf r) - n), rn_buf := drop (length (rn_buf r) - n) (rn_buf r)\<rparr>
         else r)"

definition call_made :: "request \<Rightarrow> sim_answer reply \<Rightarrow> riderRun \<Rightarrow> riderRun" where
  "call_made q rep r = r\<lparr>rn_posted := rn_posted r @ [(q, rep)]\<rparr>"

text \<open>What the answer to a batch makes of the ride: the reason it ended, if it did, or the failure.\<close>

definition take_answer :: "bool \<Rightarrow> sim_answer reply \<Rightarrow> riderRun \<Rightarrow> (sim_error + string) \<times> riderRun" where
  "take_answer cancelled rep r =
     (case rep of
        Broken \<Rightarrow> (if cancelled then Inr [] else Inl TransportFailed, r)
      | Reply status body \<Rightarrow>
          (if status = 200 then
             (case body of
                None \<Rightarrow> (Inl BadBody, r)
              | Some res \<Rightarrow>
                  (if sa_Ended res then Inr (sa_EndReason res) else Inr [],
                   r\<lparr>rn_sent := rn_sent r + length (rn_buf r), rn_buf := [], rn_state := sa_State res,
                     rn_corroboration := sa_Corroboration res, rn_published := sa_Published res\<rparr>))
           else if status = 429 then (Inr [], r)
           else if status = 409 then (Inr ''gone'', r\<lparr>rn_buf := []\<rparr>)
           else (Inl (BadStatus status), r)))"

definition flush_buf :: "flush_env \<Rightarrow> riderRun \<Rightarrow> (sim_error + string) \<times> riderRun" where
  "flush_buf env r =
     (if rn_buf r = [] then (Inr [], r)
      else
        (let r = trim_buf r; r1 = call_made (Positions (rn_buf r)) (fl_first env) r
         in if answers (fl_first env) then take_answer (fl_cancelled env) (fl_first env) r1
            else if \<not> fl_slept env then (Inr [], r1)
            else take_answer (fl_cancelled env) (fl_second env) (call_made (Positions (rn_buf r)) (fl_second env) r1)))"

subsection \<open>Ending\<close>

definition end_ride :: "EndReason \<Rightarrow> sim_answer reply \<Rightarrow> riderRun \<Rightarrow> (sim_error + string) \<times> riderRun" where
  "end_ride reason rep r =
     (case postJSON [200, 409] rep of Inl e \<Rightarrow> Inl e | Inr _ \<Rightarrow> Inr (EndReason_String reason), call_made (EndRide reason) rep r)"

definition abandon :: "sim_error \<Rightarrow> sim_answer reply \<Rightarrow> riderRun \<Rightarrow> (sim_error + string) \<times> riderRun" where
  "abandon cause rep r = (Inl cause, snd (end_ride EndNetworkFailure rep r))"

text \<open>
  How a ride that the client closes is closed: whether it was interrupted, the last flush otherwise, and the answer to
  the call that ends the ride.
\<close>

record closing =
  cl_interrupted :: bool
  cl_flush :: flush_env
  cl_end :: "sim_answer reply"

definition settle :: "sim_answer reply \<Rightarrow> (sim_error + string) \<times> riderRun \<Rightarrow> ((sim_error + string) option) \<times> riderRun" where
  "settle rep res =
     (case res of
        (Inl e, r) \<Rightarrow> (case abandon e rep r of (out, r') \<Rightarrow> (Some out, r'))
      | (Inr reason, r) \<Rightarrow> (if reason \<noteq> [] then Some (Inr reason) else None, r))"

definition close_ride :: "closing \<Rightarrow> EndReason \<Rightarrow> riderRun \<Rightarrow> (sim_error + string) \<times> riderRun" where
  "close_ride c reason r =
     (if cl_interrupted c then end_ride reason (cl_end c) r
      else case settle (cl_end c) (flush_buf (cl_flush c) r) of
             (Some out, r') \<Rightarrow> (out, r')
           | (None, r') \<Rightarrow> end_ride reason (cl_end c) r')"

subsection \<open>The loop\<close>

datatype sim_event =
    Interrupt
  | Deadline
  | Sample gotime duration f64 f64
  | Upload flush_env

text \<open>\<open>None\<close>: the loop is still waiting for the next event when the list is used up.\<close>

fun walk :: "simConfig \<Rightarrow> closing \<Rightarrow> sim_event list \<Rightarrow> riderRun \<Rightarrow> ((sim_error + string) option) \<times> riderRun" where
  "walk cfg c [] r = (None, r)"
| "walk cfg c (Interrupt # es) r = (case close_ride (c\<lparr>cl_interrupted := True\<rparr>) EndUserRequested r of (out, r') \<Rightarrow> (Some out, r'))"
| "walk cfg c (Deadline # es) r = (case close_ride c EndMaxDuration r of (out, r') \<Rightarrow> (Some out, r'))"
| "walk cfg c (Sample now since north east # es) r =
     (case advance cfg now since north east r of
        (arrived, r') \<Rightarrow>
          (if arrived then (case close_ride c EndArrived r' of (out, r'') \<Rightarrow> (Some out, r''))
           else walk cfg c es r'))"
| "walk cfg c (Upload env # es) r =
     (case settle (cl_end c) (flush_buf env r) of
        (Some out, r') \<Rightarrow> (Some out, r')
      | (None, r') \<Rightarrow> walk cfg c es r')"

text \<open>How far a rider got; the panic is that of a trip without a shape.\<close>

datatype sim_outcome = Panicked | Riding | Finished "sim_error + string"

definition outcome_of :: "(sim_error + string) option \<Rightarrow> sim_outcome" where
  "outcome_of out = (case out of None \<Rightarrow> Riding | Some res \<Rightarrow> Finished res)"

definition runRider ::
  "simConfig \<Rightarrow> Index \<Rightarrow> string \<Rightarrow> (nat \<Rightarrow> string reply \<times> bool) \<Rightarrow> sim_ride reply \<Rightarrow> closing \<Rightarrow> sim_event list \<Rightarrow> sim_outcome" where
  "runRider cfg ix tripID regs started c es =
     (case Trip ix tripID of
        None \<Rightarrow> Finished (Inl (UnknownTrip tripID))
      | Some trip \<Rightarrow>
          (case sim_register regs of
             Inl e \<Rightarrow> Finished (Inl e)
           | Inr token \<Rightarrow>
               (case postJSON [201] started of
                  Inl e \<Rightarrow> Finished (Inl e)
                | Inr None \<Rightarrow> Finished (Inl BadBody)
                | Inr (Some ride) \<Rightarrow>
                    (case ti_Shape trip of
                       None \<Rightarrow> Panicked
                     | Some shape \<Rightarrow> outcome_of (fst (walk cfg c es (new_run shape ride)))))))"

section \<open>The run\<close>

text \<open>The checks before anything is loaded; \<open>joinReasons\<close> lists the end reasons in the message.\<close>

definition joinReasons :: "EndReason list \<Rightarrow> string" where
  "joinReasons rs =
     concat (case map EndReason_String rs of [] \<Rightarrow> [] | s # ss \<Rightarrow> s # map (\<lambda>t. '', '' @ t) ss)"

definition run_usage :: "simConfig \<Rightarrow> int \<Rightarrow> string \<Rightarrow> sim_error option" where
  "run_usage cfg ridersPerTrip expectEnd =
     (if sc_interval cfg \<le> 0 then Some (UsageError ''-interval must be positive'')
      else if fle (sc_speed cfg) (Num 0) then Some (UsageError ''-speed must be positive'')
      else if ridersPerTrip < 1 then Some (UsageError ''-riders-per-trip must be at least 1'')
      else if expectEnd \<noteq> [] \<and> ParseEndReason expectEnd = None
      then Some (NotAnEndReason expectEnd (joinReasons endReasons))
      else None)"

definition ride_failed :: "string \<Rightarrow> sim_error + string \<Rightarrow> bool" where
  "ride_failed expectEnd res =
     (case res of Inl _ \<Rightarrow> True | Inr reason \<Rightarrow> expectEnd \<noteq> [] \<and> reason \<noteq> expectEnd)"

text \<open>\<open>ride slot tripID\<close> is how the rider in a slot of the results ended, one slot per trip and rider.\<close>

definition sim_run ::
  "simConfig \<Rightarrow> (string list \<Rightarrow> string list) \<Rightarrow> sim_error + Index \<Rightarrow> gotime \<Rightarrow> string \<Rightarrow> string \<Rightarrow> string list \<Rightarrow> int \<Rightarrow> int
     \<Rightarrow> (nat \<Rightarrow> string \<Rightarrow> sim_error + string) \<Rightarrow> sim_error option" where
  "sim_run cfg shuffle loaded now startDate expectEnd requested random ridersPerTrip ride =
     (case run_usage cfg ridersPerTrip expectEnd of
        Some e \<Rightarrow> Some e
      | None \<Rightarrow>
          (case loaded of
             Inl e \<Rightarrow> Some e
           | Inr ix \<Rightarrow>
               (case pickTrips shuffle ix requested random (if startDate = [] then ServiceDate (ix_tz ix) now else startDate) of
                  Inl e \<Rightarrow> Some e
                | Inr trips \<Rightarrow>
                    (let n = nat ridersPerTrip;
                         results = concat (map (\<lambda>i. map (\<lambda>j. ride (i * n + j) (trips ! i)) [0..<n]) [0..<length trips]);
                         failed = length (filter (ride_failed expectEnd) results)
                     in if failed > 0 then Some (RidesFailed failed (length results)) else None))))"

end
