(* ===== verification/RiderSimProps.thy ===== *)
theory RiderSimProps
  imports RiderSim
begin

text \<open>
  What the simulated rider promises: every fix it takes is waiting, sent or given up as a count; what it posts is what
  the server's handlers accept; it gets credentials past the server's own limiter; its ride comes to an end, and when
  it has, the ride is over on the server.
\<close>

section \<open>The books of one ride\<close>

text \<open>The fixes the server acknowledged, in the order it got them.\<close>

fun acked :: "(request \<times> sim_answer reply) list \<Rightarrow> sim_position list" where
  "acked [] = []"
| "acked ((Positions ps, Reply status (Some _)) # qs) = (if status = 200 then ps @ acked qs else acked qs)"
| "acked (_ # qs) = acked qs"

lemma acked_append: "acked (xs @ ys) = acked xs @ acked ys"
  by (induction xs rule: acked.induct) auto

lemma acked_one: "acked [(EndRide e, rep)] = []" "acked [(Positions ps, Broken)] = []"
    "acked [(Positions ps, Reply status None)] = []"
    "acked [(Positions ps, Reply status (Some a))] = (if status = 200 then ps else [])"
  by simp_all

text \<open>The fixes that a list of events takes: one for every sample in a new second of the clock.\<close>

fun fixes_taken :: "int \<Rightarrow> sim_event list \<Rightarrow> nat" where
  "fixes_taken stamp [] = 0"
| "fixes_taken stamp (Sample now _ _ _ # es) =
     (if unix_of now \<le> stamp then fixes_taken stamp es else Suc (fixes_taken (unix_of now) es))"
| "fixes_taken stamp (_ # es) = fixes_taken stamp es"

definition batch_ok :: "int \<Rightarrow> request \<Rightarrow> bool" where
  "batch_ok n q = (case q of Positions ps \<Rightarrow> ps \<noteq> [] \<and> int (length ps) \<le> n \<and> (\<forall>p \<in> set ps. 0 < sp_Timestamp p) | EndRide _ \<Rightarrow> True)"

definition stamps_ok :: "riderRun \<Rightarrow> bool" where
  "stamps_ok r \<longleftrightarrow>
     sorted_wrt (<) (map sp_Timestamp (acked (rn_posted r) @ rn_buf r))
     \<and> (\<forall>p \<in> set (acked (rn_posted r) @ rn_buf r). 0 < sp_Timestamp p \<and> sp_Timestamp p \<le> rn_lastStamp r)"

text \<open>Every batch, when it was posted, was newer than all that had been acknowledged by then, and in order.\<close>

fun fresh_from :: "sim_position list \<Rightarrow> (request \<times> sim_answer reply) list \<Rightarrow> bool" where
  "fresh_from old [] = True"
| "fresh_from old ((EndRide _, _) # qs) = fresh_from old qs"
| "fresh_from old ((Positions ps, rep) # qs) =
     (sorted_wrt (<) (map sp_Timestamp (old @ ps)) \<and> fresh_from (old @ acked [(Positions ps, rep)]) qs)"

lemma fresh_from_append: "fresh_from old (xs @ ys) \<longleftrightarrow> fresh_from old xs \<and> fresh_from (old @ acked xs) ys"
proof (induction old xs rule: fresh_from.induct)
  case (3 old ps rep qs)
  then show ?case
    using acked_append [of "[(Positions ps, rep)]" qs] by simp
qed simp_all

definition run_ok :: "riderRun \<Rightarrow> bool" where
  "run_ok r \<longleftrightarrow>
     0 < rn_maxBatch r \<and> 0 \<le> rn_lastStamp r \<and> rn_sent r = length (acked (rn_posted r)) \<and> stamps_ok r
     \<and> fresh_from [] (rn_posted r)
     \<and> list_all (\<lambda>x. batch_ok (rn_maxBatch r) (fst x)) (rn_posted r)"

lemma new_run_ok: "run_ok (new_run shape ride)"
  by (simp add: run_ok_def new_run_def stamps_ok_def Let_def)

lemma advance_same: "advance cfg now since north east r = (arrived, r') \<Longrightarrow>
    rn_posted r' = rn_posted r \<and> rn_sent r' = rn_sent r \<and> rn_dropped r' = rn_dropped r \<and> rn_maxBatch r' = rn_maxBatch r
    \<and> rn_shape r' = rn_shape r"
  by (auto simp: advance_def Let_def split: if_splits)

lemma stamps_append:
  assumes "stamps_ok r" "rn_lastStamp r < sp_Timestamp p" "0 \<le> rn_lastStamp r"
  shows "stamps_ok (r\<lparr>rn_along := a, rn_lastStamp := sp_Timestamp p, rn_buf := rn_buf r @ [p]\<rparr>)"
proof -
  let ?old = "acked (rn_posted r) @ rn_buf r"
  have old: "sorted_wrt (<) (map sp_Timestamp ?old)" "\<forall>x \<in> set ?old. 0 < sp_Timestamp x \<and> sp_Timestamp x \<le> rn_lastStamp r"
    using assms(1) unfolding stamps_ok_def by blast+
  then have "sorted_wrt (<) (map sp_Timestamp (?old @ [p]))"
    using assms(2) by (simp add: sorted_wrt_append) force
  moreover have "\<forall>x \<in> set (?old @ [p]). 0 < sp_Timestamp x \<and> sp_Timestamp x \<le> sp_Timestamp p"
    using old(2) assms(2,3) by force
  ultimately show ?thesis
    using assms(1) unfolding stamps_ok_def by simp
qed

lemma advance_ok:
  assumes "run_ok r" "advance cfg now since north east r = (arrived, r')"
  shows "run_ok r'"
proof (cases "unix_of now \<le> rn_lastStamp r")
  case True
  then show ?thesis
    using assms by (auto simp: advance_def Let_def run_ok_def stamps_ok_def split: if_splits)
next
  case False
  then obtain a p where r': "r' = r\<lparr>rn_along := a, rn_lastStamp := sp_Timestamp p, rn_buf := rn_buf r @ [p]\<rparr>"
      "sp_Timestamp p = unix_of now"
    using assms(2) by (auto simp: advance_def Let_def sampled_fix_def split: if_splits)
  show ?thesis
    using stamps_append [of r p a] assms(1) False unfolding r'(1) by (simp add: run_ok_def r'(2))
qed

lemma trim_same: "rn_posted (trim_buf r) = rn_posted r" "rn_sent (trim_buf r) = rn_sent r"
    "rn_maxBatch (trim_buf r) = rn_maxBatch r" "rn_lastStamp (trim_buf r) = rn_lastStamp r"
    "rn_along (trim_buf r) = rn_along r" "rn_shape (trim_buf r) = rn_shape r"
  by (simp_all add: trim_buf_def Let_def)

lemma trim_counts: "length (rn_buf (trim_buf r)) + rn_dropped (trim_buf r) = length (rn_buf r) + rn_dropped r"
  by (simp add: trim_buf_def Let_def)

lemma trim_ok: "run_ok r \<Longrightarrow> run_ok (trim_buf r)"
  unfolding run_ok_def stamps_ok_def
  by (auto simp: trim_buf_def Let_def sorted_wrt_append sorted_wrt_drop drop_map [symmetric] dest: in_set_dropD)

lemma trim_batch: "run_ok r \<Longrightarrow> rn_buf r \<noteq> [] \<Longrightarrow> batch_ok (rn_maxBatch r) (Positions (rn_buf (trim_buf r)))"
  by (auto simp: run_ok_def stamps_ok_def trim_buf_def batch_ok_def Let_def dest: in_set_dropD)

lemma call_ok:
  assumes "run_ok r" "batch_ok (rn_maxBatch r) q" "acked [(q, rep)] = []" "q = Positions (rn_buf r) \<or> q = EndRide e"
  shows "run_ok (call_made q rep r)"
  using assms by (auto simp: run_ok_def stamps_ok_def call_made_def acked_append fresh_from_append)

lemma answered_ok:
  assumes "run_ok r" "rn_buf r \<noteq> []" "take_answer cancelled rep (call_made (Positions (rn_buf r)) rep r) = (out, r')"
    "batch_ok (rn_maxBatch r) (Positions (rn_buf r))"
  shows "run_ok r'"
proof -
  consider "rep = Broken" | status where "rep = Reply status None"
    | status a where "rep = Reply status (Some a)" "status \<noteq> 200" | a where "rep = Reply 200 (Some a)"
    by (metis reply.exhaust option.exhaust)
  then show ?thesis
  proof cases
    case 4
    then show ?thesis
      using assms by (auto simp: take_answer_def run_ok_def stamps_ok_def call_made_def acked_append fresh_from_append)
  qed (use assms call_ok [of r "Positions (rn_buf r)" rep] in
      \<open>auto simp: take_answer_def run_ok_def stamps_ok_def sorted_wrt_append split: if_splits\<close>)
qed

lemma flush_ok:
  assumes "run_ok r" "flush_buf env r = (out, r')"
  shows "run_ok r'"
proof (cases "rn_buf r = []")
  case True
  then show ?thesis
    using assms by (simp add: flush_buf_def)
next
  case False
  let ?t = "trim_buf r"
  have t: "run_ok ?t" "rn_buf ?t \<noteq> []" "batch_ok (rn_maxBatch ?t) (Positions (rn_buf ?t))"
    using trim_ok [OF assms(1)] trim_batch [OF assms(1) False] by (auto simp: trim_same batch_ok_def)
  show ?thesis
  proof (cases "answers (fl_first env)")
    case True
    then show ?thesis
      using assms(2) False answered_ok [OF t(1,2) _ t(3)] by (auto simp: flush_buf_def Let_def)
  next
    case no: False
    have "acked [(Positions (rn_buf ?t), fl_first env)] = []"
      using no by (cases "fl_first env"; cases "\<exists>s b. fl_first env = Reply s (Some b)") (auto split: option.splits)
    then have c: "run_ok (call_made (Positions (rn_buf ?t)) (fl_first env) ?t)"
      using call_ok t by blast
    then show ?thesis
      using assms(2) False no t(2,3) answered_ok [OF c, of "fl_cancelled env" "fl_second env" out r']
      by (auto simp: flush_buf_def Let_def call_made_def split: if_splits)
  qed
qed

lemma end_ok: "run_ok r \<Longrightarrow> run_ok (snd (end_ride reason rep r))"
  using call_ok [of r "EndRide reason" rep] by (simp add: end_ride_def batch_ok_def)

lemma settle_ok: "run_ok (snd x) \<Longrightarrow> settle rep x = (out, r') \<Longrightarrow> run_ok r'"
  using end_ok by (cases x; cases "fst x") (auto simp: settle_def abandon_def split: if_splits)

lemma close_ok:
  assumes "run_ok r" "close_ride c reason r = (out, r')"
  shows "run_ok r'"
proof (cases "cl_interrupted c")
  case True
  then show ?thesis
    using assms end_ok [OF assms(1), of reason "cl_end c"] by (simp add: close_ride_def)
next
  case False
  obtain o1 r1 where s: "settle (cl_end c) (flush_buf (cl_flush c) r) = (o1, r1)"
    by fastforce
  then have "run_ok r1"
    using settle_ok flush_ok [OF assms(1)] by (metis prod.collapse)
  then show ?thesis
    using assms(2) False s end_ok [of r1 reason "cl_end c"] by (auto simp: close_ride_def split: option.splits)
qed

lemma walk_ok: "run_ok r \<Longrightarrow> walk cfg c es r = (out, r') \<Longrightarrow> run_ok r'"
proof (induction cfg c es r rule: walk.induct)
  case (4 cfg c now since north east es r)
  obtain arrived r1 where adv: "advance cfg now since north east r = (arrived, r1)"
    by fastforce
  then have "run_ok r1"
    using 4(2) advance_ok by blast
  then show ?case
    using 4(1) [OF adv [symmetric]] 4(3) close_ok adv by (cases arrived) (auto split: prod.splits)
next
  case (5 cfg c env es r)
  obtain o1 r1 where s: "settle (cl_end c) (flush_buf env r) = (o1, r1)"
    by fastforce
  moreover have "run_ok (snd (flush_buf env r))"
    using flush_ok [OF 5(2)] by (metis prod.collapse)
  ultimately have "run_ok r1"
    using settle_ok by blast
  then show ?case
    using 5(1) [OF s [symmetric]] 5(3) s by (cases o1) auto
qed (auto dest: close_ok split: prod.splits)

section \<open>What the server makes of the batches\<close>

text \<open>How the server decodes a fix: every field is there.\<close>

definition upload_of :: "sim_position \<Rightarrow> positionUpload" where
  "upload_of p =
     \<lparr>up_Latitude = sp_Latitude p, up_Longitude = sp_Longitude p, up_Accuracy = Some (sp_Accuracy p),
      up_Speed = Some (sp_Speed p), up_Bearing = Some (sp_Bearing p), up_Timestamp = sp_Timestamp p\<rparr>"

definition on_earth :: "sim_position \<Rightarrow> bool" where
  "on_earth p \<longleftrightarrow>
     \<not> (flt (sp_Latitude p) (Num (- 90)) \<or> fgt (sp_Latitude p) (Num 90)
        \<or> flt (sp_Longitude p) (Num (- 180)) \<or> fgt (sp_Longitude p) (Num 180))"

lemma read_uploads:
  "\<forall>p \<in> set ps. on_earth p \<and> 0 < sp_Timestamp p
    \<Longrightarrow> read_positions (map upload_of ps) = Inr (map (\<lambda>p. position_point (upload_of p)) ps)"
  by (induction ps) (auto simp: validate_position_def on_earth_def upload_of_def)

lemma flush_same: "rn_maxBatch (snd (flush_buf env r)) = rn_maxBatch r"
  by (auto simp: flush_buf_def take_answer_def call_made_def trim_same Let_def split: reply.split option.split)

lemma settle_same: "rn_maxBatch (snd (settle rep x)) = rn_maxBatch (snd x)"
  by (auto simp: settle_def abandon_def end_ride_def call_made_def split: prod.split sum.split)

lemma close_same: "close_ride c reason r = (out, r') \<Longrightarrow> rn_maxBatch r' = rn_maxBatch r"
  using settle_same [of "cl_end c" "flush_buf (cl_flush c) r"] flush_same [of "cl_flush c" r]
  by (auto simp: close_ride_def end_ride_def call_made_def split: if_splits prod.splits option.splits)

lemma walk_config: "walk cfg c es r = (out, r') \<Longrightarrow> rn_maxBatch r' = rn_maxBatch r"
proof (induction cfg c es r rule: walk.induct)
  case (4 cfg c now since north east es r)
  obtain arrived r1 where adv: "advance cfg now since north east r = (arrived, r1)"
    by fastforce
  then show ?case
    using 4(1) [OF adv [symmetric]] 4(2) advance_same [OF adv]
    by (cases arrived) (auto simp: close_same split: prod.splits)
next
  case (5 cfg c env es r)
  obtain o1 r1 where s: "settle (cl_end c) (flush_buf env r) = (o1, r1)"
    by fastforce
  then show ?case
    using 5(1) [OF s [symmetric]] 5(2) settle_same [of "cl_end c" "flush_buf env r"] flush_same [of env r]
    by (cases o1) auto
qed (auto simp: close_same split: prod.splits)

section \<open>No fix is lost unaccounted for\<close>

definition accounted :: "riderRun \<Rightarrow> nat" where
  "accounted r = rn_sent r + rn_dropped r + length (rn_buf r)"

lemma advance_accounts:
  assumes "advance cfg now since north east r = (arrived, r')"
  shows "(if unix_of now \<le> rn_lastStamp r then rn_lastStamp r' = rn_lastStamp r \<and> accounted r' = accounted r
      else rn_lastStamp r' = unix_of now \<and> accounted r' = Suc (accounted r))"
  using assms by (auto simp: advance_def Let_def accounted_def split: if_splits)

lemma answer_accounts:
  "take_answer cancelled rep r = (out, r') \<Longrightarrow> out \<noteq> Inr ''gone'' \<Longrightarrow> accounted r' = accounted r \<and> rn_lastStamp r' = rn_lastStamp r"
  by (auto simp: take_answer_def accounted_def split: reply.splits option.splits if_splits)

lemma trim_accounts: "accounted (trim_buf r) = accounted r"
  using trim_counts [of r] by (simp add: accounted_def trim_same)

lemma call_accounts: "accounted (call_made q rep r) = accounted r" "rn_lastStamp (call_made q rep r) = rn_lastStamp r"
  by (simp_all add: accounted_def call_made_def)

lemma flush_accounts:
  assumes "flush_buf env r = (out, r')" "out \<noteq> Inr ''gone''"
  shows "accounted r' = accounted r \<and> rn_lastStamp r' = rn_lastStamp r"
  using assms answer_accounts [OF _ assms(2)]
  by (force simp: flush_buf_def Let_def trim_accounts call_accounts trim_same split: if_splits)

lemma settle_None: "settle rep x = (None, r') \<longleftrightarrow> x = (Inr [], r')"
  by (auto simp: settle_def split: prod.splits sum.splits)

lemma walk_accounts:
  "walk cfg c es r = (None, r') \<Longrightarrow> accounted r' = accounted r + fixes_taken (rn_lastStamp r) es"
proof (induction cfg c es r rule: walk.induct)
  case (4 cfg c now since north east es r)
  obtain arrived r1 where adv: "advance cfg now since north east r = (arrived, r1)"
    by fastforce
  then have "\<not> arrived" "walk cfg c es r1 = (None, r')"
    using 4(2) by (auto split: if_splits prod.splits)
  then show ?case
    using 4(1) [OF adv [symmetric]] advance_accounts [OF adv] by (auto split: if_splits)
next
  case (5 cfg c env es r)
  obtain r1 where s: "settle (cl_end c) (flush_buf env r) = (None, r1)" "walk cfg c es r1 = (None, r')"
    using 5(2) by (auto split: prod.splits option.splits)
  then show ?case
    using 5(1) [OF s(1) [symmetric] refl] flush_accounts [of env r "Inr []" r1] by (auto simp: settle_None)
qed (auto split: prod.splits)

text \<open>
  C20: the client of a ride keeps its books. While it is under way every fix it took is waiting, was acknowledged by the
  server or is counted as dropped. A batch, when it is posted, is in the order of strictly rising timestamps and newer
  than every fix acknowledged until then, as is what waits: no fix is sent again once the server acknowledged it, and
  what is sent again is only what it did not, be it that the answer was lost. And every batch it posts, at the size the
  server told it, is one that the server's own handler accepts as a report, as long as the noise has not thrown a fix
  off the globe.
\<close>

theorem simulated_batches_accepted:
  assumes "walk cfg c es (new_run shape ride) = (out, r')"
    and "sd_MaxBatchSize ride = int (sr_MaxBatchSize (ride_started row trip))" "is_json (hr_MediaType q)"
  shows "(out = None \<longrightarrow> rn_sent r' + rn_dropped r' + length (rn_buf r') = fixes_taken 0 es)
    \<and> rn_sent r' = length (acked (rn_posted r'))
    \<and> sorted_wrt (<) (map sp_Timestamp (acked (rn_posted r') @ rn_buf r'))
    \<and> (rn_posted r' = xs @ (Positions ps, rep) # ys \<longrightarrow> sorted_wrt (<) (map sp_Timestamp (acked xs @ ps)))
    \<and> ((Positions ps, rep) \<in> set (rn_posted r') \<and> (\<forall>p \<in> set ps. on_earth p) \<longrightarrow>
         read_report q (Decoded (map upload_of ps) NoMore) = Inr (map (\<lambda>p. position_point (upload_of p)) ps))"
proof -
  have ok: "run_ok r'"
    using walk_ok [OF new_run_ok assms(1)] .
  have size: "rn_maxBatch r' = int riderMaxBatchSize"
    using walk_config [OF assms(1)] assms(2) by (simp add: new_run_def Let_def ride_started_def riderMaxBatchSize_def)
  have "rn_sent r' + rn_dropped r' + length (rn_buf r') = fixes_taken 0 es" if "out = None"
    using walk_accounts [of cfg c es "new_run shape ride" r'] assms(1) that by (simp add: accounted_def new_run_def Let_def)
  moreover have "read_report q (Decoded (map upload_of ps) NoMore) = Inr (map (\<lambda>p. position_point (upload_of p)) ps)"
    if "(Positions ps, rep) \<in> set (rn_posted r')" "\<forall>p \<in> set ps. on_earth p"
  proof -
    have "batch_ok (int riderMaxBatchSize) (Positions ps)"
      using ok that(1) size by (force simp: run_ok_def list_all_iff)
    then show ?thesis
      using read_uploads [of ps] that(2) assms(3) by (auto simp: read_report_def decodeRiderJSON_def batch_ok_def)
  qed
  moreover have "sorted_wrt (<) (map sp_Timestamp (acked xs @ ps))" if "rn_posted r' = xs @ (Positions ps, rep) # ys"
    using ok that unfolding run_ok_def by (simp add: fresh_from_append)
  ultimately show ?thesis
    using ok unfolding run_ok_def stamps_ok_def by blast
qed

section \<open>The ride is over on the server as well\<close>

fun over_on_server :: "request \<times> sim_answer reply \<Rightarrow> bool" where
  "over_on_server (EndRide _, Reply status _) = (status \<in> {200, 409})"
| "over_on_server (Positions _, Reply status body) =
     (status = 409 \<or> status = 200 \<and> (case body of None \<Rightarrow> False | Some a \<Rightarrow> sa_Ended a))"
| "over_on_server (_, Broken) = False"

definition closed :: "sim_error + string \<Rightarrow> riderRun \<Rightarrow> bool" where
  "closed out r \<longleftrightarrow> rn_posted r \<noteq> []
     \<and> (case out of Inr reason \<Rightarrow> over_on_server (last (rn_posted r)) | Inl _ \<Rightarrow> \<exists>reason rep. last (rn_posted r) = (EndRide reason, rep))"

lemma end_closed: "end_ride reason rep r = (out, r') \<Longrightarrow> closed out r'"
  by (auto simp: end_ride_def postJSON_def closed_def call_made_def split: reply.splits if_splits)

lemma abandon_closed: "abandon e rep r = (out, r') \<Longrightarrow> closed out r'"
  by (auto simp: abandon_def end_ride_def closed_def call_made_def)

lemma flush_closed: "flush_buf env r = (Inr reason, r') \<Longrightarrow> reason \<noteq> [] \<Longrightarrow> closed (Inr reason) r'"
  by (auto simp: flush_buf_def take_answer_def call_made_def closed_def Let_def split: if_splits reply.splits option.splits)

lemma settle_closed: "settle rep (flush_buf env r) = (Some out, r') \<Longrightarrow> closed out r'"
  using flush_closed abandon_closed
  by (cases "flush_buf env r"; cases "fst (flush_buf env r)") (auto simp: settle_def split: prod.splits if_splits)

lemma close_closed: "close_ride c reason r = (out, r') \<Longrightarrow> closed out r'"
  using settle_closed end_closed by (auto simp: close_ride_def split: if_splits prod.splits option.splits)

lemma walk_closed: "walk cfg c es r = (Some out, r') \<Longrightarrow> closed out r'"
  by (induction cfg c es r rule: walk.induct)
    (auto dest: close_closed settle_closed split: prod.splits option.splits if_splits)

section \<open>Every ride comes to an end\<close>

definition samples :: "sim_event list \<Rightarrow> nat" where
  "samples es = length (filter (\<lambda>e. case e of Sample _ _ _ _ \<Rightarrow> True | _ \<Rightarrow> False) es)"

lemma samples_simps [simp]: "samples [] = 0" "samples (Sample now since north east # es) = Suc (samples es)"
    "samples (Upload env # es) = samples es" "samples (Interrupt # es) = samples es" "samples (Deadline # es) = samples es"
  by (simp_all add: samples_def)

text \<open>The metres between two samples.\<close>

definition stride :: "simConfig \<Rightarrow> real" where
  "stride cfg = f_val (sc_speed cfg) * (real_of_int (sc_interval cfg) / real_of_int nano)"

lemma advance_moves:
  assumes "advance cfg now since north east r = (arrived, r')" "f_is_num (sc_speed cfg)"
    and "rn_along r = Num a" "sg_Length (rn_shape r) = Num L"
  shows "rn_shape r' = rn_shape r \<and> (if arrived then rn_along r' = Num L else rn_along r' = Num (a + stride cfg) \<and> a + stride cfg < L)"
  using assms
  by (cases "sc_speed cfg") (auto simp: advance_def Let_def stride_def dur_seconds_def split: if_splits)

lemma flush_moves: "rn_along (snd (flush_buf env r)) = rn_along r \<and> rn_shape (snd (flush_buf env r)) = rn_shape r"
  by (auto simp: flush_buf_def take_answer_def call_made_def trim_same Let_def split: reply.split option.split)

lemma walk_progress:
  assumes "f_is_num (sc_speed cfg)" "0 \<le> stride cfg"
  shows "rn_along r = Num a \<Longrightarrow> sg_Length (rn_shape r) = Num L \<Longrightarrow> L \<le> a + real (samples es) * stride cfg
    \<Longrightarrow> 0 < samples es \<Longrightarrow> fst (walk cfg c es r) \<noteq> None"
proof (induction es arbitrary: r a)
  case (Cons e es)
  show ?case
  proof (cases e)
    case (Sample now since north east)
    obtain arrived r1 where adv: "advance cfg now since north east r = (arrived, r1)"
      by fastforce
    note moved = advance_moves [OF adv assms(1) Cons.prems(1,2)]
    show ?thesis
    proof (cases arrived)
      case False
      then have r1: "rn_along r1 = Num (a + stride cfg)" "sg_Length (rn_shape r1) = Num L" "a + stride cfg < L"
        using moved Cons.prems(2) by auto
      moreover have "L \<le> (a + stride cfg) + real (samples es) * stride cfg"
        using Cons.prems(3) Sample by (simp add: algebra_simps)
      moreover from this r1(3) have "0 < samples es"
        by (cases "samples es") auto
      ultimately have "fst (walk cfg c es r1) \<noteq> None"
        using Cons.IH by blast
      then show ?thesis
        using Sample adv False by simp
    qed (simp add: Sample adv split: prod.split)
  next
    case (Upload env)
    obtain o1 r1 where s: "settle (cl_end c) (flush_buf env r) = (o1, r1)"
      by fastforce
    show ?thesis
    proof (cases o1)
      case None
      then have "flush_buf env r = (Inr [], r1)"
        using s settle_None by blast
      then have "rn_along r1 = Num a" "sg_Length (rn_shape r1) = Num L"
        using flush_moves [of env r] Cons.prems(1,2) by auto
      then have "fst (walk cfg c es r1) \<noteq> None"
        using Cons.IH [of r1 a] Cons.prems(3,4) Upload by simp
      then show ?thesis
        using Upload s None by simp
    qed (simp add: Upload s)
  qed (simp_all split: prod.split)
qed simp

text \<open>A server that takes every batch and leaves the ride alone, and a run that nobody interrupts.\<close>

definition taken :: "sim_answer reply \<Rightarrow> bool" where
  "taken rep \<longleftrightarrow> (\<exists>a. rep = Reply 200 (Some a) \<and> \<not> sa_Ended a)"

definition undisturbed :: "sim_event \<Rightarrow> bool" where
  "undisturbed e = (case e of Sample _ _ _ _ \<Rightarrow> True | Upload env \<Rightarrow> taken (fl_first env) | _ \<Rightarrow> False)"

lemma flush_taken: "taken (fl_first env) \<Longrightarrow> fst (flush_buf env r) = Inr []"
  by (auto simp: taken_def flush_buf_def take_answer_def Let_def)

lemma walk_arrives:
  assumes "f_is_num (sc_speed cfg)" "taken (fl_first (cl_flush c))" "taken (cl_end c)" "\<not> cl_interrupted c"
  shows "list_all undisturbed es \<Longrightarrow> rn_along r = Num a \<Longrightarrow> sg_Length (rn_shape r) = Num L \<Longrightarrow> walk cfg c es r = (Some out, r')
    \<Longrightarrow> out = Inr ''arrived'' \<and> rn_along r' = Num L"
proof (induction es arbitrary: r a)
  case (Cons e es)
  show ?case
  proof (cases e)
    case (Sample now since north east)
    obtain arrived r1 where adv: "advance cfg now since north east r = (arrived, r1)"
      by fastforce
    note moved = advance_moves [OF adv assms(1) Cons.prems(2,3)]
    show ?thesis
    proof (cases arrived)
      case True
      have "settle (cl_end c) (flush_buf (cl_flush c) r1) = (None, snd (flush_buf (cl_flush c) r1))"
        using flush_taken [OF assms(2), of r1] settle_None by (metis prod.collapse)
      then have "close_ride c EndArrived r1 = end_ride EndArrived (cl_end c) (snd (flush_buf (cl_flush c) r1))"
        using assms(4) by (simp add: close_ride_def)
      then have "walk cfg c (e # es) r = (Some (Inr ''arrived''), snd (end_ride EndArrived (cl_end c) (snd (flush_buf (cl_flush c) r1))))"
        using Sample adv True assms(3) by (auto simp: end_ride_def postJSON_def taken_def)
      then show ?thesis
        using Cons.prems(4) moved True flush_moves [of "cl_flush c" r1] by (auto simp: end_ride_def call_made_def)
    next
      case False
      then show ?thesis
        using Cons.IH [of r1 "a + stride cfg"] Cons.prems moved Sample adv by (auto simp: undisturbed_def)
    qed
  next
    case (Upload env)
    then have "taken (fl_first env)"
      using Cons.prems(1) by (simp add: undisturbed_def)
    then have s: "settle (cl_end c) (flush_buf env r) = (None, snd (flush_buf env r))"
      using flush_taken settle_None by (metis prod.collapse)
    then show ?thesis
      using Cons.IH [of "snd (flush_buf env r)" a] Cons.prems flush_moves [of env r] Upload by simp
  qed (use Cons.prems(1) in \<open>simp_all add: undisturbed_def\<close>)
qed simp

text \<open>
  C21: a simulated ride comes to an end, and not only for the client. Whatever the server answers and whenever the
  uploads fall, the walk returns as soon as there were enough samples to cover the length of the shape; then the last
  call it made either ended the ride on the server, or was a batch whose answer said that the ride was over, or, where
  the walk failed, tried to end it. If the server takes every batch and the run is not disturbed, it arrives, at the
  end of the shape.
\<close>

theorem simulated_ride_ends:
  assumes "f_is_num (sc_speed cfg)" "0 \<le> stride cfg" "sg_Length shape = Num L"
    and "L \<le> real (samples es) * stride cfg" "0 < samples es"
  shows "\<exists>out r'. walk cfg c es (new_run shape ride) = (Some out, r') \<and> rn_posted r' \<noteq> []
      \<and> (case out of
           Inr reason \<Rightarrow> over_on_server (last (rn_posted r'))
         | Inl _ \<Rightarrow> \<exists>reason rep. last (rn_posted r') = (EndRide reason, rep))
      \<and> (list_all undisturbed es \<and> taken (fl_first (cl_flush c)) \<and> taken (cl_end c) \<and> \<not> cl_interrupted c
           \<longrightarrow> out = Inr ''arrived'' \<and> rn_along r' = Num L)"
proof -
  have start: "rn_along (new_run shape ride) = Num 0" "sg_Length (rn_shape (new_run shape ride)) = Num L"
    using assms(3) by (simp_all add: new_run_def Let_def)
  then obtain out r' where w: "walk cfg c es (new_run shape ride) = (Some out, r')"
    using walk_progress [OF assms(1,2), of "new_run shape ride" 0 L es c] assms(4,5)
    by (cases "walk cfg c es (new_run shape ride)") auto
  then show ?thesis
    using walk_closed [OF w] walk_arrives [OF assms(1) _ _ _ _ start w] unfolding closed_def by blast
qed

definition demo_sim :: simConfig where
  "demo_sim = \<lparr>sc_interval = second, sc_speed = Num 40, sc_noise = Num 0, sc_offRouteAfter = 0, sc_duration = 0\<rparr>"

definition demo_answer :: "sim_answer reply" where
  "demo_answer = Reply 200 (Some \<lparr>sa_State = ''verified'', sa_Published = True, sa_Corroboration = ''unavailable'',
     sa_Accepted = 1, sa_Ignored = 0, sa_OffRouteStreak = 0, sa_Ended = False, sa_EndReason = []\<rparr>)"

definition demo_closing :: closing where
  "demo_closing = \<lparr>cl_interrupted = False,
     cl_flush = \<lparr>fl_first = demo_answer, fl_slept = True, fl_second = Broken, fl_cancelled = False\<rparr>, cl_end = demo_answer\<rparr>"

definition demo_ride :: sim_ride where
  "demo_ride = \<lparr>sd_RideID = ''r'', sd_State = ''pending'', sd_ReportIntervalSeconds = 10, sd_MaxBatchSize = 12\<rparr>"

definition demo_fix :: sim_position where
  "demo_fix = sampled_fix demo_sim demo_shape (Num 40) 0 (Num 0) (Num 0) 100"

definition demo_events :: "sim_event list" where
  "demo_events = [Sample (time_unix 100) 0 (Num 0) (Num 0)]"

lemma demo_taken: "taken demo_answer"
  by (simp add: taken_def demo_answer_def)

lemma demo_speed: "f_is_num (sc_speed demo_sim)" "stride demo_sim = 40"
  by (simp_all add: demo_sim_def stride_def second_def nano_def)

theorem simulated_ride_ends_witness:
  "\<exists>r'. walk demo_sim demo_closing demo_events (new_run demo_shape demo_ride) = (Some (Inr ''arrived''), r') \<and> rn_along r' = Num 40"
proof -
  have "list_all undisturbed demo_events" "samples demo_events = 1"
    by (simp_all add: demo_events_def undisturbed_def)
  then show ?thesis
    using simulated_ride_ends [OF demo_speed(1), of demo_shape 40 demo_events demo_closing demo_ride] demo_taken demo_speed
    by (auto simp: demo_shape_def demo_closing_def)
qed

lemma demo_walk:
  "\<exists>r'. walk demo_sim demo_closing demo_events (new_run demo_shape demo_ride) = (Some (Inr ''arrived''), r')
     \<and> rn_posted r' = [(Positions [demo_fix], demo_answer), (EndRide EndArrived, demo_answer)]"
proof -
  have stamp: "unix_of (time_unix 100) = 100"
    by (simp add: unix_of_def time_unix_def wrap64_def nano_def unix_to_internal_def)
  obtain r1 where adv: "advance demo_sim (time_unix 100) 0 (Num 0) (Num 0) (new_run demo_shape demo_ride) = (True, r1)"
      "rn_buf r1 = [demo_fix]" "rn_posted r1 = []" "rn_maxBatch r1 = 12"
    by (simp add: advance_def new_run_def demo_ride_def demo_shape_def demo_sim_def demo_fix_def stamp Let_def
        dur_seconds_def second_def nano_def fle_def)
  then show ?thesis
    by (simp add: demo_events_def close_ride_def demo_closing_def flush_buf_def trim_buf_def demo_answer_def take_answer_def
        settle_def end_ride_def postJSON_def call_made_def Let_def)
qed

definition sim_post :: http_request where
  "sim_post = \<lparr>hr_ForwardedFor = [], hr_ForwardedProto = [], hr_RemoteAddr = [], hr_TLS = False,
     hr_Authorization = [], hr_SessionCookie = None, hr_APIKey = [], hr_MediaType = Some ''application/json''\<rparr>"

lemma sim_post_json: "is_json (hr_MediaType sim_post)"
  by code_simp

lemma demo_fix_on_earth: "on_earth demo_fix"
  by (simp add: on_earth_def demo_fix_def sampled_fix_def demo_sim_def jitter_def PointAt_def segmentAt_def demo_shape_def
      Let_def fle_def numeral_3_eq_3)

theorem simulated_batches_accepted_witness:
  "read_report sim_post (Decoded [upload_of demo_fix] NoMore) = (Inr [position_point (upload_of demo_fix)] :: unit answer + Point list)"
proof -
  obtain r' where w: "walk demo_sim demo_closing demo_events (new_run demo_shape demo_ride) = (Some (Inr ''arrived''), r')"
      "rn_posted r' = [(Positions [demo_fix], demo_answer), (EndRide EndArrived, demo_answer)]"
    using demo_walk by blast
  have size: "sd_MaxBatchSize demo_ride = int (sr_MaxBatchSize (ride_started row trip))" for row trip
    by (simp add: demo_ride_def ride_started_def riderMaxBatchSize_def)
  have "(Positions [demo_fix], demo_answer) \<in> set (rn_posted r') \<and> (\<forall>p \<in> set [demo_fix]. on_earth p) \<longrightarrow>
      read_report sim_post (Decoded (map upload_of [demo_fix]) NoMore)
        = (Inr (map (\<lambda>p. position_point (upload_of p)) [demo_fix]) :: unit answer + Point list)"
    by (rule simulated_batches_accepted [OF w(1) size sim_post_json, THEN conjunct2, THEN conjunct2, THEN conjunct2, THEN conjunct2])
  then show ?thesis
    using w(2) demo_fix_on_earth by simp
qed

section \<open>Credentials in spite of the limiter\<close>

text \<open>The server's limiter over the attempts of one address, at the instants \<open>ts\<close>: which it lets through.\<close>

primrec let_through :: "string \<Rightarrow> RegistrationRateLimiter \<Rightarrow> gotime list \<Rightarrow> bool list" where
  "let_through ip l [] = []"
| "let_through ip l (t # ts) = (case Registration_Allow ip t l of (l', ok) \<Rightarrow> ok # let_through ip l' ts)"

lemma let_through_length [simp]: "length (let_through ip l ts) = length ts"
  by (induction ts arbitrary: l) (auto split: prod.split)

lemma let_through_take: "take n (let_through ip l ts) = let_through ip l (take n ts)"
  by (induction ts arbitrary: n l) (auto simp: take_Cons split: nat.split prod.split)

lemma window_reopens:
  "rg_byIP l ip = Some e \<Longrightarrow> \<exists>t \<in> set ts. loginWindow \<le> t - lw_windowStart e \<Longrightarrow> True \<in> set (let_through ip l ts)"
proof (induction ts arbitrary: l e)
  case (Cons t ts)
  have window: "time_sub t (lw_windowStart e) \<ge> loginWindow \<longleftrightarrow> loginWindow \<le> t - lw_windowStart e"
    using time_sub_gt_iff [of "loginWindow - 1" t "lw_windowStart e"]
    by (simp add: loginWindow_def minute_def second_def nano_def int64_defs) linarith
  show ?case
  proof (cases "loginWindow \<le> t - lw_windowStart e")
    case True
    then show ?thesis
      using Cons.prems(1) window by (simp add: Registration_Allow_def allowInWindow_def)
  next
    case False
    let ?l = "l\<lparr>rg_byIP := (rg_byIP l)(ip \<mapsto> e\<lparr>lw_count := lw_count e + 1\<rparr>)\<rparr>"
    have "\<exists>t \<in> set ts. loginWindow \<le> t - lw_windowStart (e\<lparr>lw_count := lw_count e + 1\<rparr>)"
      using False Cons.prems(2) by auto
    then have "True \<in> set (let_through ip ?l ts)"
      using Cons.IH [of ?l "e\<lparr>lw_count := lw_count e + 1\<rparr>"] by simp
    then show ?thesis
      using False Cons.prems(1) window by (auto simp: Registration_Allow_def allowInWindow_def)
  qed
qed simp

text \<open>The answers of the handler: 201 with a token where the limiter lets the attempt through, and 429 where not.\<close>

definition registrations :: "string \<Rightarrow> RegistrationRateLimiter \<Rightarrow> gotime list \<Rightarrow> string \<Rightarrow> nat \<Rightarrow> string reply \<times> bool" where
  "registrations ip l ts token n =
     (if let_through ip l ts ! (n - 1) then Reply 201 (Some token) else Reply 429 None, True)"

lemma register_first:
  "n \<le> left \<Longrightarrow> fst (calls (attempt + n)) = Reply 201 (Some token)
    \<Longrightarrow> \<forall>k < n. fst (calls (attempt + k)) = Reply 429 None \<and> snd (calls (attempt + k))
    \<Longrightarrow> register_from left attempt calls = Inr token"
proof (induction left arbitrary: attempt n)
  case (Suc left)
  show ?case
  proof (cases n)
    case 0
    then show ?thesis
      using Suc.prems by simp
  next
    case (Suc m)
    then have now: "fst (calls attempt) = Reply 429 None" "snd (calls attempt)"
      using Suc.prems(3) [rule_format, of 0] by auto
    have later: "\<forall>k < m. fst (calls (attempt + 1 + k)) = Reply 429 None \<and> snd (calls (attempt + 1 + k))"
      using Suc.prems(3) \<open>n = Suc m\<close> by (metis Suc_eq_plus1 Suc_less_eq add.assoc add.commute)
    have "register_from left (attempt + 1) calls = Inr token"
      using Suc.IH [OF _ _ later] Suc.prems(1,2) \<open>n = Suc m\<close> by (simp add: add.commute add.left_commute)
    then show ?thesis
      using now by simp
  qed
qed simp

text \<open>Five waits outlast the limiter's window, so the sixth attempt is let through if none before it was.\<close>

lemma sixth_attempt:
  assumes "length ts = registerAttempts" "\<forall>k. Suc k < length ts \<longrightarrow> ts ! k + registerBackoff \<le> ts ! Suc k"
    and "case rg_byIP l ip of Some e \<Rightarrow> lw_windowStart e \<le> ts ! 0 | None \<Rightarrow> card (dom (rg_byIP l)) < maxTrackedLogins"
  shows "True \<in> set (let_through ip l (take 6 ts))"
proof (cases "rg_byIP l ip")
  case None
  then have "snd (Registration_Allow ip (ts ! 0) l)"
    using assms(3) by (simp add: Registration_Allow_def allowInWindow_def)
  moreover have "take 6 ts = ts ! 0 # take 5 (tl ts)"
    using assms(1) by (cases ts) (simp_all add: eval_nat_numeral registerAttempts_def)
  ultimately show ?thesis
    by (cases "Registration_Allow ip (ts ! 0) l") auto
next
  case (Some e)
  have n: "length ts = 10"
    using assms(1) by (simp add: registerAttempts_def)
  have step: "ts ! k + 12000000000 \<le> ts ! Suc k" if "k < 5" for k
    using assms(2) [rule_format, of k] that n by (simp add: registerBackoff_def second_def nano_def)
  have "ts ! 0 + loginWindow \<le> ts ! 5"
    using step [of 0] step [of 1] step [of 2] step [of 3] step [of 4]
    by (simp add: loginWindow_def minute_def second_def nano_def eval_nat_numeral)
  then have "loginWindow \<le> ts ! 5 - lw_windowStart e"
    using assms(3) Some by simp
  moreover have "ts ! 5 \<in> set (take 6 ts)"
    using n by (auto simp: in_set_conv_nth intro!: exI [of _ 5])
  ultimately show ?thesis
    using window_reopens [of l ip e "take 6 ts"] Some by blast
qed

lemma first_such: "k < (n :: nat) \<Longrightarrow> P k \<Longrightarrow> \<exists>j < n. P j \<and> (\<forall>i < j. \<not> P i)"
  by (metis exists_least_iff order.strict_trans not_less_iff_gr_or_eq)

text \<open>
  C22: a rider that is alone on its address gets its credentials past the server's limiter, however many were handed out
  there before. If its ten attempts are at least the backoff apart and the address is known to the limiter, or the
  limiter has room for it, then registering succeeds, and at the sixth attempt at the latest.
\<close>

theorem registration_gets_through:
  assumes "length ts = registerAttempts" "\<forall>k. Suc k < length ts \<longrightarrow> ts ! k + registerBackoff \<le> ts ! Suc k"
    and "case rg_byIP l ip of Some e \<Rightarrow> lw_windowStart e \<le> ts ! 0 | None \<Rightarrow> card (dom (rg_byIP l)) < maxTrackedLogins"
  shows "sim_register (registrations ip l ts token) = Inr token \<and> True \<in> set (take 6 (let_through ip l ts))"
proof -
  have through: "True \<in> set (take 6 (let_through ip l ts))"
    unfolding let_through_take by (rule sixth_attempt [OF assms])
  then obtain j where "j < 6" "let_through ip l ts ! j"
    using assms(1) by (auto simp: in_set_conv_nth registerAttempts_def)
  then obtain k where k: "k < 6" "let_through ip l ts ! k" "\<forall>j < k. \<not> let_through ip l ts ! j"
    using first_such [of j 6 "\<lambda>k. let_through ip l ts ! k"] by blast
  have "register_from (registerAttempts - 1) 1 (registrations ip l ts token) = Inr token"
    by (rule register_first [of k]) (use k in \<open>auto simp: registrations_def registerAttempts_def\<close>)
  then show ?thesis
    using through by (simp add: sim_register_def)
qed

definition demo_limiter :: RegistrationRateLimiter where
  "demo_limiter = \<lparr>rg_byIP = [''10.0.0.1'' \<mapsto> \<lparr>lw_count = 5, lw_windowStart = 0\<rparr>], rg_limit = 5\<rparr>"

definition demo_attempts :: "gotime list" where
  "demo_attempts = map (\<lambda>k. int k * registerBackoff) [0..<10]"

theorem registration_gets_through_witness:
  "sim_register (registrations ''10.0.0.1'' demo_limiter demo_attempts ''t'') = Inr ''t''"
proof -
  have "\<forall>k. Suc k < length demo_attempts \<longrightarrow> demo_attempts ! k + registerBackoff \<le> demo_attempts ! Suc k"
    by (auto simp: demo_attempts_def algebra_simps simp del: upt_Suc)
  moreover have "length demo_attempts = registerAttempts" "demo_attempts ! 0 = 0"
    by (simp_all add: demo_attempts_def registerAttempts_def del: upt_Suc)
  ultimately show ?thesis
    using registration_gets_through [of demo_attempts demo_limiter "''10.0.0.1''" "''t''"]
    by (simp add: demo_limiter_def)
qed

section \<open>The trips of a run\<close>

lemma requested_trips_Inr:
  "requested_trips ix day is = Inr trips \<longleftrightarrow> trips = is \<and> (\<forall>i \<in> set is. \<exists>t. Trip ix i = Some t \<and> ActiveOn ix (Some t) day)"
  by (induction "is" arbitrary: trips) (auto split: option.splits sum.splits)

text \<open>
  Choosing the trips of a run, for a shuffle that only reorders. A choice is made exactly when every requested trip
  is in the feed and runs that day, and there are enough others that do for the random ones: it is then the
  requested trips followed by as many others as were asked for, which all run that day and were not requested, and
  which are different from each other if the ids of the feed are.
\<close>

theorem picked_trips:
  assumes "\<And>xs. mset (shuffle xs) = mset xs" "distinct (TripIDs ix)"
  shows "(\<exists>trips. pickTrips shuffle ix requested random day = Inr trips) \<longleftrightarrow>
      (\<forall>i \<in> set requested. \<exists>t. Trip ix i = Some t \<and> ActiveOn ix (Some t) day)
      \<and> (if random \<le> 0 then requested \<noteq> [] else random \<le> int (length (further_trips ix day requested)))"
    and "pickTrips shuffle ix requested random day = Inr trips \<Longrightarrow>
      \<exists>others. trips = requested @ others \<and> length others = nat random \<and> distinct others
        \<and> (\<forall>i \<in> set others. i \<notin> set requested \<and> (\<exists>t. Trip ix i = Some t \<and> ActiveOn ix (Some t) day))"
proof -
  have shuffled: "length (shuffle xs) = length xs" "set (shuffle xs) = set xs" "distinct (shuffle xs) = distinct xs" for xs
    using mset_eq_length [OF assms(1)] mset_eq_setD [OF assms(1)] mset_eq_imp_distinct_iff [OF assms(1)] by blast+
  show "(\<exists>trips. pickTrips shuffle ix requested random day = Inr trips) \<longleftrightarrow>
      (\<forall>i \<in> set requested. \<exists>t. Trip ix i = Some t \<and> ActiveOn ix (Some t) day)
      \<and> (if random \<le> 0 then requested \<noteq> [] else random \<le> int (length (further_trips ix day requested)))"
  proof (cases "requested_trips ix day requested")
    case (Inl e)
    then show ?thesis
      using requested_trips_Inr [of ix day requested requested] by (simp add: pickTrips_def)
  next
    case (Inr ts)
    then have "ts = requested" "\<forall>i \<in> set requested. \<exists>t. Trip ix i = Some t \<and> ActiveOn ix (Some t) day"
      using requested_trips_Inr by blast+
    then show ?thesis
      using Inr by (cases "further_trips ix day requested") (simp_all add: pickTrips_def Let_def)
  qed
  assume picked: "pickTrips shuffle ix requested random day = Inr trips"
  let ?all = "further_trips ix day requested"
  have others: "trips = requested @ take (nat random) (shuffle ?all) \<and> nat random \<le> length ?all"
  proof (cases "requested_trips ix day requested")
    case (Inr ts)
    then have "ts = requested"
      using requested_trips_Inr by blast
    then show ?thesis
      using Inr picked by (auto simp: pickTrips_def Let_def split: if_splits)
  qed (use picked in \<open>simp add: pickTrips_def\<close>)
  moreover have "distinct (shuffle ?all)"
    using assms(2) shuffled(3) by (simp add: further_trips_def)
  moreover have "i \<notin> set requested \<and> (\<exists>t. Trip ix i = Some t \<and> ActiveOn ix (Some t) day)" if "i \<in> set (shuffle ?all)" for i
    using that by (auto simp: shuffled(2) further_trips_def split: option.splits)
  ultimately show "\<exists>others. trips = requested @ others \<and> length others = nat random \<and> distinct others
      \<and> (\<forall>i \<in> set others. i \<notin> set requested \<and> (\<exists>t. Trip ix i = Some t \<and> ActiveOn ix (Some t) day))"
    by (auto intro!: exI [of _ "take (nat random) (shuffle ?all)"] simp: shuffled(1) distinct_take dest: in_set_takeD)
qed

end
