(* ===== verification/Simulator.thy ===== *)
theory Simulator
  imports Feed
begin

text \<open>
  The fleet simulator of \<open>src/cmd/simulator\<close>: the predefined routes and their geometry (\<open>routes.go\<close>), the loop of one
  vehicle, the provisioning of a driver account per vehicle, and where its credentials may go (\<open>main.go\<close>). Answers of
  the server, random bytes and the clock are arguments. \<open>SimulatorProps\<close> shows that every report a simulated vehicle sends is
  one the server's handler accepts, and that neither the password nor a token leaves for another host than the one that
  was checked.
\<close>

section \<open>Routes\<close>

text \<open>A \<open>Waypoint\<close> is a \<open>LatLon\<close>.\<close>

definition waypoint :: "real \<Rightarrow> real \<Rightarrow> LatLon" where
  "waypoint lat lon = \<lparr>Lat = Num lat, Lon = Num lon\<rparr>"

definition sim_routes :: "LatLon list list" where
  "sim_routes =
     [[waypoint (- 1.2864) 36.8172, waypoint (- 1.2833) 36.8158, waypoint (- 1.2762) 36.8098, waypoint (- 1.2690) 36.8065,
       waypoint (- 1.2638) 36.8028],
      [waypoint (- 1.2864) 36.8172, waypoint (- 1.2878) 36.8250, waypoint (- 1.2900) 36.8350, waypoint (- 1.2920) 36.8450,
       waypoint (- 1.2945) 36.8550],
      [waypoint (- 1.2864) 36.8172, waypoint (- 1.2950) 36.8100, waypoint (- 1.3020) 36.7950, waypoint (- 1.3100) 36.7800,
       waypoint (- 1.3180) 36.7650]]"

definition earthRadiusMeters :: f64 where "earthRadiusMeters = Num 6371000"

definition toRadians :: "f64 \<Rightarrow> f64" where
  "toRadians deg = fdiv (fmul deg (Num pi)) (Num 180)"

definition toDegrees :: "f64 \<Rightarrow> f64" where
  "toDegrees r = fdiv (fmul r (Num 180)) (Num pi)"

definition sim_bearing :: "LatLon \<Rightarrow> LatLon \<Rightarrow> f64" where
  "sim_bearing a b =
     (let lat1 = toRadians (Lat a); lat2 = toRadians (Lat b); dLon = toRadians (fsub (Lon b) (Lon a));
          y = fmul (fsin dLon) (fcos lat2);
          x = fsub (fmul (fcos lat1) (fsin lat2)) (fmul (fmul (fsin lat1) (fcos lat2)) (fcos dLon));
          brng = toDegrees (fatan2 y x)
      in fmod64 (fadd brng (Num 360)) (Num 360))"

definition haversineDistance :: "LatLon \<Rightarrow> LatLon \<Rightarrow> f64" where
  "haversineDistance a b =
     (let lat1 = toRadians (Lat a); lat2 = toRadians (Lat b);
          dLat = toRadians (fsub (Lat b) (Lat a)); dLon = toRadians (fsub (Lon b) (Lon a));
          sLat = fsin (fdiv dLat (Num 2)); sLon = fsin (fdiv dLon (Num 2));
          h = fadd (fmul sLat sLat) (fmul (fmul (fmul (fcos lat1) (fcos lat2)) sLon) sLon);
          c = fmul (Num 2) (fatan2 (fsqrt h) (fsqrt (fsub (Num 1) h)))
      in fmul earthRadiusMeters c)"

definition sim_speed :: "f64 \<Rightarrow> f64 \<Rightarrow> f64" where
  "sim_speed distMeters intervalSeconds =
     (if fle intervalSeconds (Num 0) then Num 0 else fdiv distMeters intervalSeconds)"

definition sim_interpolate :: "LatLon \<Rightarrow> LatLon \<Rightarrow> f64 \<Rightarrow> LatLon" where
  "sim_interpolate a b t =
     (if fle t (Num 0) then a
      else if fge t (Num 1) then b
      else \<lparr>Lat = fadd (Lat a) (fmul (fsub (Lat b) (Lat a)) t), Lon = fadd (Lon a) (fmul (fsub (Lon b) (Lon a)) t)\<rparr>)"

section \<open>One vehicle\<close>

record locationReport =
  lo_VehicleID :: string
  lo_RouteID :: string
  lo_Latitude :: f64
  lo_Longitude :: f64
  lo_Bearing :: f64
  lo_Speed :: f64
  lo_Accuracy :: f64
  lo_Timestamp :: int

definition segment_duration :: "f64 \<Rightarrow> f64" where
  "segment_duration metres = (let d = fdiv metres (Num 8) in if fle d (Num 0) then Num 1 else d)"

definition next_waypoint :: "LatLon list \<Rightarrow> nat \<Rightarrow> nat" where
  "next_waypoint route i = (i + 1) mod length route"

text \<open>One tick: the report, and where the vehicle is on its route from then on, as the waypoint it left and when.\<close>

definition vehicle_tick ::
  "string \<Rightarrow> LatLon list \<Rightarrow> string \<Rightarrow> gotime \<Rightarrow> nat \<times> gotime \<Rightarrow> locationReport \<times> nat \<times> gotime" where
  "vehicle_tick vehicleID route routeID now st =
     (case st of (idx, segmentStart) \<Rightarrow>
        let elapsed = dur_seconds (time_sub now segmentStart);
            t0 = fdiv elapsed (segment_duration (haversineDistance (route ! idx) (route ! next_waypoint route idx)));
            (idx, segmentStart, t) = (if fge t0 (Num 1) then (next_waypoint route idx, now, Num 0) else (idx, segmentStart, t0));
            from = route ! idx; dest = route ! next_waypoint route idx;
            segmentDist = haversineDistance from dest;
            pos = sim_interpolate from dest t
        in (\<lparr>lo_VehicleID = vehicleID, lo_RouteID = routeID, lo_Latitude = Lat pos, lo_Longitude = Lon pos,
             lo_Bearing = sim_bearing from dest, lo_Speed = sim_speed segmentDist (segment_duration segmentDist),
             lo_Accuracy = Num 5, lo_Timestamp = unix_of now\<rparr>, idx, segmentStart))"

primrec simulateVehicle ::
  "string \<Rightarrow> LatLon list \<Rightarrow> string \<Rightarrow> nat \<times> gotime \<Rightarrow> gotime list \<Rightarrow> locationReport list" where
  "simulateVehicle vehicleID route routeID st [] = []"
| "simulateVehicle vehicleID route routeID st (now # ticks) =
     (case vehicle_tick vehicleID route routeID now st of
        (report, st') \<Rightarrow> report # simulateVehicle vehicleID route routeID st' ticks)"

text \<open>\<open>%03d\<close> of a number that is not negative.\<close>

definition fmt_03d :: "nat \<Rightarrow> string" where
  "fmt_03d n = replicate (3 - length (fmt_d (int n))) (CHR ''0'') @ fmt_d (int n)"

text \<open>The vehicles of a run: the name, the route and the name of the route of the \<open>i\<close>-th.\<close>

definition sim_vehicle :: "nat \<Rightarrow> string \<times> LatLon list \<times> string" where
  "sim_vehicle i =
     (''sim-vehicle-'' @ fmt_03d (i + 1), sim_routes ! (i mod length sim_routes),
      ''sim-route-'' @ fmt_d (int (i mod length sim_routes + 1)))"

text \<open>The counters, and what one call of \<open>sendReport\<close> adds to them.\<close>

record sim_stats =
  ss_succeeded :: nat
  ss_failed :: nat
  ss_totalMS :: int

datatype send_result = MarshalFailed | SendFailed bool | Answered nat   \<comment> \<open>whether the context was gone; the status\<close>

definition sendReport :: "send_result \<Rightarrow> duration \<Rightarrow> sim_stats \<Rightarrow> sim_stats" where
  "sendReport res latency s =
     (case res of
        MarshalFailed \<Rightarrow> s\<lparr>ss_failed := ss_failed s + 1\<rparr>
      | SendFailed cancelled \<Rightarrow> if cancelled then s else s\<lparr>ss_failed := ss_failed s + 1\<rparr>
      | Answered status \<Rightarrow>
          (if status = 201
           then s\<lparr>ss_succeeded := ss_succeeded s + 1, ss_totalMS := ss_totalMS s + latency div 1000000\<rparr>
           else s\<lparr>ss_failed := ss_failed s + 1\<rparr>))"

definition perDriverReportInterval :: duration where "perDriverReportInterval = 5 * second"

text \<open>Whether the run is warned that the server will refuse most of its reports.\<close>

definition reportBudgetWarning :: "int \<Rightarrow> duration \<Rightarrow> bool" where
  "reportBudgetWarning vehicles interval \<longleftrightarrow>
     \<not> (vehicles \<le> 0 \<or> interval \<le> 0 \<or> interval \<ge> perDriverReportInterval)"

section \<open>Where credentials may go\<close>

record sim_url =
  su_Scheme :: string
  su_Host :: string
  su_Hostname :: string
  su_Port :: string

datatype url_error = BadURL | NoHost | Cleartext | BadScheme

text \<open>\<open>parse_ip\<close> is \<open>net.ParseIP\<close> followed by \<open>IsLoopback\<close>, \<open>None\<close> for what is not an address.\<close>

definition isLoopbackHost :: "(string \<Rightarrow> bool option) \<Rightarrow> string \<Rightarrow> bool" where
  "isLoopbackHost parse_ip host \<longleftrightarrow> host = ''localhost'' \<or> parse_ip host = Some True"

definition checkBaseURL :: "(string \<Rightarrow> bool option) \<Rightarrow> (string \<Rightarrow> sim_url option) \<Rightarrow> string \<Rightarrow> url_error option" where
  "checkBaseURL parse_ip parse raw =
     (case parse raw of
        None \<Rightarrow> Some BadURL
      | Some u \<Rightarrow>
          (if su_Host u = [] then Some NoHost
           else if su_Scheme u = ''https'' then None
           else if su_Scheme u = ''http''
           then (if isLoopbackHost parse_ip (su_Hostname u) then None else Some Cleartext)
           else Some BadScheme))"

definition JoinHostPort :: "string \<Rightarrow> string \<Rightarrow> string" where
  "JoinHostPort host port =
     (if CHR '':'' \<in> set host then ''['' @ host @ '']:'' @ port else host @ '':'' @ port)"

definition canonicalOrigin :: "sim_url \<Rightarrow> string" where
  "canonicalOrigin u =
     (let port = (if su_Port u = [] then (if su_Scheme u = ''http'' then ''80'' else if su_Scheme u = ''https'' then ''443'' else [])
                  else su_Port u)
      in su_Scheme u @ ''://'' @ JoinHostPort (su_Hostname u) port)"

text \<open>Whether a redirect to \<open>dest\<close>, after \<open>via\<close> requests, is followed.\<close>

definition sameOriginOnly :: "(string \<Rightarrow> sim_url option) \<Rightarrow> string \<Rightarrow> sim_url \<Rightarrow> nat \<Rightarrow> bool" where
  "sameOriginOnly parse base dest via =
     (case parse base of
        None \<Rightarrow> False
      | Some u \<Rightarrow> canonicalOrigin dest = canonicalOrigin u \<and> via < 10)"

section \<open>Provisioning\<close>

text \<open>
  What came back from a sign-in: an error of the transport with its text, or a status with the body as text and as what
  the JSON decoder makes of it, the token or an error with its text.
\<close>

datatype login_reply = LoginBroken string | LoginAnswer nat string "string + string"

definition sim_login :: "login_reply \<Rightarrow> string + string" where
  "sim_login rep =
     (case rep of
        LoginBroken msg \<Rightarrow> Inl msg
      | LoginAnswer status text token \<Rightarrow>
          (if status \<noteq> 200
           then Inl (''POST /api/v1/auth/login returned '' @ fmt_d (int status) @ '': '' @ trim_space text)
           else case token of
                  Inl msg \<Rightarrow> Inl (''decoding login response: '' @ msg)
                | Inr t \<Rightarrow> if t = [] then Inl ''login response contained no token'' else Inr t))"

definition contains :: "string \<Rightarrow> string \<Rightarrow> bool" where
  "contains s sub \<longleftrightarrow> list_ex (\<lambda>k. has_prefix sub (drop k s)) [0..<length s + 1]"

definition provisionAttempts :: nat where "provisionAttempts = 10"
definition provisionBackoff :: duration where "provisionBackoff = 12 * second"
definition provisionStagger :: duration where "provisionStagger = 250000000"

text \<open>
  The attempts from the one with \<open>left\<close> more behind it on; \<open>calls n\<close> is the answer to the \<open>n\<close>-th and whether the wait
  behind it was sat out.
\<close>

primrec login_from :: "nat \<Rightarrow> nat \<Rightarrow> (nat \<Rightarrow> login_reply \<times> bool) \<Rightarrow> string + string" where
  "login_from 0 attempt calls = sim_login (fst (calls attempt))"
| "login_from (Suc left) attempt calls =
     (case sim_login (fst (calls attempt)) of
        Inr token \<Rightarrow> Inr token
      | Inl err \<Rightarrow>
          (if \<not> contains err ''429'' then Inl err
           else if snd (calls attempt) then login_from left (attempt + 1) calls
           else Inl ''context canceled''))"

definition loginWithRetry :: "(nat \<Rightarrow> login_reply \<times> bool) \<Rightarrow> string + string" where
  "loginWithRetry calls = login_from (provisionAttempts - 1) 1 calls"

text \<open>What happens to the \<open>i\<close>-th driver: the random bytes, the answer to the creation, the sign-ins, the wait behind.\<close>

record driver_env =
  dv_random :: "string option"
  dv_created :: "nat option"     \<comment> \<open>the status, unless the transport failed\<close>
  dv_logins :: "nat \<Rightarrow> login_reply \<times> bool"
  dv_slept :: bool

definition driver_email :: "string \<Rightarrow> nat \<Rightarrow> string" where
  "driver_email runID i = ''sim-driver-'' @ fmt_03d (i + 1) @ ''-'' @ runID @ ''@simulator.invalid''"

definition createDriver :: "nat option \<Rightarrow> string option" where
  "createDriver created =
     (case created of
        None \<Rightarrow> Some ''creating driver''
      | Some status \<Rightarrow> if status \<noteq> 201 \<and> status \<noteq> 200 then Some ''POST /api/v1/admin/users'' else None)"

fun provision_from :: "driver_env list \<Rightarrow> string + string list" where
  "provision_from [] = Inr []"
| "provision_from (d # ds) =
     (case dv_random d of
        None \<Rightarrow> Inl ''generating a driver password''
      | Some bytes \<Rightarrow>
          (case createDriver (dv_created d) of
             Some err \<Rightarrow> Inl err
           | None \<Rightarrow>
               (case loginWithRetry (dv_logins d) of
                  Inl err \<Rightarrow> Inl err
                | Inr token \<Rightarrow>
                    (if ds \<noteq> [] \<and> \<not> dv_slept d then Inl ''context canceled''
                     else case provision_from ds of Inl err \<Rightarrow> Inl err | Inr tokens \<Rightarrow> Inr (token # tokens)))))"

definition provisionDrivers :: "(nat \<Rightarrow> driver_env) \<Rightarrow> nat \<Rightarrow> string + string list" where
  "provisionDrivers env n = provision_from (map env [0..<n])"

section \<open>The run\<close>

datatype sim_fatal =
    VehiclesNotPositive
  | IntervalNotPositive
  | RefusedURL url_error
  | NoCredentials
  | LoginFailed string
  | NoRunID
  | ProvisioningFailed string

definition or_env :: "string \<Rightarrow> string \<Rightarrow> string" where
  "or_env flag env = (if flag = [] then env else flag)"

text \<open>
  Up to the start of the vehicles: whether there was a warning, and for each vehicle the token of its driver and what it
  drives. \<open>sign_in\<close> is the answer to the administrator's sign-in with the email and password, \<open>run_bytes\<close> the random
  bytes of the run's id, \<open>env i\<close> what happens to the \<open>i\<close>-th driver.
\<close>

definition start_simulator ::
  "(string \<Rightarrow> bool option) \<Rightarrow> (string \<Rightarrow> sim_url option) \<Rightarrow> (string \<Rightarrow> string) \<Rightarrow> string \<Rightarrow> int
     \<Rightarrow> duration \<Rightarrow> string \<Rightarrow> string \<Rightarrow> (string \<Rightarrow> string \<Rightarrow> login_reply) \<Rightarrow> string option \<Rightarrow> (nat \<Rightarrow> driver_env)
     \<Rightarrow> sim_fatal + bool \<times> (string \<times> string \<times> LatLon list \<times> string) list" where
  "start_simulator parse_ip parse getenv baseURL numVehicles interval emailFlag passwordFlag sign_in run_bytes env =
     (let email = or_env emailFlag (getenv ''ADMIN_BOOTSTRAP_EMAIL'');
          password = or_env passwordFlag (getenv ''ADMIN_BOOTSTRAP_PASSWORD'') in
      if numVehicles \<le> 0 then Inl VehiclesNotPositive
      else if interval \<le> 0 then Inl IntervalNotPositive
      else case checkBaseURL parse_ip parse baseURL of
             Some e \<Rightarrow> Inl (RefusedURL e)
           | None \<Rightarrow>
               (if email = [] \<or> password = [] then Inl NoCredentials
                else case sim_login (sign_in email password) of
                       Inl err \<Rightarrow> Inl (LoginFailed err)
                     | Inr adminToken \<Rightarrow>
                         (case run_bytes of
                            None \<Rightarrow> Inl NoRunID
                          | Some runID \<Rightarrow>
                              (case provisionDrivers env (nat numVehicles) of
                                 Inl err \<Rightarrow> Inl (ProvisioningFailed err)
                               | Inr tokens \<Rightarrow>
                                   Inr (reportBudgetWarning numVehicles interval,
                                        map (\<lambda>i. (tokens ! i, sim_vehicle i)) [0..<length tokens])))))"

text \<open>The average printed at the end.\<close>

definition average_ms :: "sim_stats \<Rightarrow> int" where
  "average_ms s = (if ss_succeeded s > 0 then ss_totalMS s div int (ss_succeeded s) else 0)"

end
