(* ===== verification/SimulatorProps.thy ===== *)
theory SimulatorProps
  imports Simulator
begin

text \<open>
  What the fleet simulator promises the server, and the owner of its credentials: its reports pass the validation of
  the handler they are sent to, and a redirect never carries a password or a token to a host that was not checked.
\<close>

section \<open>Geometry\<close>

definition on_globe :: "LatLon \<Rightarrow> bool" where
  "on_globe p \<longleftrightarrow> (\<exists>x y. p = \<lparr>Lat = Num x, Lon = Num y\<rparr> \<and> - 90 \<le> x \<and> x \<le> 90)"

lemma atan2_bounds: "- pi \<le> atan2 y x" "atan2 y x \<le> pi"
  using arctan_bounded [of "y / x"] pi_gt_zero
  by (auto simp: atan2_def arctan_le_zero_iff zero_le_arctan_iff divide_le_0_iff zero_le_divide_iff not_less) 

lemma fmod_bounds: "0 \<le> a \<Longrightarrow> 0 < b \<Longrightarrow> \<exists>r. fmod64 (Num a) (Num b) = Num r \<and> 0 \<le> r \<and> r < b"
  using floor_divide_lower [of b a] floor_divide_upper [of b a]
  by (auto intro!: exI [of _ "a - b * real_of_int \<lfloor>a / b\<rfloor>"] simp: trunc_real_def algebra_simps)

lemma sim_bearing_range:
  assumes "on_globe a" "on_globe b"
  shows "\<exists>r. sim_bearing a b = Num r \<and> 0 \<le> r \<and> r < 360"
proof -
  obtain y x where "sim_bearing a b = fmod64 (fadd (toDegrees (Num (atan2 y x))) (Num 360)) (Num 360)"
    using assms by (auto simp: sim_bearing_def on_globe_def toRadians_def fsub_def Let_def)
  moreover have "- 180 \<le> atan2 y x * 180 / pi"
    using atan2_bounds(1) [of y x] pi_gt_zero by (simp add: field_simps)
  ultimately show ?thesis
    using fmod_bounds [of "atan2 y x * 180 / pi + 360" 360] by (simp add: toDegrees_def)
qed

text \<open>The half-angle term of the haversine formula stays within \<open>[0, 1]\<close>.\<close>

lemma haversine_term:
  fixes u v w :: real
  assumes "0 \<le> cos u" "0 \<le> cos v"
  shows "0 \<le> sin ((v - u) / 2) * sin ((v - u) / 2) + cos u * cos v * sin w * sin w"
    and "sin ((v - u) / 2) * sin ((v - u) / 2) + cos u * cos v * sin w * sin w \<le> 1"
proof -
  have pos: "0 \<le> cos u * cos v" "0 \<le> sin w * sin w" "sin w * sin w \<le> 1"
    using assms abs_sin_le_one [of w] by (simp_all add: abs_le_square_iff power2_eq_square flip: abs_square_le_1)
  then have "0 \<le> cos u * cos v * (sin w * sin w)" "cos u * cos v * (sin w * sin w) \<le> cos u * cos v"
    using mult_left_le [of "sin w * sin w" "cos u * cos v"] mult_nonneg_nonneg [OF pos(1,2)] by blast+
  then have "0 \<le> cos u * cos v * sin w * sin w" "cos u * cos v * sin w * sin w \<le> cos u * cos v"
    by (simp_all only: mult.assoc)
  moreover have "cos u * cos v \<le> (cos (v - u) + 1) / 2"
    using cos_times_cos [of v u] cos_le_one [of "v + u"] by (simp add: mult.commute)
  moreover have "cos (v - u) = 1 - 2 * (sin ((v - u) / 2))\<^sup>2"
  proof -
    have "2 * ((v - u) / 2) = v - u"
      by simp
    then show ?thesis
      using cos_double_sin [of "(v - u) / 2"] by metis
  qed
  ultimately show "0 \<le> sin ((v - u) / 2) * sin ((v - u) / 2) + cos u * cos v * sin w * sin w"
    "sin ((v - u) / 2) * sin ((v - u) / 2) + cos u * cos v * sin w * sin w \<le> 1"
    by (simp_all add: power2_eq_square)
qed

lemma cos_lat: "- 90 \<le> x \<Longrightarrow> x \<le> 90 \<Longrightarrow> 0 \<le> cos (x * pi / 180)"
  using pi_gt_zero mult_right_mono [of "- 90" x pi] by (intro cos_ge_zero) (auto simp: field_simps)

lemma haversine_number:
  assumes "on_globe a" "on_globe b"
  shows "\<exists>d. haversineDistance a b = Num d \<and> 0 \<le> d"
proof -
  obtain xa ya xb yb where p: "a = \<lparr>Lat = Num xa, Lon = Num ya\<rparr>" "b = \<lparr>Lat = Num xb, Lon = Num yb\<rparr>"
      "- 90 \<le> xa" "xa \<le> 90" "- 90 \<le> xb" "xb \<le> 90"
    using assms by (auto simp: on_globe_def)
  let ?u = "xa * pi / 180" and ?v = "xb * pi / 180" and ?w = "(yb - ya) * pi / 360"
  define h where "h = sin ((xb - xa) * pi / 360) * sin ((xb - xa) * pi / 360) + cos ?u * cos ?v * sin ?w * sin ?w"
  have half: "(?v - ?u) / 2 = (xb - xa) * pi / 360"
    by (simp add: field_simps)
  have dist: "haversineDistance a b = fmul earthRadiusMeters (fmul (Num 2) (fatan2 (fsqrt (Num h)) (fsqrt (Num (1 - h)))))"
    using p by (simp add: haversineDistance_def toRadians_def fsub_Num Let_def h_def)
  have "0 \<le> h" "h \<le> 1"
    using haversine_term [of ?u ?v ?w] cos_lat p unfolding h_def half by blast+
  moreover from this have "0 \<le> atan2 (sqrt h) (sqrt (1 - h))"
    by (auto simp: atan2_def zero_le_arctan_iff)
  ultimately show ?thesis
    unfolding dist by (simp add: earthRadiusMeters_def)
qed

lemma segment_duration_pos: "0 \<le> d \<Longrightarrow> \<exists>s. segment_duration (Num d) = Num s \<and> 0 < s"
  by (cases "d = 0") (auto simp: segment_duration_def Let_def intro!: exI [of _ "d / 8"])

lemma sim_speed_nonneg:
  assumes "0 \<le> d"
  shows "\<exists>v. sim_speed (Num d) (segment_duration (Num d)) = Num v \<and> 0 \<le> v"
  using segment_duration_pos [OF assms] assms by (auto simp: sim_speed_def)

section \<open>The routes\<close>

definition nairobi :: "LatLon \<Rightarrow> bool" where
  "nairobi p \<longleftrightarrow> (\<exists>x y. p = \<lparr>Lat = Num x, Lon = Num y\<rparr> \<and> - 2 \<le> x \<and> x \<le> - 1 \<and> 36 \<le> y \<and> y \<le> 37)"

lemma nairobi_waypoint: "nairobi (waypoint x y) \<longleftrightarrow> - 2 \<le> x \<and> x \<le> - 1 \<and> 36 \<le> y \<and> y \<le> 37"
  by (auto simp: nairobi_def waypoint_def)

lemma routes_in_nairobi: "r \<in> set sim_routes \<Longrightarrow> length r = 5 \<and> (\<forall>p \<in> set r. nairobi p)"
  by (auto simp: sim_routes_def nairobi_waypoint)

lemma nairobi_on_globe: "nairobi p \<Longrightarrow> on_globe p"
  by (auto simp: nairobi_def on_globe_def)

lemma convex:
  fixes a b t lo hi :: real
  assumes "0 \<le> t" "t \<le> 1" "lo \<le> a" "a \<le> hi" "lo \<le> b" "b \<le> hi"
  shows "lo \<le> a + (b - a) * t" "a + (b - a) * t \<le> hi"
proof -
  have "a + (b - a) * t = (1 - t) * a + t * b"
    by (simp add: algebra_simps)
  moreover have "(1 - t) * lo + t * lo \<le> (1 - t) * a + t * b" "(1 - t) * a + t * b \<le> (1 - t) * hi + t * hi"
    using assms by (intro add_mono mult_left_mono; simp)+
  ultimately show "lo \<le> a + (b - a) * t" "a + (b - a) * t \<le> hi"
    by (simp_all add: algebra_simps)
qed

lemma interpolate_nairobi:
  assumes "nairobi a" "nairobi b"
  shows "nairobi (sim_interpolate a b (Num t))"
proof (cases "t \<le> 0 \<or> 1 \<le> t")
  case True
  then show ?thesis
    using assms by (auto simp: sim_interpolate_def)
next
  case False
  then show ?thesis
    using assms convex [of t "- 2" _ "- 1"] convex [of t 36 _ 37]
    by (auto simp: sim_interpolate_def nairobi_def fsub_def)
qed

section \<open>The reports\<close>

definition good_report :: "string \<Rightarrow> string \<Rightarrow> locationReport \<Rightarrow> bool" where
  "good_report vehicleID routeID l \<longleftrightarrow>
     lo_VehicleID l = vehicleID \<and> lo_RouteID l = routeID \<and> lo_Accuracy l = Num 5
     \<and> nairobi \<lparr>Lat = lo_Latitude l, Lon = lo_Longitude l\<rparr>
     \<and> (\<exists>b v. lo_Bearing l = Num b \<and> 0 \<le> b \<and> b < 360 \<and> lo_Speed l = Num v \<and> 0 \<le> v)"

lemma tick_good:
  assumes route: "route \<in> set sim_routes" and idx: "fst st < length route"
    and tick: "vehicle_tick vehicleID route routeID now st = (report, st')"
  shows "good_report vehicleID routeID report \<and> lo_Timestamp report = unix_of now \<and> fst st' < length route"
proof -
  have n: "next_waypoint route i < length route" for i
    using routes_in_nairobi [OF route] by (simp add: next_waypoint_def)
  have place: "nairobi (route ! i)" if "i < length route" for i
    using routes_in_nairobi [OF route] that by simp
  obtain idx segmentStart where st: "st = (idx, segmentStart)"
    by fastforce
  then have i: "idx < length route"
    using idx by simp
  obtain d where d: "haversineDistance (route ! idx) (route ! next_waypoint route idx) = Num d" "0 \<le> d"
    using haversine_number nairobi_on_globe place i n by meson
  obtain s where s: "segment_duration (Num d) = Num s" "0 < s"
    using segment_duration_pos [OF d(2)] by blast
  define t0 where "t0 = real_of_int (time_sub now segmentStart) / real_of_int nano / s"
  have t0: "fdiv (dur_seconds (time_sub now segmentStart)) (segment_duration (Num d)) = Num t0"
    using s by (simp add: dur_seconds_def t0_def)
  obtain j t seg where j: "(if fge (Num t0) (Num 1) then (next_waypoint route idx, now, Num 0) else (idx, segmentStart, Num t0)) = (j, seg, Num t)"
      "j < length route"
    using i n by (cases "1 \<le> t0") auto
  obtain e where e: "haversineDistance (route ! j) (route ! next_waypoint route j) = Num e" "0 \<le> e"
    using haversine_number nairobi_on_globe place j(2) n by meson
  let ?pos = "sim_interpolate (route ! j) (route ! next_waypoint route j) (Num t)"
  have out: "report = \<lparr>lo_VehicleID = vehicleID, lo_RouteID = routeID, lo_Latitude = Lat ?pos, lo_Longitude = Lon ?pos,
      lo_Bearing = sim_bearing (route ! j) (route ! next_waypoint route j), lo_Speed = sim_speed (Num e) (segment_duration (Num e)),
      lo_Accuracy = Num 5, lo_Timestamp = unix_of now\<rparr>" "st' = (j, seg)"
    using tick unfolding vehicle_tick_def st prod.case Let_def d(1) t0 j(1) e(1) by simp_all
  have "nairobi \<lparr>Lat = Lat ?pos, Lon = Lon ?pos\<rparr>"
  proof -
    have "nairobi ?pos"
      by (rule interpolate_nairobi [OF place [OF j(2)] place [OF n]])
    then show ?thesis
      by (cases ?pos) simp
  qed
  moreover obtain v where "sim_speed (Num e) (segment_duration (Num e)) = Num v" "0 \<le> v"
    using sim_speed_nonneg [OF e(2)] by blast
  moreover obtain b where "sim_bearing (route ! j) (route ! next_waypoint route j) = Num b" "0 \<le> b" "b < 360"
    using sim_bearing_range nairobi_on_globe place j(2) n by meson
  ultimately show ?thesis
    using out j(2) by (simp add: good_report_def)
qed

lemma vehicle_good:
  "route \<in> set sim_routes \<Longrightarrow> fst st < length route \<Longrightarrow> report \<in> set (simulateVehicle vehicleID route routeID st ticks)
    \<Longrightarrow> good_report vehicleID routeID report \<and> (\<exists>now \<in> set ticks. lo_Timestamp report = unix_of now)"
proof (induction ticks arbitrary: st)
  case (Cons now ticks)
  obtain rep st' where tick: "vehicle_tick vehicleID route routeID now st = (rep, st')"
    by (cases "vehicle_tick vehicleID route routeID now st")
  then show ?case
    using tick_good [OF Cons.prems(1,2) tick] Cons.IH [of st'] Cons.prems by auto
qed simp

lemma decimal_length: "n < 10 ^ Suc k \<Longrightarrow> length (decimal n) \<le> Suc k"
proof (induction k arbitrary: n)
  case 0
  then show ?case
    by (subst decimal.simps) simp
next
  case (Suc k)
  then have "n div 10 < 10 ^ Suc k"
    by (simp add: less_mult_imp_div_less)
  then show ?case
    using Suc.IH [of "n div 10"] by (subst decimal.simps) simp
qed

lemma fmt_03d_ok:
  assumes "int n \<le> max_int64"
  shows "length (fmt_03d n) \<le> 19" "list_all is_digit (fmt_03d n)"
proof -
  have "n < 10 ^ Suc 18"
    using assms by (simp add: max_int64_def)
  then have "length (decimal n) \<le> 19"
    using decimal_length [of n 18] by simp
  then show "length (fmt_03d n) \<le> 19"
    by (simp add: fmt_03d_def fmt_d_def)
  show "list_all is_digit (fmt_03d n)"
    using decimal_digits [of _ n] by (auto simp: fmt_03d_def fmt_d_def list_all_iff is_digit_def)
qed

text \<open>How the server decodes a report.\<close>

definition server_report :: "locationReport \<Rightarrow> LocationReport" where
  "server_report l =
     \<lparr>lr_VehicleID = lo_VehicleID l, lr_TripID = [], lr_RouteID = lo_RouteID l, lr_StartDate = [], lr_Latitude = lo_Latitude l,
      lr_Longitude = lo_Longitude l, lr_Bearing = Some (lo_Bearing l), lr_Speed = Some (lo_Speed l),
      lr_Accuracy = Some (lo_Accuracy l), lr_Timestamp = lo_Timestamp l, lr_DriverID = []\<rparr>"

lemma vehicle_name_ok: "int (i + 1) \<le> max_int64
    \<Longrightarrow> length (''sim-vehicle-'' @ fmt_03d (i + 1)) \<le> 50 \<and> vehicleIDPattern (''sim-vehicle-'' @ fmt_03d (i + 1))"
  using fmt_03d_ok [of "i + 1"] by (auto simp: vehicleIDPattern_def list_all_iff Let_def)

lemma route_names: "i < 3 \<Longrightarrow> trim_space (''sim-route-'' @ fmt_d (int (i + 1))) = ''sim-route-'' @ fmt_d (int (i + 1))
    \<and> length (''sim-route-'' @ fmt_d (int (i + 1))) = 11"
proof -
  have "i \<in> {0, 1, 2}" if "i < 3"
    using that by auto
  moreover have "trim_space ''sim-route-1'' = ''sim-route-1''" "trim_space ''sim-route-2'' = ''sim-route-2''"
      "trim_space ''sim-route-3'' = ''sim-route-3''"
    by code_simp+
  moreover have "fmt_d 1 = ''1''" "fmt_d 2 = ''2''" "fmt_d 3 = ''3''"
    by code_simp+
  ultimately show "i < 3 \<Longrightarrow> ?thesis"
    by auto
qed

lemma good_accepted:
  assumes "good_report vehicleID routeID l" "length vehicleID \<le> 50" "vehicleIDPattern vehicleID"
    and "trim_space routeID = routeID" "length routeID = 11"
    and "0 < lo_Timestamp l" "\<bar>lo_Timestamp l - unix_of now\<bar> \<le> 300"
  shows "validate_location now (trim_ids (server_report l)) = None"
proof -
  obtain x y b v where l: "lo_VehicleID l = vehicleID" "lo_RouteID l = routeID" "lo_Latitude l = Num x" "lo_Longitude l = Num y"
      "lo_Bearing l = Num b" "lo_Speed l = Num v" "- 2 \<le> x" "x \<le> - 1" "36 \<le> y" "y \<le> 37" "0 \<le> b" "b < 360" "0 \<le> v"
    using assms(1) unfolding good_report_def nairobi_def by auto
  have "vehicleID \<noteq> []"
    using assms(3) by (simp add: vehicleIDPattern_def)
  moreover have "trim_space [] = []" "whole_seconds maxTimestampSkew = 300"
    by (code_simp, simp add: whole_seconds_def maxTimestampSkew_def minute_def second_def nano_def)
  moreover have "\<not> lo_Timestamp l < unix_of now - 300" "\<not> lo_Timestamp l > unix_of now + 300"
    using assms(7) by linarith+
  moreover have "x \<noteq> 0" "\<not> x < - 90" "\<not> 90 < x" "\<not> y < - 180" "\<not> 180 < y" "\<not> b < 0" "\<not> 360 < b" "\<not> v < 0"
    using l by simp_all
  ultimately show ?thesis
    using assms(2-6)
    by (simp add: l(1-6) validate_location_def trim_ids_def server_report_def maxVehicleIDLength_def maxTripFieldLength_def)
qed

text \<open>
  C23: every report that a simulated vehicle sends is one the server can take. It holds numbers only, so it encodes, and
  whichever vehicle of a run it is from and whatever the ticks of its clock, a server whose own clock is within five
  minutes of the report's answers it 201, unless the driver's allowance is used up (429) or the database fails (500).
\<close>

theorem simulated_reports_accepted:
  assumes "int (i + 1) \<le> max_int64" "sim_vehicle i = (vehicleID, route, routeID)"
    and "l \<in> set (simulateVehicle vehicleID route routeID (0, start) ticks)"
    and "0 < lo_Timestamp l" "\<bar>lo_Timestamp l - unix_of now\<bar> \<le> 300"
    and "is_json (hr_MediaType r)" "str_claim claims ''sub'' \<noteq> []"
    and "handlePostLocation new draw now dbnow (Some claims) r (Decoded (server_report l) NoMore) t rl st = (ans, rest)"
  shows "list_all f_is_num [lo_Latitude l, lo_Longitude l, lo_Bearing l, lo_Speed l, lo_Accuracy l]
    \<and> status_of ans \<in> {201, 429, 500}"
proof -
  define k where "k = i mod 3"
  have len: "length sim_routes = 3" "k < 3"
    by (simp_all add: sim_routes_def k_def)
  have vehicle: "vehicleID = ''sim-vehicle-'' @ fmt_03d (i + 1)" "route = sim_routes ! k" "routeID = ''sim-route-'' @ fmt_d (int (k + 1))"
    using assms(2) len by (simp_all add: sim_vehicle_def k_def)
  have "route \<in> set sim_routes"
    using vehicle(2) len by simp
  then have good: "good_report vehicleID routeID l"
    using vehicle_good [of route "(0, start)" l vehicleID routeID ticks] assms(3) routes_in_nairobi [of route] by simp
  then have valid: "validate_location now (trim_ids (server_report l)) = None"
    using good_accepted [OF good] vehicle_name_ok [OF assms(1)] route_names [OF len(2)] assms(4,5) vehicle by simp
  have "list_all f_is_num [lo_Latitude l, lo_Longitude l, lo_Bearing l, lo_Speed l, lo_Accuracy l]"
    using good by (auto simp: good_report_def nairobi_def)
  moreover have "status_of ans \<in> {201, 429, 500}"
    using assms(6-8) valid
    by (auto simp: handlePostLocation_def strict_body_def Let_def split: prod.splits sum.splits if_splits)
  ultimately show ?thesis
    by blast
qed

definition first_report :: locationReport where
  "first_report = fst (vehicle_tick ''sim-vehicle-001'' (sim_routes ! 0) ''sim-route-1'' (time_unix 100) (0, 0))"

definition sim_request :: http_request where
  "sim_request = \<lparr>hr_ForwardedFor = [], hr_ForwardedProto = [], hr_RemoteAddr = [], hr_TLS = False,
     hr_Authorization = [], hr_SessionCookie = None, hr_APIKey = [], hr_MediaType = Some ''application/json''\<rparr>"

theorem simulated_reports_accepted_witness:
  "status_of (fst (handlePostLocation (\<lambda>_ _. ()) (\<lambda>_ _. ((), True)) (time_unix 110) 0 (Some [''sub'' \<mapsto> JStr ''9'']) sim_request
     (Decoded (server_report first_report) NoMore) \<lparr>tk_vehicles = Map.empty, tk_seen = {}, tk_maxAge = 100\<rparr>
     NewVehicleRateLimiter ([], empty_db))) \<in> {201, 429, 500}"
proof -
  have stamp: "lo_Timestamp first_report = 100" "unix_of (time_unix 110) = 110"
    by (simp_all add: first_report_def vehicle_tick_def Let_def unix_of_def time_unix_def wrap64_def nano_def unix_to_internal_def
        split: prod.split)
  have "first_report \<in> set (simulateVehicle ''sim-vehicle-001'' (sim_routes ! 0) ''sim-route-1'' (0, 0) [time_unix 100])"
    by (cases "vehicle_tick ''sim-vehicle-001'' (sim_routes ! 0) ''sim-route-1'' (time_unix 100) (0, 0)") (simp add: first_report_def)
  moreover have "sim_vehicle 0 = (''sim-vehicle-001'', sim_routes ! 0, ''sim-route-1'')"
  proof -
    have "fmt_d 1 = ''1''"
      by code_simp
    then show ?thesis
      by (simp add: sim_vehicle_def fmt_03d_def numeral_2_eq_2 numeral_3_eq_3)
  qed
  moreover have "is_json (hr_MediaType sim_request)"
    by code_simp
  ultimately show ?thesis
    using simulated_reports_accepted [of 0 "''sim-vehicle-001''" "sim_routes ! 0" "''sim-route-1''" first_report 0 "[time_unix 100]"
        "time_unix 110" sim_request "[''sub'' \<mapsto> JStr ''9'']" "\<lambda>_ _. ()" "\<lambda>_ _. ((), True)" 0
        "\<lparr>tk_vehicles = Map.empty, tk_seen = {}, tk_maxAge = 100\<rparr>" NewVehicleRateLimiter "([], empty_db)"] stamp
    by (simp add: str_claim_def max_int64_def prod_eq_iff)
qed

section \<open>The credentials stay with the host that was checked\<close>

text \<open>
  What \<open>url.Parse\<close> guarantees: no colon in a scheme, and nothing but digits in a port.
\<close>

definition url_ok :: "sim_url \<Rightarrow> bool" where
  "url_ok u \<longleftrightarrow> CHR '':'' \<notin> set (su_Scheme u) \<and> list_all is_digit (su_Port u)"

lemma split_at_first: "x \<notin> set as \<Longrightarrow> x \<notin> set bs \<Longrightarrow> as @ x # cs = bs @ x # ds \<Longrightarrow> as = bs \<and> cs = ds"
proof (induction as arbitrary: bs)
  case Nil
  then show ?case
    by (cases bs) auto
next
  case (Cons a as)
  then show ?case
    by (cases bs) auto
qed

lemma split_at_last:
  assumes "x \<notin> set cs" "x \<notin> set ds" "as @ x # cs = bs @ x # ds"
  shows "as = bs \<and> cs = ds"
proof -
  have "rev cs @ x # rev as = rev ds @ x # rev bs"
    using arg_cong [OF assms(3), of rev] by simp
  then show ?thesis
    using split_at_first [of x "rev cs" "rev ds" "rev as" "rev bs"] assms(1,2) by simp
qed

lemma join_same_host:
  assumes "CHR '':'' \<notin> set p" "CHR '':'' \<notin> set q"
    and "JoinHostPort h p = JoinHostPort k q"
  shows "h = k"
proof -
  let ?name = "\<lambda>h. if CHR '':'' \<in> set h then ''['' @ h @ '']'' else h"
  have join: "JoinHostPort h p = ?name h @ CHR '':'' # p" for h p
    by (simp add: JoinHostPort_def)
  then have "?name h = ?name k"
    using split_at_last [OF assms(1,2) assms(3) [unfolded join]] by blast
  then show ?thesis
    by (auto split: if_splits)
qed

lemma origin_scheme_host:
  assumes "canonicalOrigin u = canonicalOrigin v" "url_ok u" "url_ok v"
  shows "su_Scheme u = su_Scheme v \<and> su_Hostname u = su_Hostname v"
proof -
  let ?port = "\<lambda>u. if su_Port u = [] then (if su_Scheme u = ''http'' then ''80'' else if su_Scheme u = ''https'' then ''443'' else [])
                  else su_Port u"
  have port: "CHR '':'' \<notin> set (?port u)" if "url_ok u" for u
    using that by (auto simp: url_ok_def list_all_iff is_digit_def)
  have origin: "canonicalOrigin u = su_Scheme u @ CHR '':'' # ''//'' @ JoinHostPort (su_Hostname u) (?port u)" for u
    by (simp add: canonicalOrigin_def)
  have parts: "su_Scheme u = su_Scheme v
      \<and> ''//'' @ JoinHostPort (su_Hostname u) (?port u) = ''//'' @ JoinHostPort (su_Hostname v) (?port v)"
    by (rule split_at_first [OF _ _ assms(1) [unfolded origin]]) (use assms(2,3) in \<open>simp_all add: url_ok_def\<close>)
  moreover have "su_Hostname u = su_Hostname v"
    by (rule join_same_host [OF port [OF assms(2)] port [OF assms(3)]]) (use parts in simp)
  ultimately show ?thesis
    by blast
qed

text \<open>
  C24: the simulator's credentials do not leave the host they were meant for. When the base URL passed the check, every
  redirect that is followed goes to the same scheme and host name, so the admin password and the drivers' tokens are
  sent over TLS, or not beyond the machine; and it stops after ten redirects.
\<close>

theorem credentials_stay:
  assumes "checkBaseURL parse_ip parse base = None" "parse base = Some u" "sameOriginOnly parse base dest via"
    and "url_ok u" "url_ok dest"
  shows "su_Hostname dest = su_Hostname u \<and> via < 10
    \<and> (su_Scheme dest = ''https'' \<or> su_Scheme dest = ''http'' \<and> isLoopbackHost parse_ip (su_Hostname dest))"
  using assms origin_scheme_host [of dest u]
  by (auto simp: checkBaseURL_def sameOriginOnly_def split: if_splits)

definition local_url :: sim_url where
  "local_url = \<lparr>su_Scheme = ''http'', su_Host = ''localhost:80'', su_Hostname = ''localhost'', su_Port = ''80''\<rparr>"

theorem credentials_stay_witness:
  "sameOriginOnly (\<lambda>_. Some (local_url\<lparr>su_Port := []\<rparr>)) ''http://localhost'' local_url 3 \<and> su_Hostname local_url = ''localhost''"
proof -
  have ok: "checkBaseURL (\<lambda>_. None) (\<lambda>_. Some (local_url\<lparr>su_Port := []\<rparr>)) ''http://localhost'' = None"
      "sameOriginOnly (\<lambda>_. Some (local_url\<lparr>su_Port := []\<rparr>)) ''http://localhost'' local_url 3"
      "url_ok (local_url\<lparr>su_Port := []\<rparr>)" "url_ok local_url"
    by code_simp+
  show ?thesis
    using credentials_stay [OF ok(1) refl ok(2-4)] ok(2) by (simp add: local_url_def)
qed

section \<open>Knowing the server's allowance\<close>

text \<open>The warning is given exactly for a run whose vehicles report faster than the server's limiter lets a driver.\<close>

lemma warning_exact:
  "reportBudgetWarning vehicles interval \<longleftrightarrow> 0 < vehicles \<and> 0 < interval \<and> interval < rateInterval"
  by (auto simp: reportBudgetWarning_def perDriverReportInterval_def rateInterval_def)

text \<open>A simulator that starts has a token of its own for every vehicle, and went on only after its URL was checked.\<close>

lemma sim_login_token: "sim_login rep = Inr t \<Longrightarrow> t \<noteq> []"
  by (auto simp: sim_login_def split: login_reply.splits if_splits sum.splits)

lemma login_from_token: "login_from left n calls = Inr t \<Longrightarrow> t \<noteq> []"
  by (induction left arbitrary: n) (auto dest: sim_login_token split: sum.splits if_splits)

lemma provisioned_tokens: "provision_from ds = Inr ts \<Longrightarrow> length ts = length ds \<and> [] \<notin> set ts"
  by (induction ds arbitrary: ts)
    (auto simp: loginWithRetry_def dest: login_from_token split: option.splits sum.splits if_splits)

lemma one_driver_per_vehicle:
  assumes "start_simulator parse_ip parse getenv baseURL n interval ef pf sign_in run_bytes env = Inr (w, vehicles)"
  shows "checkBaseURL parse_ip parse baseURL = None \<and> length vehicles = nat n
    \<and> list_all (\<lambda>v. fst v \<noteq> []) vehicles \<and> map snd vehicles = map sim_vehicle [0..<nat n]"
proof -
  obtain ts where ts: "provisionDrivers env (nat n) = Inr ts" "vehicles = map (\<lambda>i. (ts ! i, sim_vehicle i)) [0..<length ts]"
    and "checkBaseURL parse_ip parse baseURL = None"
    using assms by (auto simp: start_simulator_def Let_def split: if_splits option.splits sum.splits)
  moreover have "length ts = nat n" "[] \<notin> set ts"
    using ts(1) provisioned_tokens [of "map env [0..<nat n]" ts] by (auto simp: provisionDrivers_def)
  ultimately show ?thesis
    by (auto simp: list_all_iff) (metis nth_mem)
qed

end
