(* ===== verification/Server.thy ===== *)
theory Server
  imports RideProtocol FeedProps FleetProps CatalogProps Config Routes
begin

text \<open>
  The start of the server, \<open>main\<close> of \<open>src/main.go\<close>: the settings, the first administrator, the tracker, the schedule,
  rider mode, the reports of the last run, and the routes, each step with its way of refusing to go on. The lemmas show
  that a server that starts is in the states the other theories begin from, whatever round trips to the database failed
  on the way.
\<close>

section \<open>Starting\<close>

text \<open>What \<open>main\<close> finds outside of its environment variables, and the instants at which it reads a clock.\<close>

record start_env =
  en_ParseFloat :: "string \<Rightarrow> f64 option"
  en_ParseURL :: "string \<Rightarrow> parsed_url option"
  en_Bcrypt :: "string \<Rightarrow> string option"
  en_Sources :: feed_sources
  en_ZoneName :: "Index \<Rightarrow> string"
  en_Migrated :: bool       \<comment> \<open>the database answered and its migrations ran\<close>
  en_Templates :: bool      \<comment> \<open>the templates of the admin UI parse\<close>
  en_LoadedAt :: gotime
  en_SeededAt :: gotime
  en_DBNow :: gotime

record 'b server =
  ws_Settings :: settings
  ws_Tracker :: Tracker
  ws_Reports :: "'b VehicleRateLimiter"
  ws_Logins :: LoginRateLimiter
  ws_AdminLogins :: LoginRateLimiter
  ws_Refreshes :: RefreshRateLimiter
  ws_Index :: Index
  ws_Catalog :: gtfsCatalog
  ws_Rider :: "'b riderService option"
  ws_Routes :: "route list"

datatype start_failure =
    BadSettings config_error
  | NoDatabase
  | BootstrapFailed StoreError
  | TrackerPanic
  | ScheduleFailed load_error load_error
  | RiderFailed StoreError
  | HandlerFailed

definition bootstrap :: "start_env \<Rightarrow> settings \<Rightarrow> StoreError option call" where
  "bootstrap e s =
     (case se_Bootstrap s of
        None \<Rightarrow> answer None
      | Some (email, password) \<Rightarrow> bootstrapAdmin (en_Bcrypt e) email password (en_DBNow e))"

definition start_rider :: "start_env \<Rightarrow> settings \<Rightarrow> Index \<Rightarrow> (StoreError + 'b riderService option) call" where
  "start_rider e s ix =
     (if rc_Enabled (se_Rider s)
      then serve (newRiderRuntime (rc_Thresholds (se_Rider s)) (ix_tz ix) (en_DBNow e)) (\<lambda>res.
             answer (case res of Inl err \<Rightarrow> Inl err | Inr svc \<Rightarrow> Inr (Some svc)))
      else answer (Inr None))"

definition newGTFSCatalog :: "start_env \<Rightarrow> Index \<Rightarrow> Thresholds \<Rightarrow> gtfsCatalog" where
  "newGTFSCatalog e ix th = \<lparr>gc_index = Some ix, gc_thresholds = th, gc_timezone = en_ZoneName e ix\<rparr>"

text \<open>The last steps: the catalog, the tracker's reports, the limiters and the routes.\<close>

definition assemble ::
  "start_env \<Rightarrow> settings \<Rightarrow> Tracker \<Rightarrow> Index \<Rightarrow> 'b riderService option \<Rightarrow> (start_failure + 'b server) call" where
  "assemble e s tracker ix svc =
     serve (seed_tracker (en_SeededAt e) tracker) (\<lambda>seeded.
       answer
         (if se_AdminUI s \<and> \<not> en_Templates e then Inl HandlerFailed
          else Inr
            \<lparr>ws_Settings = s, ws_Tracker = seeded, ws_Reports = NewVehicleRateLimiter, ws_Logins = NewLoginRateLimiter,
             ws_AdminLogins = NewLoginRateLimiter, ws_Refreshes = NewRefreshRateLimiter, ws_Index = ix,
             ws_Catalog = newGTFSCatalog e ix (rc_Thresholds (se_Rider s)), ws_Rider = svc,
             ws_Routes = server_routes (se_FeedAuth s) (svc \<noteq> None) True (se_AdminUI s)\<rparr>))"

definition start_server :: "start_env \<Rightarrow> environment \<Rightarrow> (start_failure + 'b server) call" where
  "start_server e env =
     (case read_settings (en_ParseFloat e) (en_ParseURL e) env of
        Inl bad \<Rightarrow> answer (Inl (BadSettings bad))
      | Inr s \<Rightarrow>
          (if \<not> en_Migrated e then answer (Inl NoDatabase)
           else serve (bootstrap e s) (\<lambda>failed. case failed of
             Some err \<Rightarrow> answer (Inl (BootstrapFailed err))
           | None \<Rightarrow>
               (case NewTracker (se_MaxAge s) of
                  None \<Rightarrow> answer (Inl TrackerPanic)
                | Some tracker \<Rightarrow>
                    serve (newGTFSRuntime (en_Sources e) True (se_GTFSSource s) (en_LoadedAt e) (en_DBNow e)) (\<lambda>loaded.
                      case loaded of
                        Inl errs \<Rightarrow> answer (Inl (ScheduleFailed (fst errs) (snd errs)))
                      | Inr ix \<Rightarrow>
                          serve (start_rider e s ix) (\<lambda>rider. case rider of
                            Inl err \<Rightarrow> answer (Inl (RiderFailed err))
                          | Inr svc \<Rightarrow> assemble e s tracker ix svc))))))"

section \<open>Each step\<close>

lemma start_reads:
  "keeps P (db_CountUsersByRole role)" "keeps P db_GetGTFSFeedCache" "keeps P db_GetGTFSFeedCacheDigest"
  by (auto intro!: keepsI simp: db_CountUsersByRole_def db_GetGTFSFeedCache_def db_GetGTFSFeedCacheDigest_def read_one_def
      split: list.splits sum.splits if_splits)

lemma bootstrap_keeps_ok: "call_keeps db_ok (bootstrap e s)"
  unfolding bootstrap_def bootstrapAdmin_def Store_CountUsersByRole_def Store_CreateUser_def
  by (cases "se_Bootstrap s") (auto intro!: keeps_intros start_reads split: sum.splits option.splits prod.splits)

lemma bootstrap_keeps_points:
  "call_keeps (\<lambda>d. db_location_points d = P \<and> db_rides d = R) (bootstrap e s)"
  unfolding bootstrap_def bootstrapAdmin_def Store_CountUsersByRole_def Store_CreateUser_def
  by (cases "se_Bootstrap s")
    (auto intro!: keeps_intros start_reads keepsI simp: db_CreateUser_def Let_def
      split: sum.splits option.splits prod.splits if_splits)

lemma load_keeps_ok: "call_keeps db_ok (newGTFSRuntime z cache source now dbnow)"
  unfolding newGTFSRuntime_def load_gtfs_def loadCachedGTFS_def Store_SaveGTFSFeed_def Store_LoadGTFSFeed_def
  by (auto intro!: keeps_intros start_reads split: sum.splits prod.splits)

lemma load_keeps_rest:
  "call_keeps (\<lambda>d. db_location_points d = P \<and> db_rides d = R \<and> db_users d = U) (newGTFSRuntime z cache source now dbnow)"
  unfolding newGTFSRuntime_def load_gtfs_def loadCachedGTFS_def Store_SaveGTFSFeed_def Store_LoadGTFSFeed_def
  by (auto intro!: keeps_intros keepsI simp: db_GetGTFSFeedCache_def db_GetGTFSFeedCacheDigest_def db_UpsertGTFSFeedCache_def
      read_one_def Let_def split: sum.splits prod.splits list.splits if_splits)

text \<open>Credentials for a first administrator that were not refused leave one, or an account that has the email.\<close>

lemma bootstrap_admin:
  assumes "bootstrapAdmin bcrypt email password now (net, d) = (None, net', d')"
  shows "has_admin d' \<or> (\<exists>u \<in> set (db_users d'). u_Email u = email)"
  using assms
  by (auto simp: bootstrapAdmin_def Store_CountUsersByRole_def Store_CreateUser_def answer_def has_admin_def count_positive
      db_CountUsersByRole_def db_CreateUser_def isDuplicateEmail_def Let_def list_ex_iff
      elim!: serve_cases and_then_cases exec_cases split: sum.splits option.splits if_splits)

text \<open>Rider mode starts with no session and no active ride, and touches nothing but the rides.\<close>

lemma rider_runtime_sweeps:
  assumes "newRiderRuntime th tz dbnow (net, d) = (Inr svc, net', d')"
  shows "sv_agg svc = NewAggregator th tz \<and> (\<forall>r \<in> set (db_rides d'). rd_Status r \<noteq> ''active'')
    \<and> db_location_points d' = db_location_points d \<and> db_users d' = db_users d"
  using assms
  by (auto simp: newRiderRuntime_def newRiderService_def Store_EndAllActiveRides_def db_EndAllActiveRides_def answer_def
      update_rows_def elim!: and_then_cases exec_cases split: prod.splits sum.splits if_splits)

section \<open>A server that started\<close>

text \<open>The steps that a start went through.\<close>

lemma started:
  assumes "start_server e env (net, d) = (Inr sv, net', d')"
  obtains tracker n1 d1 n2 d2 n3 d3 n4 where
    "bootstrap e (ws_Settings sv) (net, d) = (None, n1, d1)" "NewTracker (se_MaxAge (ws_Settings sv)) = Some tracker"
    "newGTFSRuntime (en_Sources e) True (se_GTFSSource (ws_Settings sv)) (en_LoadedAt e) (en_DBNow e) (n1, d1)
       = (Inr (ws_Index sv), n2, d2)"
    "start_rider e (ws_Settings sv) (ws_Index sv) (n2, d2) = (Inr (ws_Rider sv), n3, d3)"
    "seed_tracker (en_SeededAt e) tracker (n3, d3) = (ws_Tracker sv, n4, d')" "gc_index (ws_Catalog sv) = Some (ws_Index sv)"
    "ws_Routes sv = server_routes (se_FeedAuth (ws_Settings sv)) (ws_Rider sv \<noteq> None) True (se_AdminUI (ws_Settings sv))"
  using assms
  by (auto simp: start_server_def assemble_def newGTFSCatalog_def answer_def elim!: serve_cases
      split: sum.splits option.splits if_splits)

text \<open>What \<open>start_rider\<close> leaves: with rider mode on, an empty registry and no active ride.\<close>

lemma start_rider_cases:
  assumes "start_rider e s ix (net, d) = (Inr (svc :: 'b riderService option), net', d')" "db_ok d"
  shows "db_ok d' \<and> db_location_points d' = db_location_points d \<and> db_users d' = db_users d
    \<and> (case svc of
         None \<Rightarrow> \<not> rc_Enabled (se_Rider s) \<and> db_rides d' = db_rides d
       | Some v \<Rightarrow> rc_Enabled (se_Rider s) \<and> sv_agg v = NewAggregator (rc_Thresholds (se_Rider s)) (ix_tz ix)
           \<and> (\<forall>r \<in> set (db_rides d'). rd_Status r \<noteq> ''active''))"
proof (cases "rc_Enabled (se_Rider s)")
  case True
  then obtain v :: "'b riderService" where up: "svc = Some v"
      "newRiderRuntime (rc_Thresholds (se_Rider s)) (ix_tz ix) (en_DBNow e) (net, d) = (Inr v, net', d')"
    using assms(1) by (auto simp: start_rider_def answer_def elim!: serve_cases split: sum.splits)
  have "call_keeps db_ok (Store_EndAllActiveRides ''server_restart'' (en_DBNow e))"
    unfolding Store_EndAllActiveRides_def by (intro keeps_intros)
  then have "db_ok d'"
    using up(2) assms(2) call_keepsD by (fastforce simp: newRiderRuntime_def split: prod.splits sum.splits)
  then show ?thesis
    using rider_runtime_sweeps [OF up(2)] up(1) True by simp
next
  case False
  then show ?thesis
    using assms by (simp add: start_rider_def answer_def)
qed

lemma fresh_world_ok: "db_ok d \<Longrightarrow> world_ok (NewAggregator th tz, d, {}, {})"
  using agg_new [of th tz] agg_ok_reachable by (fastforce simp: NewAggregator_def)

lemma seeded_maxAge: "tk_maxAge (fold (\<lambda>loc. Update loc now) locs t) = tk_maxAge t"
  by (induction locs arbitrary: t) (simp_all add: Update_def)

lemma feed_guard:
  "r \<in> set (server_routes feedAuth riderOn True ui) \<Longrightarrow> ro_Endpoint r = GetFeed
    \<Longrightarrow> ro_Guard r = (if feedAuth then FeedKey else Open)"
  by (auto simp: server_routes_def newMux_def base_routes_def rider_routes_def gtfs_routes_def admin_ui_routes_def
      static_route_def route_of_def split: if_splits)

text \<open>
  C11: a server that starts is ready, whichever round trips to the database failed on the way. It runs on the schedule
  of its source, loaded or cached; its tracker holds nothing but reports that were validated when they were saved, and
  forgets after a positive time; with rider mode on it has no session, no ride of an earlier process is active any
  more, and its registry agrees with the tables, which is where the protocol of the handlers begins; with it off the
  rides are left alone. Its routes register without a conflict and the feed asks for a key exactly if the operator
  said so. If credentials for a first administrator were given, there is an administrator or an account that has
  the email.
\<close>

theorem started_server_ready:
  assumes "db_reachable d" "list_all (\<lambda>p. vehicleIDPattern (lp_VehicleID p)) (db_location_points d)"
    and "start_server e env (net, d) = (Inr sv, net', d')"
  shows "db_ok d' \<and> served (en_Sources e) (se_GTFSSource (ws_Settings sv)) (ws_Index sv)
    \<and> gc_index (ws_Catalog sv) = Some (ws_Index sv)
    \<and> 0 < tk_maxAge (ws_Tracker sv) \<and> serving cf (ws_Tracker sv, NewAggregator th tz)
    \<and> (case ws_Rider sv of
         None \<Rightarrow> \<not> rc_Enabled (se_Rider (ws_Settings sv)) \<and> db_rides d' = db_rides d
       | Some svc \<Rightarrow> rc_Enabled (se_Rider (ws_Settings sv)) \<and> ag_sessions (sv_agg svc) = Map.empty
           \<and> (\<forall>r \<in> set (db_rides d'). rd_Status r \<noteq> ''active'') \<and> world_ok (sv_agg svc, d', {}, {}))
    \<and> registers (ws_Routes sv)
    \<and> (r \<in> set (ws_Routes sv) \<and> ro_Endpoint r = GetFeed
         \<longrightarrow> ro_Guard r = (if se_FeedAuth (ws_Settings sv) then FeedKey else Open))
    \<and> (case se_Bootstrap (ws_Settings sv) of
         None \<Rightarrow> True
       | Some (email, _) \<Rightarrow> has_admin d' \<or> (\<exists>u \<in> set (db_users d'). u_Email u = email))"
proof -
  let ?s = "ws_Settings sv"
  obtain tracker n1 d1 n2 d2 n3 d3 n4 where run: "bootstrap e ?s (net, d) = (None, n1, d1)" "NewTracker (se_MaxAge ?s) = Some tracker"
      "newGTFSRuntime (en_Sources e) True (se_GTFSSource ?s) (en_LoadedAt e) (en_DBNow e) (n1, d1) = (Inr (ws_Index sv), n2, d2)"
      "start_rider e ?s (ws_Index sv) (n2, d2) = (Inr (ws_Rider sv), n3, d3)"
      "seed_tracker (en_SeededAt e) tracker (n3, d3) = (ws_Tracker sv, n4, d')" and
    catalog: "gc_index (ws_Catalog sv) = Some (ws_Index sv)" and
    routes: "ws_Routes sv = server_routes (se_FeedAuth ?s) (ws_Rider sv \<noteq> None) True (se_AdminUI ?s)"
    by (rule started [OF assms(3)])
  have 1: "db_ok d1" "db_location_points d1 = db_location_points d" "db_rides d1 = db_rides d"
    using call_keepsD [OF bootstrap_keeps_ok run(1) reachable_ok [OF assms(1)]]
      call_keepsD [OF bootstrap_keeps_points run(1), of "db_location_points d" "db_rides d"] by auto
  have 2: "db_ok d2" "db_location_points d2 = db_location_points d" "db_rides d2 = db_rides d" "db_users d2 = db_users d1"
    using call_keepsD [OF load_keeps_ok run(3) 1(1)] 1(2,3)
      call_keepsD [OF load_keeps_rest run(3), of "db_location_points d" "db_rides d" "db_users d1"] by auto
  note 3 = start_rider_cases [OF run(4) 2(1)]
  have d': "d' = d3" and "tk_maxAge (ws_Tracker sv) = tk_maxAge tracker"
    using seed_cases [OF run(5)] by (auto simp: seeded_maxAge)
  then have "0 < tk_maxAge (ws_Tracker sv)"
    using run(2) by (auto simp: NewTracker_def split: if_splits)
  moreover have "serving cf (ws_Tracker sv, NewAggregator th tz)"
    using serving_up [OF run(2) _ run(5)] assms(2) 2(2) 3 by simp
  moreover have "case se_Bootstrap ?s of None \<Rightarrow> True
      | Some (email, _) \<Rightarrow> has_admin d' \<or> (\<exists>u \<in> set (db_users d'). u_Email u = email)"
    using run(1) bootstrap_admin 2(4) 3 d' by (fastforce simp: bootstrap_def has_admin_def split: option.splits)
  moreover have "served (en_Sources e) (se_GTFSSource ?s) (ws_Index sv)"
    using served_start [OF run(3)] .
  moreover have "case ws_Rider sv of
         None \<Rightarrow> \<not> rc_Enabled (se_Rider ?s) \<and> db_rides d' = db_rides d
       | Some v \<Rightarrow> rc_Enabled (se_Rider ?s) \<and> ag_sessions (sv_agg v) = Map.empty
           \<and> (\<forall>r \<in> set (db_rides d'). rd_Status r \<noteq> ''active'') \<and> world_ok (sv_agg v, d', {}, {})"
    using 3 2(3) d' fresh_world_ok [of d3]
    by (cases "ws_Rider sv") (simp_all add: NewAggregator_def del: world_ok.simps)
  moreover have "registers (ws_Routes sv)"
    unfolding routes by (rule server_registers)
  moreover have "r \<in> set (ws_Routes sv) \<and> ro_Endpoint r = GetFeed \<longrightarrow> ro_Guard r = (if se_FeedAuth ?s then FeedKey else Open)"
    unfolding routes using feed_guard by blast
  moreover have "db_ok d'"
    using 3 d' by blast
  ultimately show ?thesis
    using catalog by blast
qed

text \<open>A start on an empty database, with rider mode on and credentials for a first administrator.\<close>

definition demo_vars :: environment where
  "demo_vars k =
     (if k = ''JWT_SECRET'' then replicate 32 (CHR ''s'') else if k = ''GTFS_STATIC_URL'' then demo_source
      else if k = ''RIDER_MODE_ENABLED'' then ''true'' else if k = ''ADMIN_BOOTSTRAP_EMAIL'' then ''a@b''
      else if k = ''ADMIN_BOOTSTRAP_PASSWORD'' then ''password1'' else [])"

definition demo_start :: start_env where
  "demo_start = \<lparr>en_ParseFloat = (\<lambda>_. None), en_ParseURL = (\<lambda>_. None), en_Bcrypt = (\<lambda>p. Some p), en_Sources = demo_sources True,
     en_ZoneName = (\<lambda>_. ''UTC''), en_Migrated = True, en_Templates = True, en_LoadedAt = 0, en_SeededAt = 0, en_DBNow = 0\<rparr>"

lemma demo_settings:
  "\<exists>s. read_settings (\<lambda>_. None) (\<lambda>_. None) demo_vars = Inr s \<and> se_MaxAge s = 5 * minute \<and> se_GTFSSource s = demo_source
     \<and> rc_Enabled (se_Rider s) \<and> se_Bootstrap s = Some (''a@b'', ''password1'')"
proof -
  have "trim_space demo_source \<noteq> []" "trim_space [] = []" "ParseBool ''true'' = Some True"
    by code_simp+
  then show ?thesis
    by (simp add: read_settings_def Let_def demo_vars_def gtfsSourceFromEnv_def envBool_def parseMapPMTilesURL_def
        envDurationOrDefault_def validateTokenTTLs_def defaultAccessTokenTTL_def defaultRefreshTokenTTL_def
        riderConfigFromEnv_def envBoolOrDefault_def bootstrap_from_env_def time_units)
qed

lemma demo_bootstrap:
  assumes "se_Bootstrap s = Some (''a@b'', ''password1'')"
  shows "\<exists>d1. bootstrap demo_start s ([], empty_db) = (None, [], d1) \<and> db_feed_cache d1 = []"
  using assms
  by (simp add: bootstrap_def demo_start_def bootstrapAdmin_def serve_def Store_CountUsersByRole_def and_then_def exec_def
      next_trip_def db_CountUsersByRole_def answer_def Store_CreateUser_def db_CreateUser_def user_role_ok_def roleAdmin_def
      empty_db_def count_rows_def validatePassword_def minPasswordLength_def maxPasswordBytes_def Let_def)

lemma demo_schedule:
  assumes "db_feed_cache d = []"
  shows "\<exists>d'. newGTFSRuntime (demo_sources True) True demo_source 0 0 ([], d) = (Inr demo_index, [], d')"
proof -
  have "\<exists>d'. load_gtfs (demo_sources True) True demo_source 0 0 ([], d) = (Inr demo_index, [], d')"
    using assms
    by (simp add: load_gtfs_def FetchFeed_def demo_sources_def demo_source_def maxFeedBytes_def IndexFromBytes_def
        parseStatic_def BuildIndex_def feedTimezone_def Let_def demo_index_def serve_def answer_def Store_SaveGTFSFeed_def
        exec_def next_trip_def db_GetGTFSFeedCacheDigest_def read_one_def one_row_def and_then_def
        db_UpsertGTFSFeedCache_def split: prod.splits sum.splits)
  then show ?thesis
    using newGTFSRuntime_loaded by blast
qed

lemma rider_up:
  "rc_Enabled (se_Rider s) \<Longrightarrow> \<exists>v d'. start_rider e s ix ([], d) = (Inr (Some (v :: 'b riderService)), [], d')"
  by (simp add: start_rider_def newRiderRuntime_def serve_def answer_def Store_EndAllActiveRides_def and_then_def exec_def
      next_trip_def db_EndAllActiveRides_def)

lemma assembled:
  "en_Templates e \<Longrightarrow> \<exists>sv d'. assemble e s tracker ix svc ([], d) = (Inr (sv :: 'b server), [], d') \<and> ws_Settings sv = s \<and> ws_Rider sv = svc"
  by (simp add: assemble_def seed_tracker_def Store_GetRecentLocations_def and_then_def exec_def next_trip_def serve_def
      answer_def db_GetRecentLocations_def)

theorem started_server_ready_witness:
  "\<exists>sv d'. start_server demo_start demo_vars ([], empty_db) = (Inr (sv :: unit server), [], d') \<and> db_ok d'
     \<and> served (demo_sources True) demo_source (ws_Index sv)
     \<and> (\<exists>svc. ws_Rider sv = Some svc \<and> ag_sessions (sv_agg svc) = Map.empty)
     \<and> (has_admin d' \<or> (\<exists>u \<in> set (db_users d'). u_Email u = ''a@b''))"
proof -
  obtain s where s: "read_settings (\<lambda>_. None) (\<lambda>_. None) demo_vars = Inr s" "se_MaxAge s = 5 * minute"
      "se_GTFSSource s = demo_source" "rc_Enabled (se_Rider s)" "se_Bootstrap s = Some (''a@b'', ''password1'')"
    using demo_settings by blast
  obtain d1 where 1: "bootstrap demo_start s ([], empty_db) = (None, [], d1)" "db_feed_cache d1 = []"
    using demo_bootstrap [OF s(5)] by blast
  obtain d2 where 2: "newGTFSRuntime (demo_sources True) True demo_source 0 0 ([], d1) = (Inr demo_index, [], d2)"
    using demo_schedule [OF 1(2)] by blast
  obtain v :: "unit riderService" and d3 where 3: "start_rider demo_start s demo_index ([], d2) = (Inr (Some v), [], d3)"
    using rider_up [OF s(4)] by blast
  obtain t where t: "NewTracker (5 * minute) = Some t"
    by (simp add: NewTracker_def time_units)
  obtain sv d' where 4: "assemble demo_start s t demo_index (Some v) ([], d3) = (Inr sv, [], d')"
      "ws_Settings sv = s" "ws_Rider sv = Some v"
    using assembled [of demo_start] by (force simp: demo_start_def)
  have run: "start_server demo_start demo_vars ([], empty_db) = (Inr sv, [], d')"
    using s 1 2 3 4(1) t by (simp add: start_server_def demo_start_def serve_def)
  have "list_all (\<lambda>p. vehicleIDPattern (lp_VehicleID p)) (db_location_points empty_db)"
    by (simp add: empty_db_def)
  note ready = started_server_ready [OF reach_empty this run, unfolded 4(2,3) s(3,5) option.case prod.case]
  have "ag_sessions (sv_agg v) = Map.empty" "has_admin d' \<or> (\<exists>u \<in> set (db_users d'). u_Email u = ''a@b'')"
      "served (en_Sources demo_start) demo_source (ws_Index sv)" "db_ok d'"
    using ready by blast+
  then show ?thesis
    using run 4(3) by (simp add: demo_start_def)
qed

end
