(* ===== verification/Spec2Isabelle.thy ===== *)
theory Spec2Isabelle
  imports Shape Calendar Schedule Verify Session Aggregator Tracker Trusted RateLimit Database Integrity Web Tokens Auth ApiKeys RiderStore RiderService RideProtocol RiderBehaviour Feed FeedProps Fleet FleetProps Trips TripsProps Catalog CatalogProps Retention
    Query AdminPages AdminPagesProps Config Routes RiderSim RiderSimProps Simulator SimulatorProps Server
begin

text \<open>
  A verification development of the vehicle-positions server: a Go service that takes the positions of an agency's
  drivers and of riders on its vehicles over HTTP, keeps them in PostgreSQL and in memory, and publishes them as a
  GTFS-realtime feed. It models the Go code under \<open>src/\<close>: the server, the rider engine of \<open>src/rider\<close>, the query layer
  of \<open>src/db\<close> and the two simulators of \<open>src/cmd\<close>.

  \<^bold>\<open>How the parts interact.\<close> A driver's report is validated, saved and put into the tracker; a rider starts a ride on a
  scheduled trip and uploads batches of points, each judged against the schedule index and the agency's own positions,
  which moves the ride's session through its states in the registry of live rides, while the rides' table and the
  rider's score record the outcome. The feed merges the tracker with one estimate per trip, made of the verified riders
  of the trip. Administrators manage vehicles, users, assignments and the keys of the feed over JSON and on
  server-rendered pages. Pruners throw away old points and tokens, and start-up brings all of this into a state that
  agrees with the tables.

  \<^bold>\<open>Which theory models what\<close> (a definition has the name of the Go function or type it models, with a prefix where the
  name is taken: \<open>db_\<close> for prepared statements, \<open>Store_\<close> for methods of the store, \<open>agg_\<close> for those of the aggregator).
  \<^item> \<open>Prelude\<close>: Go's integers, floats, times and strings, database calls and HTTP answers, the lemma collections.
  \<^item> \<open>Shape\<close>, \<open>Calendar\<close>, \<open>Schedule\<close>, \<open>Verify\<close> (\<open>rider/shape.go\<close>, \<open>rider/index.go\<close>, \<open>rider/verify.go\<close>): geometry, service
    days, the schedule index, the verdict on one point. \<open>Session\<close> (\<open>rider/session.go\<close>, \<open>rider/reputation.go\<close>): the state
    machine of a ride. \<open>Aggregator\<close> (\<open>rider/aggregator.go\<close>): the registry of live rides and the estimates.
    \<open>Trusted\<close> (\<open>rider/trusted.go\<close>): the agency's own feeds.
  \<^item> \<open>Tracker\<close> (\<open>tracker.go\<close>), \<open>RateLimit\<close> (\<open>ratelimit*.go\<close>, \<open>rider_auth.go\<close>): the state in memory besides the registry.
  \<^item> \<open>Database\<close>, \<open>Integrity\<close> (\<open>migrations\<close>, \<open>db/query.sql.go\<close>, \<open>db/batch.go\<close>): the tables, every prepared statement, and
    what the schema guarantees whatever runs on it.
  \<^item> \<open>Web\<close>, \<open>Query\<close>: what handlers share, and query strings. \<open>Tokens\<close>, \<open>Auth\<close>, \<open>ApiKeys\<close>: users, sessions and the keys
    of the feed. \<open>Fleet\<close>, \<open>Trips\<close>, \<open>AdminPages\<close>: the administrators' and drivers' handlers and pages.
  \<^item> \<open>RiderStore\<close>, \<open>RiderService\<close> (\<open>rider_store.go\<close>, \<open>rider_handlers.go\<close>, \<open>rider_admin_handlers.go\<close>, \<open>rider_wiring.go\<close>): the
    rider API. \<open>RideProtocol\<close>: the interleavings of its handlers, as a relation of atomic steps on registry and tables.
  \<^item> \<open>Feed\<close> (\<open>handlers.go\<close>, \<open>store.go\<close>): drivers' reports and the published feed. \<open>Catalog\<close> (\<open>rider/loader.go\<close>,
    \<open>gtfs_wiring.go\<close>, \<open>gtfs_handlers.go\<close>): loading, caching and serving the schedule. \<open>Retention\<close>: the pruners.
  \<^item> \<open>Config\<close>, \<open>Routes\<close>, \<open>Server\<close> (\<open>main.go\<close>): settings, the table of routes with its guards, and the start.
  \<^item> \<open>RiderSim\<close> (\<open>cmd/ridersim/main.go\<close>) and \<open>Simulator\<close> (\<open>cmd/simulator\<close>): the clients, which are checked against the
    models of the very handlers they call.
  A theory with a name in \<open>Props\<close>, and \<open>RiderBehaviour\<close>, holds the properties of the theory it is named after.

  \<^bold>\<open>What is shown.\<close> Invariants of every reachable state: of a session, the registry, the tracker, the index, and the
  tables; and that a live session is backed by the active row of its ride under any interleaving and any fault of the
  network (\<open>RideProtocol\<close>), from a start-up on that is shown to establish it (\<open>Server\<close>). Functional behaviour on every
  branch: verdicts, three matches verify a ride, accepted reports are recorded and published, starting a trip. Safety:
  revoked, rotated and replayed tokens, guards of the routes, the last administrator, no estimate beside a trusted
  position, no credentials to another host. Equivalence: the mux's choice with the most specific pattern. Refinement:
  each handler is a path of the protocol. Round trips: the CSV export, the cached schedule, reports across a restart.
  Termination and liveness: pruning ends, a simulated ride ends on the server too, and registration gets past the
  limiter. Errors, where the code does not do what it means to: a lost answer that locks a rider out, a start
  without an administrator, a demotion that the pages refuse and the API allows.

  \<^bold>\<open>Interfaces.\<close> A revocation list (\<open>revocation_list\<close> in \<open>Auth\<close>), a limiter with one window per key (\<open>window_limiter\<close> in
  \<open>RateLimit\<close>) and a source of trusted positions (\<open>trusted_positions\<close> in \<open>Trusted\<close>) are locales, each interpreted on the
  definitions of the code.

  \<^bold>\<open>Modelling decisions.\<close> A handler is a function of the state it shares, a list of what becomes of its round trips to the
  database (each committed, failed, or committed with its answer lost) and the database; with the list used up, round
  trips succeed. Transactions are atomic. Text is valid UTF-8 without NUL: that is all a \<open>TEXT\<close> column can hold, and
  the database's refusal of other bytes is not modelled. A handler reads each clock once. Where Go ranges over a map, the order of the
  keys is an argument. A panic is \<open>None\<close> or an outcome of its own. Floats are exact reals with infinities and NaN;
  integers are numbers with the wrap-around written out at the conversions where a value can leave its width. Code that
  is not in the repository is a parameter: token buckets, JWT, bcrypt, SHA-256, random bytes and uuids, decoding JSON,
  protobuf and GTFS, HTTP transport, parsing of floats, URLs and IP addresses; what the proofs need of it is a named
  hypothesis. A loop over tickers is a function on the list of its events, so any length and order is covered; the
  pruners' loop is a partial function whose termination is a theorem. Fuel is used once, for trimming white space, where
  the length of the string is enough because every round drops a byte. The retries of the simulators
  recurse on the number of attempts the code allows.

  \<^bold>\<open>Not modelled:\<close> rendering of templates (\<open>admin_handlers.go\<close>) and the encoding of responses, which are output; the
  connection pool, the migration runner and \<open>db/db.go\<close>, which only call pgx; the request logger, signals and the
  graceful shutdown, which only call \<open>net/http\<close>; log messages and the parsing of command lines; redirects the mux makes
  for unclean paths; rounding of floats; the web assets, the Android and iOS clients and the documentation, which are
  other languages.
\<close>

end
